(* ===== verification/Prelude.thy ===== *)
theory Prelude
  imports Main "HOL-Library.Word" "HOL-Library.AList" "HOL-Library.Sublist"
begin

text \<open>
  The shared ground of the development: Rust results, strings, JSON values and machine
  integers, with the lemmas every component uses.

  A Rust \<open>String\<close> or \<open>&str\<close> is the list of its UTF-8 bytes, an Isabelle
  \<^typ>\<open>string\<close>. Lengths, indices and slices are therefore byte based, as in Rust;
  \<open>char_boundary\<close> says where a slice may start, and \<open>str_chars\<close> splits a string into
  the byte strings of its scalar values. \<open>Ok\<close> and \<open>Err\<close> name the two injections of the
  sum type that stands for \<open>Result\<close>.
\<close>

named_theorems str_simps \<open>evaluation of the string operations\<close>
named_theorems step_simps \<open>defining equations of the components' steps\<close>

section \<open>Results\<close>

abbreviation Ok :: "'a \<Rightarrow> 'e + 'a" where "Ok \<equiv> Inr"
abbreviation Err :: "'e \<Rightarrow> 'e + 'a" where "Err \<equiv> Inl"

text \<open>The \<open>?\<close> operator.\<close>

definition rbind :: "'e + 'a \<Rightarrow> ('a \<Rightarrow> 'e + 'b) \<Rightarrow> 'e + 'b" where
  "rbind r f = (case r of Inl e \<Rightarrow> Inl e | Inr x \<Rightarrow> f x)"

text \<open>\<open>collect::<Result<Vec<_>, _>>()\<close>: the first error, or every value.\<close>

fun collect_result :: "('e + 'a) list \<Rightarrow> 'e + 'a list" where
  "collect_result [] = Ok []"
| "collect_result (Inl e # rs) = Err e"
| "collect_result (Inr x # rs) = rbind (collect_result rs) (\<lambda>xs. Ok (x # xs))"

definition is_ok :: "'e + 'a \<Rightarrow> bool" where
  "is_ok r = (case r of Inl _ \<Rightarrow> False | Inr _ \<Rightarrow> True)"

section \<open>Machine integers\<close>

type_synonym u8 = "8 word"
type_synonym u32 = "32 word"
type_synonym u64 = "64 word"

definition saturating_add_u8 :: "u8 \<Rightarrow> u8 \<Rightarrow> u8" where
  "saturating_add_u8 a b = (if unat a + unat b \<le> 255 then a + b else 255)"

section \<open>Strings\<close>

text \<open>The bytes \<open>10xxxxxx\<close> continue a character of UTF-8.\<close>

definition cont_byte :: "char \<Rightarrow> bool" where
  "cont_byte c = (let n = (of_char c :: nat) in 128 \<le> n \<and> n < 192)"

definition char_boundary :: "string \<Rightarrow> nat \<Rightarrow> bool" where
  "char_boundary s i = (i = 0 \<or> i = length s \<or> (i < length s \<and> \<not> cont_byte (s ! i)))"

text \<open>\<open>chars()\<close>: a leading byte with the continuation bytes after it.\<close>

function str_chars :: "string \<Rightarrow> string list" where
  "str_chars [] = []"
| "str_chars (c # s) = (c # takeWhile cont_byte s) # str_chars (dropWhile cont_byte s)"
  by pat_completeness auto
termination
  by (relation "measure length") (auto simp: le_imp_less_Suc length_dropWhile_le)

text \<open>Well-formed UTF-8: what \<open>String::from_utf8\<close> accepts.\<close>

definition byte_in :: "nat \<Rightarrow> nat \<Rightarrow> char \<Rightarrow> bool" where
  "byte_in lo hi c = (let n = (of_char c :: nat) in lo \<le> n \<and> n \<le> hi)"

fun utf8_valid :: "string \<Rightarrow> bool" where
  "utf8_valid [] = True"
| "utf8_valid (a # s) =
     (if byte_in 0 127 a then utf8_valid s
      else case s of
        [] \<Rightarrow> False
      | b # s2 \<Rightarrow>
          if byte_in 194 223 a then byte_in 128 191 b \<and> utf8_valid s2
          else case s2 of
            [] \<Rightarrow> False
          | c # s3 \<Rightarrow>
              if byte_in 224 239 a then
                byte_in (if byte_in 224 224 a then 160 else 128) (if byte_in 237 237 a then 159 else 191) b
                \<and> byte_in 128 191 c \<and> utf8_valid s3
              else case s3 of
                [] \<Rightarrow> False
              | d # s4 \<Rightarrow>
                  byte_in 240 244 a
                  \<and> byte_in (if byte_in 240 240 a then 144 else 128) (if byte_in 244 244 a then 143 else 191) b
                  \<and> byte_in 128 191 c \<and> byte_in 128 191 d \<and> utf8_valid s4)"

definition take_chars :: "nat \<Rightarrow> string \<Rightarrow> string" where
  "take_chars n s = concat (take n (str_chars s))"

definition strip_prefix :: "string \<Rightarrow> string \<Rightarrow> string option" where
  "strip_prefix p s = (if prefix p s then Some (drop (length p) s) else None)"

definition ends_with :: "string \<Rightarrow> string \<Rightarrow> bool" where
  "ends_with s p = suffix p s"

fun str_find :: "string \<Rightarrow> string \<Rightarrow> nat option" where
  "str_find p [] = (if p = [] then Some 0 else None)"
| "str_find p (c # s) = (if prefix p (c # s) then Some 0 else map_option Suc (str_find p s))"

definition str_contains :: "string \<Rightarrow> string \<Rightarrow> bool" where
  "str_contains s p = (str_find p s \<noteq> None)"

text \<open>\<open>replace(c, t)\<close> for a single (ASCII) character \<open>c\<close>.\<close>

definition replace_char :: "char \<Rightarrow> string \<Rightarrow> string \<Rightarrow> string" where
  "replace_char c t s = concat (map (\<lambda>x. if x = c then t else [x]) s)"

fun str_join :: "string \<Rightarrow> string list \<Rightarrow> string" where
  "str_join sep [] = []"
| "str_join sep [x] = x"
| "str_join sep (x # y # ys) = x @ sep @ str_join sep (y # ys)"

text \<open>The UTF-8 encodings of the characters of \<open>char::is_whitespace\<close>.\<close>

definition ws_encodings :: "string list" where
  "ws_encodings =
     [[CHR 0x20], [CHR 0x09], [CHR 0x0A], [CHR 0x0B], [CHR 0x0C], [CHR 0x0D],
      [CHR 0xC2, CHR 0x85], [CHR 0xC2, CHR 0xA0], [CHR 0xE1, CHR 0x9A, CHR 0x80],
      [CHR 0xE2, CHR 0x80, CHR 0x80], [CHR 0xE2, CHR 0x80, CHR 0x81],
      [CHR 0xE2, CHR 0x80, CHR 0x82], [CHR 0xE2, CHR 0x80, CHR 0x83],
      [CHR 0xE2, CHR 0x80, CHR 0x84], [CHR 0xE2, CHR 0x80, CHR 0x85],
      [CHR 0xE2, CHR 0x80, CHR 0x86], [CHR 0xE2, CHR 0x80, CHR 0x87],
      [CHR 0xE2, CHR 0x80, CHR 0x88], [CHR 0xE2, CHR 0x80, CHR 0x89],
      [CHR 0xE2, CHR 0x80, CHR 0x8A], [CHR 0xE2, CHR 0x80, CHR 0xA8],
      [CHR 0xE2, CHR 0x80, CHR 0xA9], [CHR 0xE2, CHR 0x80, CHR 0xAF],
      [CHR 0xE2, CHR 0x81, CHR 0x9F], [CHR 0xE3, CHR 0x80, CHR 0x80]]"

text \<open>Drop the words of a list from the front of a string, as long as one fits.\<close>

function strip_words :: "string list \<Rightarrow> string \<Rightarrow> string" where
  "strip_words ws s =
     (case List.find (\<lambda>w. w \<noteq> [] \<and> prefix w s) ws of
        None \<Rightarrow> s
      | Some w \<Rightarrow> strip_words ws (drop (length w) s))"
  by pat_completeness auto
termination
  by (relation "measure (\<lambda>(ws, s). length s)") (auto simp: find_Some_iff prefix_def)

declare strip_words.simps [simp del]

definition trim_start :: "string \<Rightarrow> string" where
  "trim_start s = strip_words ws_encodings s"

definition trim_end :: "string \<Rightarrow> string" where
  "trim_end s = rev (strip_words (map rev ws_encodings) (rev s))"

definition trim :: "string \<Rightarrow> string" where
  "trim s = trim_end (trim_start s)"

definition trim_end_matches :: "char \<Rightarrow> string \<Rightarrow> string" where
  "trim_end_matches c s = rev (dropWhile (\<lambda>x. x = c) (rev s))"

definition ascii_lower :: "char \<Rightarrow> char" where
  "ascii_lower c =
     (let n = (of_char c :: nat) in if 65 \<le> n \<and> n \<le> 90 then char_of (n + 32) else c)"

definition to_ascii_lowercase :: "string \<Rightarrow> string" where
  "to_ascii_lowercase s = map ascii_lower s"

definition is_ascii_digit :: "char \<Rightarrow> bool" where
  "is_ascii_digit c = (let n = (of_char c :: nat) in 48 \<le> n \<and> n \<le> 57)"

definition split_once :: "char \<Rightarrow> string \<Rightarrow> (string \<times> string) option" where
  "split_once c s =
     (if c \<in> set s then Some (takeWhile (\<lambda>x. x \<noteq> c) s, tl (dropWhile (\<lambda>x. x \<noteq> c) s)) else None)"

definition rsplit_once :: "char \<Rightarrow> string \<Rightarrow> (string \<times> string) option" where
  "rsplit_once c s = map_option (\<lambda>(a, b). (rev b, rev a)) (split_once c (rev s))"

definition has_whitespace :: "string \<Rightarrow> bool" where
  "has_whitespace s = list_ex (str_contains s) ws_encodings"

definition trim_matches :: "(char \<Rightarrow> bool) \<Rightarrow> string \<Rightarrow> string" where
  "trim_matches p s = rev (dropWhile p (rev (dropWhile p s)))"

text \<open>\<open>split_whitespace()\<close>, on the characters of the string.\<close>

fun ws_tokens :: "string list \<Rightarrow> string \<Rightarrow> string list" where
  "ws_tokens [] token = (if token = [] then [] else [token])"
| "ws_tokens (c # cs) token =
     (if c \<in> set ws_encodings then (if token = [] then [] else [token]) @ ws_tokens cs []
      else ws_tokens cs (token @ c))"

definition split_whitespace :: "string \<Rightarrow> string list" where
  "split_whitespace s = ws_tokens (str_chars s) []"

text \<open>\<open>split_inclusive\<close> for one character: the pieces keep their terminator.\<close>

fun split_inclusive :: "char \<Rightarrow> string \<Rightarrow> string list" where
  "split_inclusive c [] = []"
| "split_inclusive c (x # s) =
     (if x = c then [x] # split_inclusive c s
      else case split_inclusive c s of
             [] \<Rightarrow> [[x]]
           | y # ys \<Rightarrow> (x # y) # ys)"

text \<open>\<open>split(c)\<close> for one character.\<close>

fun split_char :: "char \<Rightarrow> string \<Rightarrow> string list" where
  "split_char c [] = [[]]"
| "split_char c (x # s) =
     (case split_char c s of
        [] \<Rightarrow> [[x]]
      | y # ys \<Rightarrow> if x = c then [] # y # ys else (x # y) # ys)"

text \<open>
  \<open>lines()\<close>: the string cut after every line feed, each piece without its line feed and
  without a carriage return before it. A last piece with no line feed is kept as it is.
\<close>

definition strip_cr :: "string \<Rightarrow> string" where
  "strip_cr l = (if l \<noteq> [] \<and> last l = CHR 0x0D then butlast l else l)"

definition str_lines :: "string \<Rightarrow> string list" where
  "str_lines s =
     (let ps = split_char (CHR 0x0A) s
      in map strip_cr (butlast ps) @ (if last ps = [] then [] else [last ps]))"

text \<open>Decimal numerals.\<close>

fun nat_str :: "nat \<Rightarrow> string" where
  "nat_str n =
     (if n < 10 then [char_of (48 + n)] else nat_str (n div 10) @ [char_of (48 + n mod 10)])"

declare nat_str.simps [simp del]

definition int_str :: "int \<Rightarrow> string" where
  "int_str i = (if i < 0 then CHR ''-'' # nat_str (nat (- i)) else nat_str (nat i))"

definition nl :: string where
  "nl = [CHR 0x0A]"

definition emdash :: string where
  "emdash = [CHR 0xE2, CHR 0x80, CHR 0x94]"

text \<open>\<open>writeln!\<close> into a string.\<close>

definition writeln :: "string \<Rightarrow> string \<Rightarrow> string" where
  "writeln s t = s @ t @ nl"

text \<open>\<open>find_map\<close>.\<close>

fun find_map :: "('a \<Rightarrow> 'b option) \<Rightarrow> 'a list \<Rightarrow> 'b option" where
  "find_map f [] = None"
| "find_map f (x # xs) = (case f x of Some y \<Rightarrow> Some y | None \<Rightarrow> find_map f xs)"

section \<open>Floating point numbers\<close>

text \<open>An \<open>f32\<close>: \<open>Fin m n\<close> is the value \<open>m / 2 ^ n\<close>.\<close>

datatype f32 = Fin int nat | NaN | PosInf | NegInf

section \<open>JSON values\<close>

text \<open>
  \<open>serde_json::Value\<close>. The members of an object are listed in the order in which the source
  writes them; only \<open>json_get\<close> reads them, by key.
\<close>

datatype json =
  JNull | JBool bool | JNum int | JFloat f32 | JStr string | JArr "json list" | JObj "(string \<times> json) list"

fun json_get :: "string \<Rightarrow> json \<Rightarrow> json option" where
  "json_get k (JObj kvs) = map_of kvs k"
| "json_get k _ = None"

fun json_as_str :: "json \<Rightarrow> string option" where
  "json_as_str (JStr s) = Some s"
| "json_as_str _ = None"

fun json_as_i64 :: "json \<Rightarrow> int option" where
  "json_as_i64 (JNum i) = (if - (2 ^ 63) \<le> i \<and> i < 2 ^ 63 then Some i else None)"
| "json_as_i64 _ = None"

fun json_as_array :: "json \<Rightarrow> json list option" where
  "json_as_array (JArr xs) = Some xs"
| "json_as_array _ = None"

fun json_insert :: "string \<Rightarrow> json \<Rightarrow> json \<Rightarrow> json" where
  "json_insert k v (JObj kvs) = JObj (AList.update k v kvs)"
| "json_insert k v j = j"

definition json_opt :: "('a \<Rightarrow> json) \<Rightarrow> 'a option \<Rightarrow> json" where
  "json_opt f x = (case x of None \<Rightarrow> JNull | Some y \<Rightarrow> f y)"

section \<open>Ordered maps\<close>

text \<open>A \<open>BTreeMap\<close>: the entries in the order of their keys.\<close>

fun btree_update :: "'k :: linorder \<Rightarrow> 'v \<Rightarrow> ('k \<times> 'v) list \<Rightarrow> ('k \<times> 'v) list" where
  "btree_update k v [] = [(k, v)]"
| "btree_update k v ((k', v') # m) =
     (if k < k' then (k, v) # (k', v') # m
      else if k = k' then (k, v) # m
      else (k', v') # btree_update k v m)"

definition btree_wf :: "('k :: linorder \<times> 'v) list \<Rightarrow> bool" where
  "btree_wf m = sorted_wrt (<) (map fst m)"

section \<open>Loops that emit\<close>

text \<open>
  A \<open>for\<close> loop whose body updates a state and appends to an output vector. The locale has the
  relations between a state, the input consumed, the output and the next state that hold of a
  loop as soon as they hold of its body.
\<close>

fun emit_all :: "('s \<Rightarrow> 'a \<Rightarrow> 'e list \<times> 's) \<Rightarrow> 's \<Rightarrow> 'a list \<Rightarrow> 'e list \<times> 's" where
  "emit_all f s [] = ([], s)"
| "emit_all f s (x # xs) =
     (let (out, s1) = f s x; (out', s2) = emit_all f s1 xs in (out @ out', s2))"

definition emit_seq :: "'e list \<times> 's \<Rightarrow> ('s \<Rightarrow> 'e list \<times> 's) \<Rightarrow> 'e list \<times> 's" where
  "emit_seq p f = (let (out, s1) = p; (out', s2) = f s1 in (out @ out', s2))"

lemma concat_map_Nil [simp]: "concat (map (\<lambda>_. []) xs) = []"
  by (induction xs) auto

locale emission =
  fixes R :: "'s \<Rightarrow> 'i list \<Rightarrow> 'e list \<Rightarrow> 's \<Rightarrow> bool"
  assumes R_refl: "R s [] [] s"
    and R_trans: "R s i out t \<Longrightarrow> R t j out' u \<Longrightarrow> R s (i @ j) (out @ out') u"
begin

definition holds :: "'s \<Rightarrow> 'i list \<Rightarrow> 'e list \<times> 's \<Rightarrow> bool" where
  "holds s i p = R s i (fst p) (snd p)"

lemma holds_skip: "holds s [] ([], s)"
  by (simp add: holds_def R_refl)

lemma holds_seq_at:
  assumes "holds s i p" and "holds (snd p) j (f (snd p))"
  shows "holds s (i @ j) (emit_seq p f)"
  using R_trans assms by (auto simp: holds_def emit_seq_def Let_def split_beta)

lemma holds_seq:
  assumes "holds s i p" and "\<And>t. holds t j (f t)"
  shows "holds s (i @ j) (emit_seq p f)"
  using assms by (rule holds_seq_at)

lemma holds_emit_all:
  assumes "\<And>s x. holds s (g x) (f s x)"
  shows "holds s (concat (map g xs)) (emit_all f s xs)"
proof (induction xs arbitrary: s)
  case (Cons x xs)
  show ?case
    using holds_seq [OF assms [of s x] Cons.IH]
    by (simp add: emit_seq_def Let_def split_beta)
qed (simp add: holds_skip)

lemma holds_emit_all_silent:
  assumes "\<And>s x. holds s [] (f s x)"
  shows "holds s [] (emit_all f s xs)"
  using holds_emit_all [of "\<lambda>_. []" f s xs] assms by simp

end

section \<open>Lemmas\<close>

subsection \<open>Ordered maps\<close>

lemma set_btree_update_keys: "set (map fst (btree_update k v m)) = insert k (set (map fst m))"
  by (induction k v m rule: btree_update.induct) auto

lemma btree_wf_Nil [simp]: "btree_wf []"
  by (simp add: btree_wf_def)

lemma btree_wf_update: "btree_wf m \<Longrightarrow> btree_wf (btree_update k v m)"
proof (induction k v m rule: btree_update.induct)
  case (2 k v k' v' m)
  then show ?case
    using set_btree_update_keys [of k v m] by (fastforce simp: btree_wf_def)
qed (simp add: btree_wf_def)

lemma map_of_btree_update:
  "btree_wf m \<Longrightarrow> map_of (btree_update k v m) = (map_of m)(k \<mapsto> v)"
proof (induction k v m rule: btree_update.induct)
  case (2 k v k' v' m)
  have "map_of m k = None" if "k < k'"
  proof -
    from 2(2) that have "\<forall>x \<in> set (map fst m). k < x" by (auto simp: btree_wf_def)
    then show ?thesis by (force simp: map_of_eq_None_iff)
  qed
  with 2 show ?case by (auto simp: btree_wf_def fun_eq_iff)
qed auto

subsection \<open>Results\<close>

lemma rbind_simps [simp]:
  "rbind (Inl e) f = Inl e"
  "rbind (Inr x) f = f x"
  by (simp_all add: rbind_def)

lemma rbind_Inr_iff: "rbind r f = Inr y \<longleftrightarrow> (\<exists>x. r = Inr x \<and> f x = Inr y)"
  by (cases r) auto

lemma rbind_Inl_iff: "rbind r f = Inl e \<longleftrightarrow> r = Inl e \<or> (\<exists>x. r = Inr x \<and> f x = Inl e)"
  by (cases r) auto

lemma is_ok_simps [simp]: "is_ok (Inl e) = False" "is_ok (Inr x) = True"
  by (simp_all add: is_ok_def)

lemma collect_result_Inr: "collect_result rs = Inr xs \<longleftrightarrow> rs = map Inr xs"
proof (induction rs arbitrary: xs rule: collect_result.induct)
  case (3 x rs)
  then show ?case by (cases xs) (auto simp: rbind_Inr_iff)
qed auto

lemma collect_result_Inl:
  "collect_result rs = Inl e \<Longrightarrow> \<exists>xs ys. rs = map Inr xs @ Inl e # ys"
proof (induction rs rule: collect_result.induct)
  case (2 e' rs)
  then have "Inl e' # rs = map Inr [] @ Inl e # rs" by simp
  then show ?case by blast
next
  case (3 x rs)
  then obtain xs ys where "rs = map Inr xs @ Inl e # ys" by (auto simp: rbind_Inl_iff)
  then have "Inr x # rs = map Inr (x # xs) @ Inl e # ys" by simp
  then show ?case by blast
qed simp

subsection \<open>Splitting at a character\<close>

lemma split_char_nonempty [simp]: "split_char c s \<noteq> []"
  by (cases s) (auto split: list.splits)

lemma split_char_none: "c \<notin> set s \<Longrightarrow> split_char c s = [s]"
  by (induction s) auto

lemma split_char_append:
  "c \<notin> set l \<Longrightarrow> split_char c (l @ c # s) = l # split_char c s"
  by (induction l) (auto split: list.splits)

lemma split_char_app: "split_char c (s @ c # t) = split_char c s @ split_char c t"
proof (induction s)
  case Nil
  then show ?case by (cases "split_char c t") auto
next
  case (Cons x s)
  then show ?case by (cases "split_char c s") auto
qed

lemma split_char_no_sep: "n \<in> set (split_char c s) \<Longrightarrow> c \<notin> set n"
proof (induction s arbitrary: n)
  case (Cons x s)
  then show ?case by (cases "split_char c s") (auto split: if_splits)
qed simp

lemma split_char_join:
  "ns \<noteq> [] \<Longrightarrow> \<forall>n \<in> set ns. c \<notin> set n \<Longrightarrow> split_char c (str_join [c] ns) = ns"
proof (induction ns rule: induct_list012)
  case (3 x y zs)
  then show ?case using split_char_append [of c x "str_join [c] (y # zs)"] by simp
qed (auto simp: split_char_none)

subsection \<open>Searching\<close>

lemma str_contains_single: "str_contains s [c] \<longleftrightarrow> c \<in> set s"
  by (induction s) (auto simp: str_contains_def)

lemma ascii_lower_idem: "ascii_lower (ascii_lower c) = ascii_lower c"
  by (auto simp: ascii_lower_def Let_def)

lemma ascii_lower_fixes:
  assumes "(of_char (ascii_lower d) :: nat) < 65"
  shows "ascii_lower d = d"
  using assms by (auto simp: ascii_lower_def Let_def split: if_splits)

subsection \<open>Lists\<close>

lemma map_filter_Nil_iff: "List.map_filter f xs = [] \<longleftrightarrow> list_all (\<lambda>x. f x = None) xs"
  by (induction xs) (auto simp: map_filter_simps split: option.splits)

lemma find_map_None: "find_map f xs = None \<longleftrightarrow> (\<forall>x \<in> set xs. f x = None)"
  by (induction xs) (auto split: option.splits)

lemma find_map_Some: "find_map f xs = Some y \<Longrightarrow> \<exists>x \<in> set xs. f x = Some y"
  by (induction xs) (auto split: option.splits)

lemma find_map_append:
  "find_map f (xs @ ys) = (case find_map f xs of Some y \<Rightarrow> Some y | None \<Rightarrow> find_map f ys)"
  by (induction xs) (auto split: option.split)

subsection \<open>Saturating addition\<close>

lemma unat_saturating_add_u8:
  "unat (saturating_add_u8 a b) = min 255 (unat a + unat b)"
proof (cases "unat a + unat b \<le> 255")
  case True
  then have "unat (a + b) = unat a + unat b"
    by (simp add: unat_word_ariths)
  with True show ?thesis by (simp add: saturating_add_u8_def)
qed (simp add: saturating_add_u8_def)

lemma unat_u8_le: "unat (a :: u8) \<le> 255"
proof -
  have "unat a < 2 ^ 8" using unsigned_less [of a] by simp
  then show ?thesis by simp
qed

end
