(* ===== verification/Orch_Spec.thy ===== *)
theory Orch_Spec
  imports Prelude
begin

text \<open>
  The delegation contract of \<open>codex-rs/orchestrator\<close>: \<open>spec.rs\<close> (the specification a
  classifier hands to the dispatcher and its validation), the \<open>SpecError\<close> half of
  \<open>error.rs\<close>, and \<open>context.rs\<close> (the per-run metadata with its attempt counter).

  The \<open>regex\<close> crate is not part of the repository. A compiled regex is what the code calls on
  it, a record of the two functions \<open>is_match\<close> and \<open>find\<close>, and \<open>Regex::new\<close> is the
  parameter \<open>regex_new\<close>. Fresh identifiers and the clock are parameters too.
\<close>

section \<open>Data\<close>

type_synonym uuid = string

record regex =
  re_is_match :: "string \<Rightarrow> bool"
  re_find :: "string \<Rightarrow> (nat \<times> nat) option"

type_synonym regex_new = "string \<Rightarrow> string + regex"

record ValidatedRegex =
  vr_source :: string
  vr_compiled :: regex

record UtilRef =
  util_path :: string
  util_symbol :: string
  util_signature :: "string option"

record TestSpec =
  test_command :: "string list"
  test_working_dir :: "string option"

record ScriptRef =
  script_path :: string
  script_args :: "string list"

datatype AcceptanceCriterion =
  OutputMatches ValidatedRegex
| TestsPass
| NoForbiddenPatterns
| Custom string ScriptRef

record DelegationSpec =
  spec_run_id :: uuid
  spec_parent_run_id :: "uuid option"
  intent :: string
  acceptance :: "AcceptanceCriterion list"
  forbidden_patterns :: "ValidatedRegex list"
  expected_tests :: "TestSpec option"
  utility_refs :: "UtilRef list"
  max_retries :: u8
  created_at :: nat

datatype SpecError =
  EmptyIntent
| MaxRetriesTooLarge u8
| InvalidForbiddenPattern nat string
| InvalidOutputMatchesRegex nat string
| TestsPassWithoutExpectedTests nat
| NoForbiddenPatternsWithoutPatterns nat
| EmptyCustomName nat
| EmptyScriptPath
| EmptyUtilSymbol nat

section \<open>Operations of spec.rs\<close>

definition DEFAULT_MAX_RETRIES :: u8 where "DEFAULT_MAX_RETRIES = 2"
definition MAX_ALLOWED_RETRIES :: u8 where "MAX_ALLOWED_RETRIES = 10"

text \<open>\<open>usize::MAX\<close> on the 64-bit targets.\<close>

definition usize_max :: nat where "usize_max = 2 ^ 64 - 1"

definition ValidatedRegex_new :: "regex_new \<Rightarrow> string \<Rightarrow> string + ValidatedRegex" where
  "ValidatedRegex_new regex_new source =
     rbind (regex_new source) (\<lambda>c. Ok \<lparr>vr_source = source, vr_compiled = c\<rparr>)"

text \<open>\<open>PartialEq\<close> compares the sources only.\<close>

definition ValidatedRegex_eq :: "ValidatedRegex \<Rightarrow> ValidatedRegex \<Rightarrow> bool" where
  "ValidatedRegex_eq a b = (vr_source a = vr_source b)"

definition output_matches :: "regex_new \<Rightarrow> string \<Rightarrow> string + AcceptanceCriterion" where
  "output_matches regex_new r = rbind (ValidatedRegex_new regex_new r) (\<lambda>v. Ok (OutputMatches v))"

fun validate_criterion ::
    "DelegationSpec \<Rightarrow> nat \<Rightarrow> AcceptanceCriterion \<Rightarrow> SpecError + unit" where
  "validate_criterion spec idx (OutputMatches _) = Ok ()"
| "validate_criterion spec idx TestsPass =
     (if expected_tests spec = None then Err (TestsPassWithoutExpectedTests idx) else Ok ())"
| "validate_criterion spec idx NoForbiddenPatterns =
     (if forbidden_patterns spec = [] then Err (NoForbiddenPatternsWithoutPatterns idx) else Ok ())"
| "validate_criterion spec idx (Custom name check) =
     (if trim name = [] then Err (EmptyCustomName idx)
      else if script_path check = [] then Err EmptyScriptPath
      else Ok ())"

text \<open>The loops over \<open>utility_refs\<close> and \<open>acceptance\<close>, with their enumeration index.\<close>

fun validate_utils :: "nat \<Rightarrow> UtilRef list \<Rightarrow> SpecError + unit" where
  "validate_utils idx [] = Ok ()"
| "validate_utils idx (u # us) =
     (if trim (util_symbol u) = [] then Err (EmptyUtilSymbol idx) else validate_utils (Suc idx) us)"

fun validate_criteria ::
    "DelegationSpec \<Rightarrow> nat \<Rightarrow> AcceptanceCriterion list \<Rightarrow> SpecError + unit" where
  "validate_criteria spec idx [] = Ok ()"
| "validate_criteria spec idx (c # cs) =
     rbind (validate_criterion spec idx c) (\<lambda>_. validate_criteria spec (Suc idx) cs)"

definition validate :: "DelegationSpec \<Rightarrow> SpecError + unit" where
  "validate spec =
     (if trim (intent spec) = [] then Err EmptyIntent
      else if max_retries spec > MAX_ALLOWED_RETRIES then Err (MaxRetriesTooLarge (max_retries spec))
      else rbind (validate_utils 0 (utility_refs spec)) (\<lambda>_.
           rbind (validate_criteria spec 0 (acceptance spec)) (\<lambda>_.
           case expected_tests spec of
             Some tests \<Rightarrow>
               if test_command tests = [] then Err (TestsPassWithoutExpectedTests usize_max)
               else Ok ()
           | None \<Rightarrow> Ok ())))"

definition new_bare :: "uuid \<Rightarrow> nat \<Rightarrow> string \<Rightarrow> SpecError + DelegationSpec" where
  "new_bare new_v4 now i =
     (let spec = \<lparr>spec_run_id = new_v4, spec_parent_run_id = None, intent = i, acceptance = [],
                  forbidden_patterns = [], expected_tests = None, utility_refs = [],
                  max_retries = DEFAULT_MAX_RETRIES, created_at = now\<rparr>
      in rbind (validate spec) (\<lambda>_. Ok spec))"

definition set_forbidden_patterns ::
    "regex_new \<Rightarrow> DelegationSpec \<Rightarrow> string list \<Rightarrow> SpecError + DelegationSpec" where
  "set_forbidden_patterns regex_new spec patterns =
     rbind (collect_result
              (map (\<lambda>(index, pattern).
                      case ValidatedRegex_new regex_new pattern of
                        Inl source \<Rightarrow> Err (InvalidForbiddenPattern index source)
                      | Inr v \<Rightarrow> Ok v)
                 (List.enumerate 0 patterns)))
       (\<lambda>vs. Ok (spec\<lparr>forbidden_patterns := vs\<rparr>))"

section \<open>The context of context.rs\<close>

text \<open>
  The data of \<open>decision.rs\<close> that the context carries is declared here, since the context
  refers to it.
\<close>

datatype CriterionKind = KOutputMatches | KTestsPass | KCustom

datatype FailureDetails =
  FOutputMatches (fd_regex: string) (fd_output_excerpt: string)
| FTestsPass (fd_exit_code: int) (fd_stderr_excerpt: string) (fd_command: "string list")
| FCustom (fd_exit_code: int) (fd_stderr_excerpt: string)

record FailedCriterion =
  fc_name :: string
  fc_kind :: CriterionKind
  fc_details :: FailureDetails

record RetryFeedback =
  failed_criteria :: "FailedCriterion list"

record DelegationContext =
  ctx_run_id :: uuid
  ctx_parent_run_id :: "uuid option"
  attempt :: u8
  started_at :: nat
  retry_feedback :: "RetryFeedback option"

text \<open>\<open>now\<close> is \<open>Instant::now()\<close> in milliseconds.\<close>

definition for_top_level :: "nat \<Rightarrow> DelegationSpec \<Rightarrow> DelegationContext" where
  "for_top_level now spec =
     \<lparr>ctx_run_id = spec_run_id spec, ctx_parent_run_id = None, attempt = 0,
      started_at = now, retry_feedback = None\<rparr>"

definition for_nested ::
    "nat \<Rightarrow> DelegationSpec \<Rightarrow> DelegationContext \<Rightarrow> DelegationContext" where
  "for_nested now spec parent =
     \<lparr>ctx_run_id = spec_run_id spec, ctx_parent_run_id = Some (ctx_run_id parent), attempt = 0,
      started_at = now, retry_feedback = None\<rparr>"

definition next_attempt :: "DelegationContext \<Rightarrow> DelegationContext" where
  "next_attempt ctx = ctx\<lparr>attempt := saturating_add_u8 (attempt ctx) 1\<rparr>"

definition next_attempt_with_feedback ::
    "DelegationContext \<Rightarrow> RetryFeedback \<Rightarrow> DelegationContext" where
  "next_attempt_with_feedback ctx fb =
     ctx\<lparr>attempt := saturating_add_u8 (attempt ctx) 1, retry_feedback := Some fb\<rparr>"

definition latency_ms :: "nat \<Rightarrow> DelegationContext \<Rightarrow> u64" where
  "latency_ms now ctx = of_nat (now - started_at ctx)"

section \<open>What a valid specification guarantees\<close>

text \<open>
  The invariants the module comment of \<open>spec.rs\<close> lists, as one predicate: the abstract
  specification of \<open>validate\<close>.
\<close>

definition criterion_ok :: "DelegationSpec \<Rightarrow> AcceptanceCriterion \<Rightarrow> bool" where
  "criterion_ok spec c =
     (case c of
        OutputMatches _ \<Rightarrow> True
      | TestsPass \<Rightarrow> expected_tests spec \<noteq> None
      | NoForbiddenPatterns \<Rightarrow> forbidden_patterns spec \<noteq> []
      | Custom name check \<Rightarrow> trim name \<noteq> [] \<and> script_path check \<noteq> [])"

definition spec_ok :: "DelegationSpec \<Rightarrow> bool" where
  "spec_ok spec \<longleftrightarrow>
     trim (intent spec) \<noteq> [] \<and> max_retries spec \<le> MAX_ALLOWED_RETRIES \<and>
     list_all (\<lambda>u. trim (util_symbol u) \<noteq> []) (utility_refs spec) \<and>
     list_all (criterion_ok spec) (acceptance spec) \<and>
     (case expected_tests spec of None \<Rightarrow> True | Some t \<Rightarrow> test_command t \<noteq> [])"

lemma validate_criterion_iff: "validate_criterion spec idx c = Ok () \<longleftrightarrow> criterion_ok spec c"
  by (cases c) (auto simp: criterion_ok_def)

lemma validate_utils_iff:
  "validate_utils idx us = Ok () \<longleftrightarrow> list_all (\<lambda>u. trim (util_symbol u) \<noteq> []) us"
  by (induction us arbitrary: idx) auto

lemma validate_criteria_iff:
  "validate_criteria spec idx cs = Ok () \<longleftrightarrow> list_all (criterion_ok spec) cs"
  by (induction cs arbitrary: idx) (auto simp: rbind_Inr_iff validate_criterion_iff)

lemma validate_iff: "validate spec = Ok () \<longleftrightarrow> spec_ok spec"
  by (auto simp: validate_def spec_ok_def rbind_Inr_iff validate_utils_iff validate_criteria_iff
      split: option.splits if_splits)

text \<open>The first criterion at fault is the one reported.\<close>

lemma validate_criteria_first:
  "validate_criteria spec idx cs = Inl e \<Longrightarrow>
   \<exists>k < length cs. list_all (criterion_ok spec) (take k cs) \<and>
                   validate_criterion spec (idx + k) (cs ! k) = Inl e"
proof (induction cs arbitrary: idx)
  case (Cons c cs)
  show ?case
  proof (cases "validate_criterion spec idx c")
    case (Inl e')
    with Cons.prems show ?thesis by (intro exI [of _ 0]) simp
  next
    case (Inr u)
    with Cons.prems have "validate_criteria spec (Suc idx) cs = Inl e" by simp
    from Cons.IH [OF this] obtain k where
      "k < length cs" "list_all (criterion_ok spec) (take k cs)"
      "validate_criterion spec (Suc idx + k) (cs ! k) = Inl e" by blast
    moreover have "criterion_ok spec c"
      using Inr validate_criterion_iff [of spec idx c] by simp
    ultimately show ?thesis by (intro exI [of _ "Suc k"]) simp
  qed
qed simp

lemma new_bare_Inr:
  "new_bare u now i = Inr spec \<longleftrightarrow>
     trim i \<noteq> [] \<and>
     spec = \<lparr>spec_run_id = u, spec_parent_run_id = None, intent = i, acceptance = [],
             forbidden_patterns = [], expected_tests = None, utility_refs = [],
             max_retries = DEFAULT_MAX_RETRIES, created_at = now\<rparr>"
  by (auto simp: new_bare_def validate_def rbind_Inr_iff DEFAULT_MAX_RETRIES_def
      MAX_ALLOWED_RETRIES_def Let_def split: if_splits)

lemma new_bare_spec_ok: "new_bare u now i = Inr spec \<Longrightarrow> spec_ok spec"
  by (auto simp: new_bare_Inr spec_ok_def DEFAULT_MAX_RETRIES_def MAX_ALLOWED_RETRIES_def)

lemma attempt_for_top_level [simp]: "attempt (for_top_level now spec) = 0"
  by (simp add: for_top_level_def)

lemma ctx_run_id_for_top_level [simp]: "ctx_run_id (for_top_level now spec) = spec_run_id spec"
  by (simp add: for_top_level_def)

lemma attempt_next_attempt_with_feedback [simp]:
  "unat (attempt (next_attempt_with_feedback ctx fb)) = min 255 (Suc (unat (attempt ctx)))"
  by (simp add: next_attempt_with_feedback_def unat_saturating_add_u8)

lemma ctx_run_id_next [simp]: "ctx_run_id (next_attempt_with_feedback ctx fb) = ctx_run_id ctx"
  by (simp add: next_attempt_with_feedback_def)

lemma retry_feedback_next [simp]:
  "retry_feedback (next_attempt_with_feedback ctx fb) = Some fb"
  by (simp add: next_attempt_with_feedback_def)

end
