(* ===== verification/Orch_Decision.thy ===== *)
theory Orch_Decision
  imports Orch_Spec "HOL-Library.Multiset" "HOL-Library.Char_ord" "HOL-Library.List_Lexorder"
begin

text \<open>
  The verdicts of \<open>decision.rs\<close>: the audit decision, its JSON form, and the error signature
  the retry loop compares to find out that it goes round in circles.

  The digest (\<open>sha2::Sha256\<close>) and \<open>Regex::replace_all\<close> are parameters: \<open>sha256\<close> maps
  the hashed bytes to the digest bytes, \<open>replace_all p t s\<close> is \<open>s\<close> with every match of the
  regex \<open>p\<close> replaced by \<open>t\<close>. Rust orders strings by their bytes, the order of
  \<open>List_Lexorder\<close> over \<open>Char_ord\<close>.
\<close>

section \<open>Data\<close>

datatype AuditDecision =
  AuditOk (ad_rationale: string)
| AuditRetry (ad_feedback: RetryFeedback) (ad_attempt: u8)
| AuditEscalate (ad_reason: string) (ad_blocking_issue: string)
| AuditClarify (ad_question: string)
| AuditDrop (ad_reason: string)

type_synonym replace_all = "string \<Rightarrow> string \<Rightarrow> string \<Rightarrow> string"

section \<open>Signatures\<close>

definition SIGNATURE_PREVIEW_LIMIT :: nat where "SIGNATURE_PREVIEW_LIMIT = 200"

fun kind_id :: "CriterionKind \<Rightarrow> string" where
  "kind_id KOutputMatches = ''output_matches''"
| "kind_id KTestsPass = ''tests_pass''"
| "kind_id KCustom = ''custom''"

definition bslash :: string where "bslash = [CHR 0x5C]"

definition normalize_signature_paths :: "string \<Rightarrow> string" where
  "normalize_signature_paths s = replace_char (CHR 0x5C) ''/'' s"

definition uuid_re :: string where
  "uuid_re = bslash @ ''b[0-9a-fA-F]{8}-[0-9a-fA-F]{4}-[0-9a-fA-F]{4}-[0-9a-fA-F]{4}-[0-9a-fA-F]{12}''
     @ bslash @ ''b''"

definition pid_re :: string where
  "pid_re = ''(?i)'' @ bslash @ ''b(pid|process id|process)'' @ bslash @ ''s*[:=]?'' @ bslash @ ''s*''
     @ bslash @ ''d+'' @ bslash @ ''b''"

definition timestamp_re :: string where
  "timestamp_re =
     (let d = bslash @ ''d'' in
      bslash @ ''b'' @ d @ ''{4}-'' @ d @ ''{2}-'' @ d @ ''{2}T'' @ d @ ''{2}:'' @ d @ ''{2}:'' @ d
      @ ''{2}(?:'' @ bslash @ ''.'' @ d @ ''+)?(?:Z|[+-]'' @ d @ ''{2}:'' @ d @ ''{2})?'' @ bslash @ ''b'')"

definition normalize_signature_noise :: "replace_all \<Rightarrow> string \<Rightarrow> string" where
  "normalize_signature_noise replace_all text =
     (let value1 = replace_all uuid_re ''[uuid]'' text;
          value2 = replace_all pid_re ''[pid]'' value1
      in replace_all timestamp_re ''[ts]'' value2)"

definition normalize_signature_path :: "replace_all \<Rightarrow> string \<Rightarrow> string" where
  "normalize_signature_path replace_all path =
     normalize_signature_paths (normalize_signature_noise replace_all path)"

definition normalize_signature_excerpt :: "replace_all \<Rightarrow> string \<Rightarrow> string" where
  "normalize_signature_excerpt replace_all input =
     (let n1 = replace_char (CHR 0x0D) '' '' (replace_char (CHR 0x0A) '' '' input);
          n2 = normalize_signature_paths n1;
          n3 = normalize_signature_noise replace_all n2
      in take_chars SIGNATURE_PREVIEW_LIMIT n3)"

fun normalized_failure_details :: "replace_all \<Rightarrow> FailureDetails \<Rightarrow> string" where
  "normalized_failure_details ra (FOutputMatches re excerpt) =
     ''regex='' @ re @ '',output_excerpt='' @ normalize_signature_excerpt ra excerpt"
| "normalized_failure_details ra (FTestsPass exit_code stderr_excerpt command) =
     (let normalized_command = str_join '' '' (map (normalize_signature_path ra) command)
      in ''exit_code='' @ int_str exit_code
         @ '',stderr_excerpt='' @ normalize_signature_excerpt ra stderr_excerpt
         @ '',command='' @ normalized_command)"
| "normalized_failure_details ra (FCustom exit_code stderr_excerpt) =
     ''exit_code='' @ int_str exit_code
     @ '',stderr_excerpt='' @ normalize_signature_excerpt ra stderr_excerpt"

text \<open>\<open>format!("{byte:02x}")\<close>.\<close>

definition hex_digit :: "nat \<Rightarrow> char" where
  "hex_digit n = (if n < 10 then char_of (48 + n) else char_of (87 + n))"

definition hex_byte :: "char \<Rightarrow> string" where
  "hex_byte c = (let n = (of_char c :: nat) in [hex_digit (n div 16), hex_digit (n mod 16)])"

definition error_signature :: "(string \<Rightarrow> string) \<Rightarrow> replace_all \<Rightarrow> FailedCriterion \<Rightarrow> string" where
  "error_signature sha256 ra fc =
     concat (map hex_byte
       (sha256 (fc_name fc @ ''|'' @ kind_id (fc_kind fc) @ ''|''
                @ normalized_failure_details ra (fc_details fc))))"

definition error_signature_for_retry_feedback ::
    "(string \<Rightarrow> string) \<Rightarrow> replace_all \<Rightarrow> RetryFeedback \<Rightarrow> string option" where
  "error_signature_for_retry_feedback sha256 ra feedback =
     (if failed_criteria feedback = [] then None
      else let sigs = sort (map (error_signature sha256 ra) (failed_criteria feedback));
               combined = str_join ''|'' sigs
           in Some (concat (take 16 (map hex_byte (sha256 combined)))))"

fun is_terminal :: "AuditDecision \<Rightarrow> bool" where
  "is_terminal (AuditOk _) = True"
| "is_terminal (AuditEscalate _ _) = True"
| "is_terminal (AuditClarify _) = True"
| "is_terminal (AuditDrop _) = True"
| "is_terminal (AuditRetry _ _) = False"

section \<open>The JSON form of a decision\<close>

text \<open>The \<open>Serialize\<close> derived with the tags and the \<open>snake_case\<close> renaming of the source.\<close>

fun details_to_json :: "FailureDetails \<Rightarrow> json" where
  "details_to_json (FOutputMatches re excerpt) =
     JObj [(''kind'', JStr ''output_matches''), (''regex'', JStr re),
           (''output_excerpt'', JStr excerpt)]"
| "details_to_json (FTestsPass code err cmd) =
     JObj [(''kind'', JStr ''tests_pass''), (''exit_code'', JNum code),
           (''stderr_excerpt'', JStr err), (''command'', JArr (map JStr cmd))]"
| "details_to_json (FCustom code err) =
     JObj [(''kind'', JStr ''custom''), (''exit_code'', JNum code), (''stderr_excerpt'', JStr err)]"

definition criterion_to_json :: "FailedCriterion \<Rightarrow> json" where
  "criterion_to_json fc =
     JObj [(''name'', JStr (fc_name fc)), (''kind'', JObj [(''kind'', JStr (kind_id (fc_kind fc)))]),
           (''details'', details_to_json (fc_details fc))]"

definition feedback_to_json :: "RetryFeedback \<Rightarrow> json" where
  "feedback_to_json fb =
     JObj [(''failed_criteria'', JArr (map criterion_to_json (failed_criteria fb)))]"

fun decision_to_json :: "AuditDecision \<Rightarrow> json" where
  "decision_to_json (AuditOk r) = JObj [(''verdict'', JStr ''ok''), (''rationale'', JStr r)]"
| "decision_to_json (AuditRetry fb n) =
     JObj [(''verdict'', JStr ''retry''), (''feedback'', feedback_to_json fb),
           (''attempt'', JNum (uint n))]"
| "decision_to_json (AuditEscalate r b) =
     JObj [(''verdict'', JStr ''escalate''), (''reason'', JStr r), (''blocking_issue'', JStr b)]"
| "decision_to_json (AuditClarify q) =
     JObj [(''verdict'', JStr ''clarify''), (''question'', JStr q)]"
| "decision_to_json (AuditDrop r) = JObj [(''verdict'', JStr ''drop''), (''reason'', JStr r)]"

section \<open>Lemmas\<close>

lemma is_terminal_iff: "is_terminal d \<longleftrightarrow> (\<forall>fb n. d \<noteq> AuditRetry fb n)"
  by (cases d) auto

lemma sort_eq_of_mset_eq: "mset xs = mset ys \<Longrightarrow> sort xs = sort (ys :: 'a :: linorder list)"
  by (simp add: properties_for_sort)

lemma feedback_signature_None_iff:
  "error_signature_for_retry_feedback sha256 ra fb = None \<longleftrightarrow> failed_criteria fb = []"
  by (simp add: error_signature_for_retry_feedback_def Let_def)

text \<open>The signature does not depend on the order in which the failures are reported.\<close>

lemma feedback_signature_perm:
  assumes "mset (failed_criteria fb) = mset (failed_criteria fb')"
  shows "error_signature_for_retry_feedback sha256 ra fb =
         error_signature_for_retry_feedback sha256 ra fb'"
proof -
  have "sort (map (error_signature sha256 ra) (failed_criteria fb)) =
        sort (map (error_signature sha256 ra) (failed_criteria fb'))"
    by (rule sort_eq_of_mset_eq) (simp add: assms)
  moreover from assms have "failed_criteria fb = [] \<longleftrightarrow> failed_criteria fb' = []"
    by (metis mset_zero_iff)
  ultimately show ?thesis
    by (simp add: error_signature_for_retry_feedback_def)
qed

lemma length_hex_byte [simp]: "length (hex_byte c) = 2"
  by (simp add: hex_byte_def Let_def)

lemma length_concat_hex: "length (concat (map hex_byte bs)) = 2 * length bs"
  by (induction bs) auto

lemma feedback_signature_length:
  assumes "\<And>s. length (sha256 s) = 32"
    and "error_signature_for_retry_feedback sha256 ra fb = Some sig"
  shows "length sig = 32"
  using assms
  by (auto simp: error_signature_for_retry_feedback_def Let_def take_map length_concat_hex
      split: if_splits)

end
