(* ===== verification/Orch_Traits.thy ===== *)
theory Orch_Traits
  imports Orch_Decision
begin

text \<open>
  The interfaces of \<open>traits.rs\<close>: the values that cross them as datatypes and records, and the
  traits themselves as locales.

  A trait method that reaches outside the program (a model call, a test run) takes and returns
  the state \<open>'w\<close> of the outside world; a log takes and returns its own state \<open>'l\<close>. The
  \<open>assumes\<close> of a locale are the promises the documentation of the trait makes to the
  orchestration loop, and each implementation discharges them in its own theory.
\<close>

section \<open>Data\<close>

datatype ClassificationOutcome =
  Delegate (co_spec: DelegationSpec) (co_reason: string) (co_rule_name: "string option")
| PassThrough (co_reason: string) (co_rule_name: "string option")

record DispatchOutcome =
  response_text :: string
  out_latency_ms :: u64
  total_tokens :: "u64 option"

datatype DispatchError =
  Model string
| Transport string
| ClarificationRequested string

fun dispatch_error_to_string :: "DispatchError \<Rightarrow> string" where
  "dispatch_error_to_string (Model m) = ''model returned an error: '' @ m"
| "dispatch_error_to_string (Transport m) = ''transport error: '' @ m"
| "dispatch_error_to_string (ClarificationRequested q) = ''model requested clarification: '' @ q"

record CriterionResult =
  cr_name :: string
  cr_passed :: bool
  cr_duration_ms :: u64
  cr_details :: json

record AuditReport =
  report_decision :: AuditDecision
  criterion_results :: "CriterionResult list"

datatype LogStage =
  SClassify | SDispatchStart | SDispatchEnd | SAuditCriterion | SAudit | SDecision | SClarify

fun log_stage_name :: "LogStage \<Rightarrow> string" where
  "log_stage_name SClassify = ''classify''"
| "log_stage_name SDispatchStart = ''dispatch_start''"
| "log_stage_name SDispatchEnd = ''dispatch_end''"
| "log_stage_name SAuditCriterion = ''audit.criterion''"
| "log_stage_name SAudit = ''audit''"
| "log_stage_name SDecision = ''decision''"
| "log_stage_name SClarify = ''clarify''"

record RecordedEvent =
  ev_run_id :: uuid
  ev_parent_run_id :: "uuid option"
  ev_attempt :: u8
  ev_stage :: LogStage
  ev_payload :: json

definition event_of :: "DelegationContext \<Rightarrow> LogStage \<Rightarrow> json \<Rightarrow> RecordedEvent" where
  "event_of ctx stage payload =
     \<lparr>ev_run_id = ctx_run_id ctx, ev_parent_run_id = ctx_parent_run_id ctx,
      ev_attempt = attempt ctx, ev_stage = stage, ev_payload = payload\<rparr>"

type_synonym 'w dispatch_sink =
  "DelegationSpec \<Rightarrow> DelegationContext \<Rightarrow> 'w \<Rightarrow> (DispatchError + DispatchOutcome) \<times> 'w"

type_synonym 'w auditor =
  "DelegationSpec \<Rightarrow> DelegationContext \<Rightarrow> DispatchOutcome \<Rightarrow> 'w \<Rightarrow> AuditReport \<times> 'w"

type_synonym 'l recorder = "DelegationContext \<Rightarrow> LogStage \<Rightarrow> json \<Rightarrow> 'l \<Rightarrow> 'l"

section \<open>The decision log as an interface\<close>

text \<open>
  \<open>DecisionLog\<close> is append-only: a call never loses a row that was there. A log that also keeps
  every event is a \<open>faithful_log\<close>.
\<close>

locale append_log =
  fixes record_ev :: "'l recorder"
    and rows :: "'l \<Rightarrow> 'r list"
  assumes rows_record_prefix: "prefix (rows l) (rows (record_ev ctx stage payload l))"
begin

lemma rows_record_all_prefix:
  "prefix (rows l) (rows (fold (\<lambda>(c, s, p). record_ev c s p) evs l))"
proof (induction evs arbitrary: l)
  case (Cons e evs)
  obtain c s p where e: "e = (c, s, p)" by (cases e) auto
  have "prefix (rows l) (rows (record_ev c s p l))" by (rule rows_record_prefix)
  also have "prefix \<dots> (rows (fold (\<lambda>(c, s, p). record_ev c s p) evs (record_ev c s p l)))"
    by (rule Cons.IH)
  finally show ?case by (simp add: e)
qed simp

end

locale faithful_log =
  fixes record_ev :: "'l recorder"
    and events :: "'l \<Rightarrow> RecordedEvent list"
  assumes events_record: "events (record_ev ctx stage payload l) = events l @ [event_of ctx stage payload]"

sublocale faithful_log \<subseteq> append_log record_ev events
  by unfold_locales (simp add: events_record)

section \<open>The auditor as an interface\<close>

text \<open>
  What \<open>AuditDecision::Retry\<close> promises the loop: the attempt it names is the next one, and
  the feedback names at least one failed criterion, so that the loop can build a signature.
\<close>

locale auditor_contract =
  fixes audit :: "'w auditor"
  assumes retry_attempt:
      "report_decision (fst (audit spec ctx out w)) = AuditRetry fb n \<Longrightarrow>
         n = saturating_add_u8 (attempt ctx) 1"
    and retry_feedback_nonempty:
      "report_decision (fst (audit spec ctx out w)) = AuditRetry fb n \<Longrightarrow> failed_criteria fb \<noteq> []"
begin

lemma retry_has_signature:
  assumes "report_decision (fst (audit spec ctx out w)) = AuditRetry fb n"
  shows "error_signature_for_retry_feedback sha256 ra fb \<noteq> None"
  using retry_feedback_nonempty [OF assms] by (simp add: feedback_signature_None_iff)

lemma retry_attempt_bound:
  assumes "report_decision (fst (audit spec ctx out w)) = AuditRetry fb n"
    and "attempt ctx < max_retries spec"
  shows "unat n = Suc (unat (attempt ctx))" and "n \<le> max_retries spec"
proof -
  have n: "n = saturating_add_u8 (attempt ctx) 1" by (rule retry_attempt [OF assms(1)])
  have lt: "unat (attempt ctx) < unat (max_retries spec)"
    using assms(2) by (simp add: word_less_nat_alt)
  have "unat (max_retries spec) \<le> 255" by (rule unat_u8_le)
  with lt show eq: "unat n = Suc (unat (attempt ctx))"
    by (simp add: n unat_saturating_add_u8)
  show "n \<le> max_retries spec"
    using lt eq by (simp add: word_le_nat_alt)
qed

end

end
