(* ===== verification/Orch_Classifier.thy ===== *)
theory Orch_Classifier
  imports Orch_Traits
begin

text \<open>
  The classifiers of \<open>classifier/mod.rs\<close> (ordered regex rules) and \<open>classifier/llm.rs\<close> (the
  model consulted when no rule matches, behind a cache), with the \<open>ClassifierError\<close> half of
  \<open>error.rs\<close>.

  Parameters: the TOML and JSON parsers, \<open>Regex::new\<close>, the file system calls, the \<open>lru\<close>
  cache (\<open>cache_get\<close> also renews the entry, so it returns a cache), the stream of the model
  provider, and the fresh identifier and clock of \<open>DelegationSpec::new_bare\<close>. 
\<close>

section \<open>Rules\<close>

datatype ClassifierError =
  UnsupportedRulesVersion u32
| EmptyRuleName nat
| EmptyRulePatterns string
| UnsupportedRuleAction string string
| InvalidRulePattern string nat string
| CreateRulesDir string string
| WriteRulesFile string string
| ReadRulesFile string string
| ParseRulesFile string string
| ParseRulesToml string

datatype RuleAction = RDelegate | RNoDelegate

record Rule =
  rule_name :: string
  rule_action :: RuleAction
  rule_patterns :: "ValidatedRegex list"

record RawRule =
  rr_name :: string
  rr_action :: string
  rr_patterns :: "string list"

record RawRulesFile =
  rf_version :: u32
  rf_rules :: "RawRule list"

record RulesClassifier =
  rules :: "Rule list"

definition SUPPORTED_RULES_VERSION :: u32 where "SUPPORTED_RULES_VERSION = 1"

definition DEFAULT_RULES_FILE_NAME :: string where
  "DEFAULT_RULES_FILE_NAME = ''delegation_rules.toml''"

text \<open>
  The shipped rules, as text and as the value the text denotes. The backslash is written as a
  tilde, which the texts do not contain.
\<close>

definition unescape :: "string \<Rightarrow> string" where
  "unescape s = replace_char (CHR 0x7E) bslash s"

definition DEFAULT_RULES_TOML :: string where
  \<open>DEFAULT_RULES_TOML = unescape (str_join nl
    [''# Reglas evaluadas en orden. Primera que matchea gana.'',
     ''# Cada regla tiene: name, action ("delegate" | "no_delegate"), patterns (regex array).'',
     ''# El intent se matchea contra la uni'' @ [CHR 0xC3, CHR 0xB3] @ ''n de los patterns.'',
     [],
     ''version = 1'',
     [],
     ''[[rule]]'',
     ''name = "implement_function"'',
     ''action = "delegate"'',
     ''patterns = ['',
     ''  # "implement a function validate_email"'',
     ''  "(?i)~~bimplement(?:ar|s|ed|ing)?~~s+(?:a~~s+|the~~s+)?function~~b",'',
     ''  # "write a function add(a, b)"'',
     ''  "(?i)~~bwrite~~s+(?:a~~s+|the~~s+)?function~~b",'',
     ''  # "create a function fibonacci"'',
     ''  "(?i)~~bcreate~~s+(?:a~~s+|the~~s+)?function~~b",'',
     ''  # "implement validate_email", "implement Foo", "implement parse_date"'',
     ''  # '' @ [CHR 0xE2, CHR 0x80, CHR 0x94] @ '' captura "implement <identifier>" cuando el identifier es snake_case,'',
     ''  # camelCase, o PascalCase. Es case-sensitive a prop'' @ [CHR 0xC3, CHR 0xB3] @ ''sito porque esas'',
     ''  # convenciones distinguen may'' @ [CHR 0xC3, CHR 0xBA] @ ''sculas/min'' @ [CHR 0xC3, CHR 0xBA] @ ''sculas por definici'' @ [CHR 0xC3, CHR 0xB3] @ ''n.'',
     ''  "~~bimplement(?:ar|s|ed|ing)?~~s+(?:[a-z][a-z0-9]*_[a-z0-9_]+|[A-Z][a-zA-Z0-9]+|[a-z][a-zA-Z0-9]*[A-Z][a-zA-Z0-9]*)~~b",'',
     '']'',
     [],
     ''[[rule]]'',
     ''name = "write_tests"'',
     ''action = "delegate"'',
     ''patterns = ['',
     ''  "(?i)~~bwrite~~s+(?:unit~~s+)?tests?~~b",'',
     ''  "(?i)~~badd~~s+tests?~~s+for~~b",'',
     '']'',
     [],
     ''[[rule]]'',
     ''name = "translate_code"'',
     ''action = "delegate"'',
     ''patterns = ['',
     ''  "(?i)~~btranslate~~s+(?:this~~s+|the~~s+)?(?:code|function|class)~~s+(?:from|to)~~b",'',
     ''  "(?i)~~bport~~s+(?:this~~s+|the~~s+)?(?:code|function|class)~~s+(?:from|to)~~b",'',
     '']'',
     [],
     ''[[rule]]'',
     ''name = "mechanical_refactor"'',
     ''action = "delegate"'',
     ''patterns = ['',
     ''  "(?i)~~brename~~s+~~w+~~s+to~~s+~~w+~~b",'',
     ''  "(?i)~~bextract~~s+(?:method|function|variable|constant)~~b",'',
     '']'',
     [],
     ''[[rule]]'',
     ''name = "design_arch"'',
     ''action = "no_delegate"'',
     ''patterns = ['',
     ''  "(?i)~~bdesign~~s+(?:the~~s+)?(?:architecture|api|schema|system)~~b",'',
     ''  "(?i)~~bhow~~s+should~~s+I~~s+structure~~b",'',
     ''  "(?i)~~bwhat'?s?~~s+the~~s+best~~s+(?:approach|way|pattern)~~b",'',
     '']'',
     [],
     ''[[rule]]'',
     ''name = "debug_complex"'',
     ''action = "no_delegate"'',
     ''patterns = ['',
     ''  "(?i)~~bdebug~~b.*~~bweird~~b",'',
     ''  "(?i)~~bwhy~~s+(?:does|is)~~s+this~~s+(?:fail|crash|hang)~~b",'',
     ''  "(?i)~~binvestigate~~s+(?:this~~s+)?(?:bug|issue|crash)~~b",'',
     '']'',
     [],
     ''[[rule]]'',
     ''name = "security"'',
     ''action = "no_delegate"'',
     ''patterns = ['',
     ''  "(?i)~~bauth(?:enticat~~w+|orization)?~~b",'',
     ''  "(?i)~~bcredential~~s+(?:storage|management|handling)~~b",'',
     ''  "(?i)~~bencrypt(?:ion)?~~s+(?:scheme|algorithm)~~b",'',
     '']'',
     [],
     ''[[rule]]'',
     ''name = "external_integration"'',
     ''action = "no_delegate"'',
     ''patterns = ['',
     ''  "(?i)~~bintegrate~~s+with~~s+(?:a~~s+new~~s+)?(?:service|api|sdk)~~b",'',
     ''  "(?i)~~bset~~s+up~~s+(?:a~~s+new~~s+)?(?:webhook|oauth|sso)~~b",'',
     '']'',
     []])\<close>

definition default_rules :: RawRulesFile where
  \<open>default_rules =
     \<lparr>rf_version = 1,
      rf_rules =
        [\<lparr>rr_name = ''implement_function'', rr_action = ''delegate'',
            rr_patterns =
             [unescape ''(?i)~bimplement(?:ar|s|ed|ing)?~s+(?:a~s+|the~s+)?function~b'',
              unescape ''(?i)~bwrite~s+(?:a~s+|the~s+)?function~b'',
              unescape ''(?i)~bcreate~s+(?:a~s+|the~s+)?function~b'',
              unescape ''~bimplement(?:ar|s|ed|ing)?~s+(?:[a-z][a-z0-9]*_[a-z0-9_]+|[A-Z][a-zA-Z0-9]+|[a-z][a-zA-Z0-9]*[A-Z][a-zA-Z0-9]*)~b'']\<rparr>,
         \<lparr>rr_name = ''write_tests'', rr_action = ''delegate'',
            rr_patterns =
             [unescape ''(?i)~bwrite~s+(?:unit~s+)?tests?~b'',
              unescape ''(?i)~badd~s+tests?~s+for~b'']\<rparr>,
         \<lparr>rr_name = ''translate_code'', rr_action = ''delegate'',
            rr_patterns =
             [unescape ''(?i)~btranslate~s+(?:this~s+|the~s+)?(?:code|function|class)~s+(?:from|to)~b'',
              unescape ''(?i)~bport~s+(?:this~s+|the~s+)?(?:code|function|class)~s+(?:from|to)~b'']\<rparr>,
         \<lparr>rr_name = ''mechanical_refactor'', rr_action = ''delegate'',
            rr_patterns =
             [unescape ''(?i)~brename~s+~w+~s+to~s+~w+~b'',
              unescape ''(?i)~bextract~s+(?:method|function|variable|constant)~b'']\<rparr>,
         \<lparr>rr_name = ''design_arch'', rr_action = ''no_delegate'',
            rr_patterns =
             [unescape ''(?i)~bdesign~s+(?:the~s+)?(?:architecture|api|schema|system)~b'',
              unescape ''(?i)~bhow~s+should~s+I~s+structure~b'',
              unescape ''(?i)~bwhat'?s?~s+the~s+best~s+(?:approach|way|pattern)~b'']\<rparr>,
         \<lparr>rr_name = ''debug_complex'', rr_action = ''no_delegate'',
            rr_patterns =
             [unescape ''(?i)~bdebug~b.*~bweird~b'',
              unescape ''(?i)~bwhy~s+(?:does|is)~s+this~s+(?:fail|crash|hang)~b'',
              unescape ''(?i)~binvestigate~s+(?:this~s+)?(?:bug|issue|crash)~b'']\<rparr>,
         \<lparr>rr_name = ''security'', rr_action = ''no_delegate'',
            rr_patterns =
             [unescape ''(?i)~bauth(?:enticat~w+|orization)?~b'',
              unescape ''(?i)~bcredential~s+(?:storage|management|handling)~b'',
              unescape ''(?i)~bencrypt(?:ion)?~s+(?:scheme|algorithm)~b'']\<rparr>,
         \<lparr>rr_name = ''external_integration'', rr_action = ''no_delegate'',
            rr_patterns =
             [unescape ''(?i)~bintegrate~s+with~s+(?:a~s+new~s+)?(?:service|api|sdk)~b'',
              unescape ''(?i)~bset~s+up~s+(?:a~s+new~s+)?(?:webhook|oauth|sso)~b'']\<rparr>]\<rparr>\<close>

definition RuleAction_from_str :: "string \<Rightarrow> string \<Rightarrow> ClassifierError + RuleAction" where
  "RuleAction_from_str name action =
     (if action = ''delegate'' then Ok RDelegate
      else if action = ''no_delegate'' then Ok RNoDelegate
      else Err (UnsupportedRuleAction name action))"

definition Rule_from_raw :: "regex_new \<Rightarrow> nat \<Rightarrow> RawRule \<Rightarrow> ClassifierError + Rule" where
  "Rule_from_raw regex_new index raw_rule =
     (let name = trim (rr_name raw_rule) in
      if name = [] then Err (EmptyRuleName index)
      else if rr_patterns raw_rule = [] then Err (EmptyRulePatterns name)
      else rbind (RuleAction_from_str name (rr_action raw_rule)) (\<lambda>action.
           rbind (collect_result
                    (map (\<lambda>(pattern_index, pattern).
                            case ValidatedRegex_new regex_new pattern of
                              Inl source \<Rightarrow> Err (InvalidRulePattern name pattern_index source)
                            | Inr v \<Rightarrow> Ok v)
                       (List.enumerate 0 (rr_patterns raw_rule)))) (\<lambda>patterns.
           Ok \<lparr>rule_name = name, rule_action = action, rule_patterns = patterns\<rparr>)))"

definition from_raw :: "regex_new \<Rightarrow> RawRulesFile \<Rightarrow> ClassifierError + RulesClassifier" where
  "from_raw regex_new raw =
     (if rf_version raw \<noteq> SUPPORTED_RULES_VERSION
      then Err (UnsupportedRulesVersion (rf_version raw))
      else rbind (collect_result
                    (map (\<lambda>(index, raw_rule). Rule_from_raw regex_new index raw_rule)
                       (List.enumerate 0 (rf_rules raw)))) (\<lambda>rs.
           Ok \<lparr>rules = rs\<rparr>))"

type_synonym toml_parse = "string \<Rightarrow> string + RawRulesFile"

definition from_toml_str ::
    "toml_parse \<Rightarrow> regex_new \<Rightarrow> string \<Rightarrow> ClassifierError + RulesClassifier" where
  "from_toml_str toml regex_new toml_source =
     (case toml toml_source of
        Inl e \<Rightarrow> Err (ParseRulesToml e)
      | Inr raw \<Rightarrow> from_raw regex_new raw)"

text \<open>
  The file system calls of the rules file. \<open>rfs_create_new\<close> is \<open>create_new(true).open\<close>; its
  error carries whether its kind is \<open>AlreadyExists\<close>; \<open>rfs_write\<close> is \<open>write_all\<close> and \<open>flush\<close>.
\<close>

record 'f rules_fs =
  rfs_create_dir_all :: "string \<Rightarrow> 'f \<Rightarrow> (string + unit) \<times> 'f"
  rfs_create_new :: "string \<Rightarrow> 'f \<Rightarrow> (bool \<times> string + unit) \<times> 'f"
  rfs_write :: "string \<Rightarrow> string \<Rightarrow> 'f \<Rightarrow> (string + unit) \<times> 'f"
  rfs_read :: "string \<Rightarrow> 'f \<Rightarrow> (string + string) \<times> 'f"

definition rules_path :: "string \<Rightarrow> string" where
  "rules_path home = home @ ''/'' @ DEFAULT_RULES_FILE_NAME"

definition ship_defaults_if_missing ::
    "'f rules_fs \<Rightarrow> string \<Rightarrow> 'f \<Rightarrow> (ClassifierError + bool) \<times> 'f" where
  "ship_defaults_if_missing fs home f =
     (case rfs_create_dir_all fs home f of
        (Inl source, f1) \<Rightarrow> (Err (CreateRulesDir home source), f1)
      | (Inr _, f1) \<Rightarrow>
          let path = rules_path home in
          case rfs_create_new fs path f1 of
            (Inl (already_exists, source), f2) \<Rightarrow>
              if already_exists then (Ok False, f2) else (Err (WriteRulesFile path source), f2)
          | (Inr _, f2) \<Rightarrow>
              (case rfs_write fs path DEFAULT_RULES_TOML f2 of
                 (Inl source, f3) \<Rightarrow> (Err (WriteRulesFile path source), f3)
               | (Inr _, f3) \<Rightarrow> (Ok True, f3)))"

definition from_default_path ::
    "'f rules_fs \<Rightarrow> toml_parse \<Rightarrow> regex_new \<Rightarrow> string \<Rightarrow> 'f \<Rightarrow> (ClassifierError + RulesClassifier) \<times> 'f" where
  "from_default_path fs toml regex_new home f =
     (case ship_defaults_if_missing fs home f of
        (Inl e, f1) \<Rightarrow> (Err e, f1)
      | (Inr _, f1) \<Rightarrow>
          let path = rules_path home in
          case rfs_read fs path f1 of
            (Inl source, f2) \<Rightarrow> (Err (ReadRulesFile path source), f2)
          | (Inr toml_source, f2) \<Rightarrow>
              (case toml toml_source of
                 Inl source \<Rightarrow> (Err (ParseRulesFile path source), f2)
               | Inr raw \<Rightarrow> (from_raw regex_new raw, f2)))"

definition rule_matches :: "Rule \<Rightarrow> string \<Rightarrow> bool" where
  "rule_matches rule prompt = list_ex (\<lambda>p. re_is_match (vr_compiled p) prompt) (rule_patterns rule)"

text \<open>The loop of \<open>RulesClassifier::classify\<close>.\<close>

fun classify_rules :: "uuid \<Rightarrow> nat \<Rightarrow> Rule list \<Rightarrow> string \<Rightarrow> ClassificationOutcome" where
  "classify_rules u now [] prompt =
     PassThrough ''no rule matched (LLM fallback in commit 7)'' None"
| "classify_rules u now (rule # rs) prompt =
     (if \<not> rule_matches rule prompt then classify_rules u now rs prompt
      else case rule_action rule of
             RDelegate \<Rightarrow>
               (case new_bare u now prompt of
                  Inr spec \<Rightarrow>
                    Delegate spec (''matched rule '' @ [CHR 0x27] @ rule_name rule @ [CHR 0x27])
                      (Some (rule_name rule))
                | Inl _ \<Rightarrow>
                    PassThrough (''matched rule '' @ [CHR 0x27] @ rule_name rule @ [CHR 0x27]
                                 @ '', but intent was invalid'') (Some (rule_name rule)))
           | RNoDelegate \<Rightarrow>
               PassThrough (''matched rule '' @ [CHR 0x27] @ rule_name rule @ [CHR 0x27])
                 (Some (rule_name rule)))"

definition rules_classify :: "uuid \<Rightarrow> nat \<Rightarrow> RulesClassifier \<Rightarrow> string \<Rightarrow> ClassificationOutcome" where
  "rules_classify u now c prompt = classify_rules u now (rules c) prompt"

section \<open>The model fallback\<close>

definition in_unit_interval :: "f32 \<Rightarrow> bool" where
  "in_unit_interval x = (case x of Fin m n \<Rightarrow> 0 \<le> m \<and> m \<le> 2 ^ n | _ \<Rightarrow> False)"

definition f32_is_finite :: "f32 \<Rightarrow> bool" where
  "f32_is_finite x = (case x of Fin _ _ \<Rightarrow> True | _ \<Rightarrow> False)"

record ClassificationTrace =
  ct_outcome :: ClassificationOutcome
  ct_llm_model :: "string option"
  ct_llm_confidence :: "f32 option"
  ct_llm_reasoning :: "string option"
  ct_llm_error :: "string option"
  ct_cache_hit :: bool

definition trace_reason :: "ClassificationTrace \<Rightarrow> string" where
  "trace_reason t = (case ct_outcome t of Delegate _ reason _ \<Rightarrow> reason | PassThrough reason _ \<Rightarrow> reason)"

definition trace_rule_name :: "ClassificationTrace \<Rightarrow> string option" where
  "trace_rule_name t = (case ct_outcome t of Delegate _ _ rn \<Rightarrow> rn | PassThrough _ rn \<Rightarrow> rn)"

record LlmFallbackConfig =
  cfg_provider :: string
  cfg_model :: string
  cfg_timeout_ms :: nat
  cfg_cache_size :: nat
  cfg_enabled :: bool

definition LlmFallbackConfig_default :: LlmFallbackConfig where
  "LlmFallbackConfig_default =
     \<lparr>cfg_provider = ''openai'', cfg_model = ''gpt-5.4'', cfg_timeout_ms = 10000,
      cfg_cache_size = 256, cfg_enabled = True\<rparr>"

record LlmClassification =
  should_delegate :: bool
  confidence :: f32
  reasoning :: string

datatype LlmError = LTransport string | LInvalidJson string | LAuth string | LProvider string

fun llm_error_to_string :: "LlmError \<Rightarrow> string" where
  "llm_error_to_string (LTransport m) = ''transport error: '' @ m"
| "llm_error_to_string (LInvalidJson m) = ''invalid JSON from llm fallback: '' @ m"
| "llm_error_to_string (LAuth m) = ''auth error: '' @ m"
| "llm_error_to_string (LProvider m) = ''provider error: '' @ m"

datatype DisabledLlmFallbackKind = DUnavailable | DMissingCredentialsDisabled

record DisabledLlmFallbackState =
  dis_reason :: string
  dis_kind :: DisabledLlmFallbackKind

definition unavailable_trace :: "string \<Rightarrow> ClassificationTrace" where
  "unavailable_trace error =
     \<lparr>ct_outcome = PassThrough ''no rule matched + llm fallback unavailable'' None,
      ct_llm_model = None, ct_llm_confidence = None, ct_llm_reasoning = None,
      ct_llm_error = Some error, ct_cache_hit = False\<rparr>"

definition disabled_trace_with_error :: "string \<Rightarrow> string \<Rightarrow> ClassificationTrace" where
  "disabled_trace_with_error reason llm_error =
     \<lparr>ct_outcome = PassThrough (''no rule matched + '' @ reason) None,
      ct_llm_model = None, ct_llm_confidence = None, ct_llm_reasoning = None,
      ct_llm_error = Some llm_error, ct_cache_hit = False\<rparr>"

definition disabled_unavailable :: "string \<Rightarrow> DisabledLlmFallbackState" where
  "disabled_unavailable reason =
     \<lparr>dis_reason = reason,
      dis_kind = (if reason = ''no openai credentials configured''
                  then DMissingCredentialsDisabled else DUnavailable)\<rparr>"

definition into_trace :: "DisabledLlmFallbackState \<Rightarrow> ClassificationTrace" where
  "into_trace st =
     (case dis_kind st of
        DUnavailable \<Rightarrow> unavailable_trace (dis_reason st)
      | DMissingCredentialsDisabled \<Rightarrow>
          disabled_trace_with_error ''llm fallback disabled (no credentials)'' (dis_reason st))"

definition classification_outcome_for_llm ::
    "uuid \<Rightarrow> nat \<Rightarrow> string \<Rightarrow> bool \<Rightarrow> bool \<Rightarrow> ClassificationOutcome" where
  "classification_outcome_for_llm u now prompt delegate cache_hit =
     (let reason = (if cache_hit then ''llm fallback (cached)'' else ''llm fallback'') in
      if \<not> delegate then PassThrough reason None
      else case new_bare u now prompt of
             Inr spec \<Rightarrow> Delegate spec reason None
           | Inl _ \<Rightarrow> PassThrough (reason @ '', but intent was invalid'') None)"

text \<open>
  The cache interface of the \<open>lru\<close> crate, and the client under \<open>tokio::time::timeout\<close>: \<open>None\<close>
  is an elapsed timeout.
\<close>

record 'c lru_ops =
  lru_new :: "nat \<Rightarrow> 'c"
  lru_get :: "string \<Rightarrow> 'c \<Rightarrow> bool option \<times> 'c"
  lru_put :: "string \<Rightarrow> bool \<Rightarrow> 'c \<Rightarrow> 'c"

type_synonym 'w llm_client =
  "nat \<Rightarrow> string \<Rightarrow> 'w \<Rightarrow> (LlmError + LlmClassification) option \<times> 'w"

record 'c LlmFallbackClassifier =
  fb_cache :: 'c
  fb_config :: LlmFallbackConfig
  fb_disabled_state :: "DisabledLlmFallbackState option"

definition LlmFallbackClassifier_new ::
    "'c lru_ops \<Rightarrow> LlmFallbackConfig \<Rightarrow> 'c LlmFallbackClassifier" where
  "LlmFallbackClassifier_new ops config =
     \<lparr>fb_cache = lru_new ops (max 1 (cfg_cache_size config)), fb_config = config,
      fb_disabled_state = None\<rparr>"

definition with_disabled_reason ::
    "'c LlmFallbackClassifier \<Rightarrow> string \<Rightarrow> 'c LlmFallbackClassifier" where
  "with_disabled_reason c reason = c\<lparr>fb_disabled_state := Some (disabled_unavailable reason)\<rparr>"

definition llm_classify ::
    "'c lru_ops \<Rightarrow> 'w llm_client \<Rightarrow> uuid \<Rightarrow> nat \<Rightarrow> string \<Rightarrow> 'c LlmFallbackClassifier \<Rightarrow> 'w
       \<Rightarrow> ClassificationTrace \<times> 'c LlmFallbackClassifier \<times> 'w" where
  "llm_classify ops client u now prompt c w =
     (if \<not> cfg_enabled (fb_config c) then
        (into_trace (case fb_disabled_state c of
                       Some st \<Rightarrow> st
                     | None \<Rightarrow> disabled_unavailable ''llm fallback disabled''), c, w)
      else let (cached, cache1) = lru_get ops prompt (fb_cache c);
               c1 = c\<lparr>fb_cache := cache1\<rparr>
           in case cached of
                Some delegate \<Rightarrow>
                  (\<lparr>ct_outcome = classification_outcome_for_llm u now prompt delegate True,
                    ct_llm_model = Some (cfg_model (fb_config c)), ct_llm_confidence = None,
                    ct_llm_reasoning = None, ct_llm_error = None, ct_cache_hit = True\<rparr>, c1, w)
              | None \<Rightarrow>
                  (case client (cfg_timeout_ms (fb_config c)) prompt w of
                     (Some (Inr cl), w1) \<Rightarrow>
                       (\<lparr>ct_outcome = classification_outcome_for_llm u now prompt (should_delegate cl) False,
                         ct_llm_model = Some (cfg_model (fb_config c)),
                         ct_llm_confidence = Some (confidence cl),
                         ct_llm_reasoning = Some (reasoning cl), ct_llm_error = None,
                         ct_cache_hit = False\<rparr>,
                        c1\<lparr>fb_cache := lru_put ops prompt (should_delegate cl) cache1\<rparr>, w1)
                   | (Some (Inl error), w1) \<Rightarrow> (unavailable_trace (llm_error_to_string error), c1, w1)
                   | (None, w1) \<Rightarrow>
                       (unavailable_trace (''llm fallback timed out after ''
                          @ nat_str (cfg_timeout_ms (fb_config c)) @ '' ms''), c1, w1)))"

definition should_use_llm_fallback :: "ClassificationOutcome \<Rightarrow> bool" where
  "should_use_llm_fallback outcome =
     (case outcome of
        PassThrough reason rn \<Rightarrow> rn = None \<and> str_contains reason ''no rule matched''
      | Delegate _ _ _ \<Rightarrow> False)"

definition classify_with_fallback ::
    "'c lru_ops \<Rightarrow> 'w llm_client \<Rightarrow> uuid \<Rightarrow> nat \<Rightarrow> (string \<Rightarrow> ClassificationOutcome)
       \<Rightarrow> 'c LlmFallbackClassifier \<Rightarrow> string \<Rightarrow> 'w
       \<Rightarrow> ClassificationTrace \<times> 'c LlmFallbackClassifier \<times> 'w" where
  "classify_with_fallback ops client u now rules_cls c prompt w =
     (let rules_outcome = rules_cls prompt in
      if should_use_llm_fallback rules_outcome then llm_classify ops client u now prompt c w
      else (\<lparr>ct_outcome = rules_outcome, ct_llm_model = None, ct_llm_confidence = None,
             ct_llm_reasoning = None, ct_llm_error = None, ct_cache_hit = False\<rparr>, c, w))"

section \<open>The OpenAI client\<close>

datatype AuthMode = ApiKey | Chatgpt | ChatgptAuthTokens | AgentIdentity

datatype OpenAiFallbackAvailability = Enabled | Unavailable

definition resolve_openai_auth_sources :: "'a option \<Rightarrow> 'a option \<Rightarrow> 'a option" where
  "resolve_openai_auth_sources env_auth stored_auth =
     (case env_auth of Some a \<Rightarrow> Some a | None \<Rightarrow> stored_auth)"

text \<open>\<open>read_env\<close> is the key of the environment, \<open>stored\<close> what the credential store returns.\<close>

definition load_openai_auth ::
    "(string \<Rightarrow> 'a) \<Rightarrow> string option \<Rightarrow> (string + 'a option) \<Rightarrow> LlmError + 'a option" where
  "load_openai_auth from_api_key read_env stored =
     (let env_auth = map_option from_api_key read_env in
      case stored of
        Inl e \<Rightarrow> Err (LAuth e)
      | Inr stored_auth \<Rightarrow> Ok (resolve_openai_auth_sources env_auth stored_auth))"

definition openai_fallback_availability :: "AuthMode option \<Rightarrow> OpenAiFallbackAvailability" where
  "openai_fallback_availability m =
     (case m of
        Some ApiKey \<Rightarrow> Enabled | Some Chatgpt \<Rightarrow> Enabled | Some ChatgptAuthTokens \<Rightarrow> Enabled
      | Some AgentIdentity \<Rightarrow> Unavailable | None \<Rightarrow> Unavailable)"

definition resolve_llm_fallback_model :: "string option \<Rightarrow> string" where
  "resolve_llm_fallback_model m = (case m of Some x \<Rightarrow> x | None \<Rightarrow> ''gpt-5.4'')"

definition classification_output_schema :: json where
  "classification_output_schema =
     JObj [(''type'', JStr ''object''), (''additionalProperties'', JBool False),
           (''required'', JArr [JStr ''should_delegate'', JStr ''confidence'', JStr ''reasoning'']),
           (''properties'',
            JObj [(''should_delegate'', JObj [(''type'', JStr ''boolean'')]),
                  (''confidence'', JObj [(''type'', JStr ''number''), (''minimum'', JNum 0),
                                         (''maximum'', JNum 1)]),
                  (''reasoning'', JObj [(''type'', JStr ''string'')])])]"

definition llm_classifier_instructions :: string where
  \<open>llm_classifier_instructions = str_join nl
     [''You are a classifier. Decide if the following user request should be'',
      ''delegated to a code-writing model (which is good at mechanical'',
      ''implementation but weak at architecture, debugging, security, and'',
      ''external integrations).'',
      [],
      ''Reply ONLY with valid JSON in this exact format:'',
      ''{"should_delegate": true|false, "confidence": 0.0-1.0, "reasoning": "<one short sentence>"}'',
      [],
      ''Delegate when: implementing a clearly-specified function, writing'',
      ''tests, mechanical refactor, code translation between languages.'',
      [],
      ''Do NOT delegate when: architectural design, debugging complex issues,'',
      ''security/auth decisions, integrations with new external services,'',
      ''ambiguous or open-ended questions.'']\<close>

datatype ResponseEvent =
  OutputTextDelta string
| OutputMessageDone "string list"
| OtherEvent

record ResponsesApiRequest =
  rq_model :: string
  rq_instructions :: string
  rq_user_text :: string
  rq_tool_choice :: string
  rq_store :: bool
  rq_stream :: bool
  rq_output_schema :: json

definition llm_request :: "string \<Rightarrow> string \<Rightarrow> ResponsesApiRequest" where
  "llm_request model prompt =
     \<lparr>rq_model = model, rq_instructions = llm_classifier_instructions,
      rq_user_text = ''Request: '' @ prompt, rq_tool_choice = ''none'', rq_store = False,
      rq_stream = True, rq_output_schema = classification_output_schema\<rparr>"

text \<open>
  \<open>OutputMessageDone\<close> lists the \<open>OutputText\<close> items of the message. The loop over the stream
  keeps the text of the deltas and that of the finished messages.
\<close>

fun collect_stream ::
    "(string + ResponseEvent) list \<Rightarrow> string \<Rightarrow> string \<Rightarrow> LlmError + string \<times> string" where
  "collect_stream [] text final_text = Ok (text, final_text)"
| "collect_stream (Inl e # evs) text final_text = Err (LTransport e)"
| "collect_stream (Inr (OutputTextDelta delta) # evs) text final_text =
     collect_stream evs (text @ delta) final_text"
| "collect_stream (Inr (OutputMessageDone items) # evs) text final_text =
     collect_stream evs text (final_text @ concat items)"
| "collect_stream (Inr OtherEvent # evs) text final_text = collect_stream evs text final_text"

definition parse_llm_classification ::
    "(string \<Rightarrow> string + LlmClassification) \<Rightarrow> string \<Rightarrow> LlmError + LlmClassification" where
  "parse_llm_classification from_str raw =
     (case from_str raw of
        Inl e \<Rightarrow> Err (LInvalidJson e)
      | Inr parsed \<Rightarrow>
          if \<not> in_unit_interval (confidence parsed) \<or> \<not> f32_is_finite (confidence parsed)
          then Err (LInvalidJson ''confidence must be between 0.0 and 1.0'')
          else Ok parsed)"

definition openai_classify ::
    "(string \<Rightarrow> string + LlmClassification)
       \<Rightarrow> (ResponsesApiRequest \<Rightarrow> string + (string + ResponseEvent) list)
       \<Rightarrow> string \<Rightarrow> string \<Rightarrow> LlmError + LlmClassification" where
  "openai_classify from_str stream_request model prompt =
     (case stream_request (llm_request model prompt) of
        Inl e \<Rightarrow> Err (LTransport e)
      | Inr events \<Rightarrow>
          rbind (collect_stream events [] []) (\<lambda>(text, final_message_text).
            let raw = (if trim text = [] then final_message_text else text)
            in parse_llm_classification from_str raw))"

section \<open>Lemmas\<close>

subsection \<open>Building the rules\<close>

text \<open>The meaning of a raw rule: when it is accepted, and what is kept of it.\<close>

definition raw_rule_ok :: "regex_new \<Rightarrow> RawRule \<Rightarrow> bool" where
  "raw_rule_ok regex_new r \<longleftrightarrow>
     trim (rr_name r) \<noteq> [] \<and> rr_patterns r \<noteq> [] \<and>
     (rr_action r = ''delegate'' \<or> rr_action r = ''no_delegate'') \<and>
     list_all (\<lambda>p. is_ok (regex_new p)) (rr_patterns r)"

definition rule_of :: "RawRule \<Rightarrow> Rule \<Rightarrow> bool" where
  "rule_of raw r \<longleftrightarrow>
     rule_name r = trim (rr_name raw) \<and>
     rule_action r = (if rr_action raw = ''delegate'' then RDelegate else RNoDelegate) \<and>
     map vr_source (rule_patterns r) = rr_patterns raw"

lemma collect_result_map_ok:
  "(\<exists>ys. collect_result (map f xs) = Inr ys) \<longleftrightarrow> list_all (\<lambda>x. is_ok (f x)) xs"
proof (induction xs)
  case (Cons x xs)
  then show ?case by (cases "f x") (auto simp: rbind_Inr_iff)
qed simp

lemma list_all_enumerate: "list_all (\<lambda>(i, x). P x) (List.enumerate n xs) \<longleftrightarrow> list_all P xs"
  by (induction xs arbitrary: n) auto

lemma list_all2_enumerate: "list_all2 (\<lambda>(i, x) y. P x y) (List.enumerate n xs) ys \<longleftrightarrow> list_all2 P xs ys"
  by (induction xs arbitrary: n ys) (auto simp: list_all2_Cons1)

lemma collect_result_list_all2:
  "collect_result (map f xs) = Inr ys \<Longrightarrow> list_all2 (\<lambda>x y. f x = Inr y) xs ys"
  by (simp add: collect_result_Inr list_all2_conv_all_nth list_eq_iff_nth_eq)

lemma compile_pattern:
  "is_ok (case ValidatedRegex_new regex_new p of Inl s \<Rightarrow> Err (e s) | Inr v \<Rightarrow> Ok v) \<longleftrightarrow>
     is_ok (regex_new p)"
  "(case ValidatedRegex_new regex_new p of Inl s \<Rightarrow> Err (e s) | Inr v \<Rightarrow> Ok v) = Ok v \<Longrightarrow> vr_source v = p"
  by (auto simp: ValidatedRegex_new_def rbind_def split: sum.splits)

lemma compile_patterns_ok:
  "(\<exists>vs. collect_result
     (map (\<lambda>(i, p). case ValidatedRegex_new regex_new p of Inl s \<Rightarrow> Err (E i s) | Inr v \<Rightarrow> Ok v)
        (List.enumerate n ps)) = Inr vs) \<longleftrightarrow> list_all (\<lambda>p. is_ok (regex_new p)) ps"
proof -
  have "(\<lambda>x. is_ok (case x of (i, p) \<Rightarrow>
           case ValidatedRegex_new regex_new p of Inl s \<Rightarrow> Err (E i s) | Inr v \<Rightarrow> Ok v)) =
        (\<lambda>(i, p). is_ok (regex_new p))"
    by (auto simp: fun_eq_iff compile_pattern(1))
  then show ?thesis by (simp only: collect_result_map_ok list_all_enumerate)
qed

lemma compile_patterns_sources:
  assumes "collect_result
     (map (\<lambda>(i, p). case ValidatedRegex_new regex_new p of Inl s \<Rightarrow> Err (E i s) | Inr v \<Rightarrow> Ok v)
        (List.enumerate n ps)) = Inr vs"
  shows "map vr_source vs = ps"
proof -
  have "list_all2 (\<lambda>(i, p) v. vr_source v = p) (List.enumerate n ps) vs"
    by (rule list_all2_mono [OF collect_result_list_all2 [OF assms]])
      (auto dest: compile_pattern(2))
  then have "list_all2 (\<lambda>p v. vr_source v = p) ps vs" by (simp add: list_all2_enumerate)
  then show ?thesis by (auto simp: list_all2_conv_all_nth list_eq_iff_nth_eq)
qed

lemma Rule_from_raw_ok_iff:
  "is_ok (Rule_from_raw regex_new i raw) \<longleftrightarrow> raw_rule_ok regex_new raw"
proof -
  have "is_ok (Rule_from_raw regex_new i raw) \<longleftrightarrow>
     trim (rr_name raw) \<noteq> [] \<and> rr_patterns raw \<noteq> [] \<and>
     (rr_action raw = ''delegate'' \<or> rr_action raw = ''no_delegate'') \<and>
     (\<exists>vs. collect_result
        (map (\<lambda>(i, p). case ValidatedRegex_new regex_new p of
                         Inl s \<Rightarrow> Err (InvalidRulePattern (trim (rr_name raw)) i s) | Inr v \<Rightarrow> Ok v)
           (List.enumerate 0 (rr_patterns raw))) = Inr vs)"
    by (auto simp: Rule_from_raw_def RuleAction_from_str_def Let_def rbind_def is_ok_def
        split: sum.splits if_splits)
  then show ?thesis by (simp add: raw_rule_ok_def compile_patterns_ok)
qed

lemma Rule_from_raw_rule_of:
  assumes "Rule_from_raw regex_new i raw = Ok r"
  shows "rule_of raw r"
  using assms
  by (auto simp: Rule_from_raw_def RuleAction_from_str_def Let_def rbind_Inr_iff rule_of_def
      split: if_splits dest: compile_patterns_sources)

lemma from_raw_accepts:
  "(is_ok (from_raw regex_new raw) \<longleftrightarrow>
      rf_version raw = SUPPORTED_RULES_VERSION \<and> list_all (raw_rule_ok regex_new) (rf_rules raw)) \<and>
   (\<forall>c. from_raw regex_new raw = Ok c \<longrightarrow> list_all2 rule_of (rf_rules raw) (rules c))"
proof (intro conjI allI impI)
  have "is_ok (from_raw regex_new raw) \<longleftrightarrow> rf_version raw = SUPPORTED_RULES_VERSION \<and>
     (\<exists>rs. collect_result (map (\<lambda>(i, r). Rule_from_raw regex_new i r)
             (List.enumerate 0 (rf_rules raw))) = Inr rs)"
    by (auto simp: from_raw_def rbind_def is_ok_def split: sum.splits)
  also have "\<dots> \<longleftrightarrow> rf_version raw = SUPPORTED_RULES_VERSION \<and>
      list_all (\<lambda>(i, r). raw_rule_ok regex_new r) (List.enumerate 0 (rf_rules raw))"
    by (simp add: collect_result_map_ok case_prod_beta' Rule_from_raw_ok_iff)
  finally show "is_ok (from_raw regex_new raw) \<longleftrightarrow>
      rf_version raw = SUPPORTED_RULES_VERSION \<and> list_all (raw_rule_ok regex_new) (rf_rules raw)"
    by (simp add: list_all_enumerate)
next
  fix c assume "from_raw regex_new raw = Ok c"
  then have "list_all2 (\<lambda>x r. (case x of (i, raw) \<Rightarrow> Rule_from_raw regex_new i raw) = Ok r)
       (List.enumerate 0 (rf_rules raw)) (rules c)"
    by (auto simp: from_raw_def rbind_Inr_iff split: if_splits dest: collect_result_list_all2)
  then have "list_all2 (\<lambda>(i, raw) r. rule_of raw r) (List.enumerate 0 (rf_rules raw)) (rules c)"
    by (rule list_all2_mono) (auto dest: Rule_from_raw_rule_of)
  then show "list_all2 rule_of (rf_rules raw) (rules c)" by (simp add: list_all2_enumerate)
qed

text \<open>The shipped rules are well formed, whatever the regex engine.\<close>

definition default_rule_wf :: "RawRule \<Rightarrow> bool" where
  "default_rule_wf r \<longleftrightarrow>
     trim (rr_name r) = rr_name r \<and> rr_name r \<noteq> [] \<and> rr_patterns r \<noteq> [] \<and>
     (rr_action r = ''delegate'' \<or> rr_action r = ''no_delegate'')"

lemma default_rules_wf:
  "rf_version default_rules = SUPPORTED_RULES_VERSION" "list_all default_rule_wf (rf_rules default_rules)"
  by code_simp+

lemma default_rules_table:
  "map (\<lambda>r. (rr_name r, if rr_action r = ''delegate'' then RDelegate else RNoDelegate))
     (rf_rules default_rules) =
       [(''implement_function'', RDelegate), (''write_tests'', RDelegate),
        (''translate_code'', RDelegate), (''mechanical_refactor'', RDelegate),
        (''design_arch'', RNoDelegate), (''debug_complex'', RNoDelegate),
        (''security'', RNoDelegate), (''external_integration'', RNoDelegate)]"
  by code_simp

lemma from_raw_default_rules:
  assumes "\<And>p. is_ok (regex_new p)"
  obtains c where "from_raw regex_new default_rules = Ok c"
    and "map (\<lambda>r. (rule_name r, rule_action r)) (rules c) =
           map (\<lambda>r. (rr_name r, if rr_action r = ''delegate'' then RDelegate else RNoDelegate))
             (rf_rules default_rules)"
proof -
  have "list_all (raw_rule_ok regex_new) (rf_rules default_rules)"
    using default_rules_wf(2)
    by (auto simp: list_all_iff raw_rule_ok_def default_rule_wf_def assms)
  then have "is_ok (from_raw regex_new default_rules)"
    using from_raw_accepts [of regex_new default_rules] default_rules_wf(1) by simp
  then obtain c where c: "from_raw regex_new default_rules = Ok c"
    by (auto simp: is_ok_def split: sum.splits)
  then have "list_all2 rule_of (rf_rules default_rules) (rules c)"
    using from_raw_accepts by blast
  moreover have "trim (rr_name raw) = rr_name raw" if "raw \<in> set (rf_rules default_rules)" for raw
    using default_rules_wf(2) that by (auto simp: list_all_iff default_rule_wf_def)
  ultimately have "map (\<lambda>r. (rule_name r, rule_action r)) (rules c) =
      map (\<lambda>r. (rr_name r, if rr_action r = ''delegate'' then RDelegate else RNoDelegate))
        (rf_rules default_rules)"
    by (auto simp: list_all2_conv_all_nth list_eq_iff_nth_eq rule_of_def)
  with c that show thesis by blast
qed

lemma ship_defaults_fresh:
  assumes "rfs_create_dir_all fs home f = (Ok (), f1)"
    and "rfs_create_new fs (rules_path home) f1 = (Ok (), f2)"
    and "rfs_write fs (rules_path home) DEFAULT_RULES_TOML f2 = (Ok (), f3)"
  shows "ship_defaults_if_missing fs home f = (Ok True, f3)"
  using assms by (simp add: ship_defaults_if_missing_def Let_def)

subsection \<open>First match wins\<close>

definition quoted_rule :: "Rule \<Rightarrow> string" where
  "quoted_rule r = ''matched rule '' @ [CHR 0x27] @ rule_name r @ [CHR 0x27]"

definition rule_outcome :: "uuid \<Rightarrow> nat \<Rightarrow> Rule \<Rightarrow> string \<Rightarrow> ClassificationOutcome" where
  "rule_outcome u now r prompt =
     (case (rule_action r, new_bare u now prompt) of
        (RDelegate, Inr spec) \<Rightarrow> Delegate spec (quoted_rule r) (Some (rule_name r))
      | (RDelegate, Inl _) \<Rightarrow>
          PassThrough (quoted_rule r @ '', but intent was invalid'') (Some (rule_name r))
      | (RNoDelegate, _) \<Rightarrow> PassThrough (quoted_rule r) (Some (rule_name r)))"

lemma classify_rules_find:
  "classify_rules u now rs prompt =
     (case List.find (\<lambda>r. rule_matches r prompt) rs of
        None \<Rightarrow> PassThrough ''no rule matched (LLM fallback in commit 7)'' None
      | Some r \<Rightarrow> rule_outcome u now r prompt)"
  by (induction rs)
    (auto simp: rule_outcome_def quoted_rule_def split: RuleAction.splits sum.splits)

lemma rule_outcome_named: "\<not> should_use_llm_fallback (rule_outcome u now r prompt)"
  by (auto simp: rule_outcome_def should_use_llm_fallback_def split: RuleAction.splits sum.splits)

lemma no_match_uses_fallback:
  "should_use_llm_fallback (PassThrough ''no rule matched (LLM fallback in commit 7)'' None)"
  by (simp add: should_use_llm_fallback_def str_contains_def)

lemma should_use_llm_fallback_iff:
  "should_use_llm_fallback (rules_classify u now c prompt) \<longleftrightarrow>
     \<not> list_ex (\<lambda>r. rule_matches r prompt) (rules c)"
  by (auto simp: rules_classify_def classify_rules_find find_None_iff list_ex_iff
      no_match_uses_fallback rule_outcome_named find_Some_iff split: option.splits)

subsection \<open>Delegated specifications\<close>

definition outcome_valid :: "string \<Rightarrow> ClassificationOutcome \<Rightarrow> bool" where
  "outcome_valid prompt out =
     (case out of
        Delegate spec _ _ \<Rightarrow> validate spec = Ok () \<and> intent spec = prompt
      | PassThrough _ _ \<Rightarrow> True)"

lemma new_bare_valid: "new_bare u now i = Inr spec \<Longrightarrow> validate spec = Ok () \<and> intent spec = i"
  using new_bare_spec_ok [of u now i spec] by (auto simp: validate_iff new_bare_Inr)

lemma rule_outcome_valid: "outcome_valid prompt (rule_outcome u now r prompt)"
  by (auto simp: outcome_valid_def rule_outcome_def new_bare_valid
      split: RuleAction.splits sum.splits)

lemma llm_outcome_valid: "outcome_valid prompt (classification_outcome_for_llm u now prompt b h)"
  by (auto simp: outcome_valid_def classification_outcome_for_llm_def Let_def new_bare_valid
      split: sum.splits)

lemma into_trace_outcome: "outcome_valid prompt (ct_outcome (into_trace st))"
  by (auto simp: outcome_valid_def into_trace_def unavailable_trace_def
      disabled_trace_with_error_def split: DisabledLlmFallbackKind.splits)

lemma llm_classify_valid:
  "outcome_valid prompt (ct_outcome (fst (llm_classify ops client u now prompt c w)))"
  by (auto simp: llm_classify_def Let_def into_trace_outcome llm_outcome_valid
      split: prod.splits option.splits sum.splits)
    (simp_all add: outcome_valid_def unavailable_trace_def)

lemma rules_classify_valid: "outcome_valid prompt (rules_classify u now c prompt)"
  by (auto simp: rules_classify_def classify_rules_find rule_outcome_valid split: option.splits)
    (simp add: outcome_valid_def)

subsection \<open>The stream\<close>

lemma collect_stream_Ok:
  "collect_stream evs t f = Ok (text, final_text) \<longleftrightarrow>
     list_all is_ok evs \<and>
     text = t @ concat [d. Inr (OutputTextDelta d) \<leftarrow> evs] \<and>
     final_text = f @ concat (concat [items. Inr (OutputMessageDone items) \<leftarrow> evs])"
  by (induction evs t f rule: collect_stream.induct) auto

lemma parse_llm_classification_Ok:
  "parse_llm_classification from_str raw = Ok cl \<Longrightarrow> in_unit_interval (confidence cl)"
  by (auto simp: parse_llm_classification_def split: sum.splits if_splits)

section \<open>A concrete classifier\<close>

text \<open>
  An engine of regular expressions that are plain words, a home directory with at most one file, a
  parser that knows the shipped rules, a cache without eviction, and a client with a fixed answer.
\<close>

definition word_engine :: regex_new where
  "word_engine p =
     Ok \<lparr>re_is_match = (\<lambda>s. str_contains s p),
         re_find = (\<lambda>s. map_option (\<lambda>i. (i, i + length p)) (str_find p s))\<rparr>"

definition one_file_fs :: "string option rules_fs" where
  "one_file_fs =
     \<lparr>rfs_create_dir_all = (\<lambda>_ f. (Ok (), f)),
      rfs_create_new = (\<lambda>_ f. case f of None \<Rightarrow> (Ok (), Some []) | Some _ \<Rightarrow> (Err (True, ''exists''), f)),
      rfs_write = (\<lambda>_ c f. (Ok (), Some c)),
      rfs_read = (\<lambda>_ f. (case f of None \<Rightarrow> Err ''missing'' | Some c \<Rightarrow> Ok c, f))\<rparr>"

definition demo_raw :: RawRulesFile where
  "demo_raw =
     \<lparr>rf_version = 1,
      rf_rules = [\<lparr>rr_name = '' tests '', rr_action = ''delegate'', rr_patterns = [''test'']\<rparr>,
                  \<lparr>rr_name = ''design'', rr_action = ''no_delegate'', rr_patterns = [''design'', ''api'']\<rparr>]\<rparr>"

definition demo_rules :: RulesClassifier where
  "demo_rules = (case from_raw word_engine demo_raw of Inr c \<Rightarrow> c | Inl _ \<Rightarrow> \<lparr>rules = []\<rparr>)"

definition alist_cache :: "(string \<times> bool) list lru_ops" where
  "alist_cache =
     \<lparr>lru_new = (\<lambda>_. []), lru_get = (\<lambda>k c. (map_of c k, c)), lru_put = (\<lambda>k v c. (k, v) # c)\<rparr>"

definition demo_fallback :: "(string \<times> bool) list LlmFallbackClassifier" where
  "demo_fallback = LlmFallbackClassifier_new alist_cache LlmFallbackConfig_default"

definition demo_answer :: LlmClassification where
  "demo_answer = \<lparr>should_delegate = True, confidence = Fin 1 1, reasoning = ''clear''\<rparr>"

definition demo_client :: "nat llm_client" where
  "demo_client timeout prompt w = (Some (Ok demo_answer), Suc w)"

definition timeout_client :: "nat llm_client" where
  "timeout_client timeout prompt w = (None, Suc w)"

section \<open>Properties\<close>

text \<open>
  \<open>from_raw\<close> accepts a rules file exactly when its version is the supported one and every rule
  has a name, a known action, at least one pattern, and patterns that compile; the classifier then
  has the rules in file order with their trimmed names, actions and patterns.
\<close>

theorem from_raw_accepts_iff:
  "(is_ok (from_raw regex_new raw) \<longleftrightarrow>
      rf_version raw = SUPPORTED_RULES_VERSION \<and> list_all (raw_rule_ok regex_new) (rf_rules raw)) \<and>
   (\<forall>c. from_raw regex_new raw = Ok c \<longrightarrow> list_all2 rule_of (rf_rules raw) (rules c))"
  by (rule from_raw_accepts)

theorem from_raw_accepts_iff_witness:
  "is_ok (from_raw word_engine demo_raw) \<and> list_all2 rule_of (rf_rules demo_raw) (rules demo_rules)"
proof -
  have v: "rf_version demo_raw = SUPPORTED_RULES_VERSION \<and>
      list_all (raw_rule_ok word_engine) (rf_rules demo_raw)" by code_simp
  with from_raw_accepts_iff [of word_engine demo_raw] have o: "is_ok (from_raw word_engine demo_raw)" by blast
  then have "from_raw word_engine demo_raw = Ok demo_rules"
    by (cases "from_raw word_engine demo_raw") (simp_all add: demo_rules_def)
  with o from_raw_accepts_iff [of word_engine demo_raw] show ?thesis by blast
qed

text \<open>
  On a home without a rules file and a file system that works, \<open>from_default_path\<close> writes the
  shipped text and builds the eight shipped rules, four that delegate before four that do not, for
  every regex engine that accepts their patterns and every parser that reads the shipped text as
  the value it denotes.
\<close>

theorem from_default_path_ships_defaults:
  assumes "rfs_create_dir_all fs home f = (Ok (), f1)"
    and "rfs_create_new fs (rules_path home) f1 = (Ok (), f2)"
    and "rfs_write fs (rules_path home) DEFAULT_RULES_TOML f2 = (Ok (), f3)"
    and "rfs_read fs (rules_path home) f3 = (Ok DEFAULT_RULES_TOML, f4)"
    and "toml DEFAULT_RULES_TOML = Ok default_rules"
    and "\<And>p. is_ok (regex_new p)"
  shows "\<exists>c. from_default_path fs toml regex_new home f = (Ok c, f4) \<and>
     map (\<lambda>r. (rule_name r, rule_action r)) (rules c) =
       [(''implement_function'', RDelegate), (''write_tests'', RDelegate),
        (''translate_code'', RDelegate), (''mechanical_refactor'', RDelegate),
        (''design_arch'', RNoDelegate), (''debug_complex'', RNoDelegate),
        (''security'', RNoDelegate), (''external_integration'', RNoDelegate)]"
proof -
  note ship = ship_defaults_fresh [OF assms(1-3)]
  obtain c where c: "from_raw regex_new default_rules = Ok c"
    "map (\<lambda>r. (rule_name r, rule_action r)) (rules c) =
       map (\<lambda>r. (rr_name r, if rr_action r = ''delegate'' then RDelegate else RNoDelegate))
         (rf_rules default_rules)"
    by (rule from_raw_default_rules [OF assms(6)])
  have p: "from_default_path fs toml regex_new home f = (Ok c, f4)"
    using ship assms(4,5) c(1) by (simp add: from_default_path_def Let_def)
  show ?thesis
    by (rule exI [of _ c], rule conjI, rule p, rule c(2) [unfolded default_rules_table])
qed

theorem from_default_path_ships_defaults_witness:
  "\<exists>c. from_default_path one_file_fs (\<lambda>_. Ok default_rules) word_engine ''/h'' None =
         (Ok c, Some DEFAULT_RULES_TOML)"
proof -
  have h: "rfs_create_dir_all one_file_fs ''/h'' None = (Ok (), None)"
    "rfs_create_new one_file_fs (rules_path ''/h'') None = (Ok (), Some [])"
    "rfs_write one_file_fs (rules_path ''/h'') DEFAULT_RULES_TOML (Some []) = (Ok (), Some DEFAULT_RULES_TOML)"
    "rfs_read one_file_fs (rules_path ''/h'') (Some DEFAULT_RULES_TOML) =
       (Ok DEFAULT_RULES_TOML, Some DEFAULT_RULES_TOML)"
    by (simp_all add: one_file_fs_def)
  have r: "is_ok (word_engine p)" for p by (simp add: word_engine_def)
  obtain c where "from_default_path one_file_fs (\<lambda>_. Ok default_rules) word_engine ''/h'' None =
      (Ok c, Some DEFAULT_RULES_TOML)"
    using from_default_path_ships_defaults [OF h refl, where regex_new = word_engine, OF r] by blast
  then show ?thesis by (rule exI)
qed

text \<open>
  First match wins, and the model is only consulted when no rule matches. If some rule
  matches, the outcome of \<open>classify_with_fallback\<close> is that of the first such rule, and neither
  the cache nor the outside world is touched; otherwise the result is that of the model fallback.
\<close>

theorem classify_first_match_wins:
  "classify_with_fallback ops client u now (rules_classify u now rc) fb prompt w =
     (case List.find (\<lambda>r. rule_matches r prompt) (rules rc) of
        Some r \<Rightarrow>
          (\<lparr>ct_outcome = rule_outcome u now r prompt, ct_llm_model = None, ct_llm_confidence = None,
            ct_llm_reasoning = None, ct_llm_error = None, ct_cache_hit = False\<rparr>, fb, w)
      | None \<Rightarrow> llm_classify ops client u now prompt fb w)"
  using rule_outcome_named no_match_uses_fallback
  by (auto simp: classify_with_fallback_def rules_classify_def classify_rules_find Let_def
      split: option.splits)

text \<open>
  C38. Every specification that classification delegates is valid and has the prompt as its
  intent, whatever the rules, the model and the cache answer.
\<close>

theorem delegated_spec_valid:
  assumes "ct_outcome (fst (classify_with_fallback ops client u now (rules_classify u now rc) fb
             prompt w)) = Delegate spec reason rn"
  shows "validate spec = Ok () \<and> intent spec = prompt"
proof -
  have "outcome_valid prompt (ct_outcome (fst (classify_with_fallback ops client u now
          (rules_classify u now rc) fb prompt w)))"
    by (simp add: classify_with_fallback_def Let_def llm_classify_valid rules_classify_valid)
  with assms show ?thesis by (simp add: outcome_valid_def)
qed

theorem delegated_spec_valid_witness:
  "\<exists>spec reason. ct_outcome (fst (classify_with_fallback alist_cache demo_client ''id'' 0
       (rules_classify ''id'' 0 demo_rules) demo_fallback ''write a test'' 0)) =
     Delegate spec reason (Some ''tests'') \<and> validate spec = Ok () \<and> intent spec = ''write a test''"
proof -
  let ?o = "ct_outcome (fst (classify_with_fallback alist_cache demo_client ''id'' 0
       (rules_classify ''id'' 0 demo_rules) demo_fallback ''write a test'' 0))"
  have "co_rule_name ?o = Some ''tests''" by code_simp
  moreover have "\<exists>spec reason rn. ?o = Delegate spec reason rn"
  proof (cases ?o)
    case (PassThrough reason rn)
    moreover have "case ?o of Delegate _ _ _ \<Rightarrow> True | PassThrough _ _ \<Rightarrow> False" by code_simp
    ultimately show ?thesis by simp
  qed blast
  ultimately obtain spec reason where o: "?o = Delegate spec reason (Some ''tests'')" by auto
  from delegated_spec_valid [OF o] o show ?thesis by blast
qed

text \<open>
  The cache of the fallback. After the model answered, asking again for the same prompt hits
  the cache, for every client: it gives the same verdict, does not call the client (the world is
  unchanged), and reports the hit. The hypothesis on the \<open>lru\<close> crate is that a value just put is
  the one found.
\<close>

theorem llm_cache_hit:
  assumes "\<And>k v c. fst (lru_get ops k (lru_put ops k v c)) = Some v"
    and "cfg_enabled (fb_config fb)"
    and "fst (lru_get ops prompt (fb_cache fb)) = None"
    and "client (cfg_timeout_ms (fb_config fb)) prompt w = (Some (Ok cl), w1)"
    and "llm_classify ops client u now prompt fb w = (trace, fb', w')"
  shows "ct_outcome trace = classification_outcome_for_llm u now prompt (should_delegate cl) False \<and>
         (\<exists>fb''. llm_classify ops client2 u2 now2 prompt fb' w2 =
           (\<lparr>ct_outcome = classification_outcome_for_llm u2 now2 prompt (should_delegate cl) True,
             ct_llm_model = Some (cfg_model (fb_config fb)), ct_llm_confidence = None,
             ct_llm_reasoning = None, ct_llm_error = None, ct_cache_hit = True\<rparr>, fb'', w2))"
proof -
  obtain cache1 where g: "lru_get ops prompt (fb_cache fb) = (None, cache1)"
    using assms(3) by (metis prod.collapse)
  have t: "ct_outcome trace = classification_outcome_for_llm u now prompt (should_delegate cl) False"
    and fb': "fb' = fb\<lparr>fb_cache := lru_put ops prompt (should_delegate cl) cache1\<rparr>"
    using assms(2,4,5) g by (auto simp: llm_classify_def)
  obtain cache2 where "lru_get ops prompt (fb_cache fb') = (Some (should_delegate cl), cache2)"
    using assms(1) [of prompt "should_delegate cl" cache1] by (metis fb' prod.collapse
        LlmFallbackClassifier.select_convs(1) LlmFallbackClassifier.surjective
        LlmFallbackClassifier.update_convs(1))
  with t fb' assms(2) show ?thesis by (simp add: llm_classify_def)
qed

theorem llm_cache_hit_witness:
  "\<exists>fb'' w2. llm_classify alist_cache timeout_client ''id'' 0 ''x''
        (fst (snd (llm_classify alist_cache demo_client ''id'' 0 ''x'' demo_fallback 0))) 5 =
      (\<lparr>ct_outcome = classification_outcome_for_llm ''id'' 0 ''x'' True True,
        ct_llm_model = Some ''gpt-5.4'', ct_llm_confidence = None,
        ct_llm_reasoning = None, ct_llm_error = None, ct_cache_hit = True\<rparr>, fb'', 5)"
proof -
  have l: "fst (lru_get alist_cache k (lru_put alist_cache k v c)) = Some v" for k v c
    by (simp add: alist_cache_def)
  have e: "cfg_enabled (fb_config demo_fallback)" "cfg_model (fb_config demo_fallback) = ''gpt-5.4''"
    by (simp_all add: demo_fallback_def LlmFallbackClassifier_new_def LlmFallbackConfig_default_def)
  have g: "fst (lru_get alist_cache ''x'' (fb_cache demo_fallback)) = None"
    by (simp add: demo_fallback_def LlmFallbackClassifier_new_def alist_cache_def)
  obtain t fb' w' where c: "llm_classify alist_cache demo_client ''id'' 0 ''x'' demo_fallback 0 = (t, fb', w')"
    by (metis prod_cases3)
  have d: "should_delegate demo_answer" by (simp add: demo_answer_def)
  note h = llm_cache_hit [where ops = alist_cache, OF l e(1) g
      demo_client_def [of "cfg_timeout_ms (fb_config demo_fallback)"] c,
      of timeout_client "''id''" 0 5]
  from h d e(2) show ?thesis unfolding c by auto
qed

text \<open>
  A fallback that is disabled, fails or times out never delegates: the outcome is to pass the
  prompt through, with the error in the trace.
\<close>

theorem llm_failure_passes_through:
  assumes "ct_llm_error (fst (llm_classify ops client u now prompt fb w)) \<noteq> None"
  shows "\<exists>reason. ct_outcome (fst (llm_classify ops client u now prompt fb w)) = PassThrough reason None"
  using assms
  by (auto simp: llm_classify_def Let_def into_trace_def unavailable_trace_def
      disabled_trace_with_error_def
      split: prod.splits option.splits sum.splits if_splits DisabledLlmFallbackKind.splits)

theorem llm_failure_passes_through_witness:
  "\<exists>reason. ct_outcome (fst (llm_classify alist_cache timeout_client ''id'' 0 ''x'' demo_fallback 0)) =
     PassThrough reason None"
proof -
  have "ct_llm_error (fst (llm_classify alist_cache timeout_client ''id'' 0 ''x'' demo_fallback 0)) \<noteq> None"
    by (simp add: llm_classify_def alist_cache_def timeout_client_def demo_fallback_def
        LlmFallbackClassifier_new_def LlmFallbackConfig_default_def unavailable_trace_def)
  then show ?thesis by (rule llm_failure_passes_through)
qed

text \<open>
  What the OpenAI client accepts: the stream had no error, the parsed text is the
  concatenation of the deltas (or, when that is blank, of the finished messages), and the
  confidence lies between 0 and 1.
\<close>

theorem openai_classify_Ok:
  assumes "openai_classify from_str stream_request model prompt = Ok cl"
  shows "\<exists>evs raw. stream_request (llm_request model prompt) = Ok evs \<and> list_all is_ok evs \<and>
     raw = (if trim (concat [d. Inr (OutputTextDelta d) \<leftarrow> evs]) = []
            then concat (concat [items. Inr (OutputMessageDone items) \<leftarrow> evs])
            else concat [d. Inr (OutputTextDelta d) \<leftarrow> evs]) \<and>
     from_str raw = Ok cl \<and> in_unit_interval (confidence cl)"
  using assms
  by (auto simp: openai_classify_def rbind_Inr_iff collect_stream_Ok parse_llm_classification_def
      split: sum.splits if_splits)

theorem openai_classify_Ok_witness:
  "openai_classify (\<lambda>_. Ok demo_answer) (\<lambda>_. Ok [Ok (OutputTextDelta ''{}''), Ok OtherEvent]) ''m'' ''p'' =
     Ok demo_answer \<and> in_unit_interval (confidence demo_answer)"
proof -
  have o: "openai_classify (\<lambda>_. Ok demo_answer) (\<lambda>_. Ok [Ok (OutputTextDelta ''{}''), Ok OtherEvent]) ''m'' ''p'' =
     Ok demo_answer"
    by (simp add: openai_classify_def parse_llm_classification_def demo_answer_def in_unit_interval_def
        f32_is_finite_def Let_def)
  from openai_classify_Ok [OF o] o show ?thesis by blast
qed

end
