(* ===== verification/Orch_Audit.thy ===== *)
theory Orch_Audit
  imports Orch_Traits
begin

text \<open>
  The auditors of \<open>audit.rs\<close>. \<open>PatternAuditor\<close> evaluates the acceptance criteria in the
  order forbidden patterns, output regexes, tests, custom scripts, and stops at the first one
  that fails.

  Clock readings, processes, \<open>String::from_utf8_lossy\<close> and the \<open>Display\<close> of a JSON value are
  the fields of \<open>proc_env\<close>; the first two change the world \<open>'w\<close>. The debugging output on
  stderr and the \<open>tracing\<close> events are left out.
\<close>

section \<open>The outside world of the auditor\<close>

datatype ProcResult =
  SpawnError string
| Output (po_code: "int option") (po_success: bool) (po_stdout: string) (po_stderr: string)
| WaitError string
| Elapsed

record 'w proc_env =
  env_now :: "'w \<Rightarrow> nat \<times> 'w"
  env_spawn :: "string \<Rightarrow> string list \<Rightarrow> string option \<Rightarrow> nat \<Rightarrow> 'w \<Rightarrow> ProcResult \<times> 'w"
  env_lossy :: "string \<Rightarrow> string"
  env_json_display :: "json \<Rightarrow> string"

definition elapsed_ms :: "nat \<Rightarrow> nat \<Rightarrow> u64" where
  "elapsed_ms started now = of_nat (now - started)"

section \<open>Reports\<close>

definition placeholder_audit :: "'w auditor" where
  "placeholder_audit spec ctx out w =
     (\<lparr>report_decision = AuditOk (''PlaceholderAuditor '' @ emdash @ '' no acceptance checks performed. ''
          @ ''Use PatternAuditor in production.''),
       criterion_results = []\<rparr>, w)"

definition format_blocking_issue :: "(json \<Rightarrow> string) \<Rightarrow> string \<Rightarrow> json \<Rightarrow> string" where
  "format_blocking_issue display label details =
     (let fallback = label @ '' failed: '' @ display details
      in if label = ''no_forbidden_patterns'' then
           (case Option.bind (json_get ''matches'' details) json_as_array of
              None \<Rightarrow> fallback
            | Some ms \<Rightarrow>
                if ms = [] then fallback
                else let summary =
                       List.map_filter (\<lambda>m.
                         case Option.bind (json_get ''pattern'' m) json_as_str of
                           None \<Rightarrow> None
                         | Some pat \<Rightarrow>
                             let snippet = (case Option.bind (json_get ''snippet'' m) json_as_str of
                                              None \<Rightarrow> ''<no snippet>'' | Some s \<Rightarrow> s)
                             in Some (''`'' @ pat @ ''` matched: '' @ snippet)) ms
                     in ''forbidden patterns matched: '' @ str_join ''; '' summary)
         else fallback)"

definition early_escalate ::
    "(json \<Rightarrow> string) \<Rightarrow> CriterionResult list \<Rightarrow> json \<Rightarrow> string \<Rightarrow> AuditReport" where
  "early_escalate display results details label =
     \<lparr>report_decision = AuditEscalate
        (label @ '' failed '' @ emdash @ '' manual intervention required'')
        (format_blocking_issue display label details),
      criterion_results = results\<rparr>"

definition early_retry ::
    "CriterionResult list \<Rightarrow> FailedCriterion \<Rightarrow> DelegationContext \<Rightarrow> AuditReport" where
  "early_retry results failed ctx =
     \<lparr>report_decision =
        AuditRetry \<lparr>failed_criteria = [failed]\<rparr> (saturating_add_u8 (attempt ctx) 1),
      criterion_results = results\<rparr>"

definition to_i32 :: "int option \<Rightarrow> int" where
  "to_i32 value =
     (case value of
        None \<Rightarrow> -1
      | Some v \<Rightarrow> if - (2 ^ 31) \<le> v \<and> v < 2 ^ 31 then v else -1)"

definition unwrap_str :: "json option \<Rightarrow> string" where
  "unwrap_str j = (case Option.bind j json_as_str of None \<Rightarrow> [] | Some s \<Rightarrow> s)"

definition output_name :: "nat \<Rightarrow> string" where
  "output_name idx = ''output_matches['' @ nat_str idx @ '']''"

definition custom_name :: "nat \<Rightarrow> string \<Rightarrow> string" where
  "custom_name idx name = ''custom['' @ nat_str idx @ '':'' @ name @ '']''"

definition failed_output_match :: "nat \<Rightarrow> ValidatedRegex \<Rightarrow> json \<Rightarrow> FailedCriterion" where
  "failed_output_match idx re details =
     \<lparr>fc_name = output_name idx, fc_kind = KOutputMatches,
      fc_details = FOutputMatches (vr_source re) (unwrap_str (json_get ''output_excerpt'' details))\<rparr>"

definition failed_tests_pass :: "TestSpec \<Rightarrow> json \<Rightarrow> FailedCriterion" where
  "failed_tests_pass test_spec details =
     \<lparr>fc_name = ''tests_pass'', fc_kind = KTestsPass,
      fc_details = FTestsPass
        (to_i32 (Option.bind (json_get ''exit_code'' details) json_as_i64))
        (take_chars 2048 (unwrap_str (json_get ''stderr'' details)))
        (test_command test_spec)\<rparr>"

definition failed_custom :: "nat \<Rightarrow> string \<Rightarrow> json \<Rightarrow> FailedCriterion" where
  "failed_custom idx name details =
     \<lparr>fc_name = custom_name idx name, fc_kind = KCustom,
      fc_details = FCustom
        (to_i32 (Option.bind (json_get ''exit_code'' details) json_as_i64))
        (take_chars 2048 (unwrap_str (json_get ''stderr'' details)))\<rparr>"

section \<open>Single checks\<close>

definition truncated_text :: "string \<Rightarrow> string" where
  "truncated_text text = take_chars 2048 text"

text \<open>\<open>text.get(s..e)\<close>: defined only on character boundaries.\<close>

definition str_get :: "string \<Rightarrow> nat \<Rightarrow> nat \<Rightarrow> string option" where
  "str_get text s e =
     (if s \<le> e \<and> e \<le> length text \<and> char_boundary text s \<and> char_boundary text e
      then Some (take (e - s) (drop s text)) else None)"

definition snippet_around :: "string \<Rightarrow> nat \<Rightarrow> nat \<Rightarrow> nat \<Rightarrow> string" where
  "snippet_around text start stop context =
     (let s = start - context;
          e = min (stop + context) (length text);
          raw = (case str_get text s e of None \<Rightarrow> [] | Some r \<Rightarrow> r)
      in replace_char (CHR 0x0A) (bslash @ ''n'') raw)"

definition check_output_matches ::
    "'w proc_env \<Rightarrow> DispatchOutcome \<Rightarrow> nat \<Rightarrow> ValidatedRegex \<Rightarrow> 'w \<Rightarrow> CriterionResult \<times> 'w" where
  "check_output_matches env out idx re w =
     (let (started, w1) = env_now env w;
          matched = re_is_match (vr_compiled re) (response_text out);
          (now, w2) = env_now env w1
      in (\<lparr>cr_name = output_name idx, cr_passed = matched,
           cr_duration_ms = elapsed_ms started now,
           cr_details = JObj [(''regex'', JStr (vr_source re)), (''matched'', JBool matched),
                              (''output_excerpt'', JStr (truncated_text (response_text out)))]\<rparr>, w2))"

definition forbidden_match :: "string \<Rightarrow> ValidatedRegex \<Rightarrow> json option" where
  "forbidden_match text pattern =
     (case re_find (vr_compiled pattern) text of
        None \<Rightarrow> None
      | Some (m_start, m_end) \<Rightarrow>
          Some (JObj [(''pattern'', JStr (vr_source pattern)), (''match_start'', JNum (int m_start)),
                      (''match_end'', JNum (int m_end)),
                      (''snippet'', JStr (snippet_around text m_start m_end 80))]))"

definition check_no_forbidden_patterns ::
    "'w proc_env \<Rightarrow> DelegationSpec \<Rightarrow> DispatchOutcome \<Rightarrow> 'w \<Rightarrow> CriterionResult \<times> 'w" where
  "check_no_forbidden_patterns env spec out w =
     (let (started, w1) = env_now env w;
          ms = List.map_filter (forbidden_match (response_text out)) (forbidden_patterns spec);
          (now, w2) = env_now env w1
      in (\<lparr>cr_name = ''no_forbidden_patterns'', cr_passed = (ms = []),
           cr_duration_ms = elapsed_ms started now,
           cr_details = JObj [(''matches'', JArr ms)]\<rparr>, w2))"

definition run_subprocess ::
    "'w proc_env \<Rightarrow> string \<Rightarrow> string \<Rightarrow> string list \<Rightarrow> string option \<Rightarrow> nat \<Rightarrow> nat \<Rightarrow> 'w
       \<Rightarrow> CriterionResult \<times> 'w" where
  "run_subprocess env name bin args dir hard_timeout started w =
     (let (res, w1) = env_spawn env bin args dir hard_timeout w;
          (now, w2) = env_now env w1;
          result = (\<lambda>passed details. \<lparr>cr_name = name, cr_passed = passed,
                      cr_duration_ms = elapsed_ms started now, cr_details = JObj details\<rparr>)
      in (case res of
            SpawnError err \<Rightarrow> result False [(''error'', JStr (''spawn failed: '' @ err))]
          | Output code success out err \<Rightarrow>
              result success
                [(''exit_code'', JNum (case code of None \<Rightarrow> -1 | Some c \<Rightarrow> c)),
                 (''stdout'', JStr (take_chars 4096 (env_lossy env out))),
                 (''stderr'', JStr (take_chars 4096 (env_lossy env err)))]
          | WaitError err \<Rightarrow> result False [(''error'', JStr (''wait failed: '' @ err))]
          | Elapsed \<Rightarrow>
              result False [(''error'', JStr ''timeout''), (''timeout_ms'', JNum (int hard_timeout))],
          w2))"

definition run_test_spec ::
    "'w proc_env \<Rightarrow> TestSpec \<Rightarrow> nat \<Rightarrow> 'w \<Rightarrow> CriterionResult \<times> 'w" where
  "run_test_spec env test_spec hard_timeout w =
     (let (started, w1) = env_now env w
      in case test_command test_spec of
           [] \<Rightarrow> (\<lparr>cr_name = ''tests_pass'', cr_passed = False, cr_duration_ms = 0,
                   cr_details = JObj [(''error'', JStr ''empty command'')]\<rparr>, w1)
         | bin # args \<Rightarrow>
             run_subprocess env ''tests_pass'' bin args (test_working_dir test_spec) hard_timeout
               started w1)"

definition run_custom_script ::
    "'w proc_env \<Rightarrow> nat \<Rightarrow> nat \<Rightarrow> string \<Rightarrow> ScriptRef \<Rightarrow> 'w \<Rightarrow> CriterionResult \<times> 'w" where
  "run_custom_script env hard_timeout idx name script w =
     (let (started, w1) = env_now env w
      in run_subprocess env (custom_name idx name) (script_path script)
           (script_args script) None hard_timeout started w1)"

section \<open>PatternAuditor\<close>

definition DEFAULT_PROCESS_TIMEOUT :: nat where "DEFAULT_PROCESS_TIMEOUT = 30000"

text \<open>The loop that sorts the criteria by kind, keeping their indices in the specification.\<close>

fun sort_criteria ::
    "nat \<Rightarrow> AcceptanceCriterion list
       \<Rightarrow> bool \<times> (nat \<times> ValidatedRegex) list \<times> bool \<times> (nat \<times> string \<times> ScriptRef) list" where
  "sort_criteria idx [] = (False, [], False, [])"
| "sort_criteria idx (c # cs) =
     (let (has_no_forbidden, output_ms, has_tests_pass, customs) = sort_criteria (Suc idx) cs
      in case c of
           NoForbiddenPatterns \<Rightarrow> (True, output_ms, has_tests_pass, customs)
         | OutputMatches re \<Rightarrow> (has_no_forbidden, (idx, re) # output_ms, has_tests_pass, customs)
         | TestsPass \<Rightarrow> (has_no_forbidden, output_ms, True, customs)
         | Custom name check \<Rightarrow>
             (has_no_forbidden, output_ms, has_tests_pass, (idx, name, check) # customs))"

text \<open>
  A \<open>for\<close> loop whose body runs one check, records its result and returns from the function
  when the check failed: \<open>Inl\<close> is the early return, \<open>Inr\<close> the results so far.
\<close>

fun check_loop ::
    "('x \<Rightarrow> 'w \<Rightarrow> CriterionResult \<times> 'w) \<Rightarrow> ('x \<Rightarrow> json \<Rightarrow> CriterionResult list \<Rightarrow> AuditReport)
       \<Rightarrow> 'x list \<Rightarrow> CriterionResult list \<Rightarrow> 'w \<Rightarrow> (AuditReport + CriterionResult list) \<times> 'w" where
  "check_loop check on_fail [] results w = (Inr results, w)"
| "check_loop check on_fail (x # xs) results w =
     (let (result, w') = check x w; results' = results @ [result]
      in if \<not> cr_passed result then (Inl (on_fail x (cr_details result) results'), w')
         else check_loop check on_fail xs results' w')"

text \<open>What follows such a loop runs only when it did not return.\<close>

definition stage_bind ::
    "(AuditReport + CriterionResult list) \<times> 'w
       \<Rightarrow> (CriterionResult list \<Rightarrow> 'w \<Rightarrow> (AuditReport + CriterionResult list) \<times> 'w)
       \<Rightarrow> (AuditReport + CriterionResult list) \<times> 'w" where
  "stage_bind s f = (case s of (Inl report, w) \<Rightarrow> (Inl report, w) | (Inr results, w) \<Rightarrow> f results w)"

definition forbidden_stage where
  "forbidden_stage env spec out has_no_forbidden results w =
     check_loop (\<lambda>_. check_no_forbidden_patterns env spec out)
       (\<lambda>_ details results.
          early_escalate (env_json_display env) results details ''no_forbidden_patterns'')
       (if has_no_forbidden then [()] else []) results w"

definition outputs_stage where
  "outputs_stage env out ctx output_ms results w =
     check_loop (\<lambda>(idx, re). check_output_matches env out idx re)
       (\<lambda>(idx, re) details results. early_retry results (failed_output_match idx re details) ctx)
       output_ms results w"

definition tests_stage where
  "tests_stage env process_timeout spec ctx has_tests_pass results w =
     (if has_tests_pass then
        (case expected_tests spec of
           None \<Rightarrow>
             (Inl \<lparr>report_decision = AuditDrop
                (''TestsPass criterion present but expected_tests is None (spec validation failure)''),
                criterion_results = results\<rparr>, w)
         | Some test_spec \<Rightarrow>
             check_loop (\<lambda>t. run_test_spec env t process_timeout)
               (\<lambda>t details results. early_retry results (failed_tests_pass t details) ctx)
               [test_spec] results w)
      else (Inr results, w))"

definition customs_stage where
  "customs_stage env process_timeout ctx customs results w =
     check_loop (\<lambda>(idx, name, check). run_custom_script env process_timeout idx name check)
       (\<lambda>(idx, name, check) details results. early_retry results (failed_custom idx name details) ctx)
       customs results w"

definition pattern_audit :: "'w proc_env \<Rightarrow> nat \<Rightarrow> 'w auditor" where
  "pattern_audit env process_timeout spec ctx out w =
     (let (has_no_forbidden, output_ms, has_tests_pass, customs) =
            sort_criteria 0 (acceptance spec);
          s1 = forbidden_stage env spec out has_no_forbidden [] w;
          s2 = stage_bind s1 (outputs_stage env out ctx output_ms);
          s3 = stage_bind s2 (tests_stage env process_timeout spec ctx has_tests_pass);
          s4 = stage_bind s3 (customs_stage env process_timeout ctx customs)
      in case s4 of
           (Inl report, w') \<Rightarrow> (report, w')
         | (Inr results, w') \<Rightarrow>
             (\<lparr>report_decision = AuditOk
                 (if results = [] then ''no acceptance criteria configured; treating as pass-through Ok''
                  else ''all '' @ nat_str (length results) @ '' acceptance criteria passed''),
               criterion_results = results\<rparr>, w'))"

section \<open>Lemmas\<close>

subsection \<open>The loop over checks\<close>

lemma check_loop_cases:
  assumes nm: "\<And>x w. cr_name (fst (check x w)) = nm x"
  shows "case fst (check_loop check on_fail xs res w) of
      Inr res' \<Rightarrow> \<exists>rs. res' = res @ rs \<and> map cr_name rs = map nm xs \<and> list_all cr_passed rs
    | Inl rep \<Rightarrow> \<exists>ys x zs rs bad. xs = ys @ x # zs \<and> map cr_name rs = map nm ys \<and>
        list_all cr_passed rs \<and> cr_name bad = nm x \<and> \<not> cr_passed bad \<and>
        rep = on_fail x (cr_details bad) (res @ rs @ [bad])"
proof (induction xs arbitrary: res w)
  case (Cons x xs)
  obtain r w' where c: "check x w = (r, w')" by (cases "check x w") auto
  with nm [of x w] have name: "cr_name r = nm x" by simp
  show ?case
  proof (cases "cr_passed r")
    case False
    then show ?thesis
      using name by (simp add: c Let_def) (rule exI [of _ "[]"], rule exI [of _ x], auto)
  next
    case True
    show ?thesis
    proof (cases "fst (check_loop check on_fail xs (res @ [r]) w')")
      case (Inl rep)
      with Cons.IH [of "res @ [r]" w'] obtain ys y zs rs bad where
        "xs = ys @ y # zs" "map cr_name rs = map nm ys" "list_all cr_passed rs"
        "cr_name bad = nm y" "\<not> cr_passed bad"
        "rep = on_fail y (cr_details bad) ((res @ [r]) @ rs @ [bad])" by auto
      with True name Inl show ?thesis
        by (simp only: c Let_def prod.case check_loop.simps not_True_eq_False if_False sum.case)
           (rule exI [of _ "x # ys"], rule exI [of _ y], rule exI [of _ zs], rule exI [of _ "r # rs"],
            rule exI [of _ bad], simp)
    next
      case (Inr res')
      with Cons.IH [of "res @ [r]" w'] obtain rs where
        "res' = (res @ [r]) @ rs" "map cr_name rs = map nm xs" "list_all cr_passed rs" by auto
      with True name Inr show ?thesis by (auto simp: c intro!: exI [of _ "r # rs"])
    qed
  qed
qed simp

lemma check_loop_Inr_all:
  "fst (check_loop check on_fail xs res w) = Inr res' \<Longrightarrow>
   x \<in> set xs \<Longrightarrow> \<exists>w0. cr_passed (fst (check x w0))"
proof (induction xs arbitrary: res w)
  case (Cons y ys)
  obtain r w' where c: "check y w = (r, w')" by (cases "check y w") auto
  with Cons.prems(1) have "cr_passed r" by (auto simp: Let_def split: if_splits)
  show ?case
  proof (cases "x = y")
    case True
    with \<open>cr_passed r\<close> c show ?thesis by (intro exI [of _ w]) simp
  next
    case False
    with Cons.prems \<open>cr_passed r\<close> c show ?thesis by (auto simp: Let_def intro: Cons.IH)
  qed
qed simp

subsection \<open>Names and verdicts of the single checks\<close>

lemma check_no_forbidden_name [simp]:
  "cr_name (fst (check_no_forbidden_patterns env spec out w)) = ''no_forbidden_patterns''"
  by (simp add: check_no_forbidden_patterns_def Let_def split: prod.split)

lemma check_output_name [simp]:
  "cr_name (fst (check_output_matches env out idx re w)) = output_name idx"
  by (simp add: check_output_matches_def Let_def split: prod.split)

lemma run_subprocess_name [simp]:
  "cr_name (fst (run_subprocess env name bin args dir t started w)) = name"
  by (auto simp: run_subprocess_def Let_def split: prod.split ProcResult.split)

lemma run_test_spec_name [simp]: "cr_name (fst (run_test_spec env t timeout w)) = ''tests_pass''"
  by (auto simp: run_test_spec_def Let_def split: prod.split list.split)

lemma run_custom_script_name [simp]:
  "cr_name (fst (run_custom_script env timeout idx name script w)) =
     custom_name idx name"
  by (auto simp: run_custom_script_def Let_def split: prod.split)

lemma forbidden_match_None: "forbidden_match text p = None \<longleftrightarrow> re_find (vr_compiled p) text = None"
  by (simp add: forbidden_match_def split: option.split)

lemma check_no_forbidden_passed:
  "cr_passed (fst (check_no_forbidden_patterns env spec out w)) \<longleftrightarrow>
     list_all (\<lambda>p. re_find (vr_compiled p) (response_text out) = None) (forbidden_patterns spec)"
  by (simp add: check_no_forbidden_patterns_def Let_def map_filter_Nil_iff forbidden_match_None
      split: prod.split)

lemma check_output_passed:
  "cr_passed (fst (check_output_matches env out idx re w)) \<longleftrightarrow>
     re_is_match (vr_compiled re) (response_text out)"
  by (simp add: check_output_matches_def Let_def split: prod.split)

lemma run_subprocess_passed:
  "cr_passed (fst (run_subprocess env name bin args dir t started w)) \<longleftrightarrow>
     (\<exists>code o' e. fst (env_spawn env bin args dir t w) = Output code True o' e)"
  by (auto simp: run_subprocess_def Let_def split: prod.split ProcResult.split)

lemma run_test_spec_passed:
  "cr_passed (fst (run_test_spec env t timeout w)) \<Longrightarrow>
     \<exists>bin args w0 code o' e. test_command t = bin # args \<and>
       fst (env_spawn env bin args (test_working_dir t) timeout w0) = Output code True o' e"
  by (auto simp: run_test_spec_def Let_def run_subprocess_passed split: prod.splits list.splits)

lemma run_custom_script_passed:
  "cr_passed (fst (run_custom_script env timeout idx name script w)) \<Longrightarrow>
     \<exists>w0 code o' e. fst (env_spawn env (script_path script) (script_args script) None timeout w0)
                      = Output code True o' e"
  by (auto simp: run_custom_script_def Let_def run_subprocess_passed split: prod.splits)

subsection \<open>Sorting the criteria\<close>

lemma sort_criteria_eq:
  "sort_criteria idx cs =
     (NoForbiddenPatterns \<in> set cs,
      [(i, re). (i, OutputMatches re) \<leftarrow> List.enumerate idx cs],
      TestsPass \<in> set cs,
      [(i, name, check). (i, Custom name check) \<leftarrow> List.enumerate idx cs])"
  by (induction cs arbitrary: idx) (auto simp: Let_def split: AcceptanceCriterion.splits)

lemma enumerate_covers: "c \<in> set cs \<Longrightarrow> \<exists>i. (i, c) \<in> set (List.enumerate n cs)"
  by (metis imageE map_snd_enumerate list.set_map prod.collapse)

lemma sort_criteria_outputs:
  assumes "OutputMatches re \<in> set cs"
  shows "\<exists>i. (i, re) \<in> set (fst (snd (sort_criteria idx cs)))"
proof -
  from enumerate_covers [OF assms] obtain i where "(i, OutputMatches re) \<in> set (List.enumerate idx cs)" ..
  then show ?thesis by (force simp: sort_criteria_eq)
qed

lemma sort_criteria_customs:
  assumes "Custom name check \<in> set cs"
  shows "\<exists>i. (i, name, check) \<in> set (snd (snd (snd (sort_criteria idx cs))))"
proof -
  from enumerate_covers [OF assms] obtain i where "(i, Custom name check) \<in> set (List.enumerate idx cs)" ..
  then show ?thesis by (force simp: sort_criteria_eq)
qed

subsection \<open>The report of the pattern auditor\<close>

text \<open>The names of the criteria of a specification in the order of evaluation.\<close>

definition criterion_names :: "DelegationSpec \<Rightarrow> string list" where
  "criterion_names spec =
     (if NoForbiddenPatterns \<in> set (acceptance spec) then [''no_forbidden_patterns''] else [])
     @ [output_name i. (i, OutputMatches re) \<leftarrow> List.enumerate 0 (acceptance spec)]
     @ (if TestsPass \<in> set (acceptance spec) then [''tests_pass''] else [])
     @ [custom_name i name.
          (i, Custom name check) \<leftarrow> List.enumerate 0 (acceptance spec)]"

text \<open>
  What a report says: the evaluated criteria are an initial part of \<open>names\<close>; either all of
  them were evaluated and passed, or exactly the last one evaluated failed, and the verdict is
  the one the decision matrix gives to its kind.
\<close>

definition report_wf :: "string list \<Rightarrow> DelegationContext \<Rightarrow> AuditReport \<Rightarrow> bool" where
  "report_wf names ctx rep \<longleftrightarrow>
     (let rs = criterion_results rep
      in prefix (map cr_name rs) names \<and>
         (if list_all cr_passed rs
          then map cr_name rs = names \<and> (\<exists>r. report_decision rep = AuditOk r)
          else list_all cr_passed (butlast rs) \<and>
               (if cr_name (last rs) = ''no_forbidden_patterns''
                then \<exists>r b. report_decision rep = AuditEscalate r b
                else \<exists>fc. fc_name fc = cr_name (last rs) \<and>
                       report_decision rep = AuditRetry \<lparr>failed_criteria = [fc]\<rparr>
                         (saturating_add_u8 (attempt ctx) 1))))"

lemma report_wf_early_retry:
  assumes "names = map cr_name (rs @ [bad]) @ zs" and "list_all cr_passed rs" and "\<not> cr_passed bad"
    and "fc_name fc = cr_name bad" and "cr_name bad \<noteq> ''no_forbidden_patterns''"
  shows "report_wf names ctx (early_retry (rs @ [bad]) fc ctx)"
  using assms by (auto simp: report_wf_def early_retry_def Let_def)

lemma report_wf_early_escalate:
  assumes "names = map cr_name (rs @ [bad]) @ zs" and "list_all cr_passed rs" and "\<not> cr_passed bad"
    and "cr_name bad = ''no_forbidden_patterns''"
  shows "report_wf names ctx (early_escalate display (rs @ [bad]) details label)"
  using assms by (auto simp: report_wf_def early_escalate_def Let_def)

lemma output_name_neq [simp]: "output_name i \<noteq> ''no_forbidden_patterns''"
  by (simp add: output_name_def)

lemma custom_name_neq [simp]: "custom_name i name \<noteq> ''no_forbidden_patterns''"
  by (simp add: custom_name_def)

definition stage_wf ::
    "string list \<Rightarrow> DelegationContext \<Rightarrow> string list \<Rightarrow> (AuditReport + CriterionResult list) \<times> 'w \<Rightarrow> bool"
  where
  "stage_wf names ctx rest s \<longleftrightarrow>
     (case fst s of
        Inl rep \<Rightarrow> report_wf names ctx rep
      | Inr res \<Rightarrow> list_all cr_passed res \<and> names = map cr_name res @ rest)"

lemma stage_wf_bind:
  assumes "stage_wf names ctx rest s"
    and "\<And>res w. list_all cr_passed res \<Longrightarrow> names = map cr_name res @ rest \<Longrightarrow>
           stage_wf names ctx rest' (f res w)"
  shows "stage_wf names ctx rest' (stage_bind s f)"
proof (cases "fst s")
  case (Inl rep)
  with assms(1) show ?thesis by (cases s) (simp add: stage_wf_def stage_bind_def)
next
  case (Inr res)
  with assms(1) have "stage_wf names ctx rest' (f res (snd s))"
    by (intro assms(2)) (auto simp: stage_wf_def)
  with Inr show ?thesis by (cases s) (simp add: stage_bind_def)
qed

lemma check_loop_report_wf:
  assumes nm: "\<And>x w. cr_name (fst (check x w)) = nm x"
    and fail: "\<And>x details rs bad zs. names = map cr_name (rs @ [bad]) @ zs \<Longrightarrow> list_all cr_passed rs \<Longrightarrow>
      \<not> cr_passed bad \<Longrightarrow> cr_name bad = nm x \<Longrightarrow> report_wf names ctx (on_fail x details (rs @ [bad]))"
    and names: "names = map cr_name res @ map nm xs @ rest" and res: "list_all cr_passed res"
  shows "stage_wf names ctx rest (check_loop check on_fail xs res w)"
proof (cases "fst (check_loop check on_fail xs res w)")
  case (Inl rep)
  with check_loop_cases [of check nm xs on_fail res w, OF nm] obtain ys x zs rs bad where
    *: "xs = ys @ x # zs" "map cr_name rs = map nm ys" "list_all cr_passed rs"
      "cr_name bad = nm x" "\<not> cr_passed bad" "rep = on_fail x (cr_details bad) (res @ rs @ [bad])"
    by auto
  have "report_wf names ctx (on_fail x (cr_details bad) ((res @ rs) @ [bad]))"
    by (rule fail [of _ _ "map nm zs @ rest"]) (use * names res in \<open>auto simp: list_all_append\<close>)
  with * Inl show ?thesis by (simp add: stage_wf_def)
next
  case (Inr res')
  with check_loop_cases [of check nm xs on_fail res w, OF nm] names res show ?thesis
    by (auto simp: stage_wf_def list_all_append)
qed

lemma check_loop_retry_wf:
  assumes nm: "\<And>x w. cr_name (fst (check x w)) = nm x"
    and fail: "\<And>x d rs. \<exists>fc. on_fail x d rs = early_retry rs fc ctx \<and> fc_name fc = nm x"
    and neq: "\<And>x. nm x \<noteq> ''no_forbidden_patterns''"
    and names: "names = map cr_name res @ map nm xs @ rest" and res: "list_all cr_passed res"
  shows "stage_wf names ctx rest (check_loop check on_fail xs res w)"
proof (rule check_loop_report_wf [OF nm _ names res])
  fix x details zs and rs :: "CriterionResult list" and bad :: CriterionResult
  assume *: "names = map cr_name (rs @ [bad]) @ zs" "list_all cr_passed rs" "\<not> cr_passed bad"
    and bad: "cr_name bad = nm x"
  obtain fc where fc: "on_fail x details (rs @ [bad]) = early_retry (rs @ [bad]) fc ctx" "fc_name fc = nm x"
    using fail by blast
  from * have "report_wf names ctx (early_retry (rs @ [bad]) fc ctx)"
    by (rule report_wf_early_retry) (simp_all add: fc bad neq)
  then show "report_wf names ctx (on_fail x details (rs @ [bad]))" by (simp add: fc)
qed

lemma map_output_criteria:
  "map (\<lambda>(i, re). g i) [(i, re). (i, OutputMatches re) \<leftarrow> xs] = [g i. (i, OutputMatches re) \<leftarrow> xs]"
  by (induction xs) (auto split: AcceptanceCriterion.splits)

lemma map_custom_criteria:
  "map (\<lambda>(i, name, check). g i name) [(i, name, check). (i, Custom name check) \<leftarrow> xs] =
     [g i name. (i, Custom name check) \<leftarrow> xs]"
  by (induction xs) (auto split: AcceptanceCriterion.splits)

lemma criterion_names_eq:
  assumes "sort_criteria 0 (acceptance spec) = (f, oms, t, cus)"
  shows "criterion_names spec =
     map (\<lambda>_. ''no_forbidden_patterns'') (if f then [()] else [])
     @ map (\<lambda>(i, re). output_name i) oms
     @ (if t then [''tests_pass''] else [])
     @ map (\<lambda>(i, name, check). custom_name i name) cus"
proof -
  from assms have eqs: "f = (NoForbiddenPatterns \<in> set (acceptance spec))"
      "oms = [(i, re). (i, OutputMatches re) \<leftarrow> List.enumerate 0 (acceptance spec)]"
      "t = (TestsPass \<in> set (acceptance spec))"
      "cus = [(i, name, check). (i, Custom name check) \<leftarrow> List.enumerate 0 (acceptance spec)]"
    by (simp_all add: sort_criteria_eq)
  show ?thesis
    unfolding criterion_names_def eqs map_output_criteria map_custom_criteria by simp
qed

lemma spec_ok_tests:
  "spec_ok spec \<Longrightarrow> TestsPass \<in> set (acceptance spec) \<Longrightarrow> \<exists>t. expected_tests spec = Some t"
  by (fastforce simp: spec_ok_def list_all_iff criterion_ok_def)

lemma forbidden_stage_wf:
  assumes "names = map (\<lambda>_. ''no_forbidden_patterns'') (if f then [()] else []) @ rest"
  shows "stage_wf names ctx rest (forbidden_stage env spec out f [] w)"
  unfolding forbidden_stage_def
  by (rule check_loop_report_wf [where nm = "\<lambda>_. ''no_forbidden_patterns''"])
     (use assms in \<open>auto intro: report_wf_early_escalate\<close>)

lemma outputs_stage_wf:
  assumes "names = map cr_name res @ map (\<lambda>(i, re). output_name i) oms @ rest" and "list_all cr_passed res"
  shows "stage_wf names ctx rest (outputs_stage env out ctx oms res w)"
  unfolding outputs_stage_def
  by (rule check_loop_retry_wf [where nm = "\<lambda>(i, re). output_name i"])
     (use assms in \<open>auto simp: failed_output_match_def\<close>)

lemma tests_stage_wf:
  assumes "names = map cr_name res @ (if t then [''tests_pass''] else []) @ rest"
    and "list_all cr_passed res" and "t \<Longrightarrow> \<exists>ts. expected_tests spec = Some ts"
  shows "stage_wf names ctx rest (tests_stage env timeout spec ctx t res w)"
proof (cases t)
  case True
  with assms(3) obtain ts where ts: "expected_tests spec = Some ts" by blast
  have "stage_wf names ctx rest (check_loop (\<lambda>t. run_test_spec env t timeout)
      (\<lambda>t details results. early_retry results (failed_tests_pass t details) ctx) [ts] res w)"
    by (rule check_loop_retry_wf [where nm = "\<lambda>_. ''tests_pass''"])
       (use assms True in \<open>auto simp: failed_tests_pass_def\<close>)
  with True ts show ?thesis by (simp add: tests_stage_def)
qed (use assms in \<open>simp add: tests_stage_def stage_wf_def\<close>)

lemma customs_stage_wf:
  assumes "names = map cr_name res @ map (\<lambda>(i, name, check). custom_name i name) cus" and "list_all cr_passed res"
  shows "stage_wf names ctx [] (customs_stage env timeout ctx cus res w)"
  unfolding customs_stage_def
  by (rule check_loop_retry_wf [where nm = "\<lambda>(i, name, check). custom_name i name"])
     (use assms in \<open>auto simp: failed_custom_def\<close>)

lemma pattern_audit_report_wf:
  assumes ok: "spec_ok spec"
  shows "report_wf (criterion_names spec) ctx (fst (pattern_audit env timeout spec ctx out w))"
proof -
  obtain f oms t cus where sc: "sort_criteria 0 (acceptance spec) = (f, oms, t, cus)"
    by (cases "sort_criteria 0 (acceptance spec)") auto
  have t: "t \<longleftrightarrow> TestsPass \<in> set (acceptance spec)" using sc by (simp add: sort_criteria_eq)
  let ?names = "criterion_names spec"
  let ?s4 = "stage_bind (stage_bind (stage_bind (forbidden_stage env spec out f [] w)
        (outputs_stage env out ctx oms)) (tests_stage env timeout spec ctx t))
        (customs_stage env timeout ctx cus)"
  have "stage_wf ?names ctx [] ?s4"
    by (rule stage_wf_bind [OF stage_wf_bind [OF stage_wf_bind [OF forbidden_stage_wf
             [OF criterion_names_eq [OF sc]] outputs_stage_wf] tests_stage_wf] customs_stage_wf])
       (use spec_ok_tests [OF ok] t in auto)
  then show ?thesis
    by (auto simp: pattern_audit_def sc stage_wf_def report_wf_def Let_def split: prod.splits sum.splits)
qed

subsection \<open>What an Ok verdict means\<close>

lemma stage_bind_Inr:
  "fst (stage_bind s f) = Inr res' \<Longrightarrow> \<exists>res w. s = (Inr res, w) \<and> fst (f res w) = Inr res'"
  by (cases s; cases "fst s") (auto simp: stage_bind_def)

lemma report_Ok_not_Inl:
  assumes "report_wf names ctx rep" and "report_decision rep = AuditOk r"
  shows "list_all cr_passed (criterion_results rep)"
  using assms by (auto simp: report_wf_def Let_def split: if_splits)

lemma check_loop_Inl_failed:
  "fst (check_loop check on_fail xs res w) = Inl rep \<Longrightarrow> \<exists>x d rs. rep = on_fail x d rs"
  by (induction xs arbitrary: res w) (auto simp: Let_def split: if_splits prod.splits)

lemma stage_Inl_not_Ok:
  assumes "\<And>x d rs. report_decision (on_fail x d rs) \<noteq> AuditOk r"
    and "fst (check_loop check on_fail xs res w) = Inl rep"
  shows "report_decision rep \<noteq> AuditOk r"
  using check_loop_Inl_failed [OF assms(2)] assms(1) by auto

lemma early_not_Ok [simp]:
  "report_decision (early_escalate display rs d label) \<noteq> AuditOk r"
  "report_decision (early_retry rs fc ctx) \<noteq> AuditOk r"
  by (simp_all add: early_escalate_def early_retry_def)

lemma stages_not_Ok:
  "fst (forbidden_stage env spec out f res w) = Inl rep \<Longrightarrow> report_decision rep \<noteq> AuditOk r"
  "fst (outputs_stage env out ctx oms res w) = Inl rep \<Longrightarrow> report_decision rep \<noteq> AuditOk r"
  "fst (tests_stage env timeout spec ctx t res w) = Inl rep \<Longrightarrow> report_decision rep \<noteq> AuditOk r"
  "fst (customs_stage env timeout ctx cus res w) = Inl rep \<Longrightarrow> report_decision rep \<noteq> AuditOk r"
  by (auto simp: forbidden_stage_def outputs_stage_def tests_stage_def customs_stage_def
      simp del: check_loop.simps split: if_splits option.splits dest!: check_loop_Inl_failed)

lemma stage_bind_Inl:
  assumes "\<And>rep. fst s = Inl rep \<Longrightarrow> P rep"
    and "\<And>res w rep. fst (f res w) = Inl rep \<Longrightarrow> P rep"
    and "fst (stage_bind s f) = Inl rep"
  shows "P rep"
  using assms by (cases s; cases "fst s") (auto simp: stage_bind_def)

lemmas stage_bind_not_Ok = stage_bind_Inl [where P = "\<lambda>rep. report_decision rep \<noteq> AuditOk r" for r]

text \<open>
  With an Ok verdict every stage ran to its end: the four loops returned no report of their
  own, at the worlds they were started in.
\<close>

lemma pattern_audit_Ok_stages:
  assumes "report_decision (fst (pattern_audit env timeout spec ctx out w)) = AuditOk r"
    and "sort_criteria 0 (acceptance spec) = (f, oms, t, cus)"
  shows "\<exists>r1 r2 r3 r4 w1 w2 w3.
    fst (forbidden_stage env spec out f [] w) = Inr r1 \<and>
    fst (outputs_stage env out ctx oms r1 w1) = Inr r2 \<and>
    fst (tests_stage env timeout spec ctx t r2 w2) = Inr r3 \<and>
    fst (customs_stage env timeout ctx cus r3 w3) = Inr r4"
proof -
  let ?s1 = "forbidden_stage env spec out f [] w"
  let ?s2 = "stage_bind ?s1 (outputs_stage env out ctx oms)"
  let ?s3 = "stage_bind ?s2 (tests_stage env timeout spec ctx t)"
  let ?s4 = "stage_bind ?s3 (customs_stage env timeout ctx cus)"
  have n2: "fst ?s2 = Inl rep \<Longrightarrow> report_decision rep \<noteq> AuditOk r" for rep
    by (rule stage_bind_not_Ok [OF stages_not_Ok(1) stages_not_Ok(2)])
  have n3: "fst ?s3 = Inl rep \<Longrightarrow> report_decision rep \<noteq> AuditOk r" for rep
    by (rule stage_bind_not_Ok [OF n2 stages_not_Ok(3)])
  have n4: "fst ?s4 = Inl rep \<Longrightarrow> report_decision rep \<noteq> AuditOk r" for rep
    by (rule stage_bind_not_Ok [OF n3 stages_not_Ok(4)])
  have "\<exists>r4. fst ?s4 = Inr r4"
    using assms n4 by (cases ?s4; cases "fst ?s4") (auto simp: pattern_audit_def)
  then obtain r4 r3 w3 where 4: "?s3 = (Inr r3, w3)" "fst (customs_stage env timeout ctx cus r3 w3) = Inr r4"
    by (blast dest: stage_bind_Inr)
  from 4(1) have "fst ?s3 = Inr r3" by simp
  then obtain r2 w2 where 3: "?s2 = (Inr r2, w2)" "fst (tests_stage env timeout spec ctx t r2 w2) = Inr r3"
    by (blast dest: stage_bind_Inr)
  from 3(1) have "fst ?s2 = Inr r2" by simp
  then obtain r1 w1 where 2: "?s1 = (Inr r1, w1)" "fst (outputs_stage env out ctx oms r1 w1) = Inr r2"
    by (blast dest: stage_bind_Inr)
  from 2(1) have "fst ?s1 = Inr r1" by simp
  with 2(2) 3(2) 4(2) show ?thesis by blast
qed

lemma check_loop_Inr_outputs:
  "fst (outputs_stage env out ctx oms res w) = Inr res' \<Longrightarrow> (i, re) \<in> set oms \<Longrightarrow>
   re_is_match (vr_compiled re) (response_text out)"
  unfolding outputs_stage_def by (drule (1) check_loop_Inr_all) (simp add: check_output_passed)

lemma customs_stage_Inr:
  "fst (customs_stage env timeout ctx cus res w) = Inr res' \<Longrightarrow> (i, name, script) \<in> set cus \<Longrightarrow>
   \<exists>w0 code o' e. fst (env_spawn env (script_path script) (script_args script) None timeout w0)
                    = Output code True o' e"
  unfolding customs_stage_def by (drule (1) check_loop_Inr_all) (auto dest: run_custom_script_passed)

lemma tests_stage_Inr:
  assumes "fst (tests_stage env timeout spec ctx True res w) = Inr res'"
  shows "\<exists>ts bin args w0 code o' e. expected_tests spec = Some ts \<and> test_command ts = bin # args \<and>
           fst (env_spawn env bin args (test_working_dir ts) timeout w0) = Output code True o' e"
proof -
  from assms obtain ts where ts: "expected_tests spec = Some ts"
    by (auto simp: tests_stage_def simp del: check_loop.simps split: option.splits)
  with assms have "\<exists>w0. cr_passed (fst (run_test_spec env ts timeout w0))"
    unfolding tests_stage_def using check_loop_Inr_all [where x = ts and xs = "[ts]"]
    by (force simp del: check_loop.simps)
  with ts show ?thesis by (blast dest: run_test_spec_passed)
qed

text \<open>
  What an Ok verdict means for a response text, under the environment the processes run in.
\<close>

definition accepted :: "'w proc_env \<Rightarrow> nat \<Rightarrow> DelegationSpec \<Rightarrow> string \<Rightarrow> bool" where
  "accepted env timeout spec text \<longleftrightarrow>
     (NoForbiddenPatterns \<in> set (acceptance spec) \<longrightarrow>
        list_all (\<lambda>p. re_find (vr_compiled p) text = None) (forbidden_patterns spec)) \<and>
     (\<forall>re. OutputMatches re \<in> set (acceptance spec) \<longrightarrow>
        re_is_match (vr_compiled re) text) \<and>
     (TestsPass \<in> set (acceptance spec) \<longrightarrow>
        (\<exists>ts bin args w0 code o' e. expected_tests spec = Some ts \<and> test_command ts = bin # args \<and>
           fst (env_spawn env bin args (test_working_dir ts) timeout w0) = Output code True o' e)) \<and>
     (\<forall>name script. Custom name script \<in> set (acceptance spec) \<longrightarrow>
        (\<exists>w0 code o' e. fst (env_spawn env (script_path script) (script_args script) None timeout w0)
           = Output code True o' e))"

lemma pattern_audit_Ok_accepted:
  assumes "report_decision (fst (pattern_audit env timeout spec ctx out w)) = AuditOk r"
  shows "accepted env timeout spec (response_text out)"
proof -
  obtain f oms t cus where sc: "sort_criteria 0 (acceptance spec) = (f, oms, t, cus)"
    by (cases "sort_criteria 0 (acceptance spec)") auto
  have f: "f \<longleftrightarrow> NoForbiddenPatterns \<in> set (acceptance spec)"
    and t: "t \<longleftrightarrow> TestsPass \<in> set (acceptance spec)" using sc by (simp_all add: sort_criteria_eq)
  from pattern_audit_Ok_stages [OF assms sc] obtain r1 r2 r3 r4 w1 w2 w3 where
    s1: "fst (forbidden_stage env spec out f [] w) = Inr r1" and
    s2: "fst (outputs_stage env out ctx oms r1 w1) = Inr r2" and
    s3: "fst (tests_stage env timeout spec ctx t r2 w2) = Inr r3" and
    s4: "fst (customs_stage env timeout ctx cus r3 w3) = Inr r4" by blast
  from s1 have "f \<Longrightarrow> list_all (\<lambda>p. re_find (vr_compiled p) (response_text out) = None) (forbidden_patterns spec)"
    unfolding forbidden_stage_def
    by (auto simp: check_no_forbidden_passed simp del: check_loop.simps dest: check_loop_Inr_all [where x = "()"])
  moreover have "re_is_match (vr_compiled re) (response_text out)" if "OutputMatches re \<in> set (acceptance spec)" for re
    using sort_criteria_outputs [OF that, of 0] sc check_loop_Inr_outputs [OF s2] by auto
  moreover have "\<exists>w0 code o' e. fst (env_spawn env (script_path script) (script_args script) None timeout w0)
      = Output code True o' e" if "Custom name script \<in> set (acceptance spec)" for name script
    using sort_criteria_customs [OF that, of 0] sc customs_stage_Inr [OF s4] by auto
  ultimately show ?thesis
    unfolding accepted_def
    using f t s3 tests_stage_Inr [of env timeout spec ctx r2 w2 r3] by auto
qed

subsection \<open>The contract of the auditors\<close>

definition retry_wf :: "DelegationContext \<Rightarrow> AuditReport \<Rightarrow> bool" where
  "retry_wf ctx rep \<longleftrightarrow>
     (\<forall>fb n. report_decision rep = AuditRetry fb n \<longrightarrow>
        n = saturating_add_u8 (attempt ctx) 1 \<and> failed_criteria fb \<noteq> [])"

lemma retry_wf_early [simp]:
  "retry_wf ctx (early_escalate display rs d label)" "retry_wf ctx (early_retry rs fc ctx)"
  by (auto simp: retry_wf_def early_escalate_def early_retry_def)

lemma stages_retry_wf:
  "fst (forbidden_stage env spec out f res w) = Inl rep \<Longrightarrow> retry_wf ctx rep"
  "fst (outputs_stage env out ctx oms res w) = Inl rep \<Longrightarrow> retry_wf ctx rep"
  "fst (tests_stage env timeout spec ctx t res w) = Inl rep \<Longrightarrow> retry_wf ctx rep"
  "fst (customs_stage env timeout ctx cus res w) = Inl rep \<Longrightarrow> retry_wf ctx rep"
  by (auto simp: forbidden_stage_def outputs_stage_def tests_stage_def customs_stage_def
      simp del: check_loop.simps split: if_splits option.splits dest!: check_loop_Inl_failed)
     (simp add: retry_wf_def)

lemma pattern_audit_retry_wf: "retry_wf ctx (fst (pattern_audit env timeout spec ctx out w))"
proof -
  obtain f oms t cus where sc: "sort_criteria 0 (acceptance spec) = (f, oms, t, cus)"
    by (cases "sort_criteria 0 (acceptance spec)") auto
  let ?s4 = "stage_bind (stage_bind (stage_bind (forbidden_stage env spec out f [] w)
        (outputs_stage env out ctx oms)) (tests_stage env timeout spec ctx t))
        (customs_stage env timeout ctx cus)"
  have "fst ?s4 = Inl rep \<Longrightarrow> retry_wf ctx rep" for rep
    by (rule stage_bind_Inl [where P = "retry_wf ctx", OF stage_bind_Inl [where P = "retry_wf ctx",
          OF stage_bind_Inl [where P = "retry_wf ctx", OF stages_retry_wf(1) stages_retry_wf(2)]
          stages_retry_wf(3)] stages_retry_wf(4)])
  then show ?thesis
    by (cases ?s4; cases "fst ?s4") (auto simp: pattern_audit_def sc retry_wf_def)
qed

interpretation pattern_auditor: auditor_contract "pattern_audit env timeout"
  for env :: "'w proc_env" and timeout
  by unfold_locales (use pattern_audit_retry_wf in \<open>fastforce simp: retry_wf_def\<close>)+

interpretation placeholder_auditor: auditor_contract "placeholder_audit :: 'w auditor"
  by unfold_locales (simp_all add: placeholder_audit_def)

section \<open>A concrete audit\<close>

text \<open>Regular expressions that are plain words, a clock that ticks and processes that succeed.\<close>

definition word_regex :: "string \<Rightarrow> ValidatedRegex" where
  "word_regex p =
     \<lparr>vr_source = p,
      vr_compiled = \<lparr>re_is_match = (\<lambda>s. str_contains s p),
                     re_find = (\<lambda>s. map_option (\<lambda>i. (i, i + length p)) (str_find p s))\<rparr>\<rparr>"

definition demo_env :: "nat proc_env" where
  "demo_env =
     \<lparr>env_now = (\<lambda>w. (w, Suc w)), env_spawn = (\<lambda>_ _ _ _ w. (Output (Some 0) True [] [], Suc w)),
      env_lossy = id, env_json_display = (\<lambda>_. ''{}'')\<rparr>"

definition demo_spec :: DelegationSpec where
  "demo_spec =
     \<lparr>spec_run_id = ''run'', spec_parent_run_id = None, intent = ''write it'',
      acceptance = [NoForbiddenPatterns, OutputMatches (word_regex ''ok''), TestsPass],
      forbidden_patterns = [word_regex ''bad''],
      expected_tests = Some \<lparr>test_command = [''make'', ''test''], test_working_dir = None\<rparr>,
      utility_refs = [], max_retries = 1, created_at = 0\<rparr>"

definition demo_out :: "string \<Rightarrow> DispatchOutcome" where
  "demo_out t = \<lparr>response_text = t, out_latency_ms = 5, total_tokens = None\<rparr>"

definition demo_audit :: "string \<Rightarrow> AuditReport \<times> nat" where
  "demo_audit t = pattern_audit demo_env 3 demo_spec (for_top_level 0 demo_spec) (demo_out t) 0"

lemma demo_audit_ok:
  "report_decision (fst (pattern_audit demo_env 3 demo_spec (for_top_level 0 demo_spec)
      \<lparr>response_text = ''all ok'', out_latency_ms = latency, total_tokens = tokens\<rparr> w)) =
   AuditOk ''all 3 acceptance criteria passed''"
  by code_simp

section \<open>Properties\<close>

text \<open>
  The report of the pattern auditor on a valid specification. The evaluated criteria are an
  initial part of the configured ones, in the order forbidden patterns, outputs, tests, custom
  scripts. Either every configured criterion was evaluated and passed, and the verdict is Ok; or
  evaluation stopped at the first failure, which is the last result: a forbidden pattern
  escalates, any other failure asks for a retry that names exactly that criterion and the next
  attempt. In particular no report is a Drop or a Clarify.
\<close>

theorem pattern_audit_decision_matrix:
  assumes "validate spec = Ok ()"
  shows "report_wf (criterion_names spec) ctx (fst (pattern_audit env timeout spec ctx out w))"
  using assms by (intro pattern_audit_report_wf) (simp add: validate_iff)

theorem pattern_audit_decision_matrix_witness:
  "validate demo_spec = Ok () \<and>
   report_wf (criterion_names demo_spec) (for_top_level 0 demo_spec) (fst (demo_audit ''all ok''))"
proof -
  have v: "validate demo_spec = Ok ()" by code_simp
  show ?thesis
    unfolding demo_audit_def by (intro conjI v) (rule pattern_audit_decision_matrix [OF v])
qed

text \<open>
  C23. Soundness of an Ok verdict: no forbidden pattern occurs in the response if that criterion
  is configured, every output regex matches it, the test command and every custom script was
  started and exited successfully.
\<close>

theorem pattern_audit_ok_sound:
  assumes "report_decision (fst (pattern_audit env timeout spec ctx out w)) = AuditOk r"
  shows "(NoForbiddenPatterns \<in> set (acceptance spec) \<longrightarrow>
            list_all (\<lambda>p. re_find (vr_compiled p) (response_text out) = None) (forbidden_patterns spec)) \<and>
         (\<forall>re. OutputMatches re \<in> set (acceptance spec) \<longrightarrow>
            re_is_match (vr_compiled re) (response_text out)) \<and>
         (TestsPass \<in> set (acceptance spec) \<longrightarrow>
            (\<exists>ts bin args w0 code o' e. expected_tests spec = Some ts \<and> test_command ts = bin # args \<and>
               fst (env_spawn env bin args (test_working_dir ts) timeout w0) = Output code True o' e)) \<and>
         (\<forall>name script. Custom name script \<in> set (acceptance spec) \<longrightarrow>
            (\<exists>w0 code o' e. fst (env_spawn env (script_path script) (script_args script) None timeout w0)
               = Output code True o' e))"
  using pattern_audit_Ok_accepted [OF assms] unfolding accepted_def .

theorem pattern_audit_ok_sound_witness:
  "report_decision (fst (demo_audit ''all ok'')) = AuditOk ''all 3 acceptance criteria passed'' \<and>
   list_all (\<lambda>p. re_find (vr_compiled p) ''all ok'' = None) (forbidden_patterns demo_spec)"
proof -
  have d: "report_decision (fst (demo_audit ''all ok'')) = AuditOk ''all 3 acceptance criteria passed''"
    unfolding demo_audit_def demo_out_def by (rule demo_audit_ok)
  have "NoForbiddenPatterns \<in> set (acceptance demo_spec)" by (simp add: demo_spec_def)
  with d pattern_audit_ok_sound [OF d [unfolded demo_audit_def]] show ?thesis
    by (simp add: demo_out_def)
qed

text \<open>
  A forbidden pattern in the response escalates at once: the report holds that single
  result, and the world changed only by the two clock readings of the check, so that neither
  the tests nor any script was started.
\<close>

theorem pattern_audit_forbidden_escalates:
  assumes "NoForbiddenPatterns \<in> set (acceptance spec)" and "p \<in> set (forbidden_patterns spec)"
    and "re_find (vr_compiled p) (response_text out) \<noteq> None"
  shows "\<exists>r b cr. pattern_audit env timeout spec ctx out w =
     (\<lparr>report_decision = AuditEscalate r b, criterion_results = [cr]\<rparr>,
      snd (env_now env (snd (env_now env w))))"
proof -
  obtain f oms t cus where sc: "sort_criteria 0 (acceptance spec) = (f, oms, t, cus)"
    by (cases "sort_criteria 0 (acceptance spec)") auto
  have f using sc assms(1) by (simp add: sort_criteria_eq)
  obtain cr w' where c: "check_no_forbidden_patterns env spec out w = (cr, w')"
    by (cases "check_no_forbidden_patterns env spec out w") auto
  have w': "w' = snd (env_now env (snd (env_now env w)))"
    using c by (auto simp: check_no_forbidden_patterns_def Let_def split: prod.splits)
  have "\<not> cr_passed cr"
    using assms(2,3) check_no_forbidden_passed [of env spec out w] by (auto simp: c list_all_iff)
  with \<open>f\<close> c w' sc show ?thesis
    by (simp add: pattern_audit_def forbidden_stage_def stage_bind_def early_escalate_def Let_def)
qed

theorem pattern_audit_forbidden_escalates_witness:
  "\<exists>r b. report_decision (fst (demo_audit ''ok but bad'')) = AuditEscalate r b"
proof -
  have f: "re_find (vr_compiled (word_regex ''bad'')) (response_text (demo_out ''ok but bad'')) \<noteq> None"
    by code_simp
  have m: "NoForbiddenPatterns \<in> set (acceptance demo_spec)"
    "word_regex ''bad'' \<in> set (forbidden_patterns demo_spec)" by (simp_all add: demo_spec_def)
  from pattern_audit_forbidden_escalates [OF m f, of demo_env 3 "for_top_level 0 demo_spec" 0]
  show ?thesis unfolding demo_audit_def by auto
qed

end
