(* ===== verification/Orch_Log.thy ===== *)
theory Orch_Log
  imports Orch_Traits
begin

text \<open>
  The decision logs of \<open>log.rs\<close>: the in-memory log and the JSONL file log.

  The disk is a map from paths to contents with a counter of the calls made to the outside; what
  the operating system, the clock and \<open>serde_json\<close> answer at each call is a parameter
  (\<open>log_env\<close>). A failing \<open>write_all\<close> may leave any prefix of its buffer in the file. The
  first component of \<open>jsonl_record\<close> is \<open>None\<close> when the slice of the serialised payload
  panics.
\<close>

section \<open>The in-memory log\<close>

record InMemoryDecisionLog =
  mem_events :: "RecordedEvent list"

definition InMemoryDecisionLog_new :: InMemoryDecisionLog where
  "InMemoryDecisionLog_new = \<lparr>mem_events = []\<rparr>"

definition in_memory_record :: "InMemoryDecisionLog recorder" where
  "in_memory_record ctx stage payload log =
     log\<lparr>mem_events := mem_events log @
       [\<lparr>ev_run_id = ctx_run_id ctx, ev_parent_run_id = ctx_parent_run_id ctx,
         ev_attempt = attempt ctx, ev_stage = stage, ev_payload = payload\<rparr>]\<rparr>"

interpretation mem_log: faithful_log in_memory_record mem_events
  by unfold_locales (simp add: in_memory_record_def event_of_def)

section \<open>The JSONL log\<close>

definition SCHEMA_VERSION :: u8 where "SCHEMA_VERSION = 1"

definition PAYLOAD_MAX_BYTES :: nat where "PAYLOAD_MAX_BYTES = 3 * 1024"

record disk =
  disk_tick :: nat
  disk_files :: "string \<Rightarrow> string option"

text \<open>
  \<open>le_to_string\<close> is \<open>serde_json::to_string\<close> (\<open>None\<close> for its error); \<open>le_stem\<close> and
  \<open>le_ts\<close> are the clock read at a tick and formatted as the file stem and as RFC 3339;
  \<open>le_instant\<close> is the monotonic clock in milliseconds; \<open>le_dir_ok\<close> and \<open>le_open_ok\<close> are
  whether \<open>create_dir_all\<close> and \<open>open\<close> succeed; \<open>le_write\<close> is \<open>None\<close> for a complete write and
  \<open>Some k\<close> for one that fails after \<open>k\<close> bytes.
\<close>

record log_env =
  le_to_string :: "json \<Rightarrow> string option"
  le_stem :: "nat \<Rightarrow> string"
  le_ts :: "nat \<Rightarrow> string"
  le_instant :: "nat \<Rightarrow> nat"
  le_dir_ok :: "nat \<Rightarrow> bool"
  le_open_ok :: "nat \<Rightarrow> bool"
  le_write :: "nat \<Rightarrow> string \<Rightarrow> nat option"

definition tick :: "disk \<Rightarrow> disk" where
  "tick d = d\<lparr>disk_tick := Suc (disk_tick d)\<rparr>"

definition current_path :: "log_env \<Rightarrow> string \<Rightarrow> nat \<Rightarrow> string" where
  "current_path env dir t = dir @ ''/'' @ le_stem env t"

definition file_bytes :: "disk \<Rightarrow> string \<Rightarrow> string" where
  "file_bytes d path = (case disk_files d path of None \<Rightarrow> [] | Some c \<Rightarrow> c)"

definition append_bytes :: "string \<Rightarrow> string \<Rightarrow> disk \<Rightarrow> disk" where
  "append_bytes path buf d =
     d\<lparr>disk_files := (disk_files d)(path := Some (file_bytes d path @ buf))\<rparr>"

text \<open>\<open>write_line\<close>: whether it succeeded, and the disk after it.\<close>

definition write_line :: "log_env \<Rightarrow> string \<Rightarrow> string \<Rightarrow> disk \<Rightarrow> bool \<times> disk" where
  "write_line env dir line d =
     (if \<not> le_dir_ok env (disk_tick d) then (False, tick d)
      else let d1 = tick d;
               path = current_path env dir (disk_tick d1);
               d2 = tick d1
           in if \<not> le_open_ok env (disk_tick d2) then (False, tick d2)
              else let d3 = append_bytes path [] (tick d2);
                       buf = line @ nl
                   in case le_write env (disk_tick d3) buf of
                        None \<Rightarrow> (True, append_bytes path buf (tick d3))
                      | Some k \<Rightarrow> (False, append_bytes path (take k buf) (tick d3)))"

definition row_to_json :: "string \<Rightarrow> DelegationContext \<Rightarrow> LogStage \<Rightarrow> u64 \<Rightarrow> json \<Rightarrow> json" where
  "row_to_json ts ctx stage latency payload =
     JObj ([(''v'', JNum (uint SCHEMA_VERSION)), (''ts'', JStr ts),
            (''run_id'', JStr (ctx_run_id ctx))]
           @ (case ctx_parent_run_id ctx of None \<Rightarrow> [] | Some p \<Rightarrow> [(''parent_run_id'', JStr p)])
           @ [(''attempt'', JNum (uint (attempt ctx))), (''stage'', JStr (log_stage_name stage)),
              (''latency_ms'', JNum (uint latency)), (''payload'', payload)])"

text \<open>The payload of the row, \<open>None\<close> when the slice \<open>[..256]\<close> is not on a character boundary.\<close>

definition logged_payload :: "log_env \<Rightarrow> json \<Rightarrow> json option" where
  "logged_payload env payload =
     (let payload_serialized = (case le_to_string env payload of None \<Rightarrow> ''null'' | Some s \<Rightarrow> s);
          n = min 256 (length payload_serialized)
      in if length payload_serialized > PAYLOAD_MAX_BYTES
         then if char_boundary payload_serialized n
              then Some (JObj [(''__truncated__'', JBool True),
                               (''original_len_bytes'', JNum (int (length payload_serialized))),
                               (''preview'', JStr (take n payload_serialized))])
              else None
         else Some payload)"

definition jsonl_record ::
    "log_env \<Rightarrow> string \<Rightarrow> DelegationContext \<Rightarrow> LogStage \<Rightarrow> json \<Rightarrow> disk \<Rightarrow> unit option \<times> disk" where
  "jsonl_record env dir ctx stage payload d =
     (case logged_payload env payload of
        None \<Rightarrow> (None, d)
      | Some payload_ref \<Rightarrow>
          let ts = le_ts env (disk_tick d);
              d1 = tick d;
              latency = latency_ms (le_instant env (disk_tick d1)) ctx;
              d2 = tick d1
          in case le_to_string env (row_to_json ts ctx stage latency payload_ref) of
               None \<Rightarrow> (Some (), d2)
             | Some line \<Rightarrow> (Some (), snd (write_line env dir line d2)))"

section \<open>Lemmas\<close>

lemma disk_tick_tick [simp]:
  "disk_tick (tick d) = Suc (disk_tick d)" "disk_files (tick d) = disk_files d"
  by (simp_all add: tick_def)

lemma file_bytes_tick [simp]: "file_bytes (tick d) = file_bytes d"
  by (simp add: file_bytes_def fun_eq_iff)

lemma file_bytes_append [simp]:
  "file_bytes (append_bytes path buf d) p = (if p = path then file_bytes d p @ buf else file_bytes d p)"
  by (simp add: append_bytes_def file_bytes_def)

lemma disk_tick_append [simp]: "disk_tick (append_bytes path buf d) = disk_tick d"
  by (simp add: append_bytes_def)

lemma write_line_prefix: "prefix (file_bytes d p) (file_bytes (snd (write_line env dir line d)) p)"
  by (auto simp: write_line_def Let_def split: option.splits)

lemma write_line_ok:
  assumes "fst (write_line env dir line d)"
  shows "file_bytes (snd (write_line env dir line d)) p =
           file_bytes d p @
           (if p = current_path env dir (Suc (disk_tick d)) then line @ nl else [])"
  using assms by (auto simp: write_line_def Let_def split: if_splits option.splits)

lemma jsonl_record_prefix:
  "prefix (file_bytes d p) (file_bytes (snd (jsonl_record env dir ctx stage payload d)) p)"
  using write_line_prefix [of "tick (tick d)" p env dir]
  by (auto simp: jsonl_record_def Let_def split: option.splits)

interpretation jsonl_log: append_log
  "\<lambda>ctx stage payload d. snd (jsonl_record env dir ctx stage payload d)"
  "\<lambda>d. file_bytes d path"
  for env :: log_env and dir path :: string
  by unfold_locales (rule jsonl_record_prefix)

lemma logged_payload_None_iff:
  assumes "le_to_string env payload = Some s"
  shows "logged_payload env payload = None \<longleftrightarrow>
           length s > PAYLOAD_MAX_BYTES \<and> \<not> char_boundary s 256"
  using assms by (auto simp: logged_payload_def Let_def PAYLOAD_MAX_BYTES_def min_def)

lemma jsonl_record_None_iff:
  "fst (jsonl_record env dir ctx stage payload d) = None \<longleftrightarrow> logged_payload env payload = None"
  by (auto simp: jsonl_record_def Let_def split: option.splits)

lemma logged_payload_ascii:
  assumes "le_to_string env payload = Some s" and "list_all (\<lambda>c. of_char c < (128 :: nat)) s"
  shows "logged_payload env payload \<noteq> None"
proof -
  have "char_boundary s 256" if "length s > 256"
    using assms(2) that by (auto simp: char_boundary_def cont_byte_def list_all_length Let_def
        dest: spec [of _ 256])
  then show ?thesis
    by (auto simp: logged_payload_None_iff [OF assms(1)] PAYLOAD_MAX_BYTES_def)
qed

section \<open>Properties\<close>

text \<open>
  The JSONL log is append-only through any sequence of \<open>record\<close> calls, whatever the operating
  system, the clock and the serialiser answer: the bytes that a file held before the sequence are
  a prefix of the bytes it holds afterwards, also when calls fail, write partially or panic.
\<close>

theorem jsonl_log_append_only:
  "prefix (file_bytes d path)
     (file_bytes (fold (\<lambda>(ctx, stage, payload) d. snd (jsonl_record env dir ctx stage payload d))
                    events d) path)"
  by (rule jsonl_log.rows_record_all_prefix)

text \<open>
  When nothing fails, one \<open>record\<close> call adds exactly one line, the serialised row with the
  payload (or the \<open>__truncated__\<close> stub) followed by a line feed, at the end of the file of the
  day at which \<open>write_line\<close> reads the clock, and changes no other file.
\<close>

theorem jsonl_record_appends_one_row:
  assumes "logged_payload env payload = Some payload'"
    and "le_to_string env
           (row_to_json (le_ts env (disk_tick d)) ctx stage
             (latency_ms (le_instant env (Suc (disk_tick d))) ctx) payload') = Some line"
    and "le_dir_ok env (disk_tick d + 2)" and "le_open_ok env (disk_tick d + 4)"
    and "le_write env (disk_tick d + 5) (line @ nl) = None"
  shows "file_bytes (snd (jsonl_record env dir ctx stage payload d)) p =
           file_bytes d p @
           (if p = current_path env dir (disk_tick d + 3) then line @ nl else [])"
  using assms
  by (simp add: jsonl_record_def write_line_def Let_def eval_nat_numeral)

definition demo_log :: "string \<Rightarrow> log_env" where
  "demo_log serialised =
     \<lparr>le_to_string = (\<lambda>_. Some serialised), le_stem = (\<lambda>_. ''day.jsonl''), le_ts = (\<lambda>_. ''now''),
      le_instant = id, le_dir_ok = (\<lambda>_. True), le_open_ok = (\<lambda>_. True), le_write = (\<lambda>_ _. None)\<rparr>"

definition demo_log_ctx :: DelegationContext where
  "demo_log_ctx =
     \<lparr>ctx_run_id = ''run'', ctx_parent_run_id = None, attempt = 0, started_at = 0, retry_feedback = None\<rparr>"

definition empty_disk :: disk where
  "empty_disk = \<lparr>disk_tick = 0, disk_files = (\<lambda>_. None)\<rparr>"

theorem jsonl_record_appends_one_row_witness:
  "file_bytes (snd (jsonl_record (demo_log ''{}'') ''logs'' demo_log_ctx SAudit JNull empty_disk))
     ''logs/day.jsonl'' = ''{}'' @ nl"
proof -
  let ?e = "demo_log ''{}''"
  have p: "logged_payload ?e JNull = Some JNull"
    by (simp add: logged_payload_def demo_log_def PAYLOAD_MAX_BYTES_def)
  have l: "le_to_string ?e j = Some ''{}''" for j by (simp add: demo_log_def)
  have o: "le_dir_ok ?e t" "le_open_ok ?e t" "le_write ?e t b = None" for t b
    by (simp_all add: demo_log_def)
  have c: "current_path ?e ''logs'' t = ''logs/day.jsonl''" for t
    by (simp add: current_path_def demo_log_def)
  show ?thesis
    using jsonl_record_appends_one_row
      [OF p l o(1,2,3), where dir = "''logs''" and p = "''logs/day.jsonl''" and d = empty_disk]
    by (simp only: c simp_thms if_True) (simp add: file_bytes_def empty_disk_def)
qed

text \<open>
  C40. A \<open>record\<close> call panics exactly when the serialised payload is longer than
  \<open>PAYLOAD_MAX_BYTES\<close> and its byte 256 continues a multi-byte character; it then writes
  nothing. (The module comment promises that the log call returns normally.)
\<close>

theorem jsonl_record_panics_iff:
  assumes "le_to_string env payload = Some s"
  shows "jsonl_record env dir ctx stage payload d = (None, d) \<longleftrightarrow>
           3072 < length s \<and> cont_byte (s ! 256)"
proof -
  have "jsonl_record env dir ctx stage payload d = (None, d) \<longleftrightarrow>
          fst (jsonl_record env dir ctx stage payload d) = None"
    by (auto simp: jsonl_record_def Let_def split: option.splits)
  then show ?thesis
    by (auto simp: jsonl_record_None_iff logged_payload_None_iff [OF assms] PAYLOAD_MAX_BYTES_def
        char_boundary_def)
qed

theorem jsonl_record_panics_iff_witness:
  "jsonl_record (demo_log (replicate 255 (CHR ''a'') @ [CHR 0xC3, CHR 0xA9] @ replicate 3000 (CHR ''a'')))
     ''logs'' demo_log_ctx SAudit JNull empty_disk = (None, empty_disk)"
proof -
  let ?s = "replicate 255 (CHR ''a'') @ [CHR 0xC3, CHR 0xA9] @ replicate 3000 (CHR ''a'')"
  have l: "le_to_string (demo_log ?s) JNull = Some ?s" by (simp add: demo_log_def)
  have "?s ! 256 = CHR 0xA9" by (simp add: nth_append)
  then have "3072 < length ?s \<and> cont_byte (?s ! 256)" by (simp add: cont_byte_def)
  then show ?thesis using jsonl_record_panics_iff [OF l] by blast
qed

end
