(* ===== verification/Orch_Runner.thy ===== *)
theory Orch_Runner
  imports Orch_Audit Orch_Log
begin

text \<open>
  The orchestration loop of \<open>runner.rs\<close>, over any dispatch sink, any auditor and any log.

  One turn of the \<open>loop\<close> is \<open>loop_body\<close>: \<open>Inl\<close> is a \<open>return\<close>, \<open>Inr\<close> the loop variables of
  the next turn. \<open>run_loop\<close> iterates it; the termination proof is the bound the \<open>u8\<close> attempt
  counter gives. The abstract specification \<open>retry_spec\<close> has neither counters nor a log: it
  recurses on the number of retries left and drops when a failure repeats the one before it.
\<close>

section \<open>Data\<close>

definition REPEATED_ERROR_LOOP_THRESHOLD :: u8 where "REPEATED_ERROR_LOOP_THRESHOLD = 2"

definition CLARIFY_RATIONALE :: string where
  "CLARIFY_RATIONALE = ''model requested clarification before generating output''"

datatype OrchestrateOutcome =
  OrchOk (oo_response_text: string)
| OrchClarify (oo_question: string)
| OrchEscalate (oo_reason: string) (oo_blocking_issue: string) (oo_attempts_exhausted: "u8 option")
| OrchDrop (oo_reason: string) (oo_repeated_signature: "string option")

fun exit_code :: "OrchestrateOutcome \<Rightarrow> u8" where
  "exit_code (OrchOk _) = 0"
| "exit_code (OrchClarify _) = 4"
| "exit_code (OrchEscalate _ _ _) = 2"
| "exit_code (OrchDrop _ _) = 3"

definition clarify_decision_payload :: "string \<Rightarrow> json" where
  "clarify_decision_payload question =
     json_insert ''rationale'' (JStr CLARIFY_RATIONALE) (decision_to_json (AuditClarify question))"

record loop_state =
  ls_ctx :: DelegationContext
  ls_repeated_signature :: "string option"
  ls_repeated_count :: u8

type_synonym signature_fn = "RetryFeedback \<Rightarrow> string option"

section \<open>The loop\<close>

definition criterion_row :: "CriterionResult \<Rightarrow> json" where
  "criterion_row c =
     JObj [(''name'', JStr (cr_name c)), (''passed'', JBool (cr_passed c)),
           (''duration_ms'', JNum (uint (cr_duration_ms c))), (''details'', cr_details c)]"

text \<open>
  The branch of \<open>AuditDecision::Retry\<close>: the loop detector, the retry limit, and the next turn.
  \<open>sig\<close> is \<open>error_signature_for_retry_feedback\<close>.
\<close>

definition retry_branch ::
    "signature_fn \<Rightarrow> 'l recorder \<Rightarrow> DelegationSpec \<Rightarrow> loop_state \<Rightarrow> RetryFeedback \<Rightarrow> u8 \<Rightarrow> 'l
       \<Rightarrow> (OrchestrateOutcome + loop_state) \<times> 'l" where
  "retry_branch sig record_ev spec st feedback att l =
     (let ctx = ls_ctx st;
          signature = sig feedback;
          (repeated_signature, repeated_count) =
            (case signature of
               Some current \<Rightarrow>
                 (Some current,
                  if ls_repeated_signature st = Some current
                  then saturating_add_u8 (ls_repeated_count st) 1 else 1)
             | None \<Rightarrow> (None, 0));
          can_loop_detect =
            (signature \<noteq> None \<and> repeated_count \<ge> REPEATED_ERROR_LOOP_THRESHOLD \<and> attempt ctx > 0)
      in if can_loop_detect then
           (Inl (OrchDrop ''loop_detected'' signature),
            record_ev ctx SDecision
              (JObj [(''verdict'', JStr ''drop''), (''reason'', JStr ''loop_detected''),
                     (''repeated_signature'', json_opt JStr signature),
                     (''attempt'', JNum (uint att))]) l)
         else if attempt ctx \<ge> max_retries spec then
           let attempts_exhausted = saturating_add_u8 (attempt ctx) 1
           in (Inl (OrchEscalate ''max_retries_exhausted'' ''retries exhausted''
                     (Some attempts_exhausted)),
               record_ev ctx SDecision
                 (JObj [(''verdict'', JStr ''escalate''), (''reason'', JStr ''max_retries_exhausted''),
                        (''attempts_exhausted'', JNum (uint attempts_exhausted))]) l)
         else
           (Inr \<lparr>ls_ctx = next_attempt_with_feedback ctx feedback,
                 ls_repeated_signature = repeated_signature,
                 ls_repeated_count = repeated_count\<rparr>,
            record_ev ctx SDecision
              (JObj [(''verdict'', JStr ''retry''), (''reason'', JStr ''criteria_failed''),
                     (''next_attempt'', JNum (uint att)),
                     (''signature'', json_opt JStr signature)]) l))"

text \<open>The \<open>match report.decision\<close> at the end of the loop body.\<close>

definition decide ::
    "signature_fn \<Rightarrow> 'l recorder \<Rightarrow> DelegationSpec \<Rightarrow> loop_state \<Rightarrow> DispatchOutcome \<Rightarrow> AuditDecision
       \<Rightarrow> 'l \<Rightarrow> (OrchestrateOutcome + loop_state) \<times> 'l" where
  "decide sig record_ev spec st outcome decision l =
     (let ctx = ls_ctx st in
      case decision of
        AuditOk _ \<Rightarrow>
          (Inl (OrchOk (response_text outcome)),
           record_ev ctx SDecision (JObj [(''verdict'', JStr ''ok'')]) l)
      | AuditEscalate reason blocking_issue \<Rightarrow>
          (Inl (OrchEscalate reason blocking_issue None),
           record_ev ctx SDecision
             (JObj [(''verdict'', JStr ''escalate''), (''reason'', JStr reason),
                    (''blocking_issue'', JStr blocking_issue)]) l)
      | AuditClarify question \<Rightarrow>
          (Inl (OrchClarify question),
           record_ev ctx SDecision (clarify_decision_payload question) l)
      | AuditDrop reason \<Rightarrow>
          (Inl (OrchDrop reason None),
           record_ev ctx SDecision
             (JObj [(''verdict'', JStr ''drop''), (''reason'', JStr reason)]) l)
      | AuditRetry feedback att \<Rightarrow> retry_branch sig record_ev spec st feedback att l)"

definition loop_body ::
    "signature_fn \<Rightarrow> DelegationSpec \<Rightarrow> string \<Rightarrow> 'w dispatch_sink \<Rightarrow> 'w auditor \<Rightarrow> 'l recorder
       \<Rightarrow> loop_state \<Rightarrow> 'w \<Rightarrow> 'l \<Rightarrow> ((string + OrchestrateOutcome) + loop_state) \<times> 'w \<times> 'l" where
  "loop_body sig spec model sink audit record_ev st w l =
     (let ctx = ls_ctx st;
          l1 = record_ev ctx SDispatchStart
                 (JObj [(''provider'', JStr ''minimax''), (''model'', JStr model)]) l;
          (dispatched, w1) = sink spec ctx w
      in case dispatched of
           Inl (ClarificationRequested question) \<Rightarrow>
             let l2 = record_ev ctx SClarify
                        (JObj [(''question'', JStr question), (''handled'', JBool False)]) l1;
                 l3 = record_ev ctx SDecision (clarify_decision_payload question) l2
             in (Inl (Ok (OrchClarify question)), w1, l3)
         | Inl other \<Rightarrow>
             let l2 = record_ev ctx SDispatchEnd
                        (JObj [(''error'', JStr (dispatch_error_to_string other))]) l1
             in (Inl (Err (''dispatch failed: '' @ dispatch_error_to_string other)), w1, l2)
         | Inr outcome \<Rightarrow>
             let l2 = record_ev ctx SDispatchEnd
                        (JObj [(''latency_ms'', JNum (uint (out_latency_ms outcome))),
                               (''total_tokens'',
                                json_opt (\<lambda>t. JNum (uint t)) (total_tokens outcome)),
                               (''response_len'', JNum (int (length (response_text outcome))))]) l1;
                 (report, w2) = audit spec ctx outcome w1;
                 l3 = fold (\<lambda>c. record_ev ctx SAuditCriterion (criterion_row c))
                        (criterion_results report) l2;
                 l4 = record_ev ctx SAudit (decision_to_json (report_decision report)) l3;
                 (continuation, l5) = decide sig record_ev spec st outcome (report_decision report) l4
             in (case continuation of Inl res \<Rightarrow> Inl (Ok res) | Inr st' \<Rightarrow> Inr st', w2, l5))"

lemma retry_branch_Inr:
  assumes "retry_branch sig record_ev spec st fb att l = (Inr st', l')"
  shows "attempt (ls_ctx st) < max_retries spec"
    and "ls_ctx st' = next_attempt_with_feedback (ls_ctx st) fb"
    and "ls_repeated_signature st' = sig fb"
    and "ls_repeated_count st' =
           (case sig fb of
              None \<Rightarrow> 0
            | Some s \<Rightarrow> if ls_repeated_signature st = Some s
                        then saturating_add_u8 (ls_repeated_count st) 1 else 1)"
  using assms by (auto simp: retry_branch_def Let_def split: if_splits option.splits)

lemma decide_Inr:
  assumes "decide sig record_ev spec st out d l = (Inr st', l')"
  obtains fb att where "d = AuditRetry fb att"
    and "retry_branch sig record_ev spec st fb att l = (Inr st', l')"
  using assms by (cases d) (auto simp: decide_def Let_def)

lemma loop_body_audited:
  assumes "sink spec (ls_ctx st) w = (Inr out, w1)" and "audit spec (ls_ctx st) out w1 = (report, w2)"
  obtains l4 where
    "loop_body sig spec model sink audit record_ev st w l =
       (case fst (decide sig record_ev spec st out (report_decision report) l4) of
          Inl res \<Rightarrow> Inl (Ok res) | Inr st' \<Rightarrow> Inr st',
        w2, snd (decide sig record_ev spec st out (report_decision report) l4))"
  using assms by (simp add: loop_body_def Let_def split_beta)

lemma loop_body_Inr:
  assumes "loop_body sig spec model sink audit record_ev st w l = (Inr st', w', l')"
  obtains out w1 report fb att l4 where
    "sink spec (ls_ctx st) w = (Inr out, w1)"
    and "audit spec (ls_ctx st) out w1 = (report, w')"
    and "report_decision report = AuditRetry fb att"
    and "retry_branch sig record_ev spec st fb att l4 = (Inr st', l')"
  using assms
  by (auto simp: loop_body_def Let_def split: prod.splits sum.splits DispatchError.splits
      elim!: decide_Inr)

lemma attempt_lt_next:
  assumes "attempt ctx < (m :: u8)"
  shows "unat (attempt (next_attempt_with_feedback ctx fb)) = Suc (unat (attempt ctx))"
  using assms unat_u8_le [of m] by (simp add: word_less_nat_alt)

lemma loop_body_attempt:
  assumes "loop_body sig spec model sink audit record_ev st w l = (Inr st', w', l')"
  shows "unat (attempt (ls_ctx st')) = Suc (unat (attempt (ls_ctx st)))"
    and "unat (attempt (ls_ctx st')) \<le> unat (max_retries spec)"
proof -
  from assms obtain fb att l4 where
    r: "retry_branch sig record_ev spec st fb att l4 = (Inr st', l')" by (elim loop_body_Inr)
  note lt = retry_branch_Inr(1) [OF r]
  with retry_branch_Inr(2) [OF r]
  show eq: "unat (attempt (ls_ctx st')) = Suc (unat (attempt (ls_ctx st)))"
    by (simp only: attempt_lt_next)
  with lt show "unat (attempt (ls_ctx st')) \<le> unat (max_retries spec)"
    by (simp add: word_less_nat_alt)
qed

lemma loop_body_decreases:
  assumes "(Inr st', w', l') = loop_body sig spec model sink audit record_ev st w l"
  shows "255 - unat (attempt (ls_ctx st')) < 255 - unat (attempt (ls_ctx st))"
  using loop_body_attempt(1) [OF assms [symmetric]] unat_u8_le [of "attempt (ls_ctx st')"] by simp

function run_loop ::
    "signature_fn \<Rightarrow> DelegationSpec \<Rightarrow> string \<Rightarrow> 'w dispatch_sink \<Rightarrow> 'w auditor \<Rightarrow> 'l recorder
       \<Rightarrow> loop_state \<Rightarrow> 'w \<Rightarrow> 'l \<Rightarrow> (string + OrchestrateOutcome) \<times> 'w \<times> 'l" where
  "run_loop sig spec model sink audit record_ev st w l =
     (case loop_body sig spec model sink audit record_ev st w l of
        (Inl res, w', l') \<Rightarrow> (res, w', l')
      | (Inr st', w', l') \<Rightarrow> run_loop sig spec model sink audit record_ev st' w' l')"
  by pat_completeness auto
termination
  by (relation "measure (\<lambda>(sig, spec, model, sink, audit, record_ev, st, w, l).
                           255 - unat (attempt (ls_ctx st)))")
    (auto intro: loop_body_decreases)

declare run_loop.simps [simp del]

definition run_orchestration_loop ::
    "(string \<Rightarrow> string) \<Rightarrow> replace_all \<Rightarrow> nat \<Rightarrow> DelegationSpec \<Rightarrow> string \<Rightarrow> 'w dispatch_sink
       \<Rightarrow> 'w auditor \<Rightarrow> 'l recorder \<Rightarrow> 'w \<Rightarrow> 'l \<Rightarrow> (string + OrchestrateOutcome) \<times> 'w \<times> 'l" where
  "run_orchestration_loop sha256 ra now spec model sink audit record_ev w l =
     run_loop (error_signature_for_retry_feedback sha256 ra) spec model sink audit record_ev
       \<lparr>ls_ctx = for_top_level now spec, ls_repeated_signature = None, ls_repeated_count = 0\<rparr> w l"

section \<open>The abstract specification\<close>

text \<open>
  \<open>k\<close> retries are left. The run ends with the first answer that is not a retry, with a drop as
  soon as a failure has the signature of the failure before it (the feedback the context carries),
  and with an escalation when no retry is left.
\<close>

fun retry_spec ::
    "signature_fn \<Rightarrow> DelegationSpec \<Rightarrow> 'w dispatch_sink \<Rightarrow> 'w auditor \<Rightarrow> nat \<Rightarrow> DelegationContext
       \<Rightarrow> 'w \<Rightarrow> (string + OrchestrateOutcome) \<times> 'w" where
  "retry_spec sig spec sink audit k ctx w =
     (case sink spec ctx w of
        (Inl (ClarificationRequested q), w1) \<Rightarrow> (Ok (OrchClarify q), w1)
      | (Inl e, w1) \<Rightarrow> (Err (''dispatch failed: '' @ dispatch_error_to_string e), w1)
      | (Inr out, w1) \<Rightarrow>
          (case audit spec ctx out w1 of (report, w2) \<Rightarrow>
             (case report_decision report of
                AuditOk _ \<Rightarrow> (Ok (OrchOk (response_text out)), w2)
              | AuditEscalate r b \<Rightarrow> (Ok (OrchEscalate r b None), w2)
              | AuditClarify q \<Rightarrow> (Ok (OrchClarify q), w2)
              | AuditDrop r \<Rightarrow> (Ok (OrchDrop r None), w2)
              | AuditRetry fb _ \<Rightarrow>
                  if Option.bind (retry_feedback ctx) sig = sig fb
                  then (Ok (OrchDrop ''loop_detected'' (sig fb)), w2)
                  else case k of
                         0 \<Rightarrow> (Ok (OrchEscalate ''max_retries_exhausted'' ''retries exhausted''
                                     (Some (saturating_add_u8 (attempt ctx) 1))), w2)
                       | Suc k' \<Rightarrow>
                           retry_spec sig spec sink audit k' (next_attempt_with_feedback ctx fb) w2)))"

declare retry_spec.simps [simp del]

text \<open>
  The invariant of the loop variables: the remembered signature is that of the feedback in the
  context, it has been seen once, and there is none before the first retry.
\<close>

definition loop_inv :: "signature_fn \<Rightarrow> loop_state \<Rightarrow> bool" where
  "loop_inv sig st \<longleftrightarrow>
     ls_repeated_signature st = Option.bind (retry_feedback (ls_ctx st)) sig \<and>
     ls_repeated_count st = (if ls_repeated_signature st = None then 0 else 1) \<and>
     (ls_repeated_signature st \<noteq> None \<longrightarrow> attempt (ls_ctx st) > 0)"

lemma loop_inv_init:
  "loop_inv sig \<lparr>ls_ctx = for_top_level now spec, ls_repeated_signature = None, ls_repeated_count = 0\<rparr>"
  by (simp add: loop_inv_def for_top_level_def)

lemma saturating_add_one_one [simp]: "saturating_add_u8 1 1 = 2"
  by (simp add: saturating_add_u8_def)

lemma threshold_not_one [simp]: "\<not> REPEATED_ERROR_LOOP_THRESHOLD \<le> 1"
  by (simp add: REPEATED_ERROR_LOOP_THRESHOLD_def word_le_nat_alt)

lemma threshold_two [simp]: "REPEATED_ERROR_LOOP_THRESHOLD \<le> 2"
  by (simp add: REPEATED_ERROR_LOOP_THRESHOLD_def)

lemma attempt_next_pos: "attempt ctx < (m :: u8) \<Longrightarrow> 0 < attempt (next_attempt_with_feedback ctx fb)"
  using attempt_lt_next [of ctx m fb] by (simp add: word_less_nat_alt)

text \<open>Under the invariant the loop detector is the comparison of \<open>retry_spec\<close>.\<close>

lemma retry_branch_inv:
  assumes "loop_inv sig st" and "sig fb \<noteq> None"
  shows "fst (retry_branch sig record_ev spec st fb att l) =
     (if Option.bind (retry_feedback (ls_ctx st)) sig = sig fb
      then Inl (OrchDrop ''loop_detected'' (sig fb))
      else if attempt (ls_ctx st) \<ge> max_retries spec
      then Inl (OrchEscalate ''max_retries_exhausted'' ''retries exhausted''
                  (Some (saturating_add_u8 (attempt (ls_ctx st)) 1)))
      else Inr \<lparr>ls_ctx = next_attempt_with_feedback (ls_ctx st) fb,
                ls_repeated_signature = sig fb, ls_repeated_count = 1\<rparr>)"
  using assms
  by (auto simp: retry_branch_def Let_def loop_inv_def
      split: option.splits if_splits)

lemma loop_inv_next:
  assumes "attempt ctx < (m :: u8)" and "sig fb \<noteq> None"
  shows "loop_inv sig \<lparr>ls_ctx = next_attempt_with_feedback ctx fb,
                       ls_repeated_signature = sig fb, ls_repeated_count = 1\<rparr>"
  using assms by (auto simp: loop_inv_def dest: attempt_next_pos)

text \<open>One turn of the loop is one unfolding of the specification.\<close>

lemma loop_body_refines:
  assumes inv: "loop_inv sig st"
    and sigs: "\<And>out w1 fb n. report_decision (fst (audit spec (ls_ctx st) out w1)) = AuditRetry fb n
                 \<Longrightarrow> sig fb \<noteq> None"
    and k: "unat (max_retries spec) = unat (attempt (ls_ctx st)) + k"
    and body: "loop_body sig spec model sink audit record_ev st w l = (r, w', l')"
  shows "retry_spec sig spec sink audit k (ls_ctx st) w =
           (case r of
              Inl res \<Rightarrow> (res, w')
            | Inr st' \<Rightarrow> retry_spec sig spec sink audit (k - 1) (ls_ctx st') w')"
proof -
  have ex: "max_retries spec \<le> attempt (ls_ctx st) \<longleftrightarrow> k = 0"
    using k by (simp add: word_le_nat_alt)
  have retry: "fst (decide sig record_ev spec st out (report_decision (fst (audit spec (ls_ctx st) out w1))) l4) =
     (if Option.bind (retry_feedback (ls_ctx st)) sig = sig fb
      then Inl (OrchDrop ''loop_detected'' (sig fb))
      else if k = 0
      then Inl (OrchEscalate ''max_retries_exhausted'' ''retries exhausted''
                  (Some (saturating_add_u8 (attempt (ls_ctx st)) 1)))
      else Inr \<lparr>ls_ctx = next_attempt_with_feedback (ls_ctx st) fb,
                ls_repeated_signature = sig fb, ls_repeated_count = 1\<rparr>)"
    if "report_decision (fst (audit spec (ls_ctx st) out w1)) = AuditRetry fb n" for out w1 fb n l4
    using retry_branch_inv [OF inv sigs [OF that], of record_ev spec n l4] that
    by (simp add: decide_def ex)
  show ?thesis
  proof (cases "sink spec (ls_ctx st) w")
    case (Pair dispatched w1)
    show ?thesis
    proof (cases dispatched)
      case (Inl e)
      with Pair body show ?thesis
        by (cases e) (auto simp: loop_body_def Let_def retry_spec.simps)
    next
      case (Inr out)
      obtain report w2 where a: "audit spec (ls_ctx st) out w1 = (report, w2)" by fastforce
      show ?thesis
      proof (cases "report_decision report")
        case (AuditRetry fb n)
        obtain l4 where l4: "loop_body sig spec model sink audit record_ev st w l =
          (case fst (decide sig record_ev spec st out (report_decision report) l4) of
             Inl res \<Rightarrow> Inl (Ok res) | Inr st' \<Rightarrow> Inr st',
           w2, snd (decide sig record_ev spec st out (report_decision report) l4))"
          using Pair Inr a by (auto elim: loop_body_audited)
        with retry [of out w1 fb n l4] a body Pair Inr AuditRetry show ?thesis
          by (auto simp: retry_spec.simps [of sig spec sink audit k "ls_ctx st" w] split: nat.splits)
      qed (use a body Pair Inr in \<open>auto simp: loop_body_def decide_def Let_def retry_spec.simps\<close>)
    qed
  qed
qed

lemma loop_body_inv:
  assumes "loop_inv sig st"
    and "\<And>out w1 fb n. report_decision (fst (audit spec (ls_ctx st) out w1)) = AuditRetry fb n
                 \<Longrightarrow> sig fb \<noteq> None"
    and "loop_body sig spec model sink audit record_ev st w l = (Inr st', w', l')"
  shows "loop_inv sig st'"
proof -
  from assms(3) obtain out w1 report fb att l4 where
    a: "audit spec (ls_ctx st) out w1 = (report, w')"
      "report_decision report = AuditRetry fb att"
    and r: "retry_branch sig record_ev spec st fb att l4 = (Inr st', l')" by (elim loop_body_Inr)
  from a have s: "sig fb \<noteq> None" using assms(2) [of out w1 fb att] by simp
  from r retry_branch_inv [OF assms(1) s, of record_ev spec att l4]
  have "st' = \<lparr>ls_ctx = next_attempt_with_feedback (ls_ctx st) fb,
               ls_repeated_signature = sig fb, ls_repeated_count = 1\<rparr>"
    by (auto split: if_splits)
  with loop_inv_next [of "ls_ctx st" "max_retries spec" sig fb] retry_branch_Inr(1) [OF r] s
  show ?thesis by simp
qed

context auditor_contract
begin

text \<open>
  The detailed loop refines the abstract one, for every auditor that keeps its contract, every
  sink and every log.
\<close>

lemma run_loop_refines:
  assumes "loop_inv (error_signature_for_retry_feedback sha256 ra) st"
    and "unat (max_retries spec) = unat (attempt (ls_ctx st)) + k"
    and "run_loop (error_signature_for_retry_feedback sha256 ra) spec model sink audit record_ev st w l
           = (res, w', l')"
  shows "retry_spec (error_signature_for_retry_feedback sha256 ra) spec sink audit k (ls_ctx st) w
           = (res, w')"
  using assms
proof (induction k arbitrary: st w l rule: less_induct)
  case (less k)
  let ?sig = "error_signature_for_retry_feedback sha256 ra"
  obtain r w1 l1 where body: "loop_body ?sig spec model sink audit record_ev st w l = (r, w1, l1)"
    by (metis prod_cases3)
  note step = loop_body_refines [OF less.prems(1) retry_has_signature less.prems(2) body]
  show ?case
  proof (cases r)
    case (Inl res')
    with step less.prems(3) body show ?thesis by (simp add: run_loop.simps [of ?sig])
  next
    case (Inr st')
    note att = loop_body_attempt [OF body [unfolded Inr]]
    have "k - 1 < k" "unat (max_retries spec) = unat (attempt (ls_ctx st')) + (k - 1)"
      using att less.prems(2) by auto
    moreover have "loop_inv ?sig st'"
      by (rule loop_body_inv [OF less.prems(1) retry_has_signature body [unfolded Inr]])
    ultimately show ?thesis
      using less.IH [of "k - 1" st' w1 l1] less.prems(3) body step Inr
      by (simp add: run_loop.simps [of ?sig _ _ _ _ _ st])
  qed
qed

end

subsection \<open>An Ok outcome was audited\<close>

definition audited_ok ::
    "DelegationSpec \<Rightarrow> 'w dispatch_sink \<Rightarrow> 'w auditor \<Rightarrow> string \<Rightarrow> bool" where
  "audited_ok spec sink audit text \<longleftrightarrow>
     (\<exists>ctx out w0 w1 r. sink spec ctx w0 = (Inr out, w1) \<and> response_text out = text \<and>
        report_decision (fst (audit spec ctx out w1)) = AuditOk r)"

lemma audited_okI:
  "sink spec ctx w0 = (Inr out, w1) \<Longrightarrow> audit spec ctx out w1 = (report, w2) \<Longrightarrow>
   report_decision report = AuditOk r \<Longrightarrow> audited_ok spec sink audit (response_text out)"
  unfolding audited_ok_def by (metis fst_conv)

lemma retry_spec_Ok:
  assumes "retry_spec sig spec sink audit k ctx w = (Ok (OrchOk text), w')"
  shows "audited_ok spec sink audit text"
  using assms
proof (induction k arbitrary: ctx w)
  case 0
  then show ?case
    by (subst (asm) retry_spec.simps)
      (auto split: prod.splits sum.splits DispatchError.splits AuditDecision.splits if_splits
        intro: audited_okI)
next
  case (Suc k)
  from Suc.prems show ?case
    by (subst (asm) retry_spec.simps)
      (auto split: prod.splits sum.splits DispatchError.splits AuditDecision.splits if_splits
        intro: audited_okI Suc.IH)
qed

section \<open>The rows of a run\<close>

text \<open>
  The log of a run by stage and attempt: every attempt has one \<open>dispatch_start\<close>; an audited one
  has a \<open>dispatch_end\<close>, its criteria, an \<open>audit\<close> and a \<open>decision\<close> row; a further attempt
  follows an audited one while the attempt number is below the limit.
\<close>

type_synonym row = "u8 \<times> LogStage"

definition audited_rows :: "u8 \<Rightarrow> nat \<Rightarrow> row list" where
  "audited_rows a n =
     [(a, SDispatchStart), (a, SDispatchEnd)] @ replicate n (a, SAuditCriterion)
     @ [(a, SAudit), (a, SDecision)]"

inductive orch_trace :: "u8 \<Rightarrow> u8 \<Rightarrow> row list \<Rightarrow> bool" for m where
  trace_clarify: "orch_trace m a [(a, SDispatchStart), (a, SClarify), (a, SDecision)]"
| trace_failed: "orch_trace m a [(a, SDispatchStart), (a, SDispatchEnd)]"
| trace_audited: "orch_trace m a (audited_rows a n)"
| trace_retry: "a < m \<Longrightarrow> orch_trace m (a + 1) rows \<Longrightarrow> orch_trace m a (audited_rows a n @ rows)"

definition row_of :: "RecordedEvent \<Rightarrow> row" where
  "row_of e = (ev_attempt e, ev_stage e)"

definition dispatches :: "row list \<Rightarrow> nat list" where
  "dispatches rows = map (\<lambda>r. unat (fst r)) (filter (\<lambda>r. snd r = SDispatchStart) rows)"

lemma row_of_event_of [simp]: "row_of (event_of ctx stage payload) = (attempt ctx, stage)"
  by (simp add: row_of_def event_of_def)

lemma dispatches_audited [simp]: "dispatches (audited_rows a n @ rows) = unat a # dispatches rows"
  "dispatches (audited_rows a n) = [unat a]"
  by (simp_all add: dispatches_def audited_rows_def)

lemma dispatches_start:
  "dispatches [(a, SDispatchStart), (a, SDispatchEnd)] = [unat a]"
  "dispatches [(a, SDispatchStart), (a, SClarify), (a, SDecision)] = [unat a]"
  by (simp_all add: dispatches_def)

lemma unat_Suc_lt: "a < (m :: u8) \<Longrightarrow> unat (a + 1) = Suc (unat a)"
  using unat_u8_le [of m] by (simp add: word_less_nat_alt unat_word_ariths)

text \<open>The attempts of a trace are numbered consecutively, up to the limit.\<close>

lemma orch_trace_dispatches:
  assumes "orch_trace m a rows"
  shows "\<exists>k. dispatches rows = [unat a ..< Suc k] \<and> unat a \<le> k \<and> (a \<le> m \<longrightarrow> k \<le> unat m)"
  using assms
proof (induction rule: orch_trace.induct)
  case (trace_retry a rows n)
  then obtain k where k: "dispatches rows = [unat (a + 1) ..< Suc k]" "unat (a + 1) \<le> k"
    "a + 1 \<le> m \<longrightarrow> k \<le> unat m" by blast
  note suc = unat_Suc_lt [OF trace_retry.hyps(1)]
  have "a + 1 \<le> m" using trace_retry.hyps(1) suc by (simp add: word_le_nat_alt word_less_nat_alt)
  with k suc have "dispatches (audited_rows a n @ rows) = [unat a ..< Suc k]" "unat a \<le> k" "k \<le> unat m"
    by (simp_all add: upt_rec [of "unat a"])
  then show ?case by blast
qed (force simp: dispatches_start word_le_nat_alt intro: exI [of _ "unat a" for a])+

context faithful_log
begin

lemma events_fold_criteria:
  "events (fold (\<lambda>c. record_ev ctx stage (f c)) cs l) =
     events l @ map (\<lambda>c. event_of ctx stage (f c)) cs"
  by (induction cs arbitrary: l) (simp_all add: events_record)

lemma events_decide:
  "\<exists>payload. events (snd (decide sig record_ev spec st out d l)) =
     events l @ [event_of (ls_ctx st) SDecision payload]"
  by (cases d) (auto simp: decide_def retry_branch_def Let_def events_record split: option.splits)

lemma events_loop_body:
  assumes "loop_body sig spec model sink audit record_ev st w l = (r, w', l')"
  shows "\<exists>evs. events l' = events l @ evs \<and>
     (case r of
        Inl _ \<Rightarrow> orch_trace m (attempt (ls_ctx st)) (map row_of evs)
      | Inr st' \<Rightarrow> \<exists>n. map row_of evs = audited_rows (attempt (ls_ctx st)) n)"
proof (cases "sink spec (ls_ctx st) w")
  case (Pair dispatched w1)
  show ?thesis
  proof (cases dispatched)
    case (Inl e)
    with Pair assms show ?thesis
      by (cases e)
        (auto simp: loop_body_def Let_def events_record intro: trace_clarify trace_failed)
  next
    case (Inr out)
    obtain rep w2 where a: "audit spec (ls_ctx st) out w1 = (rep, w2)" by fastforce
    define l4 where "l4 = record_ev (ls_ctx st) SAudit (decision_to_json (report_decision rep))
      (fold (\<lambda>c. record_ev (ls_ctx st) SAuditCriterion (criterion_row c)) (criterion_results rep)
       (record_ev (ls_ctx st) SDispatchEnd
         (JObj [(''latency_ms'', JNum (uint (out_latency_ms out))),
                (''total_tokens'', json_opt (\<lambda>t. JNum (uint t)) (total_tokens out)),
                (''response_len'', JNum (int (length (response_text out))))])
         (record_ev (ls_ctx st) SDispatchStart
           (JObj [(''provider'', JStr ''minimax''), (''model'', JStr model)]) l)))"
    let ?d = "decide sig record_ev spec st out (report_decision rep) l4"
    have rl: "r = (case fst ?d of Inl res \<Rightarrow> Inl (Ok res) | Inr st' \<Rightarrow> Inr st')" "l' = snd ?d"
      using assms Pair Inr a by (simp_all add: loop_body_def Let_def l4_def split_beta)
    obtain payload where p: "events (snd ?d) = events l4 @ [event_of (ls_ctx st) SDecision payload]"
      using events_decide by blast
    obtain p1 p2 p3 where l4: "events l4 = events l @
        [event_of (ls_ctx st) SDispatchStart p1, event_of (ls_ctx st) SDispatchEnd p2]
        @ map (\<lambda>c. event_of (ls_ctx st) SAuditCriterion (criterion_row c)) (criterion_results rep)
        @ [event_of (ls_ctx st) SAudit p3]"
      by (simp add: l4_def events_record events_fold_criteria)
    define evs where "evs = drop (length (events l)) (events l')"
    have "events l' = events l @ evs"
      "map row_of evs = audited_rows (attempt (ls_ctx st)) (length (criterion_results rep))"
      by (simp_all add: evs_def rl p l4 audited_rows_def map_replicate_const comp_def)
    then show ?thesis
      using trace_audited [of m "attempt (ls_ctx st)"] by (cases r) auto
  qed
qed

lemma events_run_loop:
  assumes "run_loop sig spec model sink audit record_ev st w l = (res, w', l')"
  shows "\<exists>evs. events l' = events l @ evs \<and>
           orch_trace (max_retries spec) (attempt (ls_ctx st)) (map row_of evs)"
  using assms
proof (induction "255 - unat (attempt (ls_ctx st))" arbitrary: st w l rule: less_induct)
  case less
  let ?m = "max_retries spec" and ?a = "attempt (ls_ctx st)"
  obtain r w1 l1 where body: "loop_body sig spec model sink audit record_ev st w l = (r, w1, l1)"
    by (metis prod_cases3)
  from events_loop_body [OF this, of ?m] obtain evs where evs: "events l1 = events l @ evs"
    "case r of Inl _ \<Rightarrow> orch_trace ?m ?a (map row_of evs)
     | Inr st' \<Rightarrow> \<exists>n. map row_of evs = audited_rows ?a n" by blast
  show ?case
  proof (cases r)
    case (Inl res')
    with less.prems body evs show ?thesis by (auto simp: run_loop.simps [of sig])
  next
    case (Inr st')
    note body' = body [unfolded Inr]
    have "run_loop sig spec model sink audit record_ev st' w1 l1 = (res, w', l')"
      using less.prems body' by (simp add: run_loop.simps [of sig _ _ _ _ _ st])
    from less.hyps [OF loop_body_decreases [OF body' [symmetric]] this]
    obtain evs' where evs': "events l' = events l1 @ evs'"
      "orch_trace ?m (attempt (ls_ctx st')) (map row_of evs')" by blast
    note att = loop_body_attempt [OF body']
    then have lt: "?a < ?m" by (simp add: word_less_nat_alt)
    then have "attempt (ls_ctx st') = ?a + 1"
      using att(1) unat_Suc_lt [OF lt] by (simp add: word_unat_eq_iff)
    with evs' evs Inr lt have "orch_trace ?m ?a (map row_of (evs @ evs'))"
      by (auto intro: trace_retry)
    with evs evs' show ?thesis by (intro exI [of _ "evs @ evs'"]) simp
  qed
qed

end

lemma orchestration_refines:
  "(case run_orchestration_loop sha256 ra now spec model sink (pattern_audit env timeout) record_ev w l of
      (res, w', l') \<Rightarrow> (res, w')) =
   retry_spec (error_signature_for_retry_feedback sha256 ra) spec sink (pattern_audit env timeout)
     (unat (max_retries spec)) (for_top_level now spec) w"
proof -
  obtain res w' l' where run: "run_orchestration_loop sha256 ra now spec model sink
      (pattern_audit env timeout) record_ev w l = (res, w', l')" by (metis prod_cases3)
  let ?st = "\<lparr>ls_ctx = for_top_level now spec, ls_repeated_signature = None, ls_repeated_count = 0\<rparr>"
  have "retry_spec (error_signature_for_retry_feedback sha256 ra) spec sink (pattern_audit env timeout)
          (unat (max_retries spec)) (ls_ctx ?st) w = (res, w')"
    by (rule pattern_auditor.run_loop_refines [OF loop_inv_init])
      (use run in \<open>simp_all add: run_orchestration_loop_def\<close>)
  with run show ?thesis by simp
qed

lemma orchestration_Ok_accepted:
  assumes "run_orchestration_loop sha256 ra now spec model sink (pattern_audit env timeout)
             record_ev w l = (Ok (OrchOk text), w', l')"
  shows "(\<exists>ctx out w0. fst (sink spec ctx w0) = Ok out \<and> response_text out = text) \<and>
         accepted env timeout spec text"
proof -
  have "retry_spec (error_signature_for_retry_feedback sha256 ra) spec sink (pattern_audit env timeout)
     (unat (max_retries spec)) (for_top_level now spec) w = (Ok (OrchOk text), w')"
    using orchestration_refines [of sha256 ra now spec model sink env timeout record_ev w l] assms
    by simp
  from retry_spec_Ok [OF this] obtain ctx out w0 w1 r where
    s: "sink spec ctx w0 = (Inr out, w1)" "response_text out = text" and
    a: "report_decision (fst (pattern_audit env timeout spec ctx out w1)) = AuditOk r"
    by (auto simp: audited_ok_def)
  have "fst (sink spec ctx w0) = Ok out" using s by simp
  with s(2) pattern_audit_Ok_accepted [OF a] show ?thesis by blast
qed

section \<open>Properties\<close>

text \<open>
  C1. Refinement: with the pattern auditor, over any dispatch sink and any log, the loop of
  \<open>run_orchestration_loop\<close> gives the result and leaves the world of the abstract retry protocol
  with \<open>max_retries\<close> retries. The protocol recurses on the number of retries left, so the loop
  ends after at most \<open>max_retries + 1\<close> dispatches; it drops the delegation exactly when two
  failures in a row have the same signature.
\<close>

theorem orchestration_refines_retry_spec:
  "(case run_orchestration_loop sha256 ra now spec model sink (pattern_audit env timeout) record_ev w l of
      (res, w', l') \<Rightarrow> (res, w')) =
   retry_spec (error_signature_for_retry_feedback sha256 ra) spec sink (pattern_audit env timeout)
     (unat (max_retries spec)) (for_top_level now spec) w"
  by (rule orchestration_refines)

text \<open>
  Soundness of the whole run with the pattern auditor: an Ok outcome carries the text of a
  response that the dispatch sink returned during the run and that meets every configured
  acceptance criterion.
\<close>

theorem orchestration_ok_sound:
  assumes "run_orchestration_loop sha256 ra now spec model sink (pattern_audit env timeout)
             record_ev w l = (Ok (OrchOk text), w', l')"
  shows "(\<exists>ctx out w0. fst (sink spec ctx w0) = Ok out \<and> response_text out = text) \<and>
         accepted env timeout spec text"
  using assms by (rule orchestration_Ok_accepted)

text \<open>
  C26. The log of a run, for every sink, auditor and specification: the rows that the run adds to
  the in-memory log follow the stage grammar \<open>orch_trace\<close>, from attempt 0 and within
  \<open>max_retries\<close>; the dispatches are attempts 0, 1, up to some \<open>k\<close> of at most
  \<open>max_retries\<close>, each once.
\<close>

theorem orchestration_log_trace:
  "\<exists>evs k. mem_events (snd (snd (run_orchestration_loop sha256 ra now spec model sink audit
                              in_memory_record w l))) = mem_events l @ evs \<and>
     orch_trace (max_retries spec) 0 (map row_of evs) \<and>
     dispatches (map row_of evs) = [0 ..< Suc k] \<and> k \<le> unat (max_retries spec)"
proof -
  obtain res w' l' where run: "run_orchestration_loop sha256 ra now spec model sink audit
      in_memory_record w l = (res, w', l')" by (metis prod_cases3)
  from mem_log.events_run_loop [OF this [unfolded run_orchestration_loop_def]]
  obtain evs where evs: "mem_events l' = mem_events l @ evs"
    "orch_trace (max_retries spec) 0 (map row_of evs)" by auto
  from orch_trace_dispatches [OF evs(2)] evs run show ?thesis by auto
qed

end
