(* ===== verification/Minimax_Wire.thy ===== *)
theory Minimax_Wire
  imports Prelude
begin

text \<open>
  The MiniMax adapter of \<open>codex-rs/minimax\<close> up to the translated events: the wire types of
  \<open>types.rs\<close> and \<open>streaming.rs\<close> with their JSON form, credentials and base URL of \<open>lib.rs\<close>,
  the client of \<open>client.rs\<close> and the chunk stream of \<open>streaming.rs\<close>.

  Parameters: the environment (\<open>getter\<close>), one HTTP exchange (\<open>reqwest\<close>), the server-sent events
  of a response body (\<open>eventsource_stream\<close>) and the JSON decoders (\<open>serde_json\<close>).
\<close>

section \<open>Types of types.rs\<close>

record FunctionDefinition =
  fd_name :: string
  fd_description :: "string option"
  fd_parameters :: json

record Tool =
  tool_kind :: string
  tool_function :: FunctionDefinition

datatype ToolChoice = Preset string | ForceFunction string string

record ToolCall =
  tc_id :: string
  tc_kind :: string
  tc_name :: string
  tc_arguments :: string
  tc_index :: "u32 option"

record ChatMessage =
  msg_role :: string
  msg_content :: string
  msg_tool_calls :: "ToolCall list"
  msg_tool_call_id :: "string option"
  msg_name :: "string option"

record ChatCompletionRequest =
  req_model :: string
  req_messages :: "ChatMessage list"
  req_max_tokens :: "u32 option"
  req_reasoning_split :: bool
  req_stream :: bool
  req_temperature :: "f32 option"
  req_top_p :: "f32 option"
  req_tools :: "Tool list"
  req_tool_choice :: "ToolChoice option"

record Usage =
  prompt_tokens :: u64
  completion_tokens :: u64
  usage_total_tokens :: u64
  cached_tokens :: "u64 option"
  reasoning_tokens :: "u64 option"

record ReasoningDetail =
  rd_kind :: string
  rd_id :: string
  rd_format :: string
  rd_index :: u32
  rd_text :: string

record ResponseMessage =
  rm_role :: string
  rm_content :: string
  rm_reasoning_content :: "string option"
  rm_reasoning_details :: "ReasoningDetail list option"
  rm_tool_calls :: "ToolCall list"

record Choice =
  choice_index :: u32
  choice_finish_reason :: "string option"
  choice_message :: ResponseMessage

record ChatCompletionResponse =
  resp_id :: string
  resp_model :: string
  resp_object :: string
  resp_created :: u64
  resp_choices :: "Choice list"
  resp_usage :: "Usage option"

definition ChatCompletionRequest_new :: "string \<Rightarrow> ChatMessage list \<Rightarrow> ChatCompletionRequest" where
  "ChatCompletionRequest_new model messages =
     \<lparr>req_model = model, req_messages = messages, req_max_tokens = None,
      req_reasoning_split = True, req_stream = False, req_temperature = None, req_top_p = None,
      req_tools = [], req_tool_choice = None\<rparr>"

definition Tool_function :: "FunctionDefinition \<Rightarrow> Tool" where
  "Tool_function f = \<lparr>tool_kind = ''function'', tool_function = f\<rparr>"

definition ToolChoice_auto :: ToolChoice where "ToolChoice_auto = Preset ''auto''"
definition ToolChoice_none :: ToolChoice where "ToolChoice_none = Preset ''none''"
definition ToolChoice_required :: ToolChoice where "ToolChoice_required = Preset ''required''"

definition ToolChoice_force :: "string \<Rightarrow> ToolChoice" where
  "ToolChoice_force name = ForceFunction ''function'' name"

definition plain_message :: "string \<Rightarrow> string \<Rightarrow> ChatMessage" where
  "plain_message role content =
     \<lparr>msg_role = role, msg_content = content, msg_tool_calls = [], msg_tool_call_id = None,
      msg_name = None\<rparr>"

definition ChatMessage_user :: "string \<Rightarrow> ChatMessage" where
  "ChatMessage_user content = plain_message ''user'' content"

definition ChatMessage_system :: "string \<Rightarrow> ChatMessage" where
  "ChatMessage_system content = plain_message ''system'' content"

definition ChatMessage_assistant :: "string \<Rightarrow> ChatMessage" where
  "ChatMessage_assistant content = plain_message ''assistant'' content"

definition ChatMessage_assistant_tool_calls :: "ToolCall list \<Rightarrow> ChatMessage" where
  "ChatMessage_assistant_tool_calls calls =
     \<lparr>msg_role = ''assistant'', msg_content = [], msg_tool_calls = calls, msg_tool_call_id = None,
      msg_name = None\<rparr>"

definition ChatMessage_tool_result :: "string \<Rightarrow> string \<Rightarrow> ChatMessage" where
  "ChatMessage_tool_result tool_call_id content =
     \<lparr>msg_role = ''tool'', msg_content = content, msg_tool_calls = [],
      msg_tool_call_id = Some tool_call_id, msg_name = None\<rparr>"

section \<open>The JSON body of a request\<close>

text \<open>The \<open>Serialize\<close> derived with the \<open>rename\<close> and \<open>skip_serializing_if\<close> attributes.\<close>

definition opt_field :: "string \<Rightarrow> ('a \<Rightarrow> json) \<Rightarrow> 'a option \<Rightarrow> (string \<times> json) list" where
  "opt_field k f x = (case x of None \<Rightarrow> [] | Some y \<Rightarrow> [(k, f y)])"

definition flag_field :: "string \<Rightarrow> bool \<Rightarrow> (string \<times> json) list" where
  "flag_field k b = (if b then [(k, JBool True)] else [])"

definition list_field :: "string \<Rightarrow> ('a \<Rightarrow> json) \<Rightarrow> 'a list \<Rightarrow> (string \<times> json) list" where
  "list_field k f xs = (if xs = [] then [] else [(k, JArr (map f xs))])"

definition tool_call_to_json :: "ToolCall \<Rightarrow> json" where
  "tool_call_to_json c =
     JObj ([(''id'', JStr (tc_id c)), (''type'', JStr (tc_kind c)),
            (''function'', JObj [(''name'', JStr (tc_name c)), (''arguments'', JStr (tc_arguments c))])]
           @ opt_field ''index'' (\<lambda>i. JNum (uint i)) (tc_index c))"

definition message_to_json :: "ChatMessage \<Rightarrow> json" where
  "message_to_json m =
     JObj ([(''role'', JStr (msg_role m)), (''content'', JStr (msg_content m))]
           @ list_field ''tool_calls'' tool_call_to_json (msg_tool_calls m)
           @ opt_field ''tool_call_id'' JStr (msg_tool_call_id m)
           @ opt_field ''name'' JStr (msg_name m))"

definition tool_to_json :: "Tool \<Rightarrow> json" where
  "tool_to_json t =
     JObj [(''type'', JStr (tool_kind t)),
           (''function'',
            JObj ([(''name'', JStr (fd_name (tool_function t)))]
                  @ opt_field ''description'' JStr (fd_description (tool_function t))
                  @ [(''parameters'', fd_parameters (tool_function t))]))]"

fun tool_choice_to_json :: "ToolChoice \<Rightarrow> json" where
  "tool_choice_to_json (Preset s) = JStr s"
| "tool_choice_to_json (ForceFunction kind name) =
     JObj [(''type'', JStr kind), (''function'', JObj [(''name'', JStr name)])]"

definition request_to_json :: "ChatCompletionRequest \<Rightarrow> json" where
  "request_to_json r =
     JObj ([(''model'', JStr (req_model r)),
            (''messages'', JArr (map message_to_json (req_messages r)))]
           @ opt_field ''max_tokens'' (\<lambda>n. JNum (uint n)) (req_max_tokens r)
           @ flag_field ''reasoning_split'' (req_reasoning_split r)
           @ flag_field ''stream'' (req_stream r)
           @ opt_field ''temperature'' JFloat (req_temperature r)
           @ opt_field ''top_p'' JFloat (req_top_p r)
           @ list_field ''tools'' tool_to_json (req_tools r)
           @ opt_field ''tool_choice'' tool_choice_to_json (req_tool_choice r))"

section \<open>Credentials and base URL of lib.rs\<close>

definition MINIMAX_DEFAULT_BASE_URL :: string where
  "MINIMAX_DEFAULT_BASE_URL = ''https://api.minimax.io/v1''"
definition MINIMAX_BASE_URL_ENV :: string where "MINIMAX_BASE_URL_ENV = ''MINIMAX_BASE_URL''"
definition MINIMAX_API_KEY_ENV :: string where "MINIMAX_API_KEY_ENV = ''MINIMAX_API_KEY''"
definition MINIMAX_CODING_PLAN_KEY_ENV :: string where
  "MINIMAX_CODING_PLAN_KEY_ENV = ''MINIMAX_CODING_PLAN_KEY''"

datatype MinimaxError =
  MissingApiKey
| Http string
| Status nat string
| Decode string

fun minimax_error_to_string :: "MinimaxError \<Rightarrow> string" where
  "minimax_error_to_string MissingApiKey =
     ''no MiniMax API key found. Set `MINIMAX_API_KEY` (pay-as-you-go) or `MINIMAX_CODING_PLAN_KEY` (Coding Plan)''"
| "minimax_error_to_string (Http e) = ''MiniMax request failed: '' @ e"
| "minimax_error_to_string (Status status body) =
     ''MiniMax returned HTTP '' @ nat_str status @ '': '' @ body"
| "minimax_error_to_string (Decode e) = ''failed to parse MiniMax payload: '' @ e"

datatype AuthPreference = PreferPayAsYouGo | PreferCodingPlan

definition AuthPreference_default :: AuthPreference where
  "AuthPreference_default = PreferCodingPlan"

record ResolvedAuth =
  bearer_token :: string
  auth_env_var :: string

type_synonym getter = "string \<Rightarrow> string option"

definition read_nonblank :: "getter \<Rightarrow> string \<Rightarrow> string option" where
  "read_nonblank getter name =
     (case getter name of Some v \<Rightarrow> if trim v = [] then None else Some v | None \<Rightarrow> None)"

definition resolve_auth_with :: "AuthPreference \<Rightarrow> getter \<Rightarrow> MinimaxError + ResolvedAuth" where
  "resolve_auth_with preference getter =
     (let payg = read_nonblank getter MINIMAX_API_KEY_ENV;
          coding = read_nonblank getter MINIMAX_CODING_PLAN_KEY_ENV
      in rbind (case preference of
                  PreferCodingPlan \<Rightarrow>
                    (case (coding, payg) of
                       (Some token, _) \<Rightarrow> Ok (token, MINIMAX_CODING_PLAN_KEY_ENV)
                     | (None, Some token) \<Rightarrow> Ok (token, MINIMAX_API_KEY_ENV)
                     | (None, None) \<Rightarrow> Err MissingApiKey)
                | PreferPayAsYouGo \<Rightarrow>
                    (case (payg, coding) of
                       (Some token, _) \<Rightarrow> Ok (token, MINIMAX_API_KEY_ENV)
                     | (None, Some token) \<Rightarrow> Ok (token, MINIMAX_CODING_PLAN_KEY_ENV)
                     | (None, None) \<Rightarrow> Err MissingApiKey))
           (\<lambda>(token, env_var). Ok \<lparr>bearer_token = token, auth_env_var = env_var\<rparr>))"

definition resolve_base_url_with :: "getter \<Rightarrow> string" where
  "resolve_base_url_with getter =
     (let raw = (case read_nonblank getter MINIMAX_BASE_URL_ENV of
                   Some v \<Rightarrow> v | None \<Rightarrow> MINIMAX_DEFAULT_BASE_URL)
      in trim_end_matches (CHR ''/'') raw)"

section \<open>The client of client.rs\<close>

record MinimaxClient =
  cl_base_url :: string
  cl_auth :: ResolvedAuth

record http_request =
  hr_url :: string
  hr_bearer :: string
  hr_headers :: "(string \<times> string) list"
  hr_body :: json

text \<open>
  A response: its status, the result of reading its text, and the server-sent events of its body,
  each the data of an event or an error.
\<close>

record http_response =
  hs_status :: nat
  hs_text :: "string + string"
  hs_events :: "(string + string) list"

type_synonym 'w http = "http_request \<Rightarrow> 'w \<Rightarrow> (string + http_response) \<times> 'w"

definition is_success :: "nat \<Rightarrow> bool" where
  "is_success status = (200 \<le> status \<and> status < 300)"

definition text_or_empty :: "http_response \<Rightarrow> string" where
  "text_or_empty r = (case hs_text r of Inr t \<Rightarrow> t | Inl _ \<Rightarrow> [])"

definition chat_completion ::
    "'w http \<Rightarrow> (string \<Rightarrow> string + ChatCompletionResponse) \<Rightarrow> MinimaxClient
       \<Rightarrow> ChatCompletionRequest \<Rightarrow> 'w \<Rightarrow> (MinimaxError + ChatCompletionResponse) \<times> 'w" where
  "chat_completion http from_str client request w =
     (if req_stream request then
        (Err (Decode ''non-streaming endpoint received stream=true; use the streaming client instead''), w)
      else
        let url = cl_base_url client @ ''/chat/completions'' in
        case http \<lparr>hr_url = url, hr_bearer = bearer_token (cl_auth client),
                   hr_headers = [(''Content-Type'', ''application/json'')],
                   hr_body = request_to_json request\<rparr> w of
          (Inl e, w1) \<Rightarrow> (Err (Http e), w1)
        | (Inr response, w1) \<Rightarrow>
            if \<not> is_success (hs_status response)
            then (Err (Status (hs_status response) (text_or_empty response)), w1)
            else (case hs_text response of
                    Inl e \<Rightarrow> (Err (Http e), w1)
                  | Inr body \<Rightarrow>
                      (case from_str body of
                         Inl err \<Rightarrow> (Err (Decode (err @ '': body='' @ body)), w1)
                       | Inr parsed \<Rightarrow> (Ok parsed, w1))))"

section \<open>The chunk stream of streaming.rs\<close>

record ToolCallFunctionChunk =
  tcf_name :: "string option"
  tcf_arguments :: "string option"

record ToolCallChunk =
  tcc_index :: u32
  tcc_id :: "string option"
  tcc_kind :: "string option"
  tcc_function :: "ToolCallFunctionChunk option"

record ChunkDelta =
  delta_role :: "string option"
  delta_content :: "string option"
  delta_reasoning_content :: "string option"
  delta_tool_calls :: "ToolCallChunk list"

record ChunkChoice =
  cc_index :: u32
  cc_finish_reason :: "string option"
  cc_delta :: ChunkDelta

record ChatCompletionChunk =
  chunk_id :: string
  chunk_model :: string
  chunk_object :: string
  chunk_created :: u64
  chunk_choices :: "ChunkChoice list"
  chunk_usage :: "Usage option"

text \<open>\<open>take_while\<close> up to the \<open>[DONE]\<close> event, then \<open>filter_map\<close> of the decoder.\<close>

definition is_done :: "string + string \<Rightarrow> bool" where
  "is_done ev = (case ev of Inr data \<Rightarrow> trim data = ''[DONE]'' | Inl _ \<Rightarrow> False)"

definition decode_event ::
    "(string \<Rightarrow> string + ChatCompletionChunk) \<Rightarrow> string + string
       \<Rightarrow> (MinimaxError + ChatCompletionChunk) option" where
  "decode_event from_str ev =
     (case ev of
        Inr data \<Rightarrow>
          if data = [] then None
          else (case from_str data of
                  Inr chunk \<Rightarrow> Some (Ok chunk)
                | Inl err \<Rightarrow> Some (Err (Decode (err @ '': data='' @ data))))
      | Inl err \<Rightarrow> Some (Err (Decode (''sse error: '' @ err))))"

definition chunk_stream ::
    "(string \<Rightarrow> string + ChatCompletionChunk) \<Rightarrow> (string + string) list
       \<Rightarrow> (MinimaxError + ChatCompletionChunk) list" where
  "chunk_stream from_str evs =
     List.map_filter (decode_event from_str) (takeWhile (\<lambda>ev. \<not> is_done ev) evs)"

definition chat_completion_stream ::
    "'w http \<Rightarrow> (string \<Rightarrow> string + ChatCompletionChunk) \<Rightarrow> MinimaxClient
       \<Rightarrow> ChatCompletionRequest \<Rightarrow> 'w
       \<Rightarrow> (MinimaxError + (MinimaxError + ChatCompletionChunk) list) \<times> 'w" where
  "chat_completion_stream http from_str client request0 w =
     (let request = request0\<lparr>req_stream := True\<rparr>;
          url = cl_base_url client @ ''/chat/completions''
      in case http \<lparr>hr_url = url, hr_bearer = bearer_token (cl_auth client),
                    hr_headers = [(''Content-Type'', ''application/json''),
                                  (''Accept'', ''text/event-stream'')],
                    hr_body = request_to_json request\<rparr> w of
           (Inl e, w1) \<Rightarrow> (Err (Http e), w1)
         | (Inr response, w1) \<Rightarrow>
             if \<not> is_success (hs_status response)
             then (Err (Status (hs_status response) (text_or_empty response)), w1)
             else (Ok (chunk_stream from_str (hs_events response)), w1))"

section \<open>Lemmas\<close>

lemma trim_end_matches_not_ends:
  "trim_end_matches c s = [] \<or> last (trim_end_matches c s) \<noteq> c"
proof (cases "dropWhile (\<lambda>x. x = c) (rev s)")
  case (Cons x xs)
  then have "x \<noteq> c" using hd_dropWhile [of "\<lambda>x. x = c" "rev s"] by simp
  with Cons show ?thesis by (simp add: trim_end_matches_def)
qed (simp add: trim_end_matches_def)

section \<open>Properties\<close>

text \<open>
  Credentials: a blank or missing variable never supplies the token; with the default
  preference the Coding Plan key wins when it is set, the pay-as-you-go key is used otherwise, and
  there is an error exactly when neither is set. The base URL never ends in a slash.
\<close>

lemma resolve_auth_default:
  "resolve_auth_with AuthPreference_default getter =
     (case read_nonblank getter ''MINIMAX_CODING_PLAN_KEY'' of
        Some token \<Rightarrow> Ok \<lparr>bearer_token = token, auth_env_var = ''MINIMAX_CODING_PLAN_KEY''\<rparr>
      | None \<Rightarrow>
          (case read_nonblank getter ''MINIMAX_API_KEY'' of
             Some token \<Rightarrow> Ok \<lparr>bearer_token = token, auth_env_var = ''MINIMAX_API_KEY''\<rparr>
           | None \<Rightarrow> Err MissingApiKey)) \<and>
   (\<forall>auth p. resolve_auth_with p getter = Ok auth \<longrightarrow>
      trim (bearer_token auth) \<noteq> [] \<and> getter (auth_env_var auth) = Some (bearer_token auth)) \<and>
   \<not> ends_with (resolve_base_url_with getter) ''/''"
proof (intro conjI allI impI)
  show "resolve_auth_with AuthPreference_default getter =
     (case read_nonblank getter ''MINIMAX_CODING_PLAN_KEY'' of
        Some token \<Rightarrow> Ok \<lparr>bearer_token = token, auth_env_var = ''MINIMAX_CODING_PLAN_KEY''\<rparr>
      | None \<Rightarrow>
          (case read_nonblank getter ''MINIMAX_API_KEY'' of
             Some token \<Rightarrow> Ok \<lparr>bearer_token = token, auth_env_var = ''MINIMAX_API_KEY''\<rparr>
           | None \<Rightarrow> Err MissingApiKey))"
    by (simp add: resolve_auth_with_def AuthPreference_default_def MINIMAX_API_KEY_ENV_def
        MINIMAX_CODING_PLAN_KEY_ENV_def split: option.splits)
next
  fix auth p assume a: "resolve_auth_with p getter = Ok auth"
  have r: "trim t \<noteq> [] \<and> getter n = Some t" if "read_nonblank getter n = Some t" for n t
    using that by (auto simp: read_nonblank_def split: option.splits if_splits)
  from a have "read_nonblank getter (auth_env_var auth) = Some (bearer_token auth)"
    by (auto simp: resolve_auth_with_def Let_def split: option.splits AuthPreference.splits)
  from r [OF this] show "trim (bearer_token auth) \<noteq> []"
    "getter (auth_env_var auth) = Some (bearer_token auth)" by simp_all
next
  show "\<not> ends_with (resolve_base_url_with getter) ''/''"
  proof -
    have "t = [] \<or> last t \<noteq> CHR ''/'' \<Longrightarrow> \<not> suffix ''/'' t" for t
      by (auto simp: suffix_def)
    from this [OF trim_end_matches_not_ends] show ?thesis
      by (simp add: ends_with_def resolve_base_url_with_def Let_def)
  qed
qed

text \<open>
  The streaming exchange. One request is sent, to the completions endpoint with the bearer
  token; whatever the caller passed, its body asks for a stream and, for a request built by
  \<open>ChatCompletionRequest::new\<close>, for split reasoning. On success the chunks are the decoded
  non-empty events before the first \<open>[DONE]\<close>: nothing that follows it is read.
\<close>

theorem chat_completion_stream_spec:
  "\<exists>sent. hr_url sent = cl_base_url client @ ''/chat/completions'' \<and>
     hr_bearer sent = bearer_token (cl_auth client) \<and>
     json_get ''stream'' (hr_body sent) = Some (JBool True) \<and>
     json_get ''reasoning_split'' (hr_body sent) = Some (JBool True) \<and>
     json_get ''messages'' (hr_body sent) = Some (JArr (map message_to_json msgs)) \<and>
     (\<forall>http w. chat_completion_stream http from_str client (ChatCompletionRequest_new model msgs) w =
        (case http sent w of
           (Inl e, w1) \<Rightarrow> (Err (Http e), w1)
         | (Inr r, w1) \<Rightarrow>
             (if is_success (hs_status r)
              then Ok (List.map_filter (decode_event from_str)
                         (takeWhile (\<lambda>ev. \<not> is_done ev) (hs_events r)))
              else Err (Status (hs_status r) (text_or_empty r)), w1)))"
proof -
  define sent where "sent =
    \<lparr>hr_url = cl_base_url client @ ''/chat/completions'', hr_bearer = bearer_token (cl_auth client),
     hr_headers = [(''Content-Type'', ''application/json''), (''Accept'', ''text/event-stream'')],
     hr_body = request_to_json ((ChatCompletionRequest_new model msgs)\<lparr>req_stream := True\<rparr>)\<rparr>"
  have body: "json_get ''stream'' (hr_body sent) = Some (JBool True)"
    "json_get ''reasoning_split'' (hr_body sent) = Some (JBool True)"
    "json_get ''messages'' (hr_body sent) = Some (JArr (map message_to_json msgs))"
    by (simp_all add: sent_def request_to_json_def ChatCompletionRequest_new_def opt_field_def
        flag_field_def list_field_def)
  have "chat_completion_stream http from_str client (ChatCompletionRequest_new model msgs) w =
        (case http sent w of
           (Inl e, w1) \<Rightarrow> (Err (Http e), w1)
         | (Inr r, w1) \<Rightarrow>
             (if is_success (hs_status r)
              then Ok (List.map_filter (decode_event from_str)
                         (takeWhile (\<lambda>ev. \<not> is_done ev) (hs_events r)))
              else Err (Status (hs_status r) (text_or_empty r)), w1))" for http :: "'a http" and w
    by (auto simp: chat_completion_stream_def Let_def chunk_stream_def sent_def
        split: prod.splits sum.splits)
  with body show ?thesis by (intro exI [of _ sent]) (simp add: sent_def)
qed

end
