(* ===== verification/Think_Parser.thy ===== *)
theory Think_Parser
  imports Prelude
begin

text \<open>
  The streaming parser of \<open>minimax/src/think_parser.rs\<close>, which routes the text between
  \<open><think>\<close> and \<open></think>\<close> to the reasoning channel.

  The reference definition \<open>route\<close> reads the complete text: it labels every byte that is not part
  of a tag with its channel. The main result is that the streaming parser computes it for every
  way of cutting the text into chunks, so that a tag split over chunks is never missed or leaked.
\<close>

section \<open>The parser\<close>

datatype ParsedSegment = Text string | Reasoning string

record ThinkParser =
  pending :: string
  inside_think :: bool

definition OPEN_TAG :: string where "OPEN_TAG = ''<think>''"
definition CLOSE_TAG :: string where "CLOSE_TAG = ''</think>''"

definition ThinkParser_new :: ThinkParser where
  "ThinkParser_new = \<lparr>pending = [], inside_think = False\<rparr>"

definition push_segment :: "ParsedSegment list \<Rightarrow> ParsedSegment \<Rightarrow> ParsedSegment list" where
  "push_segment out segment =
     (if out = [] then [segment]
      else case (last out, segment) of
             (Text prev, Text new) \<Rightarrow> butlast out @ [Text (prev @ new)]
           | (Reasoning prev, Reasoning new) \<Rightarrow> butlast out @ [Reasoning (prev @ new)]
           | _ \<Rightarrow> out @ [segment])"

text \<open>The loop \<open>for n in (1..=max).rev()\<close>, counting down.\<close>

fun partial_scan :: "string \<Rightarrow> string \<Rightarrow> nat \<Rightarrow> nat" where
  "partial_scan buf tag 0 = length buf"
| "partial_scan buf tag (Suc n) =
     (let start = length buf - Suc n in
      if char_boundary buf start \<and> prefix (drop start buf) tag then start
      else partial_scan buf tag n)"

definition trailing_partial_match :: "string \<Rightarrow> string \<Rightarrow> nat" where
  "trailing_partial_match buf tag = partial_scan buf tag (min (length buf) (length tag - 1))"

lemma str_find_Some:
  "str_find p s = Some i \<Longrightarrow> i + length p \<le> length s \<and> prefix p (drop i s) \<and>
     (\<forall>j < i. \<not> prefix p (drop j s))"
proof (induction s arbitrary: i)
  case (Cons c s)
  show ?case
  proof (cases "prefix p (c # s)")
    case True
    with Cons.prems show ?thesis by (auto dest: prefix_length_le)
  next
    case False
    with Cons.prems obtain k where "str_find p s = Some k" "i = Suc k" by auto
    with Cons.IH [of k] False show ?thesis by (auto simp: less_Suc_eq_0_disj)
  qed
qed (auto split: if_splits)

lemma str_find_None: "str_find p s = None \<Longrightarrow> \<not> prefix p (drop j s)"
proof (induction s arbitrary: j)
  case (Cons c s)
  then show ?case by (cases j) (auto split: if_splits)
qed (auto split: if_splits)

text \<open>The \<open>loop\<close> of \<open>push\<close>.\<close>

function push_loop :: "ThinkParser \<Rightarrow> ParsedSegment list \<Rightarrow> ParsedSegment list \<times> ThinkParser" where
  "push_loop st out =
     (if inside_think st then
        case str_find CLOSE_TAG (pending st) of
          Some idx \<Rightarrow>
            push_loop \<lparr>pending = drop (idx + length CLOSE_TAG) (pending st), inside_think = False\<rparr>
              (if idx > 0 then push_segment out (Reasoning (take idx (pending st))) else out)
        | None \<Rightarrow>
            let safe_emit_to = trailing_partial_match (pending st) CLOSE_TAG
            in if safe_emit_to > 0
               then (push_segment out (Reasoning (take safe_emit_to (pending st))),
                     st\<lparr>pending := drop safe_emit_to (pending st)\<rparr>)
               else (out, st)
      else
        case str_find OPEN_TAG (pending st) of
          Some idx \<Rightarrow>
            push_loop \<lparr>pending = drop (idx + length OPEN_TAG) (pending st), inside_think = True\<rparr>
              (if idx > 0 then push_segment out (Text (take idx (pending st))) else out)
        | None \<Rightarrow>
            let safe_emit_to = trailing_partial_match (pending st) OPEN_TAG
            in if safe_emit_to > 0
               then (push_segment out (Text (take safe_emit_to (pending st))),
                     st\<lparr>pending := drop safe_emit_to (pending st)\<rparr>)
               else (out, st))"
  by pat_completeness auto
termination
  by (relation "measure (\<lambda>(st, out). length (pending st))")
    (auto dest!: str_find_Some simp: CLOSE_TAG_def OPEN_TAG_def)

declare push_loop.simps [simp del]

definition think_push :: "ThinkParser \<Rightarrow> string \<Rightarrow> ParsedSegment list \<times> ThinkParser" where
  "think_push st input = push_loop (st\<lparr>pending := pending st @ input\<rparr>) []"

definition think_flush :: "ThinkParser \<Rightarrow> ParsedSegment list \<times> ThinkParser" where
  "think_flush st =
     (if pending st = [] then ([], st)
      else ([if inside_think st then Reasoning (pending st) else Text (pending st)],
            \<lparr>pending = [], inside_think = False\<rparr>))"

text \<open>A stream: every chunk is pushed, then the parser is flushed.\<close>

fun think_pushes :: "ThinkParser \<Rightarrow> string list \<Rightarrow> ParsedSegment list \<times> ThinkParser" where
  "think_pushes st [] = ([], st)"
| "think_pushes st (c # cs) =
     (let (out, st1) = think_push st c; (out', st2) = think_pushes st1 cs in (out @ out', st2))"

definition think_stream :: "string list \<Rightarrow> ParsedSegment list" where
  "think_stream chunks =
     (let (out, st) = think_pushes ThinkParser_new chunks in out @ fst (think_flush st))"

section \<open>The reference\<close>

definition tag_of :: "bool \<Rightarrow> string" where
  "tag_of b = (if b then CLOSE_TAG else OPEN_TAG)"

lemma tag_of_length [simp]: "0 < length (tag_of b)" "tag_of b \<noteq> []" "length (tag_of b) \<noteq> 0"
  by (simp_all add: tag_of_def CLOSE_TAG_def OPEN_TAG_def)

function route :: "bool \<Rightarrow> string \<Rightarrow> (bool \<times> char) list" where
  "route b [] = []"
| "route b (c # s) =
     (if prefix (tag_of b) (c # s) then route (\<not> b) (drop (length (tag_of b)) (c # s))
      else (b, c) # route b s)"
  by pat_completeness auto
termination
  by (relation "measure (\<lambda>(b, s). length s)") (auto simp: diff_less_Suc)

text \<open>The labelled bytes of a list of segments.\<close>

fun seg_bytes :: "ParsedSegment \<Rightarrow> (bool \<times> char) list" where
  "seg_bytes (Text s) = map (Pair False) s"
| "seg_bytes (Reasoning s) = map (Pair True) s"

definition flat :: "ParsedSegment list \<Rightarrow> (bool \<times> char) list" where
  "flat segs = concat (map seg_bytes segs)"

section \<open>Lemmas\<close>

lemma flat_simps [simp]:
  "flat [] = []" "flat (s # ss) = seg_bytes s @ flat ss" "flat (xs @ ys) = flat xs @ flat ys"
  by (simp_all add: flat_def)

lemma flat_push_segment [simp]: "flat (push_segment out seg) = flat out @ seg_bytes seg"
proof (cases out rule: rev_cases)
  case (snoc ys y)
  then show ?thesis by (cases y; cases seg) (simp_all add: push_segment_def)
qed (simp add: push_segment_def)

text \<open>Before a position where the tag starts, no byte starts one: those bytes are labelled.\<close>

lemma route_skip:
  assumes "n \<le> length s" and "\<forall>j < n. \<not> prefix (tag_of b) (drop j s)"
  shows "route b s = map (Pair b) (take n s) @ route b (drop n s)"
  using assms
proof (induction n arbitrary: s)
  case (Suc n)
  then obtain c s' where s: "s = c # s'" by (cases s) auto
  from Suc.prems(2) s have "\<not> prefix (tag_of b) (c # s')" by force
  moreover have "\<forall>j < n. \<not> prefix (tag_of b) (drop j s')"
  proof (intro allI impI)
    fix j assume "j < n"
    with Suc.prems(2) [rule_format, of "Suc j"] s show "\<not> prefix (tag_of b) (drop j s')" by simp
  qed
  ultimately show ?case using Suc.IH [of s'] Suc.prems(1) s by simp
qed simp

lemma route_tag:
  assumes "prefix (tag_of b) s"
  shows "route b s = route (\<not> b) (drop (length (tag_of b)) s)"
  using assms by (cases s) auto

lemma prefix_append_long: "length t \<le> length s \<Longrightarrow> prefix t (s @ r) \<longleftrightarrow> prefix t s"
  by (metis prefix_append prefix_length_le append_eq_append_conv_if prefix_def take_is_prefix
      prefix_order.trans prefix_length_prefix append_prefixD prefixI)

lemma partial_scan_spec:
  assumes "n \<le> length buf" and "partial_scan buf tag n = k"
  shows "k \<le> length buf" and "k < length buf \<Longrightarrow> prefix (drop k buf) tag \<and> length buf - k \<le> n"
    and "\<forall>j. length buf - n \<le> j \<and> j < k \<longrightarrow> \<not> (char_boundary buf j \<and> prefix (drop j buf) tag)"
  using assms
proof (induction n)
  case (Suc n)
  { case 1 with Suc show ?case by (auto simp: Let_def split: if_splits) }
  { case 2 with Suc show ?case by (auto simp: Let_def split: if_splits) }
  { case 3
    with Suc(3) show ?case
      by (auto simp: Let_def split: if_splits)
        (metis Suc_diff_le diff_Suc_Suc le_neq_implies_less less_eq_Suc_le not_less_eq_eq Suc_leD)+ }
qed auto

lemma tag_start_boundary:
  assumes "prefix (drop j buf) (tag_of b)" and "j < length buf"
  shows "char_boundary buf j"
proof -
  from assms(2) have d: "drop j buf = buf ! j # drop (Suc j) buf" by (rule Cons_nth_drop_Suc [symmetric])
  have "buf ! j = CHR ''<''"
    using assms(1) unfolding d by (auto simp: tag_of_def CLOSE_TAG_def OPEN_TAG_def split: if_splits)
  then show ?thesis using assms(2) by (simp add: char_boundary_def cont_byte_def)
qed

lemma trailing_partial_match_spec:
  assumes "str_find (tag_of b) p = None" and "k = trailing_partial_match p (tag_of b)"
  shows "k \<le> length p" and "prefix (drop k p) (tag_of b)" and "length (drop k p) < length (tag_of b)"
    and "\<forall>j < k. \<not> prefix (tag_of b) (drop j p @ r)"
proof -
  let ?t = "tag_of b" and ?n = "min (length p) (length (tag_of b) - 1)"
  have k: "partial_scan p ?t ?n = k" using assms(2) by (simp add: trailing_partial_match_def)
  note spec = partial_scan_spec [OF _ k]
  show le: "k \<le> length p" by (rule spec(1)) simp
  show "prefix (drop k p) ?t" using spec(2) le by (cases "k < length p") auto
  show "length (drop k p) < length ?t"
  proof (cases "k < length p")
    case True
    then have "length p - k \<le> ?n" using spec(2) by simp
    moreover have "?n < length ?t" using tag_of_length(1) [of b] by (simp add: min_less_iff_disj)
    ultimately show ?thesis by simp
  qed simp
  show "\<forall>j < k. \<not> prefix ?t (drop j p @ r)"
  proof (intro allI impI)
    fix j assume j: "j < k"
    show "\<not> prefix ?t (drop j p @ r)"
    proof (cases "length ?t \<le> length (drop j p)")
      case True
      then show ?thesis using str_find_None [OF assms(1)] by (simp add: prefix_append_long)
    next
      case False
      with j le have "length p - ?n \<le> j" by auto
      with spec(3) j le tag_start_boundary [of j p b] have "\<not> prefix (drop j p) ?t" by auto
      moreover have "prefix (drop j p) ?t" if "prefix ?t (drop j p @ r)"
        using that False by (metis prefix_length_prefix nat_le_linear prefixI)
      ultimately show ?thesis by blast
    qed
  qed
qed

definition seg :: "bool \<Rightarrow> string \<Rightarrow> ParsedSegment" where
  "seg b s = (if b then Reasoning s else Text s)"

lemma seg_bytes_seg [simp]: "seg_bytes (seg b s) = map (Pair b) s"
  by (simp add: seg_def)

text \<open>The two halves of the loop body as one equation.\<close>

lemma push_loop_step:
  "push_loop st out =
     (let b = inside_think st; p = pending st in
      case str_find (tag_of b) p of
        Some idx \<Rightarrow>
          push_loop \<lparr>pending = drop (idx + length (tag_of b)) p, inside_think = \<not> b\<rparr>
            (if idx > 0 then push_segment out (seg b (take idx p)) else out)
      | None \<Rightarrow>
          let k = trailing_partial_match p (tag_of b)
          in (if k > 0 then push_segment out (seg b (take k p)) else out,
              \<lparr>pending = drop k p, inside_think = b\<rparr>))"
  by (subst push_loop.simps) (cases st; auto simp: tag_of_def seg_def Let_def split: option.splits)

lemma route_found:
  assumes "str_find (tag_of b) p = Some idx"
  shows "route b (p @ r) =
           map (Pair b) (take idx p) @ route (\<not> b) (drop (idx + length (tag_of b)) p @ r)"
proof -
  note f = str_find_Some [OF assms]
  have "\<not> prefix (tag_of b) (drop j (p @ r))" if "j < idx" for j
  proof -
    have "length (tag_of b) \<le> length (drop j p)" using f that by (simp, linarith)
    from prefix_append_long [OF this] f that show ?thesis by auto
  qed
  then have "route b (p @ r) = map (Pair b) (take idx p) @ route b (drop idx p @ r)"
    using route_skip [of idx "p @ r" b] f by auto
  moreover have "prefix (tag_of b) (drop idx p @ r)" using f by (simp add: prefix_prefix)
  ultimately show ?thesis using f by (simp add: route_tag add.commute)
qed

lemma route_held:
  assumes "str_find (tag_of b) p = None" and "k = trailing_partial_match p (tag_of b)"
  shows "route b (p @ r) = map (Pair b) (take k p) @ route b (drop k p @ r)"
  using route_skip [of k "p @ r" b] trailing_partial_match_spec [OF assms] by simp

text \<open>
  What the loop has emitted, followed by the routing of what it holds back and of any further
  text, is the routing of the text it was given; what it holds back is the beginning of a tag.
\<close>

lemma push_loop_route:
  assumes "push_loop st out = (out', st')"
  shows "flat out' @ route (inside_think st') (pending st' @ r) =
           flat out @ route (inside_think st) (pending st @ r)"
    and "strict_prefix (pending st') (tag_of (inside_think st'))"
  using assms
proof (induction "length (pending st)" arbitrary: st out rule: less_induct)
  case less
  let ?b = "inside_think st" and ?p = "pending st"
  { case 1
    show ?case
    proof (cases "str_find (tag_of ?b) ?p")
      case None
      with 1 route_held [OF None refl, of r] show ?thesis
        by (subst (asm) push_loop_step) (auto simp: Let_def)
    next
      case (Some idx)
      have "length (drop (idx + length (tag_of ?b)) ?p) < length ?p"
        using str_find_Some [OF Some] tag_of_length(1) [of ?b] by (simp, linarith)
      with 1 less(1) [of "\<lparr>pending = drop (idx + length (tag_of ?b)) ?p, inside_think = \<not> ?b\<rparr>"
          "if idx > 0 then push_segment out (seg ?b (take idx ?p)) else out"]
      show ?thesis
        by (subst (asm) push_loop_step) (auto simp: Let_def Some route_found [OF Some])
    qed }
  { case 2
    show ?case
    proof (cases "str_find (tag_of ?b) ?p")
      case None
      note k = trailing_partial_match_spec(2,3) [OF None refl]
      then have "strict_prefix (drop (trailing_partial_match ?p (tag_of ?b)) ?p) (tag_of ?b)"
        by (metis strict_prefixI less_irrefl)
      with 2 None show ?thesis by (subst (asm) push_loop_step) (auto simp: Let_def)
    next
      case (Some idx)
      have "length (drop (idx + length (tag_of ?b)) ?p) < length ?p"
        using str_find_Some [OF Some] tag_of_length(1) [of ?b] by (simp, linarith)
      with 2 less(2) [of "\<lparr>pending = drop (idx + length (tag_of ?b)) ?p, inside_think = \<not> ?b\<rparr>"
          "if idx > 0 then push_segment out (seg ?b (take idx ?p)) else out"]
      show ?thesis
        by (subst (asm) push_loop_step) (auto simp: Let_def Some)
    qed }
qed

lemma think_push_route:
  assumes "think_push st c = (out, st')"
  shows "flat out @ route (inside_think st') (pending st' @ r) =
           route (inside_think st) (pending st @ c @ r)"
    and "strict_prefix (pending st') (tag_of (inside_think st'))"
  using push_loop_route [OF assms [unfolded think_push_def]] by simp_all

lemma think_pushes_route:
  assumes "think_pushes st cs = (out, st')"
    and "strict_prefix (pending st) (tag_of (inside_think st))"
  shows "flat out @ route (inside_think st') (pending st' @ r) =
           route (inside_think st) (pending st @ concat cs @ r) \<and>
         strict_prefix (pending st') (tag_of (inside_think st'))"
  using assms
proof (induction cs arbitrary: st out)
  case (Cons c cs)
  obtain o1 s1 where 1: "think_push st c = (o1, s1)" by fastforce
  obtain o2 where 2: "think_pushes s1 cs = (o2, st')" "out = o1 @ o2"
    using Cons.prems(1) 1 by (auto split: prod.splits)
  from Cons.IH [OF 2(1) think_push_route(2) [OF 1]] think_push_route(1) [OF 1, of "concat cs @ r"] 2(2)
  show ?case by simp
qed simp

lemma route_short:
  assumes "length s < length (tag_of b)"
  shows "route b s = map (Pair b) s"
  using assms by (induction s) (auto dest: prefix_length_le)

lemma think_flush_route:
  assumes "strict_prefix (pending st) (tag_of (inside_think st))"
  shows "flat (fst (think_flush st)) = route (inside_think st) (pending st)"
  using route_short [OF prefix_length_less [OF assms]] by (auto simp: think_flush_def)

section \<open>Properties\<close>

text \<open>
  C28. Chunk invariance: for every way of cutting a text into chunks, the segments that the parser
  emits and flushes carry, byte by byte and in order, the channels of the reference \<open>route\<close> of
  the whole text.
\<close>

theorem think_stream_route:
  "flat (think_stream chunks) = route False (concat chunks)"
proof -
  obtain out st where p: "think_pushes ThinkParser_new chunks = (out, st)" by fastforce
  have "strict_prefix (pending ThinkParser_new) (tag_of (inside_think ThinkParser_new))"
    by (simp add: ThinkParser_new_def tag_of_def OPEN_TAG_def)
  note r = think_pushes_route [OF p this, of "[]"]
  then show ?thesis
    using think_flush_route [of st] p by (simp add: think_stream_def ThinkParser_new_def)
qed

text \<open>
  Bounded delay: after any number of pushes the parser holds back at most seven bytes, and they
  are the beginning of the tag it waits for; after a flush it holds back nothing.
\<close>

theorem think_push_delay:
  "length (pending (snd (think_push st c))) \<le> 7 \<and>
   strict_prefix (pending (snd (think_push st c))) (tag_of (inside_think (snd (think_push st c)))) \<and>
   pending (snd (think_flush st)) = []"
proof -
  obtain out st' where p: "think_push st c = (out, st')" by fastforce
  note sp = think_push_route(2) [OF p]
  have "length (tag_of (inside_think st')) \<le> 8"
    by (simp add: tag_of_def CLOSE_TAG_def OPEN_TAG_def)
  with prefix_length_less [OF sp] have "length (pending st') \<le> 7" by linarith
  then show ?thesis using sp p by (simp add: think_flush_def)
qed

end
