(* ===== verification/Minimax_Bridge.thy ===== *)
theory Minimax_Bridge
  imports Minimax_Wire Think_Parser
begin

text \<open>
  The bridge of \<open>minimax/src/bridge.rs\<close>: it turns the chunks of a streamed completion into the
  events of a turn. Each operation returns the events it appends and the new state; \<open>fresh\<close> is
  the identifier \<open>Uuid::new_v4\<close> would give, \<open>now\<close> the clock at \<open>finalize\<close>.

  The results are on the whole event sequence of a stream: it is a legal item life cycle, its
  visible text is the text channel of the think parser's reference, its reasoning indices are
  consecutive, and its function calls are the reassembled fragments. Each is a relation that the
  operations keep, an instance of \<open>emission\<close>.
\<close>

section \<open>Data\<close>

type_synonym i64 = "64 word"

record TokenUsage =
  input_tokens :: i64
  cached_input_tokens :: i64
  output_tokens :: i64
  reasoning_output_tokens :: i64
  tu_total_tokens :: i64

record PartialCall =
  pc_call_id :: string
  pc_name :: string
  pc_arguments :: string

datatype ResponseItem =
  MessageItem (mi_id: string) (mi_content: "string list")
| FunctionCallItem (fi_name: string) (fi_arguments: string) (fi_call_id: string)

datatype BridgeEvent =
  EvItemAdded ResponseItem
| EvTextDelta string
| EvReasoningDelta string i64
| EvToolCallDelta string "string option" string
| EvItemDone ResponseItem
| EvCompleted string "TokenUsage option" "bool option"

record ResponseEventBridge =
  br_response_id :: "string option"
  br_pending_calls :: "(u32 \<times> PartialCall) list"
  br_last_usage :: "TokenUsage option"
  br_final_finish_reason :: "string option"
  br_think_parser :: ThinkParser
  br_reasoning_index :: i64
  br_run_id :: string
  br_model :: string
  br_started_at :: nat
  br_message_started :: bool
  br_message_item_id :: string
  br_accumulated_text :: string

record CostLog =
  cost_run_id :: string
  cost_model :: string
  cost_usage :: TokenUsage
  cost_latency_ms :: u64

section \<open>Operations\<close>

definition with_telemetry :: "string \<Rightarrow> string \<Rightarrow> nat \<Rightarrow> ResponseEventBridge" where
  "with_telemetry run_id model started_at =
     \<lparr>br_response_id = None, br_pending_calls = [], br_last_usage = None,
      br_final_finish_reason = None, br_think_parser = ThinkParser_new, br_reasoning_index = 0,
      br_run_id = run_id, br_model = model, br_started_at = started_at,
      br_message_started = False, br_message_item_id = [], br_accumulated_text = []\<rparr>"

definition ResponseEventBridge_default :: "nat \<Rightarrow> ResponseEventBridge" where
  "ResponseEventBridge_default now = with_telemetry [] [] now"

text \<open>The casts \<open>as i64\<close> keep the bits.\<close>

definition map_usage :: "Usage \<Rightarrow> TokenUsage" where
  "map_usage usage =
     (let cached = (case cached_tokens usage of Some c \<Rightarrow> c | None \<Rightarrow> 0);
          reasoning = (case reasoning_tokens usage of Some r \<Rightarrow> r | None \<Rightarrow> 0)
      in \<lparr>input_tokens = prompt_tokens usage, cached_input_tokens = cached,
          output_tokens = completion_tokens usage, reasoning_output_tokens = reasoning,
          tu_total_tokens = usage_total_tokens usage\<rparr>)"

definition ensure_message_started ::
    "string \<Rightarrow> ResponseEventBridge \<Rightarrow> BridgeEvent list \<times> ResponseEventBridge" where
  "ensure_message_started fresh st =
     (if br_message_started st then ([], st)
      else let item_id = ''msg-'' @ (case br_response_id st of Some i \<Rightarrow> i | None \<Rightarrow> fresh)
           in ([EvItemAdded (MessageItem item_id [])],
               st\<lparr>br_message_item_id := item_id, br_message_started := True\<rparr>))"

definition emit_reasoning ::
    "string \<Rightarrow> ResponseEventBridge \<Rightarrow> BridgeEvent list \<times> ResponseEventBridge" where
  "emit_reasoning text st =
     ([EvReasoningDelta text (br_reasoning_index st)],
      st\<lparr>br_reasoning_index := br_reasoning_index st + 1\<rparr>)"

definition emit_text ::
    "string \<Rightarrow> ResponseEventBridge \<Rightarrow> BridgeEvent list \<times> ResponseEventBridge" where
  "emit_text text st =
     ([EvTextDelta text], st\<lparr>br_accumulated_text := br_accumulated_text st @ text\<rparr>)"

text \<open>The \<open>match seg\<close> of \<open>ingest\<close> and \<open>finalize\<close>.\<close>

definition emit_segment ::
    "string \<Rightarrow> ResponseEventBridge \<Rightarrow> ParsedSegment \<Rightarrow> BridgeEvent list \<times> ResponseEventBridge" where
  "emit_segment fresh st sg =
     (case sg of
        Text text \<Rightarrow>
          if text = [] then ([], st) else emit_seq (ensure_message_started fresh st) (emit_text text)
      | Reasoning text \<Rightarrow>
          if text = [] then ([], st)
          else emit_seq (ensure_message_started fresh st) (emit_reasoning text))"

definition ingest_reasoning ::
    "string \<Rightarrow> ChunkDelta \<Rightarrow> ResponseEventBridge \<Rightarrow> BridgeEvent list \<times> ResponseEventBridge" where
  "ingest_reasoning fresh d st =
     (case delta_reasoning_content d of
        Some reasoning \<Rightarrow>
          if reasoning = [] then ([], st)
          else emit_seq (ensure_message_started fresh st) (emit_reasoning reasoning)
      | None \<Rightarrow> ([], st))"

definition ingest_content ::
    "string \<Rightarrow> ChunkDelta \<Rightarrow> ResponseEventBridge \<Rightarrow> BridgeEvent list \<times> ResponseEventBridge" where
  "ingest_content fresh d st =
     (case delta_content d of
        Some content \<Rightarrow>
          if content = [] then ([], st)
          else let (segs, parser) = think_push (br_think_parser st) content
               in emit_all (emit_segment fresh) (st\<lparr>br_think_parser := parser\<rparr>) segs
      | None \<Rightarrow> ([], st))"

definition PartialCall_default :: PartialCall where
  "PartialCall_default = \<lparr>pc_call_id = [], pc_name = [], pc_arguments = []\<rparr>"

definition call_entry :: "ResponseEventBridge \<Rightarrow> u32 \<Rightarrow> PartialCall" where
  "call_entry st i =
     (case map_of (br_pending_calls st) i of Some c \<Rightarrow> c | None \<Rightarrow> PartialCall_default)"

definition ingest_tool_call ::
    "ResponseEventBridge \<Rightarrow> ToolCallChunk \<Rightarrow> BridgeEvent list \<times> ResponseEventBridge" where
  "ingest_tool_call st tc =
     (let i = tcc_index tc;
          e1 = call_entry st i;
          e2 = (case tcc_id tc of Some x \<Rightarrow> e1\<lparr>pc_call_id := x\<rparr> | None \<Rightarrow> e1)
      in case tcc_function tc of
           None \<Rightarrow> ([], st\<lparr>br_pending_calls := btree_update i e2 (br_pending_calls st)\<rparr>)
         | Some func \<Rightarrow>
             let e3 = (case tcf_name func of Some n \<Rightarrow> e2\<lparr>pc_name := n\<rparr> | None \<Rightarrow> e2)
             in case tcf_arguments func of
                  Some args \<Rightarrow>
                    if args = []
                    then ([], st\<lparr>br_pending_calls := btree_update i e3 (br_pending_calls st)\<rparr>)
                    else let e4 = e3\<lparr>pc_arguments := pc_arguments e3 @ args\<rparr>
                         in ([EvToolCallDelta (''call-'' @ nat_str (unat i))
                                (if pc_call_id e4 = [] then None else Some (pc_call_id e4)) args],
                             st\<lparr>br_pending_calls := btree_update i e4 (br_pending_calls st)\<rparr>)
                | None \<Rightarrow> ([], st\<lparr>br_pending_calls := btree_update i e3 (br_pending_calls st)\<rparr>))"

definition ingest_choice ::
    "string \<Rightarrow> ResponseEventBridge \<Rightarrow> ChunkChoice \<Rightarrow> BridgeEvent list \<times> ResponseEventBridge" where
  "ingest_choice fresh st choice =
     (let st1 = (case cc_finish_reason choice of
                   Some reason \<Rightarrow> st\<lparr>br_final_finish_reason := Some reason\<rparr> | None \<Rightarrow> st);
          d = cc_delta choice
      in emit_seq (emit_seq (ingest_reasoning fresh d st1) (ingest_content fresh d))
           (\<lambda>s. emit_all ingest_tool_call s (delta_tool_calls d)))"

definition ingest ::
    "string \<Rightarrow> ResponseEventBridge \<Rightarrow> ChatCompletionChunk \<Rightarrow> BridgeEvent list \<times> ResponseEventBridge" where
  "ingest fresh st chunk =
     (let st1 = (if br_response_id st = None \<and> chunk_id chunk \<noteq> []
                 then st\<lparr>br_response_id := Some (chunk_id chunk)\<rparr> else st);
          st2 = (case chunk_usage chunk of
                   Some usage \<Rightarrow> st1\<lparr>br_last_usage := Some (map_usage usage)\<rparr> | None \<Rightarrow> st1)
      in emit_all (ingest_choice fresh) st2 (chunk_choices chunk))"

definition close_message :: "ResponseEventBridge \<Rightarrow> BridgeEvent list" where
  "close_message st =
     (if br_message_started st
      then [EvItemDone (MessageItem (br_message_item_id st)
              (if br_accumulated_text st = [] then [] else [br_accumulated_text st]))]
      else [])"

definition close_call :: "u32 \<times> PartialCall \<Rightarrow> BridgeEvent list" where
  "close_call p =
     (let call = snd p in
      if pc_call_id call = [] \<and> pc_name call = [] then []
      else [EvItemDone (FunctionCallItem (pc_name call) (pc_arguments call) (pc_call_id call))])"

definition end_turn_of :: "string option \<Rightarrow> bool option" where
  "end_turn_of r =
     map_option (\<lambda>reason. if reason = ''stop'' \<or> reason = ''length'' then True
                          else if reason = ''tool_calls'' then False else False) r"

definition cost_log :: "nat \<Rightarrow> ResponseEventBridge \<Rightarrow> CostLog option" where
  "cost_log now st =
     (case br_last_usage st of
        Some usage \<Rightarrow>
          if br_run_id st = [] then None
          else Some \<lparr>cost_run_id = br_run_id st, cost_model = br_model st, cost_usage = usage,
                     cost_latency_ms = of_nat (now - br_started_at st)\<rparr>
      | None \<Rightarrow> None)"

definition finalize ::
    "string \<Rightarrow> nat \<Rightarrow> ResponseEventBridge \<Rightarrow> BridgeEvent list \<times> CostLog option" where
  "finalize fresh now st0 =
     (let (segs, parser) = think_flush (br_think_parser st0);
          (out, st) = emit_all (emit_segment fresh) (st0\<lparr>br_think_parser := parser\<rparr>) segs
      in (out @ close_message st @ concat (map close_call (br_pending_calls st))
          @ [EvCompleted (case br_response_id st of Some i \<Rightarrow> i | None \<Rightarrow> []) (br_last_usage st)
               (end_turn_of (br_final_finish_reason st))],
          cost_log now st))"

text \<open>A whole stream.\<close>

definition bridge_stream ::
    "string \<Rightarrow> nat \<Rightarrow> ResponseEventBridge \<Rightarrow> ChatCompletionChunk list \<Rightarrow> BridgeEvent list" where
  "bridge_stream fresh now st chunks =
     (let (out, st') = emit_all (ingest fresh) st chunks in out @ fst (finalize fresh now st'))"

section \<open>Relations that the bridge keeps\<close>

text \<open>
  A relation that is kept by the parts of \<open>ingest_choice\<close> is kept by the whole ingestion. The input
  of a step is what its content and its tool-call fragments contribute.
\<close>

definition chunk_input ::
    "(ChunkDelta \<Rightarrow> 'i list) \<Rightarrow> (ToolCallChunk \<Rightarrow> 'i list) \<Rightarrow> ChatCompletionChunk \<Rightarrow> 'i list" where
  "chunk_input in_content in_call ch =
     concat (map (\<lambda>c. in_content (cc_delta c)
                       @ concat (map in_call (delta_tool_calls (cc_delta c)))) (chunk_choices ch))"

locale bridge_relation = emission R
  for R :: "ResponseEventBridge \<Rightarrow> 'i list \<Rightarrow> BridgeEvent list \<Rightarrow> ResponseEventBridge \<Rightarrow> bool" +
  fixes fresh :: string
    and in_content :: "ChunkDelta \<Rightarrow> 'i list"
    and in_call :: "ToolCallChunk \<Rightarrow> 'i list"
  assumes keep_finish: "R s [] [] (s\<lparr>br_final_finish_reason := r\<rparr>)"
    and keep_id: "R s [] [] (s\<lparr>br_response_id := i\<rparr>)"
    and keep_usage: "R s [] [] (s\<lparr>br_last_usage := u\<rparr>)"
    and reasoning: "holds s [] (ingest_reasoning fresh d s)"
    and content: "holds s (in_content d) (ingest_content fresh d s)"
    and call: "holds s (in_call tc) (ingest_tool_call s tc)"
begin

lemma after_silent: "R s [] [] t \<Longrightarrow> holds t i p \<Longrightarrow> holds s i p"
  using R_trans [of s "[]" "[]" t i "fst p" "snd p"] by (simp add: holds_def)

lemma ingest_choice_holds:
  "holds s (in_content (cc_delta c) @ concat (map in_call (delta_tool_calls (cc_delta c))))
     (ingest_choice fresh s c)"
proof -
  let ?d = "cc_delta c"
  have "holds t (in_content ?d) (emit_seq (ingest_reasoning fresh ?d t) (ingest_content fresh ?d))" for t
    using holds_seq [OF reasoning content] by simp
  then have "holds t (in_content ?d @ concat (map in_call (delta_tool_calls ?d)))
      (emit_seq (emit_seq (ingest_reasoning fresh ?d t) (ingest_content fresh ?d))
         (\<lambda>s. emit_all ingest_tool_call s (delta_tool_calls ?d)))" for t
    by (rule holds_seq [OF _ holds_emit_all [OF call]])
  then show ?thesis
    unfolding ingest_choice_def Let_def
    by (auto split: option.splits intro: after_silent keep_finish)
qed

lemma ingest_holds: "holds s (chunk_input in_content in_call ch) (ingest fresh s ch)"
proof -
  let ?i = "chunk_input in_content in_call ch"
  have all: "holds t ?i (emit_all (ingest_choice fresh) t (chunk_choices ch))" for t
    unfolding chunk_input_def by (rule holds_emit_all [OF ingest_choice_holds])
  then have "holds t ?i (emit_all (ingest_choice fresh)
      (case chunk_usage ch of Some usage \<Rightarrow> t\<lparr>br_last_usage := Some (map_usage usage)\<rparr> | None \<Rightarrow> t)
      (chunk_choices ch))" for t
    by (auto split: option.splits intro: after_silent keep_usage)
  then show ?thesis
    unfolding ingest_def Let_def by (auto intro: after_silent keep_id)
qed

lemma stream_holds:
  "holds s (concat (map (chunk_input in_content in_call) chs)) (emit_all (ingest fresh) s chs)"
  by (rule holds_emit_all [OF ingest_holds])

end

section \<open>The item life cycle\<close>

text \<open>
  What the turn loop expects: a delta only while the message item is open, the message closed once
  under the identifier it was opened with, function calls after it, and the completion last.
\<close>

datatype phase = PIdle | POpen string | PClosed | PDone

fun lc_step :: "phase \<Rightarrow> BridgeEvent \<Rightarrow> phase option" where
  "lc_step PIdle (EvItemAdded (MessageItem i [])) = Some (POpen i)"
| "lc_step (POpen i) (EvTextDelta _) = Some (POpen i)"
| "lc_step (POpen i) (EvReasoningDelta _ _) = Some (POpen i)"
| "lc_step PIdle (EvToolCallDelta _ _ _) = Some PIdle"
| "lc_step (POpen i) (EvToolCallDelta _ _ _) = Some (POpen i)"
| "lc_step (POpen i) (EvItemDone (MessageItem j _)) = (if i = j then Some PClosed else None)"
| "lc_step PIdle (EvItemDone (FunctionCallItem _ _ _)) = Some PClosed"
| "lc_step PClosed (EvItemDone (FunctionCallItem _ _ _)) = Some PClosed"
| "lc_step PIdle (EvCompleted _ _ _) = Some PDone"
| "lc_step PClosed (EvCompleted _ _ _) = Some PDone"
| "lc_step _ _ = None"

fun lc_run :: "phase \<Rightarrow> BridgeEvent list \<Rightarrow> phase option" where
  "lc_run p [] = Some p"
| "lc_run p (e # es) = Option.bind (lc_step p e) (\<lambda>q. lc_run q es)"

definition phase_of :: "ResponseEventBridge \<Rightarrow> phase" where
  "phase_of st = (if br_message_started st then POpen (br_message_item_id st) else PIdle)"

definition life :: "ResponseEventBridge \<Rightarrow> unit list \<Rightarrow> BridgeEvent list \<Rightarrow> ResponseEventBridge \<Rightarrow> bool" where
  "life s i evs t = (lc_run (phase_of s) evs = Some (phase_of t))"

lemma lc_run_append: "lc_run p (xs @ ys) = Option.bind (lc_run p xs) (\<lambda>q. lc_run q ys)"
  by (induction xs arbitrary: p) (auto split: bind_splits)

interpretation life: emission life
  by unfold_locales (simp_all add: life_def lc_run_append)

lemma ensure_started [simp]: "br_message_started (snd (ensure_message_started fresh s))"
  by (simp add: ensure_message_started_def Let_def)

lemma ensure_life:
  assumes "\<And>t. br_message_started t \<Longrightarrow> life.holds t [] (f t)"
  shows "life.holds s [] (emit_seq (ensure_message_started fresh s) f)"
proof -
  have "life.holds s [] (ensure_message_started fresh s)"
    by (simp add: life.holds_def life_def ensure_message_started_def Let_def phase_of_def)
  from life.holds_seq_at [where f = f, OF this assms [OF ensure_started]] show ?thesis by simp
qed

lemma emit_life:
  assumes "br_message_started t"
  shows "life.holds t [] (emit_text text t)" and "life.holds t [] (emit_reasoning text t)"
  using assms
  by (auto simp: life.holds_def life_def emit_text_def emit_reasoning_def phase_of_def)

lemma emit_segment_life: "life.holds s [] (emit_segment fresh s sg)"
  using life.holds_skip
  by (auto simp: emit_segment_def split: ParsedSegment.splits intro: ensure_life emit_life)

lemma life_emit_segments: "life.holds s [] (emit_all (emit_segment fresh) s segs)"
  by (rule life.holds_emit_all_silent [OF emit_segment_life])

lemma life_parser: "life.holds (s\<lparr>br_think_parser := q\<rparr>) i p = life.holds s i p"
  by (simp add: life.holds_def life_def phase_of_def)

interpretation life_rel: bridge_relation life fresh "\<lambda>_. []" "\<lambda>_. []" for fresh
proof unfold_locales
  fix s d
  show "life.holds s [] (ingest_reasoning fresh d s)"
    using life.holds_skip
    by (auto simp: ingest_reasoning_def split: option.splits intro: ensure_life emit_life)
  show "life.holds s [] (ingest_content fresh d s)"
    using life.holds_skip
      life_emit_segments [of "s\<lparr>br_think_parser := q\<rparr>" fresh segs for q segs, unfolded life_parser]
    by (auto simp: ingest_content_def Let_def split_beta split: option.splits)
next
  fix s tc
  show "life.holds s [] (ingest_tool_call s tc)"
    by (cases "br_message_started s")
      (auto simp: life.holds_def life_def ingest_tool_call_def Let_def phase_of_def split: option.splits)
qed (simp_all add: life_def phase_of_def)

lemma lc_run_calls:
  assumes "p = PIdle \<or> p = PClosed"
  shows "\<exists>q. lc_run p (concat (map close_call cs)) = Some q \<and> (q = PIdle \<or> q = PClosed)"
  using assms
proof (induction cs arbitrary: p)
  case (Cons c cs)
  then have "\<exists>q. lc_run p (close_call c) = Some q \<and> (q = PIdle \<or> q = PClosed)"
    by (auto simp: close_call_def Let_def)
  with Cons.IH show ?case by (auto simp: lc_run_append)
qed simp

lemma finalize_life: "lc_run (phase_of st0) (fst (finalize fresh now st0)) = Some PDone"
proof -
  obtain segs q where f: "think_flush (br_think_parser st0) = (segs, q)" by fastforce
  obtain out st where e: "emit_all (emit_segment fresh) (st0\<lparr>br_think_parser := q\<rparr>) segs = (out, st)"
    by fastforce
  have "life.holds st0 [] (out, st)"
    using life_emit_segments [of "st0\<lparr>br_think_parser := q\<rparr>" fresh segs] e by (simp add: life_parser)
  then have 1: "lc_run (phase_of st0) out = Some (phase_of st)" by (simp add: life.holds_def life_def)
  have 2: "\<exists>p. lc_run (phase_of st) (close_message st) = Some p \<and> (p = PIdle \<or> p = PClosed)"
    by (simp add: close_message_def phase_of_def)
  then obtain p where p: "lc_run (phase_of st) (close_message st) = Some p" "p = PIdle \<or> p = PClosed"
    by blast
  from lc_run_calls [OF p(2), of "br_pending_calls st"] obtain q' where
    "lc_run p (concat (map close_call (br_pending_calls st))) = Some q'" "q' = PIdle \<or> q' = PClosed"
    by blast
  with 1 p(1) show ?thesis by (auto simp: finalize_def Let_def f e lc_run_append)
qed

section \<open>The visible text\<close>

definition text_of :: "BridgeEvent list \<Rightarrow> string" where
  "text_of evs = concat (map (\<lambda>e. case e of EvTextDelta t \<Rightarrow> t | _ \<Rightarrow> []) evs)"

definition visible :: "bool \<Rightarrow> string \<Rightarrow> string" where
  "visible b s = map snd (filter (\<lambda>p. \<not> fst p) (route b s))"

definition delta_text :: "ChunkDelta \<Rightarrow> string" where
  "delta_text d = (case delta_content d of Some c \<Rightarrow> c | None \<Rightarrow> [])"

definition chunk_text :: "ChatCompletionChunk \<Rightarrow> string" where
  "chunk_text ch = concat (map (\<lambda>c. delta_text (cc_delta c)) (chunk_choices ch))"

lemma chunk_input_text [simp]: "chunk_input delta_text (\<lambda>_. []) = chunk_text"
  by (simp add: fun_eq_iff chunk_input_def chunk_text_def)

text \<open>
  The events so far, followed by the visible part of what the parser still holds and of any further
  text, are the visible part of the text consumed.
\<close>

definition shows_text ::
    "ResponseEventBridge \<Rightarrow> string \<Rightarrow> BridgeEvent list \<Rightarrow> ResponseEventBridge \<Rightarrow> bool" where
  "shows_text s i evs t \<longleftrightarrow>
     (let p = br_think_parser s; q = br_think_parser t in
      (\<forall>r. text_of evs @ visible (inside_think q) (pending q @ r) =
             visible (inside_think p) (pending p @ i @ r)) \<and>
      (strict_prefix (pending p) (tag_of (inside_think p)) \<longrightarrow>
         strict_prefix (pending q) (tag_of (inside_think q))) \<and>
      br_accumulated_text t = br_accumulated_text s @ text_of evs)"

lemma text_of_simps [simp]:
  "text_of [] = []" "text_of (xs @ ys) = text_of xs @ text_of ys"
  "text_of (EvTextDelta t # evs) = t @ text_of evs"
  "text_of (EvItemAdded item # evs) = text_of evs" "text_of (EvReasoningDelta t n # evs) = text_of evs"
  "text_of (EvToolCallDelta a b c # evs) = text_of evs" "text_of (EvItemDone item # evs) = text_of evs"
  "text_of (EvCompleted i u e # evs) = text_of evs"
  by (simp_all add: text_of_def)

interpretation shows_text: emission shows_text
proof unfold_locales
  fix s i out t j out' u
  assume a: "shows_text s i out t" and b: "shows_text t j out' u"
  have "text_of (out @ out') @ visible (inside_think (br_think_parser u)) (pending (br_think_parser u) @ r) =
        visible (inside_think (br_think_parser s)) (pending (br_think_parser s) @ (i @ j) @ r)" for r
  proof -
    from a have "text_of out @ visible (inside_think (br_think_parser t)) (pending (br_think_parser t) @ j @ r) =
        visible (inside_think (br_think_parser s)) (pending (br_think_parser s) @ i @ j @ r)"
      by (simp add: shows_text_def Let_def)
    with b show ?thesis by (simp add: shows_text_def Let_def)
  qed
  with a b show "shows_text s (i @ j) (out @ out') u" by (simp add: shows_text_def Let_def)
qed (simp add: shows_text_def)

lemma shows_text_emit:
  "shows_text.holds s [] (emit_seq (ensure_message_started fresh s) (emit_reasoning text))"
  "text_of (fst (emit_seq (ensure_message_started fresh s) (emit_text text))) = text"
  "br_think_parser (snd (emit_seq (ensure_message_started fresh s) (emit_text text))) = br_think_parser s"
  "br_accumulated_text (snd (emit_seq (ensure_message_started fresh s) (emit_text text))) =
     br_accumulated_text s @ text"
  by (simp_all add: shows_text.holds_def shows_text_def emit_seq_def ensure_message_started_def
      emit_reasoning_def emit_text_def Let_def)

lemma emit_segment_parts:
  "text_of (fst (emit_segment fresh s sg)) = map snd (filter (\<lambda>p. \<not> fst p) (seg_bytes sg))"
  "br_think_parser (snd (emit_segment fresh s sg)) = br_think_parser s"
  "br_accumulated_text (snd (emit_segment fresh s sg)) =
     br_accumulated_text s @ text_of (fst (emit_segment fresh s sg))"
  by (cases sg; simp add: emit_segment_def emit_seq_def ensure_message_started_def emit_text_def
      emit_reasoning_def Let_def comp_def)+

lemma emit_segments_parts:
  "text_of (fst (emit_all (emit_segment fresh) s segs)) =
     map snd (filter (\<lambda>p. \<not> fst p) (flat segs)) \<and>
   br_think_parser (snd (emit_all (emit_segment fresh) s segs)) = br_think_parser s \<and>
   br_accumulated_text (snd (emit_all (emit_segment fresh) s segs)) =
     br_accumulated_text s @ text_of (fst (emit_all (emit_segment fresh) s segs))"
proof (induction segs arbitrary: s)
  case (Cons sg segs)
  from Cons [of "snd (emit_segment fresh s sg)"] emit_segment_parts [of fresh s sg]
  show ?case by (simp add: Let_def split_beta)
qed simp

lemma ingest_content_shows: "shows_text.holds s (delta_text d) (ingest_content fresh d s)"
proof (cases "delta_text d = []")
  case True
  then have "ingest_content fresh d s = ([], s)"
    by (auto simp: delta_text_def ingest_content_def split: option.splits)
  with True show ?thesis by (simp add: shows_text.holds_skip)
next
  case False
  obtain segs q where p: "think_push (br_think_parser s) (delta_text d) = (segs, q)" by fastforce
  have i: "ingest_content fresh d s = emit_all (emit_segment fresh) (s\<lparr>br_think_parser := q\<rparr>) segs"
    using False p by (auto simp: delta_text_def ingest_content_def split: option.splits)
  note e = emit_segments_parts [of fresh "s\<lparr>br_think_parser := q\<rparr>" segs]
  have "text_of (fst (ingest_content fresh d s)) @ visible (inside_think q) (pending q @ r) =
        visible (inside_think (br_think_parser s)) (pending (br_think_parser s) @ delta_text d @ r)" for r
    using think_push_route(1) [OF p, of r] e by (simp add: i visible_def flip: map_append filter_append)
  with e think_push_route(2) [OF p] show ?thesis
    by (simp add: shows_text.holds_def shows_text_def i)
qed

interpretation shows_rel: bridge_relation shows_text fresh delta_text "\<lambda>_. []" for fresh
proof unfold_locales
  fix s d
  show "shows_text.holds s [] (ingest_reasoning fresh d s)"
    using shows_text.holds_skip shows_text_emit(1)
    by (auto simp: ingest_reasoning_def split: option.splits)
  show "shows_text.holds s (delta_text d) (ingest_content fresh d s)"
    by (rule ingest_content_shows)
next
  fix s tc
  show "shows_text.holds s [] (ingest_tool_call s tc)"
    by (auto simp: shows_text.holds_def shows_text_def ingest_tool_call_def Let_def split: option.splits)
qed (simp_all add: shows_text_def)

lemma text_of_close [simp]: "text_of (concat (map close_call cs)) = []" "text_of (close_message st) = []"
  by (induction cs) (simp_all add: close_call_def close_message_def Let_def)

lemma finalize_text:
  assumes "strict_prefix (pending (br_think_parser st)) (tag_of (inside_think (br_think_parser st)))"
  shows "text_of (fst (finalize fresh now st)) =
           visible (inside_think (br_think_parser st)) (pending (br_think_parser st))"
proof -
  obtain segs q where f: "think_flush (br_think_parser st) = (segs, q)" by fastforce
  have "flat segs = route (inside_think (br_think_parser st)) (pending (br_think_parser st))"
    using think_flush_route [OF assms] f by simp
  with emit_segments_parts [of fresh "st\<lparr>br_think_parser := q\<rparr>" segs] show ?thesis
    by (simp add: finalize_def f visible_def split_beta)
qed

lemma shows_text_whole:
  assumes "shows_text (with_telemetry run_id model t0) i out st"
  shows "text_of out @ text_of (fst (finalize fresh now st)) = visible False i"
proof -
  let ?q = "br_think_parser st"
  from assms have all: "text_of out @ visible (inside_think ?q) (pending ?q @ r) = visible False (i @ r)"
    and sp: "strict_prefix (pending ?q) (tag_of (inside_think ?q))" for r
    by (simp_all add: shows_text_def Let_def with_telemetry_def ThinkParser_new_def tag_of_def OPEN_TAG_def)
  from all [of "[]"] finalize_text [OF sp, of fresh now] show ?thesis by simp
qed

lemma bridge_text:
  "text_of (bridge_stream fresh now (with_telemetry run_id model t0) chunks) =
     visible False (concat (map chunk_text chunks))"
proof -
  let ?s = "with_telemetry run_id model t0"
  obtain out st where e: "emit_all (ingest fresh) ?s chunks = (out, st)" by fastforce
  have "shows_text ?s (concat (map chunk_text chunks)) out st"
    using shows_rel.stream_holds [of ?s chunks fresh] by (simp add: e shows_text.holds_def)
  from shows_text_whole [OF this, of fresh now] show ?thesis
    by (simp add: bridge_stream_def e)
qed

section \<open>Reasoning indices\<close>

definition reasoning_indices :: "BridgeEvent list \<Rightarrow> i64 list" where
  "reasoning_indices evs =
     concat (map (\<lambda>e. case e of EvReasoningDelta _ n \<Rightarrow> [n] | _ \<Rightarrow> []) evs)"

definition counts ::
    "ResponseEventBridge \<Rightarrow> unit list \<Rightarrow> BridgeEvent list \<Rightarrow> ResponseEventBridge \<Rightarrow> bool" where
  "counts s i evs t \<longleftrightarrow>
     (let k = length (reasoning_indices evs); n = br_reasoning_index s in
      reasoning_indices evs = map (\<lambda>j. n + of_nat j) [0 ..< k] \<and> br_reasoning_index t = n + of_nat k)"

lemma reasoning_indices_simps [simp]:
  "reasoning_indices [] = []"
  "reasoning_indices (xs @ ys) = reasoning_indices xs @ reasoning_indices ys"
  "reasoning_indices (EvReasoningDelta t n # evs) = n # reasoning_indices evs"
  "reasoning_indices (EvTextDelta t # evs) = reasoning_indices evs"
  "reasoning_indices (EvItemAdded item # evs) = reasoning_indices evs"
  "reasoning_indices (EvToolCallDelta a b c # evs) = reasoning_indices evs"
  "reasoning_indices (EvItemDone item # evs) = reasoning_indices evs"
  "reasoning_indices (EvCompleted i u e # evs) = reasoning_indices evs"
  by (simp_all add: reasoning_indices_def)

lemma upt_add_map: "map f [0 ..< m + n] = map f [0 ..< m] @ map (\<lambda>j. f (m + j)) [0 ..< n]"
  by (induction n) auto

interpretation counts: emission counts
proof unfold_locales
  fix s i out t j out' u
  assume a: "counts s i out t" and b: "counts t j out' u"
  then show "counts s (i @ j) (out @ out') u"
    unfolding counts_def Let_def reasoning_indices_simps(2) length_append upt_add_map
    by (simp add: add.assoc)
qed (simp add: counts_def)

lemma counts_emit:
  "counts.holds s [] (emit_seq (ensure_message_started fresh s) (emit_reasoning text))"
  "counts.holds s [] (emit_seq (ensure_message_started fresh s) (emit_text text))"
  by (simp_all add: counts.holds_def counts_def emit_seq_def ensure_message_started_def
      emit_reasoning_def emit_text_def Let_def)

lemma emit_segment_counts: "counts.holds s [] (emit_segment fresh s sg)"
  using counts.holds_skip counts_emit by (auto simp: emit_segment_def split: ParsedSegment.splits)

lemma counts_parser: "counts.holds (s\<lparr>br_think_parser := q\<rparr>) i p = counts.holds s i p"
  by (simp add: counts.holds_def counts_def)

lemma counts_segments:
  "counts.holds s [] (emit_all (emit_segment fresh) (s\<lparr>br_think_parser := q\<rparr>) segs)"
proof -
  have "counts.holds t [] (emit_all (emit_segment fresh) t segs)" for t
    by (rule counts.holds_emit_all_silent [OF emit_segment_counts])
  from this [of "s\<lparr>br_think_parser := q\<rparr>"] show ?thesis by (simp add: counts_parser)
qed

interpretation counts_rel: bridge_relation counts fresh "\<lambda>_. []" "\<lambda>_. []" for fresh
proof unfold_locales
  fix s d
  show "counts.holds s [] (ingest_reasoning fresh d s)"
    using counts.holds_skip counts_emit by (auto simp: ingest_reasoning_def split: option.splits)
  show "counts.holds s [] (ingest_content fresh d s)"
    using counts.holds_skip counts_segments
    by (auto simp: ingest_content_def Let_def split_beta split: option.splits)
next
  fix s tc
  show "counts.holds s [] (ingest_tool_call s tc)"
    by (auto simp: counts.holds_def counts_def ingest_tool_call_def Let_def split: option.splits)
qed (simp_all add: counts_def)

lemma chunk_input_none [simp]: "chunk_input (\<lambda>_. []) (\<lambda>_. []) = (\<lambda>_. [])"
  by (simp add: chunk_input_def fun_eq_iff)

lemma reasoning_indices_close [simp]:
  "reasoning_indices (concat (map close_call cs)) = []" "reasoning_indices (close_message st) = []"
  by (induction cs) (simp_all add: close_call_def close_message_def Let_def)

section \<open>Reassembled calls\<close>

text \<open>
  What the fragments with one index say: the last identifier and name, and all argument fragments
  in order.
\<close>

definition call_ids :: "u32 \<Rightarrow> ToolCallChunk list \<Rightarrow> string list" where
  "call_ids i tcs = List.map_filter (\<lambda>tc. if tcc_index tc = i then tcc_id tc else None) tcs"

definition call_names :: "u32 \<Rightarrow> ToolCallChunk list \<Rightarrow> string list" where
  "call_names i tcs =
     List.map_filter (\<lambda>tc. if tcc_index tc = i then Option.bind (tcc_function tc) tcf_name else None) tcs"

definition call_frags :: "u32 \<Rightarrow> ToolCallChunk list \<Rightarrow> string list" where
  "call_frags i tcs =
     List.map_filter
       (\<lambda>tc. if tcc_index tc = i then Option.bind (tcc_function tc) tcf_arguments else None) tcs"

definition extend_call :: "PartialCall \<Rightarrow> u32 \<Rightarrow> ToolCallChunk list \<Rightarrow> PartialCall" where
  "extend_call c i tcs =
     \<lparr>pc_call_id = last (pc_call_id c # call_ids i tcs), pc_name = last (pc_name c # call_names i tcs),
      pc_arguments = pc_arguments c @ concat (call_frags i tcs)\<rparr>"

definition call_items :: "BridgeEvent list \<Rightarrow> (string \<times> string \<times> string) list" where
  "call_items evs =
     concat (map (\<lambda>e. case e of EvItemDone (FunctionCallItem n a c) \<Rightarrow> [(n, a, c)] | _ \<Rightarrow> []) evs)"

definition chunk_calls :: "ChatCompletionChunk \<Rightarrow> ToolCallChunk list" where
  "chunk_calls ch = concat (map (\<lambda>c. delta_tool_calls (cc_delta c)) (chunk_choices ch))"

definition collects ::
    "ResponseEventBridge \<Rightarrow> ToolCallChunk list \<Rightarrow> BridgeEvent list \<Rightarrow> ResponseEventBridge \<Rightarrow> bool" where
  "collects s i evs t \<longleftrightarrow>
     call_items evs = [] \<and>
     (btree_wf (br_pending_calls s) \<longrightarrow>
        btree_wf (br_pending_calls t) \<and>
        (\<forall>k. call_entry t k = extend_call (call_entry s k) k i) \<and>
        set (map fst (br_pending_calls t)) = set (map fst (br_pending_calls s)) \<union> set (map tcc_index i))"

lemma call_items_simps [simp]:
  "call_items [] = []" "call_items (xs @ ys) = call_items xs @ call_items ys"
  "call_items (EvReasoningDelta t n # evs) = call_items evs"
  "call_items (EvTextDelta t # evs) = call_items evs"
  "call_items (EvItemAdded item # evs) = call_items evs"
  "call_items (EvToolCallDelta a b c # evs) = call_items evs"
  "call_items (EvItemDone (MessageItem m cs) # evs) = call_items evs"
  "call_items (EvItemDone (FunctionCallItem nm ar cid) # evs) = (nm, ar, cid) # call_items evs"
  "call_items (EvCompleted j u e # evs) = call_items evs"
  by (simp_all add: call_items_def)

lemma last_last: "last (last (x # xs) # ys) = last (x # xs @ ys)"
  by (cases ys) simp_all

lemma map_filter_append: "List.map_filter f (xs @ ys) = List.map_filter f xs @ List.map_filter f ys"
  by (simp add: List.map_filter_def)

lemma extend_call_append: "extend_call (extend_call c k i) k j = extend_call c k (i @ j)"
  unfolding extend_call_def call_ids_def call_names_def call_frags_def map_filter_append
  by (simp only: PartialCall.select_convs last_last concat_append append_assoc)

lemma extend_call_Nil [simp]: "extend_call c k [] = c"
  by (simp add: extend_call_def call_ids_def call_names_def call_frags_def List.map_filter_def)

interpretation collects: emission collects
proof unfold_locales
  fix s i out t j out' u
  assume "collects s i out t" "collects t j out' u"
  then show "collects s (i @ j) (out @ out') u"
    by (auto simp: collects_def extend_call_append)
qed (simp add: collects_def)

lemma call_entry_update:
  assumes "btree_wf (br_pending_calls s)"
  shows "call_entry (s\<lparr>br_pending_calls := btree_update i e (br_pending_calls s)\<rparr>) k =
           (if k = i then e else call_entry s k)"
  using assms by (simp add: call_entry_def map_of_btree_update)

lemma extend_call_other: "tcc_index tc \<noteq> k \<Longrightarrow> extend_call c k [tc] = c"
  by (simp add: extend_call_def call_ids_def call_names_def call_frags_def List.map_filter_def)

lemma collects_update:
  assumes "e = extend_call (call_entry s (tcc_index tc)) (tcc_index tc) [tc]" and "call_items evs = []"
  shows "collects s [tc] evs
           (s\<lparr>br_pending_calls := btree_update (tcc_index tc) e (br_pending_calls s)\<rparr>)"
  using assms
  by (auto simp: collects_def btree_wf_update call_entry_update extend_call_other
      set_btree_update_keys simp del: set_map)

lemma ingest_tool_call_collects: "collects.holds s [tc] (ingest_tool_call s tc)"
  by (auto simp: ingest_tool_call_def Let_def collects.holds_def extend_call_def call_ids_def
      call_names_def call_frags_def List.map_filter_def split: option.splits intro!: collects_update)

lemma collects_silent:
  assumes "call_items (fst p) = []" and "br_pending_calls (snd p) = br_pending_calls s"
  shows "collects.holds s [] p"
  using assms by (simp add: collects.holds_def collects_def call_entry_def)

lemma emit_segments_calls:
  "call_items (fst (emit_all (emit_segment fresh) s segs)) = [] \<and>
   br_pending_calls (snd (emit_all (emit_segment fresh) s segs)) = br_pending_calls s"
proof (induction segs arbitrary: s)
  case (Cons sg segs)
  have "call_items (fst (emit_segment fresh s sg)) = [] \<and>
        br_pending_calls (snd (emit_segment fresh s sg)) = br_pending_calls s"
    by (cases sg) (simp_all add: emit_segment_def emit_seq_def ensure_message_started_def
        emit_text_def emit_reasoning_def Let_def)
  with Cons [of "snd (emit_segment fresh s sg)"] show ?case by (simp add: Let_def split_beta)
qed simp

interpretation collects_rel: bridge_relation collects fresh "\<lambda>_. []" "\<lambda>tc. [tc]" for fresh
proof unfold_locales
  fix s d
  show "collects.holds s [] (ingest_reasoning fresh d s)"
    by (rule collects_silent)
      (auto simp: ingest_reasoning_def emit_seq_def ensure_message_started_def emit_reasoning_def
        Let_def split: option.splits)
  show "collects.holds s [] (ingest_content fresh d s)"
    by (rule collects_silent)
      (auto simp: ingest_content_def Let_def split_beta emit_segments_calls split: option.splits)
next
  fix s tc
  show "collects.holds s [tc] (ingest_tool_call s tc)" by (rule ingest_tool_call_collects)
qed (simp_all add: collects_def call_entry_def)

lemma chunk_input_calls [simp]: "chunk_input (\<lambda>_. []) (\<lambda>tc. [tc]) = chunk_calls"
  by (simp add: fun_eq_iff chunk_input_def chunk_calls_def)

text \<open>The entries of an ordered map, read off its keys.\<close>

lemma btree_entries:
  assumes "btree_wf m"
  shows "m = map (\<lambda>k. (k, the (map_of m k))) (sorted_list_of_set (set (map fst m)))"
proof -
  have "sorted_list_of_set (set (map fst m)) = map fst m"
    using assms strict_sorted_iff sorted_list_of_set.idem_if_sorted_distinct
    by (metis btree_wf_def)
  moreover have "map (\<lambda>k. (k, the (map_of m k))) (map fst m) = m"
    using assms
    by (intro nth_equalityI)
      (auto simp: btree_wf_def strict_sorted_iff prod_eq_iff distinct_map
        intro!: map_of_is_SomeI [THEN arg_cong [where f = the], unfolded option.sel])
  ultimately show ?thesis by simp
qed

lemma call_items_close_message [simp]: "call_items (close_message st) = []"
  by (simp add: close_message_def)

text \<open>A call that is announced: it has an identifier or a name.\<close>

definition announced :: "PartialCall \<Rightarrow> (string \<times> string \<times> string) list" where
  "announced c =
     (if pc_call_id c = [] \<and> pc_name c = [] then [] else [(pc_name c, pc_arguments c, pc_call_id c)])"

lemma call_items_close_calls:
  "call_items (concat (map close_call m)) = concat (map (\<lambda>p. announced (snd p)) m)"
  by (induction m) (auto simp: close_call_def announced_def Let_def)

lemma pending_entries:
  assumes "btree_wf (br_pending_calls st)"
    and "\<And>k. call_entry st k = extend_call PartialCall_default k i"
    and "set (map fst (br_pending_calls st)) = set (map tcc_index i)"
  shows "map snd (br_pending_calls st) =
           map (\<lambda>k. extend_call PartialCall_default k i) (sorted_list_of_set (set (map tcc_index i)))"
proof -
  have "the (map_of (br_pending_calls st) k) = call_entry st k"
    if "k \<in> set (map fst (br_pending_calls st))" for k
    using that by (auto simp: call_entry_def map_of_eq_None_iff split: option.splits)
  then have "the (map_of (br_pending_calls st) k) = extend_call PartialCall_default k i"
    if "k \<in> set (sorted_list_of_set (set (map tcc_index i)))" for k
    using that assms(2,3) by simp
  then have eq: "map (\<lambda>k. the (map_of (br_pending_calls st) k)) (sorted_list_of_set (set (map tcc_index i))) =
      map (\<lambda>k. extend_call PartialCall_default k i) (sorted_list_of_set (set (map tcc_index i)))"
    by (intro map_cong refl)
  have "br_pending_calls st = map (\<lambda>k. (k, the (map_of (br_pending_calls st) k)))
      (sorted_list_of_set (set (map tcc_index i)))"
    using btree_entries [OF assms(1)] unfolding assms(3) .
  from arg_cong [OF this, of "map snd"]
  have "map snd (br_pending_calls st) = map (\<lambda>k. the (map_of (br_pending_calls st) k))
      (sorted_list_of_set (set (map tcc_index i)))"
    by (simp only: map_map comp_def snd_conv)
  then show ?thesis unfolding eq .
qed

section \<open>Properties\<close>

text \<open>
  C21. For every sequence of chunks, the events that the bridge emits for the stream form a legal
  item life cycle: the message item is opened once, before the first text or reasoning delta, and
  closed once under the same identifier, after the last one; function calls follow it and the
  completion is the last event.
\<close>

theorem bridge_stream_lifecycle:
  "lc_run PIdle (bridge_stream fresh now (with_telemetry run_id model t0) chunks) = Some PDone"
proof -
  let ?s = "with_telemetry run_id model t0"
  obtain out st where e: "emit_all (ingest fresh) ?s chunks = (out, st)" by fastforce
  have "lc_run (phase_of ?s) out = Some (phase_of st)"
    using life_rel.stream_holds [of ?s chunks fresh] by (simp add: e life.holds_def life_def)
  moreover have "phase_of ?s = PIdle" by (simp add: phase_of_def with_telemetry_def)
  ultimately show ?thesis by (simp add: bridge_stream_def e lc_run_append finalize_life)
qed

text \<open>
  For every sequence of chunks, the text deltas of the stream are, concatenated, the visible
  part of the whole content: the text outside \<open><think>\<close> blocks, wherever the chunk boundaries
  fall.
\<close>

theorem bridge_stream_text:
  "text_of (bridge_stream fresh now (with_telemetry run_id model t0) chunks) =
     visible False (concat (map chunk_text chunks))"
  by (rule bridge_text)

text \<open>
  The reasoning deltas of a stream are numbered from 0 without gaps or repetitions, in the
  arithmetic of \<open>i64\<close>, whether they come from the reasoning field, a \<open><think>\<close> block or the final
  flush.
\<close>

theorem bridge_stream_reasoning_indices:
  "\<exists>k. reasoning_indices (bridge_stream fresh now (with_telemetry run_id model t0) chunks) =
         map of_nat [0 ..< k]"
proof -
  let ?s = "with_telemetry run_id model t0"
  obtain out st where e: "emit_all (ingest fresh) ?s chunks = (out, st)" by fastforce
  obtain segs q where f: "think_flush (br_think_parser st) = (segs, q)" by fastforce
  obtain out2 st2 where e2: "emit_all (emit_segment fresh) (st\<lparr>br_think_parser := q\<rparr>) segs = (out2, st2)"
    by fastforce
  have "counts ?s [] out st"
    using counts_rel.stream_holds [of ?s chunks fresh] by (simp add: e counts.holds_def)
  moreover have "counts st [] out2 st2"
    using counts_segments [of st fresh q segs] by (simp add: e2 counts.holds_def)
  ultimately have "counts ?s [] (out @ out2) st2" using counts.R_trans by fastforce
  moreover have "reasoning_indices (bridge_stream fresh now ?s chunks) = reasoning_indices (out @ out2)"
    by (simp add: bridge_stream_def e finalize_def f e2)
  ultimately show ?thesis by (auto simp: counts_def Let_def with_telemetry_def)
qed

text \<open>
  Tool calls: the function-call items of a stream are, in the order of their index and once
  each, the calls reassembled from all fragments with that index (the last identifier and name,
  the argument fragments concatenated in order); a call with neither is left out.
\<close>

theorem bridge_stream_calls:
  "call_items (bridge_stream fresh now (with_telemetry run_id model t0) chunks) =
     (let frags = concat (map chunk_calls chunks) in
      concat (map (\<lambda>k. announced (extend_call PartialCall_default k frags))
                (sorted_list_of_set (set (map tcc_index frags)))))"
proof -
  let ?s = "with_telemetry run_id model t0" and ?i = "concat (map chunk_calls chunks)"
  obtain out st where e: "emit_all (ingest fresh) ?s chunks = (out, st)" by fastforce
  obtain segs q where f: "think_flush (br_think_parser st) = (segs, q)" by fastforce
  obtain out2 st2 where e2: "emit_all (emit_segment fresh) (st\<lparr>br_think_parser := q\<rparr>) segs = (out2, st2)"
    by fastforce
  have "collects ?s ?i out st"
    using collects_rel.stream_holds [of ?s chunks fresh] by (simp add: e collects.holds_def)
  then have c: "call_items out = []" "btree_wf (br_pending_calls st)"
    "\<And>k. call_entry st k = extend_call PartialCall_default k ?i"
    "set (map fst (br_pending_calls st)) = set (map tcc_index ?i)"
    by (simp_all add: collects_def with_telemetry_def call_entry_def)
  have e2': "call_items out2 = []" "br_pending_calls st2 = br_pending_calls st"
    using emit_segments_calls [of fresh "st\<lparr>br_think_parser := q\<rparr>" segs] e2 by simp_all
  have "call_items (bridge_stream fresh now ?s chunks) =
      concat (map announced (map snd (br_pending_calls st)))"
    by (simp add: bridge_stream_def e finalize_def f e2 e2' c(1) call_items_close_calls comp_def)
  also have "\<dots> = concat (map announced (map (\<lambda>k. extend_call PartialCall_default k ?i)
      (sorted_list_of_set (set (map tcc_index ?i)))))"
    by (simp only: pending_entries [OF c(2-4)])
  finally show ?thesis by (simp add: comp_def)
qed

end
