(* ===== verification/Orch_Dispatch.thy ===== *)
theory Orch_Dispatch
  imports Orch_Traits Minimax_Bridge
begin

text \<open>
  The MiniMax dispatch sink of \<open>orchestrator/src/dispatch.rs\<close>, over the adapter of
  \<open>Minimax_Wire\<close> and \<open>Minimax_Bridge\<close>.

  The environment record has what a dispatch reads from the outside: environment variables, the
  stored credentials (\<open>codex_login\<close>: the kind and the key), the HTTP exchange, the chunk decoder, a
  fresh identifier and the clock at a world.
\<close>

section \<open>The prompt\<close>

definition render_criterion :: "nat \<Rightarrow> FailedCriterion \<Rightarrow> string" where
  "render_criterion idx c =
     (let s1 = writeln [] (nat_str idx @ ''. '' @ fc_name c @ '' ('' @ kind_id (fc_kind c) @ '')'') in
      case fc_details c of
        FOutputMatches re excerpt \<Rightarrow>
          writeln (writeln s1 (''   regex: '' @ re))
            (''   output_excerpt: '' @ replace_char (CHR 0x0A) '' '' excerpt)
      | FTestsPass exit_code excerpt command \<Rightarrow>
          writeln (writeln (writeln s1 (''   command: '' @ str_join '' '' command))
              (''   exit_code: '' @ int_str exit_code))
            (''   stderr_excerpt: '' @ replace_char (CHR 0x0A) '' '' excerpt)
      | FCustom exit_code excerpt \<Rightarrow>
          writeln (writeln s1 (''   exit_code: '' @ int_str exit_code))
            (''   stderr_excerpt: '' @ replace_char (CHR 0x0A) '' '' excerpt))"

fun render_criteria :: "nat \<Rightarrow> FailedCriterion list \<Rightarrow> string" where
  "render_criteria idx [] = []"
| "render_criteria idx (c # cs) =
     render_criterion idx c @ render_criteria (min (Suc idx) usize_max) cs"

definition render_retry_feedback :: "RetryFeedback \<Rightarrow> string" where
  "render_retry_feedback feedback = render_criteria 1 (failed_criteria feedback)"

definition render_forbidden :: "DelegationSpec \<Rightarrow> string \<Rightarrow> string" where
  "render_forbidden spec s =
     (if forbidden_patterns spec = [] then s
      else fold (\<lambda>pat s. writeln s (''  - '' @ vr_source pat)) (forbidden_patterns spec)
             (writeln s (nl @ ''AVOID the following patterns in your output:'')))"

definition render_util :: "UtilRef \<Rightarrow> string" where
  "render_util u =
     (let sig = (case util_signature u of Some x \<Rightarrow> '' '' @ emdash @ '' '' @ x | None \<Rightarrow> [])
      in ''  - '' @ util_symbol u @ '' (`'' @ util_path u @ ''`'' @ sig @ '')'')"

definition render_utils :: "DelegationSpec \<Rightarrow> string \<Rightarrow> string" where
  "render_utils spec s =
     (if utility_refs spec = [] then s
      else fold (\<lambda>u s. writeln s (render_util u)) (utility_refs spec)
             (writeln s (nl @ ''When possible, REUSE these existing utilities rather than re-implementing:'')))"

definition render_feedback :: "RetryFeedback option \<Rightarrow> string \<Rightarrow> string" where
  "render_feedback fb s =
     (case fb of
        Some feedback \<Rightarrow>
          if failed_criteria feedback = [] then s
          else writeln
                 (writeln s (nl @ ''Previous attempt failed acceptance criteria. Address these failures:''))
                 (render_retry_feedback feedback)
      | None \<Rightarrow> s)"

definition render_system_message :: "DelegationSpec \<Rightarrow> RetryFeedback option \<Rightarrow> string" where
  "render_system_message spec fb =
     (let s1 = writeln [] (''You are MiniMax, executing a delegated task as part of the Codrex orchestrator (run_id=''
                           @ spec_run_id spec @ '').'');
          s2 = writeln s1 ''Respond with a complete answer to the intent below.'';
          s3 = render_forbidden spec s2;
          s4 = render_utils spec s3;
          s5 = writeln s4 (nl @ ''If you need disambiguation BEFORE attempting the task, prefix your response with ''
                           @ ''`CLARIFY:` followed by ONE concrete question. Otherwise complete the task.'')
      in render_feedback fb s5)"

definition build_request ::
    "string \<Rightarrow> DelegationSpec \<Rightarrow> RetryFeedback option \<Rightarrow> ChatCompletionRequest" where
  "build_request model spec fb =
     ChatCompletionRequest_new model
       [ChatMessage_system (render_system_message spec fb),
        ChatMessage_user (intent spec)]"

section \<open>Credentials\<close>

record 'w dispatch_env =
  de_getter :: getter
  de_creds :: "(string option \<times> string) option"
  de_http :: "'w http"
  de_from_str :: "string \<Rightarrow> string + ChatCompletionChunk"
  de_fresh :: "'w \<Rightarrow> string"
  de_now :: "'w \<Rightarrow> nat"

definition load_auth_from_file :: "'w dispatch_env \<Rightarrow> ResolvedAuth option" where
  "load_auth_from_file env =
     map_option (\<lambda>(kind, api_key).
        \<lparr>bearer_token = api_key,
         auth_env_var = (if kind = Some ''coding_plan'' then ''MINIMAX_CODING_PLAN_KEY''
                         else ''MINIMAX_API_KEY'')\<rparr>) (de_creds env)"

definition NO_CREDENTIALS :: string where
  "NO_CREDENTIALS = ''no credentials for provider '' @ [CHR 0x27] @ ''minimax'' @ [CHR 0x27]
     @ ''. Run `codrex login minimax` or set ''
     @ ''MINIMAX_API_KEY (pay-as-you-go) / MINIMAX_CODING_PLAN_KEY (Coding Plan).''"

definition resolve_auth :: "'w dispatch_env \<Rightarrow> DispatchError + ResolvedAuth" where
  "resolve_auth env =
     (case resolve_auth_with AuthPreference_default (de_getter env) of
        Inr auth \<Rightarrow> Ok auth
      | Inl _ \<Rightarrow>
          (case load_auth_from_file env of
             Some auth \<Rightarrow> Ok auth
           | None \<Rightarrow> Err (Transport NO_CREDENTIALS)))"

section \<open>Dispatch\<close>

text \<open>The \<open>while let Some(chunk)\<close> loop: the accumulated text and the bridge, or the first error.\<close>

fun consume ::
    "string \<Rightarrow> (MinimaxError + ChatCompletionChunk) list \<Rightarrow> string \<Rightarrow> ResponseEventBridge
       \<Rightarrow> DispatchError + string \<times> ResponseEventBridge" where
  "consume fresh [] text bridge = Ok (text, bridge)"
| "consume fresh (Inl e # items) text bridge = Err (Transport (minimax_error_to_string e))"
| "consume fresh (Inr chunk # items) text bridge =
     (let (events, bridge') = ingest fresh bridge chunk
      in consume fresh items (text @ text_of events) bridge')"

fun final_tokens :: "BridgeEvent list \<Rightarrow> u64 option \<Rightarrow> u64 option" where
  "final_tokens [] t = t"
| "final_tokens (EvCompleted _ usage _ # evs) t =
     final_tokens evs (map_option (\<lambda>u. if sint (tu_total_tokens u) < 0 then 0 else tu_total_tokens u) usage)"
| "final_tokens (_ # evs) t = final_tokens evs t"

definition clarify_question :: "string \<Rightarrow> string option" where
  "clarify_question text = map_option trim (strip_prefix ''CLARIFY:'' (trim_start text))"

definition minimax_dispatch :: "'w dispatch_env \<Rightarrow> string \<Rightarrow> 'w dispatch_sink" where
  "minimax_dispatch env model spec ctx w =
     (let started = de_now env w in
      case resolve_auth env of
        Inl e \<Rightarrow> (Err e, w)
      | Inr auth \<Rightarrow>
          let client = \<lparr>cl_base_url = resolve_base_url_with (de_getter env), cl_auth = auth\<rparr>;
              request = build_request model spec (retry_feedback ctx);
              bridge = with_telemetry (ctx_run_id ctx) model started
          in case chat_completion_stream (de_http env) (de_from_str env) client request w of
               (Inl e, w1) \<Rightarrow> (Err (Transport (minimax_error_to_string e)), w1)
             | (Inr items, w1) \<Rightarrow>
                 (case consume (de_fresh env w1) items [] bridge of
                    Inl e \<Rightarrow> (Err e, w1)
                  | Inr (text, bridge') \<Rightarrow>
                      let final_events = fst (finalize (de_fresh env w1) (de_now env w1) bridge');
                          accumulated_text = text @ text_of final_events
                      in case clarify_question accumulated_text of
                           Some question \<Rightarrow> (Err (ClarificationRequested question), w1)
                         | None \<Rightarrow>
                             (Ok \<lparr>response_text = accumulated_text,
                                  out_latency_ms = of_nat (de_now env w1 - started),
                                  total_tokens = final_tokens final_events None\<rparr>, w1)))"

section \<open>Lemmas\<close>

lemma consume_Inr:
  assumes "consume fresh items acc bridge = Ok (acc', bridge')"
  shows "\<exists>chunks. items = map Inr chunks \<and>
           acc' = acc @ text_of (fst (emit_all (ingest fresh) bridge chunks)) \<and>
           bridge' = snd (emit_all (ingest fresh) bridge chunks)"
  using assms
proof (induction items arbitrary: acc bridge)
  case (Cons item items)
  then obtain chunk where item: "item = Inr chunk" by (cases item) auto
  obtain evs b1 where i: "ingest fresh bridge chunk = (evs, b1)" by fastforce
  from Cons.prems item i have "consume fresh items (acc @ text_of evs) b1 = Ok (acc', bridge')" by simp
  from Cons.IH [OF this] obtain chunks where
    "items = map Inr chunks"
    "acc' = (acc @ text_of evs) @ text_of (fst (emit_all (ingest fresh) b1 chunks))"
    "bridge' = snd (emit_all (ingest fresh) b1 chunks)" by blast
  then show ?case
    by (intro exI [of _ "chunk # chunks"]) (simp add: i item split_beta)
qed simp

lemma consume_map_Inr:
  "consume fresh (map Inr chunks) acc bridge =
     Ok (acc @ text_of (fst (emit_all (ingest fresh) bridge chunks)),
         snd (emit_all (ingest fresh) bridge chunks))"
  by (induction chunks arbitrary: acc bridge) (simp_all add: split_beta Let_def)

lemma sublist_append1: "sublist x a \<Longrightarrow> sublist x (a @ b)"
  by (rule sublist_order.order_trans [OF _ sublist_append_rightI])

lemma sublist_append2: "sublist x b \<Longrightarrow> sublist x (a @ b)"
  by (rule sublist_order.order_trans [OF _ sublist_append_leftI])

lemma sublist_writeln: "sublist x s \<Longrightarrow> sublist x (writeln s t)"
  "sublist x t \<Longrightarrow> sublist x (writeln s t)"
  by (simp_all add: writeln_def sublist_append1 sublist_append2)

lemma sublist_mid: "sublist x (a @ x @ b)"
  unfolding sublist_def by blast

lemma render_criterion_name: "sublist (fc_name c) (render_criterion idx c)"
proof -
  have "sublist (fc_name c) (writeln [] (nat_str idx @ ''. '' @ fc_name c @ '' ('' @ kind_id (fc_kind c) @ '')''))"
    by (rule sublist_writeln(2)) (metis append_assoc sublist_mid)
  then show ?thesis
    by (auto simp: render_criterion_def Let_def split: FailureDetails.splits intro: sublist_writeln(1))
qed

lemma render_criteria_name:
  "c \<in> set cs \<Longrightarrow> sublist (fc_name c) (render_criteria idx cs)"
proof (induction idx cs rule: render_criteria.induct)
  case (2 idx c' cs)
  then show ?case
    using render_criterion_name [of c idx]
    by (auto intro: sublist_append1 sublist_append2)
qed simp

lemma dispatch_Ok:
  assumes "fst (minimax_dispatch env model spec ctx w) = Ok out"
  shows "clarify_question (response_text out) = None \<and>
         (\<exists>chunks. response_text out = visible False (concat (map chunk_text chunks)))"
proof -
  obtain auth where a: "resolve_auth env = Ok auth"
    using assms by (cases "resolve_auth env") (auto simp: minimax_dispatch_def Let_def)
  obtain r w1 where s: "chat_completion_stream (de_http env) (de_from_str env)
      \<lparr>cl_base_url = resolve_base_url_with (de_getter env), cl_auth = auth\<rparr>
      (build_request model spec (retry_feedback ctx)) w = (r, w1)" by fastforce
  obtain items where items: "r = Inr items"
    using assms a s by (cases r) (auto simp: minimax_dispatch_def Let_def)
  let ?b = "with_telemetry (ctx_run_id ctx) model (de_now env w)" and ?f = "de_fresh env w1"
  obtain acc b' where c: "consume ?f items [] ?b = Ok (acc, b')"
    using assms a s items by (cases "consume ?f items [] ?b") (auto simp: minimax_dispatch_def Let_def)
  from consume_Inr [OF c] obtain chunks where ch: "items = map Inr chunks"
    "acc = text_of (fst (emit_all (ingest ?f) ?b chunks))" "b' = snd (emit_all (ingest ?f) ?b chunks)"
    by auto
  have "acc @ text_of (fst (finalize ?f (de_now env w1) b')) = visible False (concat (map chunk_text chunks))"
    using bridge_text [of ?f "de_now env w1" "ctx_run_id ctx" model "de_now env w" chunks] ch
    by (simp add: bridge_stream_def split_beta)
  with assms a s items c show ?thesis
    by (auto simp: minimax_dispatch_def Let_def split: option.splits)
qed

section \<open>A concrete endpoint\<close>

text \<open>A server that streams one chunk and the end marker.\<close>

definition one_chunk :: ChatCompletionChunk where
  "one_chunk =
     \<lparr>chunk_id = ''c'', chunk_model = ''m'', chunk_object = ''chunk'', chunk_created = 0,
      chunk_choices =
        [\<lparr>cc_index = 0, cc_finish_reason = None,
          cc_delta = \<lparr>delta_role = None, delta_content = Some ''<think>hm</think>all ok'',
                      delta_reasoning_content = None, delta_tool_calls = []\<rparr>\<rparr>],
      chunk_usage = None\<rparr>"

definition one_chunk_server :: "nat dispatch_env" where
  "one_chunk_server =
     \<lparr>de_getter = (\<lambda>n. if n = ''MINIMAX_API_KEY'' then Some ''key'' else None), de_creds = None,
      de_http = (\<lambda>_ w. (Ok \<lparr>hs_status = 200, hs_text = Ok [], hs_events = [Ok ''data'', Ok ''[DONE]'']\<rparr>, Suc w)),
      de_from_str = (\<lambda>_. Ok one_chunk), de_fresh = (\<lambda>_. ''fresh''), de_now = id\<rparr>"

definition bare_task :: DelegationSpec where
  "bare_task =
     \<lparr>spec_run_id = ''run'', spec_parent_run_id = None, intent = ''write it'', acceptance = [],
      forbidden_patterns = [], expected_tests = None, utility_refs = [], max_retries = 1, created_at = 0\<rparr>"

definition server_auth :: ResolvedAuth where
  "server_auth = \<lparr>bearer_token = ''key'', auth_env_var = ''MINIMAX_API_KEY''\<rparr>"

lemma one_chunk_auth: "resolve_auth one_chunk_server = Ok server_auth"
  by code_simp

text \<open>The server looks at nothing the request holds.\<close>

lemma one_chunk_stream:
  "chat_completion_stream (de_http one_chunk_server) (de_from_str one_chunk_server) client request w =
     (Ok (map Ok [one_chunk]), Suc w)"
proof -
  have "chunk_stream (\<lambda>_. Ok one_chunk) [Ok ''data'', Ok ''[DONE]''] = map Ok [one_chunk]" by code_simp
  then show ?thesis
    by (simp add: chat_completion_stream_def one_chunk_server_def Let_def is_success_def)
qed

lemma one_chunk_dispatch:
  "\<exists>latency tokens. minimax_dispatch one_chunk_server ''m'' spec ctx w =
     (Ok \<lparr>response_text = ''all ok'', out_latency_ms = latency, total_tokens = tokens\<rparr>, Suc w)"
proof -
  define chunks where "chunks = [one_chunk]"
  let ?b = "with_telemetry (ctx_run_id ctx) ''m'' w"
  obtain out st where e: "emit_all (ingest ''fresh'') ?b chunks = (out, st)" by fastforce
  have v: "visible False (concat (map chunk_text chunks)) = ''all ok''" unfolding chunks_def by code_simp
  have q: "clarify_question ''all ok'' = None" by code_simp
  have "text_of (bridge_stream ''fresh'' (Suc w) ?b chunks) = ''all ok''"
    unfolding v [symmetric] by (rule bridge_text)
  then have t: "text_of out @ text_of (fst (finalize ''fresh'' (Suc w) st)) = ''all ok''"
    by (simp add: bridge_stream_def e)
  have c: "de_fresh one_chunk_server = (\<lambda>_. ''fresh'')" "de_now one_chunk_server = id"
    by (simp_all add: one_chunk_server_def)
  show ?thesis
    unfolding minimax_dispatch_def one_chunk_auth one_chunk_stream [folded chunks_def] Let_def sum.case prod.case c
    using t q by (simp add: consume_map_Inr e)
qed

section \<open>Properties\<close>

text \<open>
  What a dispatch returns. It answers Ok with a text exactly when the credentials resolve, the
  server accepts the request and streams only decodable chunks, and the visible text of these
  chunks (the content outside \<open><think>\<close> blocks, wherever the chunk boundaries fall) does not ask
  for clarification; that text is the response. If it asks, the question is the error.
\<close>

theorem dispatch_response:
  assumes "resolve_auth env = Ok auth"
    and "chat_completion_stream (de_http env) (de_from_str env)
           \<lparr>cl_base_url = resolve_base_url_with (de_getter env), cl_auth = auth\<rparr>
           (build_request model spec (retry_feedback ctx)) w = (Ok (map Ok chunks), w1)"
  shows "(case fst (minimax_dispatch env model spec ctx w) of
            Inr out \<Rightarrow> clarify_question (visible False (concat (map chunk_text chunks))) = None \<and>
                       response_text out = visible False (concat (map chunk_text chunks))
          | Inl e \<Rightarrow> (\<exists>q. clarify_question (visible False (concat (map chunk_text chunks))) = Some q \<and>
                         e = ClarificationRequested q))"
proof -
  let ?b = "with_telemetry (ctx_run_id ctx) model (de_now env w)"
  obtain out st where e: "emit_all (ingest (de_fresh env w1)) ?b chunks = (out, st)" by fastforce
  have "text_of (bridge_stream (de_fresh env w1) (de_now env w1) ?b chunks) =
        visible False (concat (map chunk_text chunks))" by (rule bridge_text)
  then have t: "text_of out @ text_of (fst (finalize (de_fresh env w1) (de_now env w1) st)) =
        visible False (concat (map chunk_text chunks))" by (simp add: bridge_stream_def e)
  show ?thesis
    using assms t by (simp add: minimax_dispatch_def consume_map_Inr e Let_def split: option.splits)
qed

theorem dispatch_response_witness:
  "\<exists>out. fst (minimax_dispatch one_chunk_server ''m'' bare_task (for_top_level 0 bare_task) 0) = Ok out \<and>
     response_text out = ''all ok''"
proof -
  let ?ctx = "for_top_level 0 bare_task"
  let ?r = "fst (minimax_dispatch one_chunk_server ''m'' bare_task ?ctx 0)"
  have v: "visible False (concat (map chunk_text [one_chunk])) = ''all ok''" by code_simp
  have q: "clarify_question ''all ok'' = None" by code_simp
  note d = dispatch_response [OF one_chunk_auth one_chunk_stream, where model = "''m''" and spec = bare_task and ctx = ?ctx and w = 0, unfolded v q]
  show ?thesis using d by (cases ?r) simp_all
qed

text \<open>
  An error of the stream is never dropped: if some event of the stream does not decode, the
  dispatch fails with a transport error, and no text that was received before it is returned.
\<close>

lemma dispatch_stream_error:
  assumes "resolve_auth env = Ok auth"
    and "chat_completion_stream (de_http env) (de_from_str env)
           \<lparr>cl_base_url = resolve_base_url_with (de_getter env), cl_auth = auth\<rparr>
           (build_request model spec (retry_feedback ctx)) w = (Ok items, w1)"
    and "\<not> list_all is_ok items"
  shows "\<exists>m. minimax_dispatch env model spec ctx w = (Err (Transport m), w1)"
proof -
  have "\<exists>m. consume fresh items acc b = Err (Transport m)" for fresh acc b
    using assms(3)
  proof (induction fresh items acc b rule: consume.induct)
    case (3 fresh chunk items acc bridge)
    then show ?case by (auto split: prod.splits)
  qed auto
  then obtain m where "consume (de_fresh env w1) items []
      (with_telemetry (ctx_run_id ctx) model (de_now env w)) = Err (Transport m)" by blast
  with assms(1,2) have "minimax_dispatch env model spec ctx w = (Err (Transport m), w1)"
    by (simp add: minimax_dispatch_def Let_def)
  then show ?thesis by (rule exI)
qed

text \<open>
  The prompt of a retry names every failed criterion of the previous attempt; the request is
  one system and one user message, the user message is the intent, and it asks for split reasoning.
\<close>

theorem retry_prompt_names_failures:
  "\<exists>body. req_messages (build_request model spec (Some fb)) =
       [ChatMessage_system body, ChatMessage_user (intent spec)] \<and>
     req_reasoning_split (build_request model spec (Some fb)) \<and>
     list_all (\<lambda>c. sublist (fc_name c) body) (failed_criteria fb)"
proof -
  have "sublist (fc_name c) (render_system_message spec (Some fb))" if "c \<in> set (failed_criteria fb)" for c
  proof -
    have "sublist (fc_name c) (render_retry_feedback fb)"
      unfolding render_retry_feedback_def by (rule render_criteria_name [OF that])
    with that show ?thesis
      by (auto simp: render_system_message_def render_feedback_def Let_def intro: sublist_writeln(2))
  qed
  then show ?thesis
    by (auto simp: build_request_def ChatCompletionRequest_new_def list_all_iff)
qed

end
