(* ===== verification/Patch_Parser.thy ===== *)
theory Patch_Parser
  imports Prelude
begin

text \<open>
  The patch parser of \<open>apply-patch/src/parser.rs\<close>. Paths are strings; line numbers are natural
  numbers. The loops over the remaining lines are recursive functions, whose termination rests on
  every parsed piece taking at least one line; that no slice runs past the end is a lemma too.
\<close>

section \<open>Data\<close>

definition BEGIN_PATCH_MARKER :: string where "BEGIN_PATCH_MARKER = ''*** Begin Patch''"
definition END_PATCH_MARKER :: string where "END_PATCH_MARKER = ''*** End Patch''"
definition ADD_FILE_MARKER :: string where "ADD_FILE_MARKER = ''*** Add File: ''"
definition DELETE_FILE_MARKER :: string where "DELETE_FILE_MARKER = ''*** Delete File: ''"
definition UPDATE_FILE_MARKER :: string where "UPDATE_FILE_MARKER = ''*** Update File: ''"
definition MOVE_TO_MARKER :: string where "MOVE_TO_MARKER = ''*** Move to: ''"
definition EOF_MARKER :: string where "EOF_MARKER = ''*** End of File''"
definition CHANGE_CONTEXT_MARKER :: string where "CHANGE_CONTEXT_MARKER = ''@@ ''"
definition EMPTY_CHANGE_CONTEXT_MARKER :: string where "EMPTY_CHANGE_CONTEXT_MARKER = ''@@''"

lemmas marker_defs =
  BEGIN_PATCH_MARKER_def END_PATCH_MARKER_def ADD_FILE_MARKER_def DELETE_FILE_MARKER_def
  UPDATE_FILE_MARKER_def MOVE_TO_MARKER_def EOF_MARKER_def CHANGE_CONTEXT_MARKER_def
  EMPTY_CHANGE_CONTEXT_MARKER_def

datatype ParseError =
  InvalidPatchError string
| InvalidHunkError string nat

record UpdateFileChunk =
  change_context :: "string option"
  old_lines :: "string list"
  new_lines :: "string list"
  is_end_of_file :: bool

datatype Hunk =
  AddFile (hunk_path: string) (hunk_contents: string)
| DeleteFile (hunk_path: string)
| UpdateFile (hunk_path: string) (hunk_move_path: "string option") (hunk_chunks: "UpdateFileChunk list")

record ApplyPatchArgs =
  ap_patch :: string
  ap_hunks :: "Hunk list"
  ap_workdir :: "string option"

datatype ParseMode = Strict | Lenient | Streaming

text \<open>\<open>Hunk::path\<close>: the destination of a rename.\<close>

fun affected_path :: "Hunk \<Rightarrow> string" where
  "affected_path (AddFile p _) = p"
| "affected_path (DeleteFile p) = p"
| "affected_path (UpdateFile _ (Some q) _) = q"
| "affected_path (UpdateFile p None _) = p"

section \<open>Patch boundaries\<close>

definition check_start_and_end_lines_strict ::
    "string option \<Rightarrow> string option \<Rightarrow> ParseError + unit" where
  "check_start_and_end_lines_strict first_line last_line =
     (case (map_option trim first_line, map_option trim last_line) of
        (Some first, Some final) \<Rightarrow>
          if first = BEGIN_PATCH_MARKER \<and> final = END_PATCH_MARKER then Ok ()
          else if first \<noteq> BEGIN_PATCH_MARKER
          then Err (InvalidPatchError (''The first line of the patch must be '' @ [CHR 0x27]
                      @ ''*** Begin Patch'' @ [CHR 0x27]))
          else Err (InvalidPatchError (''The last line of the patch must be '' @ [CHR 0x27]
                      @ ''*** End Patch'' @ [CHR 0x27]))
      | (Some first, None) \<Rightarrow>
          if first \<noteq> BEGIN_PATCH_MARKER
          then Err (InvalidPatchError (''The first line of the patch must be '' @ [CHR 0x27]
                      @ ''*** Begin Patch'' @ [CHR 0x27]))
          else Err (InvalidPatchError (''The last line of the patch must be '' @ [CHR 0x27]
                      @ ''*** End Patch'' @ [CHR 0x27]))
      | _ \<Rightarrow> Err (InvalidPatchError (''The last line of the patch must be '' @ [CHR 0x27]
                      @ ''*** End Patch'' @ [CHR 0x27])))"

text \<open>The result of a boundary check: the lines of the patch, and those between its markers.\<close>

definition check_patch_boundaries_strict ::
    "string list \<Rightarrow> ParseError + string list \<times> string list" where
  "check_patch_boundaries_strict lines =
     (let (first_line, last_line) =
            (if lines = [] then (None, None) else (Some (hd lines), Some (last lines)))
      in rbind (check_start_and_end_lines_strict first_line last_line)
           (\<lambda>_. Ok (lines, butlast (tl lines))))"

definition heredoc_start :: "string \<Rightarrow> bool" where
  "heredoc_start first \<longleftrightarrow>
     first = ''<<EOF'' \<or> first = ''<<'' @ [CHR 0x27] @ ''EOF'' @ [CHR 0x27] \<or>
     first = ''<<'' @ [CHR 0x22] @ ''EOF'' @ [CHR 0x22]"

definition check_patch_boundaries_lenient ::
    "string list \<Rightarrow> ParseError + string list \<times> string list" where
  "check_patch_boundaries_lenient original_lines =
     (case check_patch_boundaries_strict original_lines of
        Inr lines \<Rightarrow> Ok lines
      | Inl original_parse_error \<Rightarrow>
          if length original_lines \<ge> 2 \<and> heredoc_start (hd original_lines)
             \<and> ends_with (last original_lines) ''EOF'' \<and> length original_lines \<ge> 4
          then check_patch_boundaries_strict (butlast (tl original_lines))
          else Err original_parse_error)"

definition check_patch_boundaries_streaming ::
    "string list \<Rightarrow> ParseError + string list \<times> string list" where
  "check_patch_boundaries_streaming original_lines =
     (if original_lines \<noteq> [] \<and> trim (hd original_lines) = BEGIN_PATCH_MARKER
      then Ok (original_lines,
               if trim (last original_lines) = END_PATCH_MARKER
               then butlast (tl original_lines) else tl original_lines)
      else check_patch_boundaries_strict original_lines)"

section \<open>Update chunks\<close>

text \<open>The \<open>for line in &lines[start_index..]\<close> loop with its counter \<open>parsed_lines\<close>.\<close>

fun chunk_loop ::
    "nat \<Rightarrow> string list \<Rightarrow> nat \<Rightarrow> UpdateFileChunk \<Rightarrow> ParseError + UpdateFileChunk \<times> nat" where
  "chunk_loop line_number [] parsed chunk = Ok (chunk, parsed)"
| "chunk_loop line_number (line # rest) parsed chunk =
     (if line = EOF_MARKER then
        if parsed = 0
        then Err (InvalidHunkError ''Update hunk does not contain any lines'' (line_number + 1))
        else Ok (chunk\<lparr>is_end_of_file := True\<rparr>, parsed + 1)
      else case line of
             [] \<Rightarrow>
               chunk_loop line_number rest (parsed + 1)
                 (chunk\<lparr>old_lines := old_lines chunk @ [[]], new_lines := new_lines chunk @ [[]]\<rparr>)
           | c # s \<Rightarrow>
               if c = CHR '' '' then
                 chunk_loop line_number rest (parsed + 1)
                   (chunk\<lparr>old_lines := old_lines chunk @ [s], new_lines := new_lines chunk @ [s]\<rparr>)
               else if c = CHR ''+'' then
                 chunk_loop line_number rest (parsed + 1)
                   (chunk\<lparr>new_lines := new_lines chunk @ [s]\<rparr>)
               else if c = CHR ''-'' then
                 chunk_loop line_number rest (parsed + 1)
                   (chunk\<lparr>old_lines := old_lines chunk @ [s]\<rparr>)
               else if parsed = 0
               then Err (InvalidHunkError
                      (''Unexpected line found in update hunk: '' @ [CHR 0x27] @ line @ [CHR 0x27]
                       @ ''. Every line should start with '' @ [CHR 0x27] @ '' '' @ [CHR 0x27]
                       @ '' (context line), '' @ [CHR 0x27] @ ''+'' @ [CHR 0x27]
                       @ '' (added line), or '' @ [CHR 0x27] @ ''-'' @ [CHR 0x27]
                       @ '' (removed line)'') (line_number + 1))
               else Ok (chunk, parsed))"

definition parse_update_file_chunk ::
    "string list \<Rightarrow> nat \<Rightarrow> bool \<Rightarrow> ParseError + UpdateFileChunk \<times> nat" where
  "parse_update_file_chunk lines line_number allow_missing_context =
     (case lines of
        [] \<Rightarrow> Err (InvalidHunkError ''Update hunk does not contain any lines'' line_number)
      | line # _ \<Rightarrow>
          rbind (if line = EMPTY_CHANGE_CONTEXT_MARKER then Ok (None, 1)
                 else case strip_prefix CHANGE_CONTEXT_MARKER line of
                        Some context \<Rightarrow> Ok (Some context, 1)
                      | None \<Rightarrow>
                          if \<not> allow_missing_context
                          then Err (InvalidHunkError
                                 (''Expected update hunk to start with a @@ context marker, got: ''
                                  @ [CHR 0x27] @ line @ [CHR 0x27]) line_number)
                          else Ok (None, 0 :: nat))
            (\<lambda>(context, start_index).
               if start_index \<ge> length lines
               then Err (InvalidHunkError ''Update hunk does not contain any lines'' (line_number + 1))
               else rbind (chunk_loop line_number (drop start_index lines) 0
                             \<lparr>change_context = context, old_lines = [], new_lines = [],
                              is_end_of_file = False\<rparr>)
                      (\<lambda>(chunk, parsed_lines). Ok (chunk, parsed_lines + start_index))))"

lemma chunk_loop_consumes:
  "chunk_loop n lines parsed chunk = Ok (chunk', parsed') \<Longrightarrow>
     parsed \<le> parsed' \<and> parsed' \<le> parsed + length lines \<and> (lines \<noteq> [] \<and> parsed = 0 \<longrightarrow> 0 < parsed')"
proof (induction n lines parsed chunk rule: chunk_loop.induct)
  case (2 n line rest parsed chunk)
  then show ?case by (fastforce split: if_splits list.splits)
qed simp

lemma parse_update_file_chunk_consumes:
  assumes "parse_update_file_chunk lines n m = Ok (chunk, k)"
  shows "0 < k" and "k \<le> length lines"
proof -
  have "0 < k \<and> k \<le> length lines"
    using assms
    by (auto simp: parse_update_file_chunk_def rbind_Inr_iff dest!: chunk_loop_consumes
        split: list.splits if_splits option.splits)
  then show "0 < k" "k \<le> length lines" by auto
qed

section \<open>Hunks\<close>

text \<open>The loop over the \<open>+\<close> lines of an added file: the contents and the number of lines.\<close>

fun add_loop :: "string list \<Rightarrow> string \<Rightarrow> nat \<Rightarrow> string \<times> nat" where
  "add_loop [] contents parsed = (contents, parsed)"
| "add_loop (line # rest) contents parsed =
     (case strip_prefix ''+'' line of
        Some l \<Rightarrow> add_loop rest (contents @ l @ nl) (parsed + 1)
      | None \<Rightarrow> (contents, parsed))"

text \<open>The \<open>while\<close> loop over the chunks of an updated file.\<close>

function update_loop ::
    "nat \<Rightarrow> bool \<Rightarrow> string list \<Rightarrow> nat \<Rightarrow> UpdateFileChunk list \<Rightarrow> ParseError + UpdateFileChunk list \<times> nat"
  where
  "update_loop line_number allow_incomplete remaining parsed chunks =
     (case remaining of
        [] \<Rightarrow> Ok (chunks, parsed)
      | line # rest \<Rightarrow>
          if trim line = [] then update_loop line_number allow_incomplete rest (parsed + 1) chunks
          else if prefix ''*'' line then Ok (chunks, parsed)
          else if allow_incomplete \<and> line = ''@'' then Ok (chunks, parsed)
          else case parse_update_file_chunk remaining (line_number + parsed) (chunks = []) of
                 Inr (chunk, chunk_lines) \<Rightarrow>
                   update_loop line_number allow_incomplete (drop chunk_lines remaining)
                     (parsed + chunk_lines) (chunks @ [chunk])
               | Inl (InvalidHunkError m k) \<Rightarrow>
                   if allow_incomplete \<and> chunks \<noteq> [] then Ok (chunks, parsed)
                   else Err (InvalidHunkError m k)
               | Inl err \<Rightarrow> Err err)"
  by pat_completeness auto
termination
  by (relation "measure (\<lambda>(line_number, allow_incomplete, remaining, parsed, chunks). length remaining)")
    (auto dest: parse_update_file_chunk_consumes(1))

declare update_loop.simps [simp del]

definition parse_one_hunk :: "string list \<Rightarrow> nat \<Rightarrow> bool \<Rightarrow> ParseError + Hunk \<times> nat" where
  "parse_one_hunk lines line_number allow_incomplete =
     (let first_line = trim (hd lines) in
      case strip_prefix ADD_FILE_MARKER first_line of
        Some path \<Rightarrow>
          let (contents, parsed_lines) = add_loop (tl lines) [] 1
          in Ok (AddFile path contents, parsed_lines)
      | None \<Rightarrow>
          (case strip_prefix DELETE_FILE_MARKER first_line of
             Some path \<Rightarrow> Ok (DeleteFile path, 1)
           | None \<Rightarrow>
               (case strip_prefix UPDATE_FILE_MARKER first_line of
                  Some path \<Rightarrow>
                    let remaining = tl lines;
                        move_path = (case remaining of
                                       x # _ \<Rightarrow> strip_prefix MOVE_TO_MARKER x | [] \<Rightarrow> None);
                        (remaining2, parsed) =
                          (if move_path \<noteq> None then (tl remaining, 2) else (remaining, 1))
                    in rbind (update_loop line_number allow_incomplete remaining2 parsed [])
                         (\<lambda>(chunks, parsed_lines).
                            if chunks = []
                            then Err (InvalidHunkError
                                   (''Update file hunk for path '' @ [CHR 0x27] @ path @ [CHR 0x27]
                                    @ '' is empty'') line_number)
                            else Ok (UpdateFile path move_path chunks, parsed_lines))
                | None \<Rightarrow>
                    Err (InvalidHunkError
                      ([CHR 0x27] @ first_line @ [CHR 0x27]
                       @ '' is not a valid hunk header. Valid hunk headers: ''
                       @ [CHR 0x27] @ ''*** Add File: {path}'' @ [CHR 0x27] @ '', ''
                       @ [CHR 0x27] @ ''*** Delete File: {path}'' @ [CHR 0x27] @ '', ''
                       @ [CHR 0x27] @ ''*** Update File: {path}'' @ [CHR 0x27]) line_number))))"

lemma add_loop_consumes:
  "snd (add_loop lines c parsed) \<le> parsed + length lines \<and> parsed \<le> snd (add_loop lines c parsed)"
proof (induction lines c parsed rule: add_loop.induct)
  case (2 line rest c parsed)
  then show ?case by (force split: option.splits)
qed simp

lemma update_loop_consumes:
  "update_loop n ai remaining parsed chunks = Ok (chunks', parsed') \<Longrightarrow>
     parsed \<le> parsed' \<and> parsed' \<le> parsed + length remaining"
proof (induction "length remaining" arbitrary: remaining parsed chunks rule: less_induct)
  case less
  show ?case
  proof (cases remaining)
    case (Cons line rest)
    show ?thesis
    proof (cases "parse_update_file_chunk remaining (n + parsed) (chunks = [])")
      case (Inr p)
      obtain chunk k where p: "p = (chunk, k)" by fastforce
      note k = parse_update_file_chunk_consumes [OF Inr [unfolded p]]
      from less.hyps [of rest "parsed + 1" chunks] less.hyps [of "drop k remaining" "parsed + k" "chunks @ [chunk]"]
        less.prems k Inr p Cons
      show ?thesis by (subst (asm) update_loop.simps) (auto split: if_splits)
    next
      case (Inl e)
      with less.hyps [of rest "parsed + 1" chunks] less.prems Cons
      show ?thesis by (subst (asm) update_loop.simps) (auto split: if_splits ParseError.splits)
    qed
  qed (use less.prems in \<open>simp add: update_loop.simps\<close>)
qed

lemma parse_one_hunk_consumes:
  assumes "parse_one_hunk lines n ai = Ok (hunk, k)" and "lines \<noteq> []"
  shows "0 < k" and "k \<le> length lines"
proof -
  obtain l rest where l: "lines = l # rest" using assms(2) by (cases lines) auto
  have "0 < k \<and> k \<le> length lines"
    using assms(1) add_loop_consumes [of rest "[]" 1]
    by (auto simp: parse_one_hunk_def Let_def l rbind_Inr_iff split_beta
        dest!: update_loop_consumes split: option.splits list.splits if_splits)
  then show "0 < k" "k \<le> length lines" by auto
qed

section \<open>Patches\<close>

function hunks_loop :: "bool \<Rightarrow> string list \<Rightarrow> nat \<Rightarrow> Hunk list \<Rightarrow> ParseError + Hunk list" where
  "hunks_loop allow_incomplete remaining line_number hunks =
     (if remaining = [] then Ok hunks
      else case parse_one_hunk remaining line_number allow_incomplete of
             Inl e \<Rightarrow> Err e
           | Inr (hunk, hunk_lines) \<Rightarrow>
               hunks_loop allow_incomplete (drop hunk_lines remaining) (line_number + hunk_lines)
                 (hunks @ [hunk]))"
  by pat_completeness auto
termination
  by (relation "measure (\<lambda>(allow_incomplete, remaining, line_number, hunks). length remaining)")
    (auto dest: parse_one_hunk_consumes(1))

declare hunks_loop.simps [simp del]

definition parse_patch_text :: "string \<Rightarrow> ParseMode \<Rightarrow> ParseError + ApplyPatchArgs" where
  "parse_patch_text patch mode =
     (let lines = str_lines (trim patch) in
      rbind (case mode of
               Strict \<Rightarrow> check_patch_boundaries_strict lines
             | Lenient \<Rightarrow> check_patch_boundaries_lenient lines
             | Streaming \<Rightarrow> check_patch_boundaries_streaming lines)
        (\<lambda>(patch_lines, hunk_lines).
           rbind (hunks_loop (mode = Streaming) hunk_lines 2 [])
             (\<lambda>hunks. Ok \<lparr>ap_patch = str_join nl patch_lines, ap_hunks = hunks, ap_workdir = None\<rparr>)))"

definition PARSE_IN_STRICT_MODE :: bool where "PARSE_IN_STRICT_MODE = False"

definition parse_patch :: "string \<Rightarrow> ParseError + ApplyPatchArgs" where
  "parse_patch patch = parse_patch_text patch (if PARSE_IN_STRICT_MODE then Strict else Lenient)"

definition parse_patch_streaming :: "string \<Rightarrow> ParseError + ApplyPatchArgs" where
  "parse_patch_streaming patch = parse_patch_text patch Streaming"

end
