(* ===== verification/Patch_Roundtrip.thy ===== *)
theory Patch_Roundtrip
  imports Patch_Parser
begin

text \<open>
  A printer for patches, and the round trip: the parser of \<open>Patch_Parser\<close> reads every printed patch
  back. The printer is the reference for the format; the conditions on a hunk (\<open>hunk_ok\<close>) are
  what the line-based format can express.
\<close>

section \<open>Trimming\<close>

definition ws_bytes :: "char set" where
  "ws_bytes = \<Union> (set ` set ws_encodings)"

lemma strip_words_keeps:
  "c \<in> set s \<Longrightarrow> c \<notin> \<Union> (set ` set ws) \<Longrightarrow> c \<in> set (strip_words ws s)"
proof (induction ws s rule: strip_words.induct)
  case (1 ws s)
  show ?case
  proof (cases "List.find (\<lambda>w. w \<noteq> [] \<and> prefix w s) ws")
    case None
    with 1 show ?thesis by (simp add: strip_words.simps)
  next
    case (Some w)
    then have w: "w \<in> set ws" "prefix w s" by (auto simp: find_Some_iff)
    then obtain r where "s = w @ r" by (auto simp: prefix_def)
    with 1(2,3) w(1) have "c \<in> set (drop (length w) s)" by auto
    with 1 Some show ?thesis by (simp add: strip_words.simps [of ws s])
  qed
qed

lemma strip_words_id:
  assumes "\<And>w. w \<in> set ws \<Longrightarrow> w \<noteq> [] \<Longrightarrow> \<not> prefix w s"
  shows "strip_words ws s = s"
proof -
  have "List.find (\<lambda>w. w \<noteq> [] \<and> prefix w s) ws = None" using assms by (auto simp: find_None_iff)
  then show ?thesis by (simp add: strip_words.simps)
qed

lemma trim_nonblank:
  assumes "c \<in> set s" and "c \<notin> ws_bytes"
  shows "trim s \<noteq> []"
proof -
  have "c \<in> set (trim_start s)"
    unfolding trim_start_def using assms by (intro strip_words_keeps) (auto simp: ws_bytes_def)
  then have "c \<in> set (trim s)"
    unfolding trim_def trim_end_def using assms(2)
    by (simp, intro strip_words_keeps) (auto simp: ws_bytes_def)
  then show ?thesis by auto
qed

lemma trim_id:
  assumes "c \<notin> ws_bytes" and "\<And>w. w \<in> set ws_encodings \<Longrightarrow> \<not> suffix w (c # s)"
  shows "trim (c # s) = c # s"
proof -
  have "\<not> prefix w (c # s)" if "w \<in> set ws_encodings" "w \<noteq> []" for w
  proof
    assume "prefix w (c # s)"
    with that(2) have "c \<in> set w" by (cases w) auto
    with that(1) assms(1) show False by (auto simp: ws_bytes_def)
  qed
  then have "trim_start (c # s) = c # s" unfolding trim_start_def by (rule strip_words_id)
  moreover have "\<not> prefix w (rev (c # s))" if "w \<in> set (map rev ws_encodings)" for w
  proof -
    from that obtain x where x: "x \<in> set ws_encodings" "w = rev x" by auto
    from assms(2) [OF x(1)] show ?thesis unfolding x(2) suffix_to_prefix .
  qed
  then have "trim_end (c # s) = c # s" unfolding trim_end_def by (subst strip_words_id) auto
  ultimately show ?thesis by (simp add: trim_def)
qed

lemma ws_encodings_nonempty: "w \<in> set ws_encodings \<Longrightarrow> w \<noteq> []"
  by (auto simp: ws_encodings_def)

lemma ws_encodings_multi: "w \<in> set ws_encodings \<Longrightarrow> length w \<noteq> 1 \<Longrightarrow> CHR '' '' \<notin> set w"
  by (auto simp: ws_encodings_def)

lemma not_ws [simp]: "CHR ''*'' \<notin> ws_bytes" "CHR ''@'' \<notin> ws_bytes" "CHR ''h'' \<notin> ws_bytes"
  by (simp_all add: ws_bytes_def ws_encodings_def)

lemma trim_marked [simp]: "trim (CHR ''*'' # s) \<noteq> []" "trim (CHR ''@'' # s) \<noteq> []"
  by (rule trim_nonblank [of "CHR ''*''"] trim_nonblank [of "CHR ''@''"]; simp)+

text \<open>Behind a blank, a text that does not end in whitespace keeps its end.\<close>

lemma not_suffix_append:
  assumes "w \<in> set ws_encodings" and "p \<noteq> []" and "\<not> suffix w p"
  shows "\<not> suffix w (a @ CHR '' '' # p)"
proof
  assume "suffix w (a @ CHR '' '' # p)"
  then consider "suffix w p" | v where "w = v @ p" "suffix v (a @ '' '')" "v \<noteq> []"
    using assms(3) suffix_append [of w "a @ '' ''" p] by fastforce
  then show False
  proof cases
    case 2
    from 2(2) obtain u where "a @ '' '' = u @ v" by (auto simp: suffix_def)
    then have "last (a @ '' '') = last (u @ v)" by simp
    with 2(3) have "last v = CHR '' ''" by simp
    with 2 have "CHR '' '' \<in> set w" by (metis Un_iff last_in_set set_append)
    moreover have "length w \<noteq> 1" using 2 assms(2) by (cases v; cases p) auto
    ultimately show False using ws_encodings_multi [OF assms(1)] by blast
  qed (use assms(3) in blast)
qed

section \<open>The printer\<close>

definition chunk_lines :: "UpdateFileChunk \<Rightarrow> string list" where
  "chunk_lines c =
     (case change_context c of None \<Rightarrow> ''@@'' | Some cx \<Rightarrow> ''@@ '' @ cx)
     # map (\<lambda>l. CHR ''-'' # l) (old_lines c) @ map (\<lambda>l. CHR ''+'' # l) (new_lines c)
     @ (if is_end_of_file c then [EOF_MARKER] else [])"

fun hunk_lines :: "Hunk \<Rightarrow> string list" where
  "hunk_lines (AddFile p c) =
     (ADD_FILE_MARKER @ p) # map (\<lambda>l. CHR ''+'' # l) (butlast (split_char (CHR 0x0A) c))"
| "hunk_lines (DeleteFile p) = [DELETE_FILE_MARKER @ p]"
| "hunk_lines (UpdateFile p m cs) =
     (UPDATE_FILE_MARKER @ p)
     # (case m of None \<Rightarrow> [] | Some q \<Rightarrow> [MOVE_TO_MARKER @ q]) @ concat (map chunk_lines cs)"

definition patch_lines :: "Hunk list \<Rightarrow> string list" where
  "patch_lines hs = BEGIN_PATCH_MARKER # concat (map hunk_lines hs) @ [END_PATCH_MARKER]"

definition print_patch :: "Hunk list \<Rightarrow> string" where
  "print_patch hs = str_join nl (patch_lines hs)"

definition line_ok :: "string \<Rightarrow> bool" where
  "line_ok l \<longleftrightarrow> CHR 0x0A \<notin> set l \<and> (l = [] \<or> last l \<noteq> CHR 0x0D)"

definition path_ok :: "string \<Rightarrow> bool" where
  "path_ok p \<longleftrightarrow> p \<noteq> [] \<and> CHR 0x0A \<notin> set p \<and> list_all (\<lambda>w. \<not> suffix w p) ws_encodings"

definition chunk_ok :: "UpdateFileChunk \<Rightarrow> bool" where
  "chunk_ok c \<longleftrightarrow>
     (old_lines c \<noteq> [] \<or> new_lines c \<noteq> []) \<and> list_all line_ok (old_lines c) \<and>
     list_all line_ok (new_lines c) \<and>
     (case change_context c of None \<Rightarrow> True | Some cx \<Rightarrow> line_ok cx)"

fun hunk_ok :: "Hunk \<Rightarrow> bool" where
  "hunk_ok (AddFile p c) \<longleftrightarrow>
     path_ok p \<and> (c = [] \<or> last c = CHR 0x0A) \<and> list_all line_ok (split_char (CHR 0x0A) c)"
| "hunk_ok (DeleteFile p) \<longleftrightarrow> path_ok p"
| "hunk_ok (UpdateFile p m cs) \<longleftrightarrow>
     path_ok p \<and> (case m of None \<Rightarrow> True | Some q \<Rightarrow> line_ok q) \<and> cs \<noteq> [] \<and> list_all chunk_ok cs"

section \<open>Splitting and joining lines\<close>

lemma split_str_join:
  assumes "ls \<noteq> []" and "list_all (\<lambda>l. CHR 0x0A \<notin> set l) ls"
  shows "split_char (CHR 0x0A) (str_join nl ls) = ls"
  using assms
proof (induction ls)
  case (Cons x ls)
  then show ?case by (cases ls) (simp_all add: nl_def split_char_append split_char_none)
qed simp

lemma strip_cr_id: "line_ok l \<Longrightarrow> strip_cr l = l"
  by (auto simp: strip_cr_def line_ok_def)

lemma str_lines_join:
  assumes "list_all line_ok ls" and "ls \<noteq> []" and "last ls \<noteq> []"
  shows "str_lines (str_join nl ls) = ls"
proof -
  have "split_char (CHR 0x0A) (str_join nl ls) = ls"
    using assms(1,2) by (intro split_str_join) (auto simp: list_all_iff line_ok_def)
  moreover have "map strip_cr (butlast ls) = butlast ls"
    using assms(1) by (intro map_idI strip_cr_id) (auto simp: list_all_iff dest: in_set_butlastD)
  ultimately show ?thesis using assms(2,3) by (simp add: str_lines_def Let_def)
qed

lemma concat_split_char:
  assumes "s = [] \<or> last s = c"
  shows "concat (map (\<lambda>l. l @ [c]) (butlast (split_char c s))) = s"
proof -
  have "concat (map (\<lambda>l. l @ [c]) (butlast (split_char c s))) @ last (split_char c s) = s" for s
    by (induction s) (auto split: list.splits if_splits)
  moreover have "last (split_char c s) = []"
    using assms
  proof (induction s)
    case (Cons x s)
    then show ?case by (cases s) (auto split: list.splits if_splits)
  qed simp
  ultimately show ?thesis by (metis append_Nil2)
qed

section \<open>Parsing what was printed\<close>

text \<open>A line at which a chunk ends.\<close>

definition stop_line :: "string \<Rightarrow> bool" where
  "stop_line l \<longleftrightarrow> l \<noteq> [] \<and> hd l \<noteq> CHR '' '' \<and> hd l \<noteq> CHR ''+'' \<and> hd l \<noteq> CHR ''-'' \<and> l \<noteq> EOF_MARKER"

text \<open>A line that starts a hunk.\<close>

definition header_line :: "string \<Rightarrow> bool" where
  "header_line l \<longleftrightarrow> prefix ''*** '' l \<and> l \<noteq> EOF_MARKER"

lemma header_stops: "header_line l \<Longrightarrow> stop_line l" "header_line l \<Longrightarrow> prefix ''*'' l"
  "header_line l \<Longrightarrow> trim l \<noteq> []"
  by (auto simp: header_line_def stop_line_def prefix_def)

lemma chunk_loop_minus:
  "chunk_loop n (map (\<lambda>l. CHR ''-'' # l) os @ rest) k chunk =
     chunk_loop n rest (k + length os) (chunk\<lparr>old_lines := old_lines chunk @ os\<rparr>)"
  by (induction os arbitrary: k chunk) (simp_all add: EOF_MARKER_def)

lemma chunk_loop_plus:
  "chunk_loop n (map (\<lambda>l. CHR ''+'' # l) ns @ rest) k chunk =
     chunk_loop n rest (k + length ns) (chunk\<lparr>new_lines := new_lines chunk @ ns\<rparr>)"
  by (induction ns arbitrary: k chunk) (simp_all add: EOF_MARKER_def)

lemma chunk_loop_stop:
  assumes "rest = [] \<or> stop_line (hd rest)" and "0 < k"
  shows "chunk_loop n rest k chunk = Ok (chunk, k)"
  using assms by (cases rest) (auto simp: stop_line_def neq_Nil_conv)

lemma parse_printed_chunk:
  assumes "chunk_ok c" and "rest = [] \<or> stop_line (hd rest)"
  shows "parse_update_file_chunk (chunk_lines c @ rest) n m = Ok (c, length (chunk_lines c))"
proof -
  have body: "chunk_loop n (map (\<lambda>l. CHR ''-'' # l) (old_lines c) @ map (\<lambda>l. CHR ''+'' # l) (new_lines c)
      @ (if is_end_of_file c then [EOF_MARKER] else []) @ rest) 0
      \<lparr>change_context = cx, old_lines = [], new_lines = [], is_end_of_file = False\<rparr> =
    Ok (c\<lparr>change_context := cx\<rparr>, length (chunk_lines c) - 1)" for cx
    using assms
    by (cases c) (auto simp: chunk_loop_minus chunk_loop_plus chunk_loop_stop chunk_lines_def chunk_ok_def)
  have ne: "old_lines c \<noteq> [] \<or> new_lines c \<noteq> []" using assms(1) by (simp add: chunk_ok_def)
  show ?thesis
  proof (cases "change_context c")
    case None
    with body [of None] ne show ?thesis
      by (cases c) (auto simp: parse_update_file_chunk_def chunk_lines_def EMPTY_CHANGE_CONTEXT_MARKER_def)
  next
    case (Some cx)
    with body [of "Some cx"] ne show ?thesis
      by (cases c) (auto simp: parse_update_file_chunk_def chunk_lines_def marker_defs strip_prefix_def)
  qed
qed

lemma chunk_lines_hd:
  "stop_line (hd (chunk_lines c))" "trim (hd (chunk_lines c)) \<noteq> []"
  "\<not> prefix ''*'' (hd (chunk_lines c))" "chunk_lines c \<noteq> []"
  by (auto simp: chunk_lines_def stop_line_def EOF_MARKER_def split: option.splits)

lemma update_loop_printed:
  assumes "list_all chunk_ok cs" and "rest = [] \<or> header_line (hd rest)"
  shows "update_loop n False (concat (map chunk_lines cs) @ rest) k chunks =
           Ok (chunks @ cs, k + length (concat (map chunk_lines cs)))"
  using assms(1)
proof (induction cs arbitrary: k chunks)
  case Nil
  then show ?case
    using assms(2) header_stops by (cases rest) (auto simp: update_loop.simps)
next
  case (Cons c cs)
  let ?tail = "concat (map chunk_lines cs) @ rest"
  have "?tail = [] \<or> stop_line (hd ?tail)"
    using assms(2) header_stops(1) chunk_lines_hd(1,4) by (cases cs) auto
  with Cons.prems have p: "parse_update_file_chunk (chunk_lines c @ ?tail) (n + k) (chunks = []) =
      Ok (c, length (chunk_lines c))" by (intro parse_printed_chunk) auto
  obtain l ls where l: "chunk_lines c = l # ls" using chunk_lines_hd(4) [of c] by (cases "chunk_lines c") auto
  have "trim l \<noteq> []" "\<not> prefix ''*'' l" using chunk_lines_hd(2,3) [of c] by (simp_all add: l)
  with p have "update_loop n False (chunk_lines c @ ?tail) k chunks =
      update_loop n False ?tail (k + length (chunk_lines c)) (chunks @ [c])"
    by (subst update_loop.simps) (simp add: l)
  with Cons show ?case by simp
qed

lemma add_loop_printed:
  assumes "rest = [] \<or> header_line (hd rest)"
  shows "add_loop (map (\<lambda>l. CHR ''+'' # l) ls @ rest) c k =
           (c @ concat (map (\<lambda>l. l @ nl) ls), k + length ls)"
  using assms
proof (induction ls arbitrary: c k)
  case Nil
  then show ?case by (cases rest) (auto simp: header_line_def strip_prefix_def prefix_def)
qed (simp add: strip_prefix_def)

lemma trim_header:
  assumes "path_ok p" and "marker = CHR ''*'' # m @ '' ''"
  shows "trim (marker @ p) = marker @ p"
proof -
  have "\<not> suffix w ((CHR ''*'' # m) @ CHR '' '' # p)" if "w \<in> set ws_encodings" for w
    using assms(1) that by (intro not_suffix_append) (auto simp: path_ok_def list_all_iff)
  with trim_id [of "CHR ''*''" "m @ CHR '' '' # p"] show ?thesis by (simp add: assms(2))
qed

lemma trim_headers:
  assumes "path_ok p"
  shows "trim (ADD_FILE_MARKER @ p) = ADD_FILE_MARKER @ p"
    and "trim (DELETE_FILE_MARKER @ p) = DELETE_FILE_MARKER @ p"
    and "trim (UPDATE_FILE_MARKER @ p) = UPDATE_FILE_MARKER @ p"
  by (rule trim_header [OF assms], simp add: marker_defs)+

lemma strip_prefix_append [simp]: "strip_prefix p (p @ s) = Some s"
  by (simp add: strip_prefix_def)

lemma other_markers:
  "strip_prefix ADD_FILE_MARKER (DELETE_FILE_MARKER @ p) = None"
  "strip_prefix ADD_FILE_MARKER (UPDATE_FILE_MARKER @ p) = None"
  "strip_prefix DELETE_FILE_MARKER (UPDATE_FILE_MARKER @ p) = None"
  by (simp_all add: strip_prefix_def marker_defs)

lemma move_line_of_rest:
  assumes "rest = [] \<or> header_line (hd rest)" and "cs \<noteq> []"
  shows "(case concat (map chunk_lines cs) @ rest of x # _ \<Rightarrow> strip_prefix MOVE_TO_MARKER x | [] \<Rightarrow> None) = None"
proof -
  obtain c cs' where cs: "cs = c # cs'" using assms(2) by (cases cs) auto
  obtain l ls where l: "chunk_lines c = l # ls" using chunk_lines_hd(4) [of c] by (cases "chunk_lines c") auto
  have "\<not> prefix ''*'' l" using chunk_lines_hd(3) [of c] by (simp add: l)
  then have "strip_prefix MOVE_TO_MARKER l = None"
    by (cases l) (auto simp: strip_prefix_def MOVE_TO_MARKER_def)
  then show ?thesis by (simp add: cs l)
qed

lemma parse_printed_hunk:
  assumes "hunk_ok h" and "rest = [] \<or> header_line (hd rest)"
  shows "parse_one_hunk (hunk_lines h @ rest) n False = Ok (h, length (hunk_lines h))"
proof (cases h)
  case (AddFile p c)
  with assms(1) have c: "concat (map (\<lambda>l. l @ nl) (butlast (split_char (CHR 0x0A) c))) = c"
    unfolding nl_def by (intro concat_split_char) auto
  from AddFile assms(1) trim_headers(1) [of p] add_loop_printed [OF assms(2)] c show ?thesis
    by (simp add: parse_one_hunk_def)
next
  case (DeleteFile p)
  with assms(1) trim_headers(2) [of p] show ?thesis by (simp add: parse_one_hunk_def other_markers)
next
  case (UpdateFile p m cs)
  with assms(1) have ok: "path_ok p" "cs \<noteq> []" "list_all chunk_ok cs" by simp_all
  note u = update_loop_printed [OF ok(3) assms(2)]
  show ?thesis
  proof (cases m)
    case None
    with UpdateFile ok trim_headers(3) [of p] u move_line_of_rest [OF assms(2) ok(2)] show ?thesis
      by (simp add: parse_one_hunk_def other_markers Let_def)
  next
    case (Some q)
    with UpdateFile ok trim_headers(3) [of p] u show ?thesis
      by (simp add: parse_one_hunk_def other_markers Let_def)
  qed
qed

lemma hunk_lines_header: "header_line (hd (hunk_lines h))" "hunk_lines h \<noteq> []"
  by (cases h; simp add: header_line_def marker_defs)+

lemma hunks_loop_printed:
  assumes "list_all hunk_ok hs"
  shows "hunks_loop False (concat (map hunk_lines hs)) n acc = Ok (acc @ hs)"
  using assms
proof (induction hs arbitrary: n acc)
  case (Cons h hs)
  let ?rest = "concat (map hunk_lines hs)"
  have "?rest = [] \<or> header_line (hd ?rest)"
    using hunk_lines_header by (cases hs) auto
  then have "parse_one_hunk (hunk_lines h @ ?rest) n False = Ok (h, length (hunk_lines h))"
    using Cons.prems by (intro parse_printed_hunk) auto
  then have "hunks_loop False (hunk_lines h @ ?rest) n acc =
      hunks_loop False ?rest (n + length (hunk_lines h)) (acc @ [h])"
    using hunk_lines_header(2) by (subst hunks_loop.simps) simp
  with Cons show ?case by simp
qed (simp add: hunks_loop.simps)

lemma line_ok_prefixed: "line_ok l \<Longrightarrow> a \<noteq> CHR 0x0A \<Longrightarrow> a \<noteq> CHR 0x0D \<Longrightarrow> line_ok (a # l)"
  by (auto simp: line_ok_def)

lemma path_ok_line_ok: "path_ok p \<Longrightarrow> CHR 0x0A \<notin> set m \<Longrightarrow> line_ok (m @ p)"
proof -
  assume p: "path_ok p" and m: "CHR 0x0A \<notin> set m"
  have "\<not> suffix [CHR 0x0D] p" using p by (simp add: path_ok_def ws_encodings_def)
  then have "last p \<noteq> CHR 0x0D" using p unfolding path_ok_def
    by (metis append_butlast_last_id suffixI)
  with p m show ?thesis by (auto simp: line_ok_def path_ok_def)
qed

lemma line_ok_headers:
  assumes "path_ok p"
  shows "line_ok (ADD_FILE_MARKER @ p)" "line_ok (DELETE_FILE_MARKER @ p)"
    "line_ok (UPDATE_FILE_MARKER @ p)"
  by (rule path_ok_line_ok [OF assms], simp add: marker_defs)+

lemma chunk_lines_ok: "chunk_ok c \<Longrightarrow> list_all line_ok (chunk_lines c)"
  by (auto simp: chunk_ok_def chunk_lines_def list_all_iff EOF_MARKER_def line_ok_def
      split: option.splits if_splits)

lemma hunk_lines_ok: "hunk_ok h \<Longrightarrow> list_all line_ok (hunk_lines h)"
proof (induction h)
  case (AddFile p c)
  then show ?case
    by (auto simp: list_all_iff line_ok_headers intro!: line_ok_prefixed dest: in_set_butlastD)
next
  case (UpdateFile p m cs)
  then have "list_all line_ok (concat (map chunk_lines cs))"
    using chunk_lines_ok by (auto simp: list_all_iff)
  moreover have "list_all line_ok (case m of None \<Rightarrow> [] | Some q \<Rightarrow> [MOVE_TO_MARKER @ q])"
    using UpdateFile by (auto simp: line_ok_def marker_defs split: option.splits)
  ultimately show ?case using UpdateFile by (simp add: line_ok_headers)
qed (simp add: line_ok_headers)

lemma patch_lines_ok:
  assumes "list_all hunk_ok hs"
  shows "list_all line_ok (patch_lines hs)"
  using assms hunk_lines_ok by (auto simp: patch_lines_def list_all_iff line_ok_def marker_defs)

lemma str_join_snoc:
  "xs \<noteq> [] \<Longrightarrow> str_join sep (xs @ [y]) = str_join sep xs @ sep @ y"
  by (induction sep xs rule: str_join.induct) auto

lemma str_join_Cons: "xs \<noteq> [] \<Longrightarrow> str_join sep (x # xs) = x @ sep @ str_join sep xs"
  by (cases xs) auto

lemma trim_print_patch: "trim (print_patch hs) = print_patch hs"
proof -
  have e: "print_patch hs = str_join nl (BEGIN_PATCH_MARKER # concat (map hunk_lines hs)) @ nl @ END_PATCH_MARKER"
    unfolding print_patch_def patch_lines_def
    by (metis Cons_eq_appendI list.distinct(1) str_join_snoc)
  obtain r where r: "print_patch hs = CHR ''*'' # r"
    unfolding print_patch_def patch_lines_def by (auto simp: str_join_Cons BEGIN_PATCH_MARKER_def)
  have "last (print_patch hs) = CHR ''h''" unfolding e by (simp add: marker_defs)
  then have l: "last (CHR ''*'' # r) = CHR ''h''" by (simp only: r)
  have "\<not> suffix w (CHR ''*'' # r)" if w: "w \<in> set ws_encodings" for w
  proof
    assume "suffix w (CHR ''*'' # r)"
    then obtain u where "CHR ''*'' # r = u @ w" by (auto simp: suffix_def)
    with l ws_encodings_nonempty [OF w] have "last w = CHR ''h''" by (metis last_appendR)
    with ws_encodings_nonempty [OF w] have "CHR ''h'' \<in> set w" by (metis last_in_set)
    with w not_ws(3) show False by (auto simp: ws_bytes_def)
  qed
  then show ?thesis using trim_id [of "CHR ''*''" r] r by simp
qed

section \<open>Properties\<close>

text \<open>
  C20. Round trip: the parser reads every printed patch back, for every list of hunks that the
  format can express: files to add, delete, update and move, any number of chunks with or without
  context and end-of-file marker, in any order.
\<close>

theorem parse_print_patch:
  assumes "list_all hunk_ok hs"
  shows "parse_patch (print_patch hs) =
           Ok \<lparr>ap_patch = print_patch hs, ap_hunks = hs, ap_workdir = None\<rparr>"
proof -
  have lines: "str_lines (print_patch hs) = patch_lines hs"
    unfolding print_patch_def
    by (rule str_lines_join [OF patch_lines_ok [OF assms]]) (simp_all add: patch_lines_def marker_defs)
  have "trim BEGIN_PATCH_MARKER = BEGIN_PATCH_MARKER" "trim END_PATCH_MARKER = END_PATCH_MARKER"
    by code_simp+
  then have "check_patch_boundaries_strict (patch_lines hs) =
      Ok (patch_lines hs, concat (map hunk_lines hs))"
    by (simp add: check_patch_boundaries_strict_def patch_lines_def
        check_start_and_end_lines_strict_def)
  with lines trim_print_patch hunks_loop_printed [OF assms, of 2 "[]"] show ?thesis
    by (simp add: parse_patch_def PARSE_IN_STRICT_MODE_def parse_patch_text_def
        check_patch_boundaries_lenient_def print_patch_def)
qed

definition demo_hunks :: "Hunk list" where
  "demo_hunks =
     [AddFile ''new.txt'' (''one'' @ nl @ ''two'' @ nl), DeleteFile ''old.txt'',
      UpdateFile ''src/a.rs'' (Some ''src/b.rs'')
        [\<lparr>change_context = Some ''fn f() {'', old_lines = [''  x'', ''  y''], new_lines = [''  x'', ''  z''],
          is_end_of_file = False\<rparr>]]"

theorem parse_print_patch_witness:
  "parse_patch (print_patch demo_hunks) =
     Ok \<lparr>ap_patch = print_patch demo_hunks, ap_hunks = demo_hunks, ap_workdir = None\<rparr>"
proof -
  have "list_all hunk_ok demo_hunks" by code_simp
  then show ?thesis by (rule parse_print_patch)
qed

text \<open>
  Progress of the parser: every hunk it reads takes at least one line and never more than
  there are, so the slices stay within the input and the loops end.
\<close>

lemma parse_one_hunk_progress:
  assumes "parse_one_hunk lines n allow_incomplete = Ok (h, k)" and "lines \<noteq> []"
  shows "1 \<le> k \<and> k \<le> length lines"
  using parse_one_hunk_consumes [OF assms] by simp

end
