(* ===== verification/Abs_Path.thy ===== *)
theory Abs_Path
  imports Prelude
begin

text \<open>
  Absolute paths: \<open>utils/absolute-path/src/lib.rs\<close> and \<open>absolutize.rs\<close>, in their Unix
  build.

  A path argument is a string. A built path is the list of its components, which is what two
  paths are compared by (\<open>PathBuf\<close>'s equality); \<open>path_str\<close> prints it. The home
  directory and the working directory, which the program asks the operating system for, are
  arguments.
\<close>

section \<open>Paths of the standard library\<close>

datatype component = RootDir | CurDir | ParentDir | Normal string

type_synonym path = "component list"

definition slash :: char where
  "slash = CHR ''/''"

definition is_absolute :: "string \<Rightarrow> bool" where
  "is_absolute s = (s \<noteq> [] \<and> hd s = slash)"

text \<open>
  \<open>Path::components\<close>: repeated separators and \<open>.\<close> disappear, except for a \<open>.\<close> at the
  start of a relative path.
\<close>

definition component_of :: "string \<Rightarrow> component" where
  "component_of n = (if n = ''..'' then ParentDir else Normal n)"

definition names :: "string \<Rightarrow> component list" where
  "names s = map component_of (filter (\<lambda>n. n \<noteq> [] \<and> n \<noteq> ''.'') (split_char slash s))"

definition components :: "string \<Rightarrow> path" where
  "components s =
     (if is_absolute s then [RootDir]
      else if hd (split_char slash s) = ''.'' then [CurDir] else []) @ names s"

fun component_str :: "component \<Rightarrow> string" where
  "component_str RootDir = ''/''"
| "component_str CurDir = ''.''"
| "component_str ParentDir = ''..''"
| "component_str (Normal n) = n"

fun path_str :: "path \<Rightarrow> string" where
  "path_str (RootDir # p) = slash # str_join [slash] (map component_str p)"
| "path_str p = str_join [slash] (map component_str p)"

definition file_name :: "path \<Rightarrow> string option" where
  "file_name p = (if p = [] then None else case last p of Normal n \<Rightarrow> Some n | _ \<Rightarrow> None)"

text \<open>\<open>Path::join\<close>.\<close>

definition path_join :: "string \<Rightarrow> string \<Rightarrow> string" where
  "path_join base p =
     (if is_absolute p then p
      else if base = [] \<or> last base = slash then base @ p
      else base @ [slash] @ p)"

text \<open>\<open>PathBuf::push\<close> of a component, and \<open>PathBuf::pop\<close>, which leaves a root alone.\<close>

definition path_push :: "component \<Rightarrow> path \<Rightarrow> path" where
  "path_push c p = (if c = RootDir then [RootDir] else p @ [c])"

definition path_pop :: "path \<Rightarrow> path" where
  "path_pop p = (if p = [] \<or> last p = RootDir then p else butlast p)"

section \<open>absolutize.rs\<close>

definition normalize_step :: "path \<Rightarrow> component \<Rightarrow> path" where
  "normalize_step normalized c =
     (case c of
        CurDir \<Rightarrow> normalized
      | ParentDir \<Rightarrow> path_pop normalized
      | _ \<Rightarrow> path_push c normalized)"

definition normalize_path :: "string \<Rightarrow> path" where
  "normalize_path s =
     (let normalized = foldl normalize_step [] (components s)
      in if normalized = [] then [CurDir] else normalized)"

definition path_with_base :: "string \<Rightarrow> string \<Rightarrow> string" where
  "path_with_base p base = (if is_absolute p then p else path_join base p)"

definition absolutize_from :: "string \<Rightarrow> string \<Rightarrow> path" where
  "absolutize_from p base = normalize_path (path_with_base p base)"

definition absolutize :: "'e + string \<Rightarrow> string \<Rightarrow> 'e + path" where
  "absolutize current_dir p =
     (if is_absolute p then Ok (normalize_path p)
      else rbind current_dir (\<lambda>dir. Ok (absolutize_from p dir)))"

section \<open>lib.rs\<close>

definition maybe_expand_home_directory :: "string option \<Rightarrow> string \<Rightarrow> string" where
  "maybe_expand_home_directory home_dir p =
     (case (home_dir, strip_prefix ''~'' p) of
        (Some home, Some rest) \<Rightarrow>
          if rest = [] then home
          else (case strip_prefix ''/'' rest of
                  Some rest' \<Rightarrow> path_join home (dropWhile (\<lambda>c. c = slash) rest')
                | None \<Rightarrow> p)
      | _ \<Rightarrow> p)"

definition resolve_path_against_base :: "string option \<Rightarrow> string \<Rightarrow> string \<Rightarrow> path" where
  "resolve_path_against_base home_dir p base =
     absolutize_from (maybe_expand_home_directory home_dir p) base"

definition from_absolute_path :: "string option \<Rightarrow> 'e + string \<Rightarrow> string \<Rightarrow> 'e + path" where
  "from_absolute_path home_dir current_dir p =
     absolutize current_dir (maybe_expand_home_directory home_dir p)"

definition from_absolute_path_checked :: "string option \<Rightarrow> string \<Rightarrow> string + path" where
  "from_absolute_path_checked home_dir p =
     (let expanded = maybe_expand_home_directory home_dir p in
      if \<not> is_absolute expanded then Err (''path is not absolute: '' @ p)
      else Ok (absolutize_from expanded ''/''))"

definition relative_to_current_dir :: "string option \<Rightarrow> 'e + string \<Rightarrow> string \<Rightarrow> 'e + path" where
  "relative_to_current_dir home_dir current_dir p =
     rbind current_dir (\<lambda>dir. Ok (resolve_path_against_base home_dir p dir))"

definition abs_join :: "string option \<Rightarrow> path \<Rightarrow> string \<Rightarrow> path" where
  "abs_join home_dir this p = resolve_path_against_base home_dir p (path_str this)"

definition abs_parent :: "path \<Rightarrow> path option" where
  "abs_parent this = (if this = [] \<or> last this = RootDir then None else Some (butlast this))"

section \<open>Lemmas\<close>

text \<open>The promise of the type: the root, then plain names.\<close>

definition plain_name :: "component \<Rightarrow> bool" where
  "plain_name c =
     (case c of Normal n \<Rightarrow> n \<noteq> [] \<and> n \<noteq> ''.'' \<and> n \<noteq> ''..'' \<and> slash \<notin> set n | _ \<Rightarrow> False)"

definition abs_wf :: "path \<Rightarrow> bool" where
  "abs_wf p = (p \<noteq> [] \<and> hd p = RootDir \<and> list_all plain_name (tl p))"

lemma names_plain: "c \<in> set (names s) \<Longrightarrow> c = ParentDir \<or> plain_name c"
  by (auto simp: names_def component_of_def plain_name_def dest: split_char_no_sep)

lemma normalize_step_wf:
  assumes "abs_wf p" and "c = ParentDir \<or> plain_name c"
  shows "abs_wf (normalize_step p c)"
proof (cases c)
  case ParentDir
  obtain q where p: "p = RootDir # q" and q: "list_all plain_name q"
    using assms(1) by (cases p) (auto simp: abs_wf_def)
  have "list_all plain_name (butlast q)" using q by (auto simp: list_all_iff dest: in_set_butlastD)
  with ParentDir p q show ?thesis
    by (auto simp: normalize_step_def path_pop_def abs_wf_def)
next
  case (Normal n)
  with assms show ?thesis
    by (cases p) (auto simp: normalize_step_def path_push_def abs_wf_def list_all_iff)
qed (use assms in \<open>auto simp: plain_name_def\<close>)

lemma normalize_steps_wf:
  "abs_wf p \<Longrightarrow> \<forall>c \<in> set cs. c = ParentDir \<or> plain_name c \<Longrightarrow> abs_wf (foldl normalize_step p cs)"
  by (induction cs arbitrary: p) (auto simp: normalize_step_wf)

lemma normalize_path_wf:
  assumes "is_absolute s"
  shows "abs_wf (normalize_path s)"
proof -
  have "foldl normalize_step [] (components s) = foldl normalize_step [RootDir] (names s)"
    using assms by (simp add: components_def normalize_step_def path_push_def)
  moreover have "abs_wf (foldl normalize_step [RootDir] (names s))"
    by (rule normalize_steps_wf) (auto simp: abs_wf_def names_plain)
  ultimately show ?thesis by (auto simp: normalize_path_def abs_wf_def)
qed

lemma plain_name_str: "plain_name c \<Longrightarrow> component_of (component_str c) = c"
  by (cases c) (auto simp: plain_name_def component_of_def)

lemma plain_name_keep:
  "plain_name c \<Longrightarrow> component_str c \<noteq> [] \<and> component_str c \<noteq> ''.'' \<and> slash \<notin> set (component_str c)"
  by (cases c) (auto simp: plain_name_def)

text \<open>Printing a path and reading its components back.\<close>

lemma names_path_str:
  assumes "list_all plain_name q"
  shows "names (str_join [slash] (map component_str q)) = q"
proof (cases "q = []")
  case False
  have k: "\<forall>n \<in> set (map component_str q). slash \<notin> set n"
    using assms plain_name_keep by (auto simp: list_all_iff)
  have f: "filter (\<lambda>n. n \<noteq> [] \<and> n \<noteq> ''.'') (map component_str q) = map component_str q"
    using assms plain_name_keep by (auto simp: list_all_iff filter_id_conv)
  have m: "map (component_of \<circ> component_str) q = q"
    using assms by (auto simp: list_all_iff plain_name_str intro: map_idI)
  show ?thesis
    using False k f m by (simp add: names_def split_char_join)
qed (simp add: names_def)

lemma components_path_str:
  assumes "abs_wf p"
  shows "components (path_str p) = p" and "is_absolute (path_str p)"
proof -
  obtain q where p: "p = RootDir # q" and q: "list_all plain_name q"
    using assms by (cases p) (auto simp: abs_wf_def)
  show a: "is_absolute (path_str p)" by (simp add: p is_absolute_def)
  have "split_char slash (path_str p) = [] # split_char slash (str_join [slash] (map component_str q))"
    using split_char_append [of slash "[]" "str_join [slash] (map component_str q)"] by (simp add: p)
  then have "names (path_str p) = names (str_join [slash] (map component_str q))"
    by (simp add: names_def)
  with a q show "components (path_str p) = p" by (simp add: components_def names_path_str p)
qed

lemma normalize_steps_plain:
  "list_all plain_name cs \<Longrightarrow> foldl normalize_step p cs = p @ cs"
proof (induction cs arbitrary: p)
  case (Cons c cs)
  then show ?case
    by (cases c) (auto simp: normalize_step_def path_push_def plain_name_def)
qed simp

lemma normalize_path_str:
  assumes "abs_wf p"
  shows "normalize_path (path_str p) = p"
proof -
  obtain q where p: "p = RootDir # q" and q: "list_all plain_name q"
    using assms by (cases p) (auto simp: abs_wf_def)
  have "foldl normalize_step [] (RootDir # q) = RootDir # q"
    using normalize_steps_plain [OF q, of "[RootDir]"] by (simp add: normalize_step_def path_push_def)
  with components_path_str [OF assms] show ?thesis by (simp add: normalize_path_def p)
qed

lemma expand_absolute: "is_absolute s \<Longrightarrow> maybe_expand_home_directory h s = s"
  by (cases s) (auto simp: is_absolute_def maybe_expand_home_directory_def strip_prefix_def slash_def
      split: option.splits)

lemma path_join_absolute: "is_absolute base \<Longrightarrow> is_absolute (path_join base p)"
  by (cases base) (auto simp: path_join_def is_absolute_def)

lemma resolve_wf:
  assumes "is_absolute base"
  shows "abs_wf (resolve_path_against_base h p base)"
  using normalize_path_wf path_join_absolute [OF assms]
  by (simp add: resolve_path_against_base_def absolutize_from_def path_with_base_def)

lemma from_absolute_path_wf:
  assumes "from_absolute_path h (Ok cwd) p = Ok q" and "is_absolute cwd"
  shows "abs_wf q"
  using assms normalize_path_wf path_join_absolute [OF assms(2)]
  by (auto simp: from_absolute_path_def absolutize_def absolutize_from_def path_with_base_def
      split: if_splits)

section \<open>Property\<close>

text \<open>
  C39. An \<open>AbsolutePathBuf\<close> keeps its promise: resolved against an absolute directory, whatever
  the argument says, the result is the root followed by plain names, with no \<open>.\<close>, no \<open>..\<close>
  and no empty name, and resolving the printed result again, against any directory and with any
  home, gives the same path.
\<close>

theorem resolve_absolute_normal:
  assumes "is_absolute base"
  shows "abs_wf (resolve_path_against_base h p base) \<and>
         resolve_path_against_base h' (path_str (resolve_path_against_base h p base)) base' =
           resolve_path_against_base h p base"
proof
  show w: "abs_wf (resolve_path_against_base h p base)" by (rule resolve_wf [OF assms])
  show "resolve_path_against_base h' (path_str (resolve_path_against_base h p base)) base' =
          resolve_path_against_base h p base"
    using normalize_path_str [OF w] components_path_str(2) [OF w]
    by (simp add: resolve_path_against_base_def [of h'] expand_absolute absolutize_from_def [of _ base']
        path_with_base_def)
qed

theorem resolve_absolute_normal_witness:
  "resolve_path_against_base None
     (path_str (resolve_path_against_base (Some ''/h'') ''../b/./c'' ''/a/x'')) ''/'' =
   [RootDir, Normal ''a'', Normal ''b'', Normal ''c'']"
proof -
  have "is_absolute ''/a/x''" by code_simp
  from resolve_absolute_normal [OF this, of "Some ''/h''" "''../b/./c''" None "''/''"]
  have "resolve_path_against_base None
          (path_str (resolve_path_against_base (Some ''/h'') ''../b/./c'' ''/a/x'')) ''/'' =
        resolve_path_against_base (Some ''/h'') ''../b/./c'' ''/a/x''" by simp
  also have "\<dots> = [RootDir, Normal ''a'', Normal ''b'', Normal ''c'']" by code_simp
  finally show ?thesis .
qed

end
