(* ===== verification/Exec_Rule.thy ===== *)
theory Exec_Rule
  imports Abs_Path
begin

text \<open>
  The rules of an execution policy: \<open>execpolicy/src/decision.rs\<close>, \<open>error.rs\<close>,
  \<open>executable_name.rs\<close> (Unix build) and \<open>rule.rs\<close>.

  \<open>PrefixRule\<close> is the one implementation of the trait \<open>Rule\<close>; the locale
  \<open>rule_contract\<close> has what the policy's index relies on. The printing of a string by
  \<open>Debug\<close>, which needs the tables of Unicode, \<open>shlex\<close>, the home directory and the working
  directory are the fields of \<open>exec_env\<close>.
\<close>

section \<open>decision.rs\<close>

datatype Decision = Allow | Prompt | Forbidden

fun severity :: "Decision \<Rightarrow> nat" where
  "severity Allow = 0"
| "severity Prompt = 1"
| "severity Forbidden = 2"

lemma severity_inj [simp]: "severity a = severity b \<longleftrightarrow> a = b"
  by (cases a; cases b) auto

text \<open>The derived order: the order of the constructors.\<close>

instantiation Decision :: linorder
begin

definition less_eq_Decision :: "Decision \<Rightarrow> Decision \<Rightarrow> bool" where
  "less_eq_Decision a b = (severity a \<le> severity b)"

definition less_Decision :: "Decision \<Rightarrow> Decision \<Rightarrow> bool" where
  "less_Decision a b = (severity a < severity b)"

instance
  by standard (auto simp: less_eq_Decision_def less_Decision_def order_antisym)

end

section \<open>error.rs\<close>

record TextPosition =
  line :: nat
  column :: nat

record TextRange =
  range_start :: TextPosition
  range_end :: TextPosition

record ErrorLocation =
  loc_path :: string
  loc_range :: TextRange

text \<open>A span of the Starlark library, resolved: zero-based lines and columns.\<close>

record FileSpan =
  filename :: string
  begin_line :: nat
  begin_column :: nat
  end_line :: nat
  end_column :: nat

record StarlarkError =
  se_display :: string
  se_span :: "FileSpan option"

datatype Error =
  InvalidDecision string
| InvalidPattern string
| InvalidExample string
| InvalidRule string
| ExampleDidNotMatch "string list" "string list" "ErrorLocation option"
| ExampleDidMatch string string "ErrorLocation option"
| Starlark StarlarkError

fun with_location :: "Error \<Rightarrow> ErrorLocation \<Rightarrow> Error" where
  "with_location (ExampleDidNotMatch rs xs None) loc = ExampleDidNotMatch rs xs (Some loc)"
| "with_location (ExampleDidMatch r x None) loc = ExampleDidMatch r x (Some loc)"
| "with_location other loc = other"

definition error_location_from_file_span :: "FileSpan \<Rightarrow> ErrorLocation" where
  "error_location_from_file_span s =
     \<lparr>loc_path = filename s,
      loc_range = \<lparr>range_start = \<lparr>line = begin_line s + 1, column = begin_column s + 1\<rparr>,
                   range_end = \<lparr>line = end_line s + 1, column = end_column s + 1\<rparr>\<rparr>\<rparr>"

fun error_location :: "Error \<Rightarrow> ErrorLocation option" where
  "error_location (ExampleDidNotMatch _ _ loc) = loc"
| "error_location (ExampleDidMatch _ _ loc) = loc"
| "error_location (Starlark e) = map_option error_location_from_file_span (se_span e)"
| "error_location _ = None"

definition Decision_parse :: "string \<Rightarrow> Error + Decision" where
  "Decision_parse raw =
     (if raw = ''allow'' then Ok Allow
      else if raw = ''prompt'' then Ok Prompt
      else if raw = ''forbidden'' then Ok Forbidden
      else Err (InvalidDecision raw))"

section \<open>executable\_name.rs\<close>

definition executable_lookup_key :: "string \<Rightarrow> string" where
  "executable_lookup_key raw = raw"

definition executable_path_lookup_key :: "path \<Rightarrow> string option" where
  "executable_path_lookup_key p = map_option executable_lookup_key (file_name p)"

section \<open>rule.rs\<close>

datatype PatternToken = Single string | Alts "string list"

fun token_matches :: "PatternToken \<Rightarrow> string \<Rightarrow> bool" where
  "token_matches (Single expected) tok = (expected = tok)"
| "token_matches (Alts alternatives) tok = list_ex (\<lambda>alt. alt = tok) alternatives"

fun token_alternatives :: "PatternToken \<Rightarrow> string list" where
  "token_alternatives (Single expected) = [expected]"
| "token_alternatives (Alts alternatives) = alternatives"

record PrefixPattern =
  first_token :: string
  rest_tokens :: "PatternToken list"

definition matches_prefix :: "PrefixPattern \<Rightarrow> string list \<Rightarrow> string list option" where
  "matches_prefix pat cmd =
     (let pattern_length = length (rest_tokens pat) + 1 in
      if length cmd < pattern_length \<or> cmd ! 0 \<noteq> first_token pat then None
      else if list_all (\<lambda>(p, c). token_matches p c)
                (zip (rest_tokens pat) (drop 1 (take pattern_length cmd)))
           then Some (take pattern_length cmd)
           else None)"

datatype RuleMatch =
  PrefixRuleMatch (matched_prefix: "string list") (match_decision: Decision)
    (resolved_program: "path option") (match_justification: "string option")
| HeuristicsRuleMatch (command: "string list") (match_decision: Decision)

fun with_resolved_program :: "RuleMatch \<Rightarrow> path \<Rightarrow> RuleMatch" where
  "with_resolved_program (PrefixRuleMatch mp d _ j) prog = PrefixRuleMatch mp d (Some prog) j"
| "with_resolved_program other prog = other"

record PrefixRule =
  pattern :: PrefixPattern
  rule_decision :: Decision
  justification :: "string option"

datatype NetworkRuleProtocol = Http | Https | Socks5Tcp | Socks5Udp

definition NetworkRuleProtocol_parse :: "string \<Rightarrow> Error + NetworkRuleProtocol" where
  "NetworkRuleProtocol_parse raw =
     (if raw = ''http'' then Ok Http
      else if raw \<in> {''https'', ''https_connect'', ''http-connect''} then Ok Https
      else if raw = ''socks5_tcp'' then Ok Socks5Tcp
      else if raw = ''socks5_udp'' then Ok Socks5Udp
      else Err (InvalidRule (''network_rule protocol must be one of http, https, socks5_tcp, socks5_udp (got ''
                             @ raw @ '')'')))"

fun as_policy_string :: "NetworkRuleProtocol \<Rightarrow> string" where
  "as_policy_string Http = ''http''"
| "as_policy_string Https = ''https''"
| "as_policy_string Socks5Tcp = ''socks5_tcp''"
| "as_policy_string Socks5Udp = ''socks5_udp''"

record NetworkRule =
  host :: string
  protocol :: NetworkRuleProtocol
  net_decision :: Decision
  net_justification :: "string option"

subsection \<open>Host names\<close>

definition port_digits :: "string \<Rightarrow> bool" where
  "port_digits port = (port \<noteq> [] \<and> list_all is_ascii_digit port)"

definition no_url_syntax :: "string \<Rightarrow> bool" where
  "no_url_syntax s =
     (\<not> (str_contains s ''://'' \<or> str_contains s ''/'' \<or> str_contains s ''?'' \<or> str_contains s ''#''))"

text \<open>The brackets of an IPv6 literal and the port.\<close>

definition host_part :: "string \<Rightarrow> string \<Rightarrow> Error + string" where
  "host_part raw h =
     (case strip_prefix ''['' h of
        Some stripped \<Rightarrow>
          (case split_once (CHR '']'') stripped of
             None \<Rightarrow> Err (InvalidRule ''network_rule host has an invalid bracketed IPv6 literal'')
           | Some (inside, rest) \<Rightarrow>
               let port_ok = (case strip_prefix '':'' rest of None \<Rightarrow> False | Some port \<Rightarrow> port_digits port)
               in if rest \<noteq> [] \<and> \<not> port_ok
                  then Err (InvalidRule (''network_rule host contains an unsupported suffix: '' @ raw))
                  else Ok inside)
      | None \<Rightarrow>
          Ok (if count_list h (CHR '':'') = 1 then
                (case rsplit_once (CHR '':'') h of
                   Some (candidate, port) \<Rightarrow>
                     if candidate \<noteq> [] \<and> port_digits port then candidate else h
                 | None \<Rightarrow> h)
              else h))"

definition normalize_network_rule_host :: "string \<Rightarrow> Error + string" where
  "normalize_network_rule_host raw =
     (let h = trim raw in
      if h = [] then Err (InvalidRule ''network_rule host cannot be empty'')
      else if \<not> no_url_syntax h
      then Err (InvalidRule ''network_rule host must be a hostname or IP literal (without scheme or path)'')
      else rbind (host_part raw h)
        (\<lambda>h1. let normalized = to_ascii_lowercase (trim (trim_end_matches (CHR ''.'') h1)) in
          if normalized = [] then Err (InvalidRule ''network_rule host cannot be empty'')
          else if str_contains normalized ''*''
          then Err (InvalidRule ''network_rule host must be a specific host; wildcards are not allowed'')
          else if has_whitespace normalized
          then Err (InvalidRule ''network_rule host cannot contain whitespace'')
          else Ok normalized))"

subsection \<open>The trait\<close>

definition program :: "PrefixRule \<Rightarrow> string" where
  "program r = first_token (pattern r)"

definition rule_matches :: "PrefixRule \<Rightarrow> string list \<Rightarrow> RuleMatch option" where
  "rule_matches r cmd =
     map_option (\<lambda>mp. PrefixRuleMatch mp (rule_decision r) None (justification r))
       (matches_prefix (pattern r) cmd)"

subsection \<open>Derived \<open>Debug\<close>\<close>

record exec_env =
  ee_str_debug :: "string \<Rightarrow> string"
  ee_shlex_split :: "string \<Rightarrow> string list option"
  ee_shlex_join :: "string list \<Rightarrow> string option"
  ee_home_dir :: "string option"
  ee_current_dir :: "string + string"

fun Decision_debug :: "Decision \<Rightarrow> string" where
  "Decision_debug Allow = ''Allow''"
| "Decision_debug Prompt = ''Prompt''"
| "Decision_debug Forbidden = ''Forbidden''"

definition list_debug :: "('a \<Rightarrow> string) \<Rightarrow> 'a list \<Rightarrow> string" where
  "list_debug f xs = ''['' @ str_join '', '' (map f xs) @ '']''"

definition option_debug :: "('a \<Rightarrow> string) \<Rightarrow> 'a option \<Rightarrow> string" where
  "option_debug f x = (case x of None \<Rightarrow> ''None'' | Some y \<Rightarrow> ''Some('' @ f y @ '')'')"

fun token_debug :: "(string \<Rightarrow> string) \<Rightarrow> PatternToken \<Rightarrow> string" where
  "token_debug d (Single s) = ''Single('' @ d s @ '')''"
| "token_debug d (Alts xs) = ''Alts('' @ list_debug d xs @ '')''"

definition rule_debug :: "(string \<Rightarrow> string) \<Rightarrow> PrefixRule \<Rightarrow> string" where
  "rule_debug d r =
     ''PrefixRule { pattern: PrefixPattern { first: '' @ d (first_token (pattern r))
     @ '', rest: '' @ list_debug (token_debug d) (rest_tokens (pattern r))
     @ '' }, decision: '' @ Decision_debug (rule_decision r)
     @ '', justification: '' @ option_debug d (justification r) @ '' }''"

fun match_debug :: "(string \<Rightarrow> string) \<Rightarrow> RuleMatch \<Rightarrow> string" where
  "match_debug d (PrefixRuleMatch mp dec prog j) =
     ''PrefixRuleMatch { matched_prefix: '' @ list_debug d mp
     @ '', decision: '' @ Decision_debug dec
     @ '', resolved_program: '' @ option_debug (\<lambda>p. ''AbsolutePathBuf('' @ d (path_str p) @ '')'') prog
     @ '', justification: '' @ option_debug d j @ '' }''"
| "match_debug d (HeuristicsRuleMatch cmd dec) =
     ''HeuristicsRuleMatch { command: '' @ list_debug d cmd
     @ '', decision: '' @ Decision_debug dec @ '' }''"

section \<open>What a rule covers\<close>

text \<open>
  The meaning of a pattern: the command starts with tokens that the pattern's tokens admit, one
  for one.
\<close>

definition pattern_tokens :: "PrefixRule \<Rightarrow> PatternToken list" where
  "pattern_tokens r = Single (first_token (pattern r)) # rest_tokens (pattern r)"

definition admits :: "PatternToken \<Rightarrow> string \<Rightarrow> bool" where
  "admits t w = (w \<in> set (token_alternatives t))"

definition covers :: "PrefixRule \<Rightarrow> string list \<Rightarrow> bool" where
  "covers r cmd = list_all2 admits (pattern_tokens r) (take (length (pattern_tokens r)) cmd)"

lemma token_matches_admits: "token_matches t w = admits t w"
  by (cases t) (auto simp: admits_def list_ex_iff)

lemma matches_prefix_covers:
  "matches_prefix (pattern r) cmd =
     (if covers r cmd then Some (take (length (pattern_tokens r)) cmd) else None)"
proof (cases cmd)
  case Nil
  then show ?thesis by (simp add: matches_prefix_def covers_def pattern_tokens_def)
next
  case (Cons w ws)
  let ?ts = "rest_tokens (pattern r)"
  have z: "list_all (\<lambda>(p, c). token_matches p c) (zip ?ts (take (length ?ts) ws)) \<longleftrightarrow>
      list_all2 admits ?ts (take (length ?ts) ws)" if "length ?ts \<le> length ws"
    using that by (auto simp: list_all2_iff list_all_iff token_matches_admits)
  have len: "length ?ts \<le> length ws" if "list_all2 admits ?ts (take (length ?ts) ws)"
    using list_all2_lengthD [OF that] by simp
  show ?thesis
    using Cons z len
    by (auto simp: matches_prefix_def covers_def pattern_tokens_def admits_def not_less)
qed

lemma rule_matches_covers:
  "rule_matches r cmd =
     (if covers r cmd
      then Some (PrefixRuleMatch (take (length (pattern_tokens r)) cmd) (rule_decision r) None (justification r))
      else None)"
  by (simp add: rule_matches_def matches_prefix_covers)

lemma covers_first: "covers r cmd \<Longrightarrow> \<exists>ws. cmd = program r # ws"
  by (cases cmd) (auto simp: covers_def pattern_tokens_def program_def admits_def)

section \<open>The contract of a rule\<close>

text \<open>
  A policy keeps its rules by program and looks only at those of a command's first token. That is
  enough as long as a rule matches no command of another program.
\<close>

definition index_rules :: "(string \<times> 'r list) list \<Rightarrow> 'r list" where
  "index_rules m = concat (map snd m)"

definition get_vec :: "string \<Rightarrow> (string \<times> 'r list) list \<Rightarrow> 'r list option" where
  "get_vec k m = map_of m k"

definition index_wf :: "('r \<Rightarrow> string) \<Rightarrow> (string \<times> 'r list) list \<Rightarrow> bool" where
  "index_wf prog m =
     (distinct (map fst m) \<and> list_all (\<lambda>(k, rs). list_all (\<lambda>r. prog r = k) rs) m)"

locale rule_contract =
  fixes prog :: "'r \<Rightarrow> string"
    and rmatch :: "'r \<Rightarrow> string list \<Rightarrow> 'm option"
  assumes rmatch_prog: "rmatch r cmd = Some x \<Longrightarrow> \<exists>ws. cmd = prog r # ws"
begin

lemma rmatch_Nil: "rmatch r [] = None"
  using rmatch_prog [of r "[]"] by (cases "rmatch r []") auto

text \<open>The lookup finds every match there is in the index.\<close>

lemma lookup_complete:
  assumes "index_wf prog m"
  shows "set (List.map_filter (\<lambda>r. rmatch r (w # ws)) (case get_vec w m of None \<Rightarrow> [] | Some rs \<Rightarrow> rs)) =
         {x. \<exists>r \<in> set (index_rules m). rmatch r (w # ws) = Some x}" (is "?L = ?R")
proof -
  have key: "get_vec w m = Some rs" if "(k, rs) \<in> set m" "r \<in> set rs" "rmatch r (w # ws) = Some x" for k rs r x
  proof -
    from assms that(1,2) have "prog r = k" by (fastforce simp: index_wf_def list_all_iff)
    with rmatch_prog [OF that(3)] have "w = k" by simp
    with assms that(1) show ?thesis by (simp add: index_wf_def get_vec_def)
  qed
  have "?R \<subseteq> ?L"
  proof
    fix x assume "x \<in> ?R"
    then obtain k rs r where "(k, rs) \<in> set m" "r \<in> set rs" "rmatch r (w # ws) = Some x"
      by (auto simp: index_rules_def)
    with key [OF this] show "x \<in> ?L" by (force simp: map_filter_def)
  qed
  moreover have "?L \<subseteq> ?R"
  proof
    fix x assume "x \<in> ?L"
    then obtain rs r where "(w, rs) \<in> set m" "r \<in> set rs" "rmatch r (w # ws) = Some x"
      by (auto simp: map_filter_def get_vec_def split: option.splits dest: map_of_SomeD [OF sym])
    then show "x \<in> ?R" by (force simp: index_rules_def)
  qed
  ultimately show ?thesis by blast
qed

end

interpretation prefix_rules: rule_contract program rule_matches
  by unfold_locales (auto simp: rule_matches_covers covers_first split: if_splits)

section \<open>Property\<close>

lemma set_strip_words: "set (strip_words ws s) \<subseteq> set s"
proof (induction ws s rule: strip_words.induct)
  case (1 ws s)
  show ?case
  proof (cases "List.find (\<lambda>w. w \<noteq> [] \<and> prefix w s) ws")
    case None
    then show ?thesis by (simp add: strip_words.simps)
  next
    case (Some w)
    with 1 have "set (strip_words ws (drop (length w) s)) \<subseteq> set (drop (length w) s)" by blast
    with Some set_drop_subset [of "length w" s] show ?thesis
      by (subst strip_words.simps) auto
  qed
qed

lemma set_trim: "set (trim s) \<subseteq> set s"
  using set_strip_words [of "map rev ws_encodings" "rev (strip_words ws_encodings s)"]
    set_strip_words [of ws_encodings s]
  by (simp add: trim_def trim_end_def trim_start_def)

lemma set_trim_end_matches: "set (trim_end_matches c s) \<subseteq> set s"
  using set_dropWhileD [of _ "\<lambda>x. x = c" "rev s"] by (auto simp: trim_end_matches_def)

lemma split_once_subset: "split_once c s = Some (a, b) \<Longrightarrow> set a \<subseteq> set s \<and> set b \<subseteq> set s"
  by (auto simp: split_once_def dest: set_takeWhileD split: if_splits)
    (metis list.sel(2) list.set_sel(2) set_dropWhileD)

lemma set_host_part: 
  assumes "host_part raw h = Ok h1"
  shows "set h1 \<subseteq> set h"
proof (cases "strip_prefix ''['' h")
  case (Some stripped)
  then have "set stripped \<subseteq> set h" using set_drop_subset by (force simp: strip_prefix_def split: if_splits)
  moreover from assms Some have "\<exists>rest. split_once (CHR '']'') stripped = Some (h1, rest)"
    by (auto simp: host_part_def Let_def split: option.splits if_splits)
  ultimately show ?thesis using split_once_subset by blast
next
  case None
  have "set a \<subseteq> set h" if "rsplit_once (CHR '':'') h = Some (a, b)" for a b
    using that split_once_subset [of "CHR '':''" "rev h"] by (auto simp: rsplit_once_def)
  with None assms show ?thesis
    by (auto simp: host_part_def split: option.splits if_splits)
qed

text \<open>
  A host name that is accepted is fit for a policy: it is not empty, has no white space, no
  wildcard, no capital ASCII letter and nothing of a URL around the host.
\<close>

theorem normalize_host_sound:
  assumes "normalize_network_rule_host raw = Ok h"
  shows "h \<noteq> [] \<and> \<not> has_whitespace h \<and> to_ascii_lowercase h = h \<and>
         set h \<inter> {CHR ''*'', CHR ''/'', CHR ''?'', CHR ''#''} = {}"
proof -
  from assms obtain h1 where u: "no_url_syntax (trim raw)" and p: "host_part raw (trim raw) = Ok h1"
    and h: "h = to_ascii_lowercase (trim (trim_end_matches (CHR ''.'') h1))"
    and ok: "h \<noteq> []" "CHR ''*'' \<notin> set h" "\<not> has_whitespace h"
    by (auto simp: normalize_network_rule_host_def Let_def rbind_Inr_iff str_contains_single
        split: if_splits)
  have sub: "set (trim (trim_end_matches (CHR ''.'') h1)) \<subseteq> set (trim raw)"
    using set_trim set_trim_end_matches set_host_part [OF p] by (meson subset_trans)
  have "set (trim raw) \<inter> {CHR ''/'', CHR ''?'', CHR ''#''} = {}"
    using u by (auto simp: no_url_syntax_def str_contains_single)
  moreover have "x \<in> set (trim raw)" if "x \<in> set h" "x \<in> {CHR ''/'', CHR ''?'', CHR ''#''}" for x
  proof -
    from that(1) h obtain d where d: "x = ascii_lower d" "d \<in> set (trim raw)"
      using sub by (auto simp: to_ascii_lowercase_def)
    have "(of_char x :: nat) < 65" using that(2) by auto
    with d ascii_lower_fixes [of d] show ?thesis by simp
  qed
  ultimately have "set h \<inter> {CHR ''/'', CHR ''?'', CHR ''#''} = {}" by blast
  moreover have "to_ascii_lowercase h = h" by (simp add: h to_ascii_lowercase_def ascii_lower_idem)
  ultimately show ?thesis using ok by blast
qed

theorem normalize_host_sound_witness:
  "normalize_network_rule_host '' Example.COM.:443'' = Ok ''example.com'' \<and> \<not> has_whitespace ''example.com''"
proof -
  have e: "normalize_network_rule_host '' Example.COM.:443'' = Ok ''example.com''" by code_simp
  with normalize_host_sound [OF e] show ?thesis by blast
qed

end
