(* ===== verification/Exec_Policy.thy ===== *)
theory Exec_Policy
  imports Exec_Rule "HOL-Library.List_Lexorder" "HOL-Library.Char_ord"
begin

text \<open>
  The policy engine: \<open>execpolicy/src/policy.rs\<close>, with the checks of examples of
  \<open>rule.rs\<close>.

  A \<open>MultiMap\<close> is a list of keys with their vectors; the order of its keys, which the
  program cannot rely on, affects no result. \<open>None\<close> from \<open>from_matches\<close> is the panic
  of its \<open>expect\<close>.
\<close>

section \<open>Operations\<close>

record MatchOptions =
  resolve_host_executables :: bool

definition MatchOptions_default :: MatchOptions where
  "MatchOptions_default = \<lparr>resolve_host_executables = False\<rparr>"

record Policy =
  rules_by_program :: "(string \<times> PrefixRule list) list"
  network_rules :: "NetworkRule list"
  host_executables_by_name :: "string \<rightharpoonup> path list"

definition Policy_empty :: Policy where
  "Policy_empty = \<lparr>rules_by_program = [], network_rules = [], host_executables_by_name = Map.empty\<rparr>"

fun multimap_insert :: "string \<Rightarrow> 'r \<Rightarrow> (string \<times> 'r list) list \<Rightarrow> (string \<times> 'r list) list" where
  "multimap_insert k v [] = [(k, [v])]"
| "multimap_insert k v ((k', vs) # m) =
     (if k = k' then (k', vs @ [v]) # m else (k', vs) # multimap_insert k v m)"

fun render_pattern_token :: "PatternToken \<Rightarrow> string" where
  "render_pattern_token (Single v) = v"
| "render_pattern_token (Alts alternatives) = ''['' @ str_join ''|'' alternatives @ '']''"

definition get_allowed_prefixes :: "Policy \<Rightarrow> string list list" where
  "get_allowed_prefixes p =
     remdups_adj (sort
       (concat (map (\<lambda>(_, rules).
          List.map_filter (\<lambda>r.
             if rule_decision r \<noteq> Allow then None
             else Some (first_token (pattern r) # map render_pattern_token (rest_tokens (pattern r)))) rules)
          (rules_by_program p))))"

definition add_prefix_rule :: "Policy \<Rightarrow> string list \<Rightarrow> Decision \<Rightarrow> Error + Policy" where
  "add_prefix_rule p pre d =
     (case pre of
        [] \<Rightarrow> Err (InvalidPattern ''prefix cannot be empty'')
      | first # rest \<Rightarrow>
          Ok (p\<lparr>rules_by_program := multimap_insert first
                   \<lparr>pattern = \<lparr>first_token = first, rest_tokens = map Single rest\<rparr>,
                    rule_decision = d, justification = None\<rparr> (rules_by_program p)\<rparr>))"

definition add_network_rule ::
    "Policy \<Rightarrow> string \<Rightarrow> NetworkRuleProtocol \<Rightarrow> Decision \<Rightarrow> string option \<Rightarrow> Error + Policy" where
  "add_network_rule p raw_host prot d j =
     rbind (normalize_network_rule_host raw_host)
       (\<lambda>h. if (case j of None \<Rightarrow> False | Some raw \<Rightarrow> trim raw = [])
            then Err (InvalidRule ''justification cannot be empty'')
            else Ok (p\<lparr>network_rules := network_rules p @
                   [\<lparr>host = h, protocol = prot, net_decision = d, net_justification = j\<rparr>]\<rparr>))"

definition set_host_executable_paths :: "Policy \<Rightarrow> string \<Rightarrow> path list \<Rightarrow> Policy" where
  "set_host_executable_paths p name paths =
     p\<lparr>host_executables_by_name := (host_executables_by_name p)(name \<mapsto> paths)\<rparr>"

definition insert_all :: "string \<Rightarrow> 'r list \<Rightarrow> (string \<times> 'r list) list \<Rightarrow> (string \<times> 'r list) list" where
  "insert_all k rs m = fold (multimap_insert k) rs m"

definition merge_overlay :: "Policy \<Rightarrow> Policy \<Rightarrow> Policy" where
  "merge_overlay p overlay =
     \<lparr>rules_by_program =
        fold (\<lambda>(k, rs) m. insert_all k rs m) (rules_by_program overlay) (rules_by_program p),
      network_rules = network_rules p @ network_rules overlay,
      host_executables_by_name = host_executables_by_name p ++ host_executables_by_name overlay\<rparr>"

definition upsert_domain :: "string list \<Rightarrow> string \<Rightarrow> string list" where
  "upsert_domain entries h = filter (\<lambda>e. e \<noteq> h) entries @ [h]"

definition compile_step :: "NetworkRule \<Rightarrow> string list \<times> string list \<Rightarrow> string list \<times> string list" where
  "compile_step r acc =
     (let (allowed, denied) = acc in
      case net_decision r of
        Allow \<Rightarrow> (upsert_domain allowed (host r), filter (\<lambda>e. e \<noteq> host r) denied)
      | Forbidden \<Rightarrow> (filter (\<lambda>e. e \<noteq> host r) allowed, upsert_domain denied (host r))
      | Prompt \<Rightarrow> (allowed, denied))"

definition compiled_network_domains :: "Policy \<Rightarrow> string list \<times> string list" where
  "compiled_network_domains p = fold compile_step (network_rules p) ([], [])"

definition match_exact_rules :: "Policy \<Rightarrow> string list \<Rightarrow> RuleMatch list option" where
  "match_exact_rules p cmd =
     (case cmd of
        [] \<Rightarrow> None
      | first # _ \<Rightarrow>
          Some (case get_vec first (rules_by_program p) of
                  None \<Rightarrow> []
                | Some rules \<Rightarrow> List.map_filter (\<lambda>r. rule_matches r cmd) rules))"

definition match_host_executable_rules :: "exec_env \<Rightarrow> Policy \<Rightarrow> string list \<Rightarrow> RuleMatch list" where
  "match_host_executable_rules env p cmd =
     (case cmd of
        [] \<Rightarrow> []
      | first # args \<Rightarrow>
          (case from_absolute_path (ee_home_dir env) (ee_current_dir env) first of
             Inl _ \<Rightarrow> []
           | Inr prog \<Rightarrow>
               (case executable_path_lookup_key prog of
                  None \<Rightarrow> []
                | Some basename \<Rightarrow>
                    (case get_vec basename (rules_by_program p) of
                       None \<Rightarrow> []
                     | Some rules \<Rightarrow>
                         if (case host_executables_by_name p basename of
                               None \<Rightarrow> False
                             | Some paths \<Rightarrow> \<not> list_ex (\<lambda>q. q = prog) paths)
                         then []
                         else map (\<lambda>m. with_resolved_program m prog)
                                (List.map_filter (\<lambda>r. rule_matches r (basename # args)) rules)))))"

definition matches_for_command_with_options ::
    "exec_env \<Rightarrow> Policy \<Rightarrow> string list \<Rightarrow> (string list \<Rightarrow> Decision) option \<Rightarrow> MatchOptions \<Rightarrow> RuleMatch list" where
  "matches_for_command_with_options env p cmd heuristics_fallback options =
     (let nonempty = (\<lambda>ms. if ms = [] then None else Some ms);
          exact = Option.bind (match_exact_rules p cmd) nonempty;
          matched = (case exact of
                       Some ms \<Rightarrow> ms
                     | None \<Rightarrow>
                         if resolve_host_executables options
                         then match_host_executable_rules env p cmd else [])
      in case (matched, heuristics_fallback) of
           ([], Some f) \<Rightarrow> [HeuristicsRuleMatch cmd (f cmd)]
         | _ \<Rightarrow> matched)"

definition matches_for_command ::
    "exec_env \<Rightarrow> Policy \<Rightarrow> string list \<Rightarrow> (string list \<Rightarrow> Decision) option \<Rightarrow> RuleMatch list" where
  "matches_for_command env p cmd heuristics_fallback =
     matches_for_command_with_options env p cmd heuristics_fallback MatchOptions_default"

record Evaluation =
  decision :: Decision
  matched_rules :: "RuleMatch list"

fun is_heuristics :: "RuleMatch \<Rightarrow> bool" where
  "is_heuristics (HeuristicsRuleMatch _ _) = True"
| "is_heuristics _ = False"

definition is_match :: "Evaluation \<Rightarrow> bool" where
  "is_match ev = list_ex (\<lambda>m. \<not> is_heuristics m) (matched_rules ev)"

fun max_decision :: "RuleMatch list \<Rightarrow> Decision option" where
  "max_decision [] = None"
| "max_decision (m # ms) =
     (case max_decision ms of
        None \<Rightarrow> Some (match_decision m)
      | Some d \<Rightarrow> Some (max (match_decision m) d))"

definition from_matches :: "RuleMatch list \<Rightarrow> Evaluation option" where
  "from_matches ms = map_option (\<lambda>d. \<lparr>decision = d, matched_rules = ms\<rparr>) (max_decision ms)"

definition check_with_options ::
    "exec_env \<Rightarrow> Policy \<Rightarrow> string list \<Rightarrow> (string list \<Rightarrow> Decision) \<Rightarrow> MatchOptions \<Rightarrow> Evaluation option" where
  "check_with_options env p cmd heuristics_fallback options =
     from_matches (matches_for_command_with_options env p cmd (Some heuristics_fallback) options)"

definition check :: "exec_env \<Rightarrow> Policy \<Rightarrow> string list \<Rightarrow> (string list \<Rightarrow> Decision) \<Rightarrow> Evaluation option" where
  "check env p cmd heuristics_fallback =
     from_matches (matches_for_command_with_options env p cmd (Some heuristics_fallback) MatchOptions_default)"

definition check_multiple_with_options ::
    "exec_env \<Rightarrow> Policy \<Rightarrow> string list list \<Rightarrow> (string list \<Rightarrow> Decision) \<Rightarrow> MatchOptions \<Rightarrow> Evaluation option" where
  "check_multiple_with_options env p commands heuristics_fallback options =
     from_matches (concat (map (\<lambda>c.
        matches_for_command_with_options env p c (Some heuristics_fallback) options) commands))"

definition check_multiple ::
    "exec_env \<Rightarrow> Policy \<Rightarrow> string list list \<Rightarrow> (string list \<Rightarrow> Decision) \<Rightarrow> Evaluation option" where
  "check_multiple env p commands heuristics_fallback =
     check_multiple_with_options env p commands heuristics_fallback MatchOptions_default"

section \<open>Examples (rule.rs)\<close>

definition resolving :: MatchOptions where
  "resolving = \<lparr>resolve_host_executables = True\<rparr>"

definition render_example :: "exec_env \<Rightarrow> string list \<Rightarrow> string" where
  "render_example env example =
     (case ee_shlex_join env example of Some s \<Rightarrow> s | None \<Rightarrow> ''unable to render example'')"

definition validate_match_examples ::
    "exec_env \<Rightarrow> Policy \<Rightarrow> PrefixRule list \<Rightarrow> string list list \<Rightarrow> Error + unit" where
  "validate_match_examples env p rules examples =
     (let unmatched = map (render_example env)
            (filter (\<lambda>e. matches_for_command_with_options env p e None resolving = []) examples)
      in if unmatched = [] then Ok ()
         else Err (ExampleDidNotMatch (map (rule_debug (ee_str_debug env)) rules) unmatched None))"

fun validate_not_match_examples ::
    "exec_env \<Rightarrow> Policy \<Rightarrow> PrefixRule list \<Rightarrow> string list list \<Rightarrow> Error + unit" where
  "validate_not_match_examples env p rules [] = Ok ()"
| "validate_not_match_examples env p rules (example # examples) =
     (case matches_for_command_with_options env p example None resolving of
        m # _ \<Rightarrow> Err (ExampleDidMatch (match_debug (ee_str_debug env) m) (render_example env example) None)
      | [] \<Rightarrow> validate_not_match_examples env p rules examples)"

section \<open>Lemmas\<close>

definition all_rules :: "Policy \<Rightarrow> PrefixRule list" where
  "all_rules p = index_rules (rules_by_program p)"

definition policy_wf :: "Policy \<Rightarrow> bool" where
  "policy_wf p = index_wf program (rules_by_program p)"

subsection \<open>The index\<close>

lemma keys_multimap_insert: "set (map fst (multimap_insert k v m)) = insert k (set (map fst m))"
  by (induction k v m rule: multimap_insert.induct) auto

lemma rules_multimap_insert: "set (index_rules (multimap_insert k v m)) = insert v (set (index_rules m))"
  by (induction k v m rule: multimap_insert.induct) (auto simp: index_rules_def)

lemma multimap_insert_wf:
  "index_wf prog m \<Longrightarrow> prog v = k \<Longrightarrow> index_wf prog (multimap_insert k v m)"
proof (induction k v m rule: multimap_insert.induct)
  case (2 k v k' vs m)
  then show ?case
    using keys_multimap_insert [of k v m] by (auto simp: index_wf_def list_all_iff)
qed (simp add: index_wf_def)

lemma insert_all_wf:
  "index_wf prog m \<Longrightarrow> list_all (\<lambda>r. prog r = k) rs \<Longrightarrow> index_wf prog (insert_all k rs m)"
  by (induction rs arbitrary: m) (simp_all add: insert_all_def multimap_insert_wf)

lemma rules_insert_all: "set (index_rules (insert_all k rs m)) = set rs \<union> set (index_rules m)"
  by (induction rs arbitrary: m) (auto simp: insert_all_def rules_multimap_insert)

lemma merge_rules_wf:
  "index_wf prog m \<Longrightarrow> list_all (\<lambda>(k, rs). list_all (\<lambda>r. prog r = k) rs) m' \<Longrightarrow>
   index_wf prog (fold (\<lambda>(k, rs) m. insert_all k rs m) m' m)"
  by (induction m' arbitrary: m) (auto simp: insert_all_wf)

lemma rules_merge:
  "set (index_rules (fold (\<lambda>(k, rs) m. insert_all k rs m) m' m)) =
     set (index_rules m') \<union> set (index_rules m)"
  by (induction m' arbitrary: m) (auto simp: rules_insert_all, auto simp: index_rules_def)

lemma merge_overlay_wf: "policy_wf p \<Longrightarrow> policy_wf q \<Longrightarrow> policy_wf (merge_overlay p q)"
  by (simp add: policy_wf_def merge_overlay_def merge_rules_wf index_wf_def [of program "rules_by_program q"])

lemma all_rules_merge: "set (all_rules (merge_overlay p q)) = set (all_rules p) \<union> set (all_rules q)"
  by (auto simp: all_rules_def merge_overlay_def rules_merge)

lemma policy_empty_wf: "policy_wf Policy_empty"
  by (simp add: policy_wf_def Policy_empty_def index_wf_def)

lemma add_prefix_rule_wf: "policy_wf p \<Longrightarrow> add_prefix_rule p pre d = Ok p' \<Longrightarrow> policy_wf p'"
  by (auto simp: add_prefix_rule_def policy_wf_def split: list.splits
      intro!: multimap_insert_wf, simp add: program_def)

subsection \<open>The strictest decision\<close>

lemma max_decision_None: "max_decision ms = None \<longleftrightarrow> ms = []"
  by (cases ms) (auto split: option.splits)

lemma max_decision_Max:
  "ms \<noteq> [] \<Longrightarrow> max_decision ms = Some (Max (match_decision ` set ms))"
proof (induction ms)
  case (Cons m ms)
  show ?case
  proof (cases "ms = []")
    case False
    with Cons show ?thesis by (simp add: image_insert)
  qed simp
qed simp

text \<open>The decisions of the rules that cover a command.\<close>

definition verdicts :: "Policy \<Rightarrow> string list \<Rightarrow> Decision set" where
  "verdicts p cmd = rule_decision ` {r \<in> set (all_rules p). covers r cmd}"

lemma finite_verdicts [simp]: "finite (verdicts p cmd)"
  by (simp add: verdicts_def)

lemma match_exact_rules_verdicts:
  assumes "policy_wf p"
  shows "match_decision ` set (case match_exact_rules p cmd of None \<Rightarrow> [] | Some ms \<Rightarrow> ms) = verdicts p cmd"
proof (cases cmd)
  case Nil
  have "\<not> covers r []" for r using covers_first [of r "[]"] by auto
  with Nil show ?thesis by (simp add: match_exact_rules_def verdicts_def)
next
  case (Cons w ws)
  have e: "(case match_exact_rules p cmd of None \<Rightarrow> [] | Some ms \<Rightarrow> ms) =
      List.map_filter (\<lambda>r. rule_matches r (w # ws))
        (case get_vec w (rules_by_program p) of None \<Rightarrow> [] | Some rs \<Rightarrow> rs)"
    by (simp add: match_exact_rules_def Cons split: option.split)
  have "set (case match_exact_rules p cmd of None \<Rightarrow> [] | Some ms \<Rightarrow> ms) =
      {x. \<exists>r \<in> set (all_rules p). rule_matches r cmd = Some x}"
    unfolding e using prefix_rules.lookup_complete assms by (simp add: policy_wf_def all_rules_def Cons)
  then show ?thesis
    by (force simp: verdicts_def rule_matches_covers image_iff split: if_splits)
qed

lemma matches_default:
  "matches_for_command_with_options env p cmd (Some f) MatchOptions_default =
     (case match_exact_rules p cmd of
        Some (m # ms) \<Rightarrow> m # ms
      | _ \<Rightarrow> [HeuristicsRuleMatch cmd (f cmd)])"
  by (auto simp: matches_for_command_with_options_def MatchOptions_default_def Let_def
      split: option.splits list.splits)

lemma check_verdicts:
  assumes "policy_wf p"
  shows "\<exists>ev. check env p cmd f = Some ev \<and>
           decision ev = (if verdicts p cmd = {} then f cmd else Max (verdicts p cmd))"
proof -
  note v = match_exact_rules_verdicts [OF assms, of cmd]
  show ?thesis
  proof (cases "match_exact_rules p cmd")
    case (Some ms)
    with v show ?thesis
      by (cases ms) (auto simp: check_def matches_default from_matches_def max_decision_Max
          simp del: max_decision.simps(2) image_insert split: option.splits)
  qed (use v in \<open>simp add: check_def matches_default from_matches_def\<close>)
qed

lemma with_options_nonempty: "matches_for_command_with_options env p cmd (Some f) options \<noteq> []"
  by (auto simp: matches_for_command_with_options_def Let_def split: list.splits option.splits)

subsection \<open>Host executables\<close>

lemma match_exact_unresolved:
  "match_exact_rules p cmd = Some ms \<Longrightarrow> m \<in> set ms \<Longrightarrow> resolved_program m = None"
  by (auto simp: match_exact_rules_def map_filter_def rule_matches_covers
      split: list.splits option.splits if_splits)

lemma get_vec_rules: "get_vec k (rules_by_program p) = Some rs \<Longrightarrow> r \<in> set rs \<Longrightarrow> r \<in> set (all_rules p)"
  by (force simp: get_vec_def all_rules_def index_rules_def dest: map_of_SomeD)

lemma host_match_cases:
  assumes "PrefixRuleMatch mp d (Some prog) j \<in> set (match_host_executable_rules env p cmd)"
  shows "\<exists>basename r. file_name prog = Some basename \<and>
           from_absolute_path (ee_home_dir env) (ee_current_dir env) (hd cmd) = Ok prog \<and>
           r \<in> set (all_rules p) \<and> covers r (basename # tl cmd) \<and> d = rule_decision r \<and>
           (\<forall>paths. host_executables_by_name p basename = Some paths \<longrightarrow> prog \<in> set paths)"
proof -
  note def = match_host_executable_rules_def
  from assms obtain w args where c: "cmd = w # args" by (cases cmd) (auto simp: def)
  from assms c obtain q where q: "from_absolute_path (ee_home_dir env) (ee_current_dir env) w = Ok q"
    by (cases "from_absolute_path (ee_home_dir env) (ee_current_dir env) w") (auto simp: def)
  from assms c q obtain b where b: "executable_path_lookup_key q = Some b"
    by (cases "executable_path_lookup_key q") (auto simp: def)
  from assms c q b obtain rs where rs: "get_vec b (rules_by_program p) = Some rs"
    by (cases "get_vec b (rules_by_program p)") (auto simp: def)
  have g: "\<forall>paths. host_executables_by_name p b = Some paths \<longrightarrow> q \<in> set paths"
    using assms c q b rs by (auto simp: def list_ex_iff split: if_splits)
  have "PrefixRuleMatch mp d (Some prog) j \<in>
      (\<lambda>m. with_resolved_program m q) ` set (List.map_filter (\<lambda>r. rule_matches r (b # args)) rs)"
    using assms c q b rs by (auto simp: def split: if_splits option.splits)
  then obtain r where r: "r \<in> set rs" "covers r (b # args)" "d = rule_decision r" "prog = q"
    by (auto simp: map_filter_def rule_matches_covers split: if_splits)
  have "file_name prog = Some b"
    using b r(4) by (auto simp: executable_path_lookup_key_def executable_lookup_key_def)
  with c q g r get_vec_rules [OF rs r(1)] show ?thesis by auto
qed

subsection \<open>Network domains\<close>

text \<open>The last rule on a host that is not a prompt.\<close>

definition last_word :: "NetworkRule list \<Rightarrow> string \<Rightarrow> Decision option" where
  "last_word rs h =
     (let own = filter (\<lambda>r. host r = h \<and> net_decision r \<noteq> Prompt) rs
      in if own = [] then None else Some (net_decision (last own)))"

definition domains_ok :: "NetworkRule list \<Rightarrow> string list \<times> string list \<Rightarrow> bool" where
  "domains_ok rs acc \<longleftrightarrow>
     distinct (fst acc) \<and> distinct (snd acc) \<and>
     (\<forall>h. (h \<in> set (fst acc) \<longleftrightarrow> last_word rs h = Some Allow) \<and>
          (h \<in> set (snd acc) \<longleftrightarrow> last_word rs h = Some Forbidden))"

lemma last_word_snoc:
  "last_word (rs @ [r]) h =
     (if host r = h \<and> net_decision r \<noteq> Prompt then Some (net_decision r) else last_word rs h)"
  by (simp add: last_word_def Let_def)

lemma compile_step_ok: "domains_ok rs acc \<Longrightarrow> domains_ok (rs @ [r]) (compile_step r acc)"
  by (cases "net_decision r"; cases acc)
    (auto simp: domains_ok_def compile_step_def upsert_domain_def last_word_snoc)

lemma compile_ok: "domains_ok rs (fold compile_step rs ([], []))"
proof (induction rs rule: rev_induct)
  case Nil
  show ?case by (simp add: domains_ok_def last_word_def)
qed (simp add: compile_step_ok)

section \<open>A concrete policy\<close>

text \<open>A policy on \<open>git\<close> and an environment, for concrete runs.\<close>

definition plain_env :: exec_env where
  "plain_env =
     \<lparr>ee_str_debug = id, ee_shlex_split = (\<lambda>s. Some (filter (\<lambda>t. t \<noteq> []) (split_char (CHR '' '') s))),
      ee_shlex_join = (\<lambda>ts. Some (str_join '' '' ts)), ee_home_dir = None, ee_current_dir = Ok ''/w''\<rparr>"

definition rule_for :: "string list \<Rightarrow> Decision \<Rightarrow> PrefixRule" where
  "rule_for pre d =
     \<lparr>pattern = \<lparr>first_token = hd pre, rest_tokens = map Single (tl pre)\<rparr>,
      rule_decision = d, justification = None\<rparr>"

definition git_policy :: Policy where
  "git_policy =
     \<lparr>rules_by_program = [(''git'', [rule_for [''git''] Allow, rule_for [''git'', ''push''] Forbidden])],
      network_rules = [], host_executables_by_name = [''git'' \<mapsto> [[RootDir, Normal ''bin'', Normal ''git'']]]\<rparr>"

definition prompt_policy :: Policy where
  "prompt_policy =
     \<lparr>rules_by_program = [(''git'', [rule_for [''git''] Prompt])],
      network_rules = [], host_executables_by_name = Map.empty\<rparr>"

lemma concrete_policies_wf: "policy_wf git_policy" "policy_wf prompt_policy"
  by code_simp+

section \<open>Properties\<close>

text \<open>
  C9. The engine takes the strictest verdict. For a policy whose index is well formed, checking a
  command never panics, and its decision is the greatest among all the rules of the policy that
  cover the command, wherever they are, in the order allow, prompt, forbidden; only when no rule
  covers it is it the fallback's.
\<close>

theorem check_strictest:
  assumes "policy_wf p"
  shows "\<exists>ev. check env p cmd f = Some ev \<and>
           decision ev =
             (let ds = rule_decision ` {r \<in> set (all_rules p). covers r cmd}
              in if ds = {} then f cmd else Max ds)"
  using check_verdicts [OF assms, of env cmd f] unfolding verdicts_def Let_def .

theorem check_strictest_witness:
  "\<exists>ev. check plain_env git_policy [''git'', ''push'', ''-f''] (\<lambda>_. Prompt) = Some ev \<and> decision ev = Forbidden"
proof -
  let ?c = "[''git'', ''push'', ''-f'']"
  have "rule_decision ` {r \<in> set (all_rules git_policy). covers r ?c} =
      set (map rule_decision (filter (\<lambda>r. covers r ?c) (all_rules git_policy)))" by auto
  also have "map rule_decision (filter (\<lambda>r. covers r ?c) (all_rules git_policy)) = [Allow, Forbidden]"
    by code_simp
  finally have d: "rule_decision ` {r \<in> set (all_rules git_policy). covers r ?c} = {Allow, Forbidden}" by simp
  have m: "Max {Allow, Forbidden} = Forbidden" by code_simp
  from check_strictest [OF concrete_policies_wf(1), of plain_env ?c "\<lambda>_. Prompt"]
  show ?thesis unfolding d Let_def m by simp
qed

text \<open>
  C27. An overlay can tighten a policy and cannot loosen it: a command some rule of the policy
  covers gets, under the merged policy, the stricter of the two policies' decisions, or the
  policy's own when no rule of the overlay covers it.
\<close>

theorem merge_overlay_only_tightens:
  assumes "policy_wf p" and "policy_wf q" and "\<exists>r \<in> set (all_rules p). covers r cmd"
  shows "\<exists>ev evp evq. check env (merge_overlay p q) cmd f = Some ev \<and>
           check env p cmd f = Some evp \<and> check env q cmd f = Some evq \<and>
           decision evp \<le> decision ev \<and>
           decision ev = (if \<exists>r \<in> set (all_rules q). covers r cmd then max (decision evp) (decision evq)
                          else decision evp)"
proof -
  have u: "verdicts (merge_overlay p q) cmd = verdicts p cmd \<union> verdicts q cmd"
    by (auto simp: verdicts_def all_rules_merge)
  have ne: "verdicts p cmd \<noteq> {}" using assms(3) by (auto simp: verdicts_def)
  have q: "(\<exists>r \<in> set (all_rules q). covers r cmd) \<longleftrightarrow> verdicts q cmd \<noteq> {}" by (auto simp: verdicts_def)
  obtain ev evp evq where "check env (merge_overlay p q) cmd f = Some ev" "check env p cmd f = Some evp"
      "check env q cmd f = Some evq"
    and d: "decision ev = Max (verdicts p cmd \<union> verdicts q cmd)" "decision evp = Max (verdicts p cmd)"
      "decision evq = (if verdicts q cmd = {} then f cmd else Max (verdicts q cmd))"
    using check_verdicts [OF merge_overlay_wf [OF assms(1,2)], of env cmd f]
      check_verdicts [OF assms(1), of env cmd f] check_verdicts [OF assms(2), of env cmd f] ne
    by (auto simp: u)
  then show ?thesis using ne unfolding q by (auto simp: Max_Un)
qed

theorem merge_overlay_only_tightens_witness:
  "\<exists>ev evp. check plain_env (merge_overlay git_policy prompt_policy) [''git'', ''status''] (\<lambda>_. Forbidden) = Some ev \<and>
     check plain_env git_policy [''git'', ''status''] (\<lambda>_. Forbidden) = Some evp \<and> decision evp \<le> decision ev"
proof -
  have "list_ex (\<lambda>r. covers r [''git'', ''status'']) (all_rules git_policy)" by code_simp
  then have "\<exists>r \<in> set (all_rules git_policy). covers r [''git'', ''status'']" by (simp add: list_ex_iff)
  from merge_overlay_only_tightens [OF concrete_policies_wf this, of plain_env "\<lambda>_. Forbidden"]
  show ?thesis by blast
qed

text \<open>
  When a policy lists the paths of an executable, only these paths stand for it. A match that
  reports a resolved program comes from a rule of the policy that covers the command under the
  program's base name, the program's path is on the list of that name if there is one, and such a
  match is only looked for when it was asked for and no rule covers the command as written.
\<close>

theorem host_executable_gate:
  assumes "PrefixRuleMatch mp d (Some prog) j \<in>
             set (matches_for_command_with_options env p cmd f options)"
  shows "\<exists>basename r. file_name prog = Some basename \<and>
           from_absolute_path (ee_home_dir env) (ee_current_dir env) (hd cmd) = Ok prog \<and>
           r \<in> set (all_rules p) \<and> covers r (basename # tl cmd) \<and> d = rule_decision r \<and>
           (\<forall>paths. host_executables_by_name p basename = Some paths \<longrightarrow> prog \<in> set paths) \<and>
           (policy_wf p \<longrightarrow> \<not> (\<exists>r \<in> set (all_rules p). covers r cmd)) \<and>
           resolve_host_executables options"
proof -
  have r: "resolve_host_executables options"
    and h: "PrefixRuleMatch mp d (Some prog) j \<in> set (match_host_executable_rules env p cmd)"
    and e: "match_exact_rules p cmd \<in> {None, Some []}"
    using assms match_exact_unresolved [of p cmd]
    by (fastforce simp: matches_for_command_with_options_def Let_def
        split: option.splits list.splits if_splits bind_splits)+
  have "policy_wf p \<longrightarrow> \<not> (\<exists>r \<in> set (all_rules p). covers r cmd)"
    using match_exact_rules_verdicts [of p cmd] e by (auto simp: verdicts_def)
  with r host_match_cases [OF h] show ?thesis by blast
qed

theorem host_executable_gate_witness:
  "PrefixRuleMatch [''git''] Allow (Some [RootDir, Normal ''bin'', Normal ''git'']) None \<in>
     set (matches_for_command_with_options plain_env git_policy [''/bin/git'', ''log''] None resolving) \<and>
   \<not> (\<exists>r \<in> set (all_rules git_policy). covers r [''/bin/git'', ''log''])"
proof -
  have m: "matches_for_command_with_options plain_env git_policy [''/bin/git'', ''log''] None resolving =
      [PrefixRuleMatch [''git''] Allow (Some [RootDir, Normal ''bin'', Normal ''git'']) None]" by code_simp
  then have i: "PrefixRuleMatch [''git''] Allow (Some [RootDir, Normal ''bin'', Normal ''git'']) None \<in>
     set (matches_for_command_with_options plain_env git_policy [''/bin/git'', ''log''] None resolving)"
    by (simp only: m list.set insert_iff simp_thms)
  from host_executable_gate [OF i] concrete_policies_wf(1) i show ?thesis by blast
qed

text \<open>
  The base name fallback is not limited to absolute program paths: a relative program is made
  absolute against the working directory first, so a script of the working directory passes for
  the program of that name.
\<close>

lemma relative_program_resolves:
  "matches_for_command_with_options plain_env prompt_policy [''./git'', ''log''] None resolving =
     [PrefixRuleMatch [''git''] Prompt (Some [RootDir, Normal ''w'', Normal ''git'']) None]"
  by code_simp

text \<open>
  The compiled domain lists follow the last word on each host: a host is on the allow list
  exactly when its last rule other than a prompt allows it, on the deny list exactly when that
  rule forbids it, and no host is listed twice.
\<close>

theorem compiled_domains_last_word:
  "case compiled_network_domains p of (allowed, denied) \<Rightarrow>
     distinct allowed \<and> distinct denied \<and>
     set allowed = {h. last_word (network_rules p) h = Some Allow} \<and>
     set denied = {h. last_word (network_rules p) h = Some Forbidden}"
proof -
  obtain allowed denied where c: "compiled_network_domains p = (allowed, denied)" by fastforce
  with compile_ok [of "network_rules p"] have "domains_ok (network_rules p) (allowed, denied)"
    by (simp add: compiled_network_domains_def)
  then show ?thesis unfolding c by (simp add: domains_ok_def set_eq_iff)
qed

end
