(* ===== verification/Exec_Parser.thy ===== *)
theory Exec_Parser
  imports Exec_Policy
begin

text \<open>
  Policy files: \<open>execpolicy/src/parser.rs\<close>, \<open>amend.rs\<close> and \<open>execpolicycheck.rs\<close>.

  A policy file is a Starlark program. The evaluator is a library: \<open>st_run\<close> gives a syntax
  error, or the calls of the three built-in functions that the program makes as long as they
  succeed (they all return \<open>None\<close>) and the error, if any, it ends in by itself.
  \<open>st_wrap\<close> is the evaluator's wrapping of an error of a built-in function.
\<close>

section \<open>parser.rs\<close>

datatype "value" = VStr string | VList "value list" | VOther string

fun unpack_str :: "value \<Rightarrow> string option" where
  "unpack_str (VStr s) = Some s"
| "unpack_str _ = None"

fun get_type :: "value \<Rightarrow> string" where
  "get_type (VStr _) = ''string''"
| "get_type (VList _) = ''list''"
| "get_type (VOther t) = t"

datatype call =
  PrefixRuleCall "value list" "string option" "value list option" "value list option"
    "string option" "FileSpan option"
| NetworkRuleCall string string string "string option"
| HostExecutableCall string "value list"

record starlark =
  st_run :: "string \<Rightarrow> string \<Rightarrow> StarlarkError + call list \<times> StarlarkError option"
  st_wrap :: "Error \<Rightarrow> StarlarkError"

record PendingExampleValidation =
  pv_rules :: "PrefixRule list"
  pv_matches :: "string list list"
  pv_not_matches :: "string list list"
  pv_location :: "ErrorLocation option"

record PolicyBuilder = Policy +
  pending_example_validations :: "PendingExampleValidation list"

definition PolicyBuilder_new :: PolicyBuilder where
  "PolicyBuilder_new =
     \<lparr>rules_by_program = [], network_rules = [], host_executables_by_name = Map.empty,
      pending_example_validations = []\<rparr>"

definition add_rule :: "PrefixRule \<Rightarrow> PolicyBuilder \<Rightarrow> PolicyBuilder" where
  "add_rule r b = b\<lparr>rules_by_program := multimap_insert (program r) r (rules_by_program b)\<rparr>"

definition builder_add_network_rule :: "NetworkRule \<Rightarrow> PolicyBuilder \<Rightarrow> PolicyBuilder" where
  "builder_add_network_rule r b = b\<lparr>network_rules := network_rules b @ [r]\<rparr>"

definition add_host_executable :: "string \<Rightarrow> path list \<Rightarrow> PolicyBuilder \<Rightarrow> PolicyBuilder" where
  "add_host_executable name paths b =
     b\<lparr>host_executables_by_name := (host_executables_by_name b)(name \<mapsto> paths)\<rparr>"

definition add_pending_example_validation ::
    "PrefixRule list \<Rightarrow> string list list \<Rightarrow> string list list \<Rightarrow> ErrorLocation option \<Rightarrow> PolicyBuilder
       \<Rightarrow> PolicyBuilder" where
  "add_pending_example_validation rules ms nms loc b =
     b\<lparr>pending_example_validations := pending_example_validations b @
         [\<lparr>pv_rules = rules, pv_matches = ms, pv_not_matches = nms, pv_location = loc\<rparr>]\<rparr>"

definition build :: "PolicyBuilder \<Rightarrow> Policy" where
  "build b = \<lparr>rules_by_program = rules_by_program b, network_rules = network_rules b,
              host_executables_by_name = host_executables_by_name b\<rparr>"

definition attach_validation_location :: "Error \<Rightarrow> ErrorLocation option \<Rightarrow> Error" where
  "attach_validation_location e loc = (case loc of Some l \<Rightarrow> with_location e l | None \<Rightarrow> e)"

definition map_err :: "('e \<Rightarrow> 'f) \<Rightarrow> 'e + 'a \<Rightarrow> 'f + 'a" where
  "map_err f r = (case r of Inl e \<Rightarrow> Err (f e) | Inr x \<Rightarrow> Ok x)"

text \<open>The policy a group of examples is checked against: its own rules only.\<close>

definition validation_policy :: "PolicyBuilder \<Rightarrow> PendingExampleValidation \<Rightarrow> Policy" where
  "validation_policy b v =
     \<lparr>rules_by_program = fold (\<lambda>r. multimap_insert (program r) r) (pv_rules v) [],
      network_rules = [], host_executables_by_name = host_executables_by_name b\<rparr>"

fun validate_each :: "exec_env \<Rightarrow> PolicyBuilder \<Rightarrow> PendingExampleValidation list \<Rightarrow> Error + unit" where
  "validate_each env b [] = Ok ()"
| "validate_each env b (v # vs) =
     (let p = validation_policy b v; attach = (\<lambda>e. attach_validation_location e (pv_location v)) in
      rbind (map_err attach (validate_not_match_examples env p (pv_rules v) (pv_not_matches v)))
        (\<lambda>_. rbind (map_err attach (validate_match_examples env p (pv_rules v) (pv_matches v)))
          (\<lambda>_. validate_each env b vs)))"

definition validate_pending_examples_from :: "exec_env \<Rightarrow> PolicyBuilder \<Rightarrow> nat \<Rightarrow> Error + unit" where
  "validate_pending_examples_from env b start =
     validate_each env b (drop start (pending_example_validations b))"

definition string_items :: "(string \<Rightarrow> Error) \<Rightarrow> value list \<Rightarrow> Error + string list" where
  "string_items err vs =
     collect_result (map (\<lambda>v. case unpack_str v of Some s \<Rightarrow> Ok s | None \<Rightarrow> Err (err (get_type v))) vs)"

fun parse_pattern_token :: "value \<Rightarrow> Error + PatternToken" where
  "parse_pattern_token (VStr s) = Ok (Single s)"
| "parse_pattern_token (VList vs) =
     rbind (string_items (\<lambda>t. InvalidPattern (''pattern alternative must be a string (got '' @ t @ '')'')) vs)
       (\<lambda>toks. case toks of
                 [] \<Rightarrow> Err (InvalidPattern ''pattern alternatives cannot be empty'')
               | [single] \<Rightarrow> Ok (Single single)
               | _ \<Rightarrow> Ok (Alts toks))"
| "parse_pattern_token (VOther t) =
     Err (InvalidPattern (''pattern element must be a string or list of strings (got '' @ t @ '')''))"

definition parse_pattern :: "value list \<Rightarrow> Error + PatternToken list" where
  "parse_pattern vs =
     rbind (collect_result (map parse_pattern_token vs))
       (\<lambda>toks. if toks = [] then Err (InvalidPattern ''pattern cannot be empty'') else Ok toks)"

definition parse_string_example :: "exec_env \<Rightarrow> string \<Rightarrow> Error + string list" where
  "parse_string_example env raw =
     (case ee_shlex_split env raw of
        None \<Rightarrow> Err (InvalidExample ''example string has invalid shell syntax'')
      | Some toks \<Rightarrow>
          if toks = [] then Err (InvalidExample ''example cannot be an empty string'') else Ok toks)"

definition parse_list_example :: "value list \<Rightarrow> Error + string list" where
  "parse_list_example vs =
     rbind (string_items (\<lambda>t. InvalidExample (''example tokens must be strings (got '' @ t @ '')'')) vs)
       (\<lambda>toks. if toks = [] then Err (InvalidExample ''example cannot be an empty list'') else Ok toks)"

fun parse_example :: "exec_env \<Rightarrow> value \<Rightarrow> Error + string list" where
  "parse_example env (VStr raw) = parse_string_example env raw"
| "parse_example env (VList vs) = parse_list_example vs"
| "parse_example env (VOther t) =
     Err (InvalidExample (''example must be a string or list of strings (got '' @ t @ '')''))"

definition parse_examples :: "exec_env \<Rightarrow> value list \<Rightarrow> Error + string list list" where
  "parse_examples env vs = collect_result (map (parse_example env) vs)"

definition parse_literal_absolute_path :: "exec_env \<Rightarrow> string \<Rightarrow> Error + path" where
  "parse_literal_absolute_path env raw =
     (if \<not> is_absolute raw
      then Err (InvalidRule (''host_executable paths must be absolute (got '' @ raw @ '')''))
      else map_err (\<lambda>e. InvalidRule (''invalid absolute path `'' @ raw @ ''`: '' @ e))
             (from_absolute_path (ee_home_dir env) (ee_current_dir env) raw))"

definition validate_host_executable_name :: "string \<Rightarrow> Error + unit" where
  "validate_host_executable_name name =
     (if name = [] then Err (InvalidRule ''host_executable name cannot be empty'')
      else if length (components name) \<noteq> 1 \<or> file_name (components name) \<noteq> Some name
      then Err (InvalidRule (''host_executable name must be a bare executable name (got '' @ name @ '')''))
      else Ok ())"

definition parse_network_rule_decision :: "string \<Rightarrow> Error + Decision" where
  "parse_network_rule_decision raw = (if raw = ''deny'' then Ok Forbidden else Decision_parse raw)"

definition parse_justification :: "string option \<Rightarrow> Error + string option" where
  "parse_justification j =
     (case j of
        Some raw \<Rightarrow> if trim raw = [] then Err (InvalidRule ''justification cannot be empty'') else Ok (Some raw)
      | None \<Rightarrow> Ok None)"

definition prefix_rule ::
    "exec_env \<Rightarrow> value list \<Rightarrow> string option \<Rightarrow> value list option \<Rightarrow> value list option \<Rightarrow> string option
       \<Rightarrow> FileSpan option \<Rightarrow> PolicyBuilder \<Rightarrow> Error + PolicyBuilder" where
  "prefix_rule env pat dec mat not_mat just span b =
     rbind (case dec of Some raw \<Rightarrow> Decision_parse raw | None \<Rightarrow> Ok Allow) (\<lambda>d.
     rbind (parse_justification just) (\<lambda>j.
     rbind (parse_pattern pat) (\<lambda>toks.
     rbind (case mat of Some vs \<Rightarrow> parse_examples env vs | None \<Rightarrow> Ok []) (\<lambda>ms.
     rbind (case not_mat of Some vs \<Rightarrow> parse_examples env vs | None \<Rightarrow> Ok []) (\<lambda>nms.
       case toks of
         [] \<Rightarrow> Err (InvalidPattern ''pattern cannot be empty'')
       | head # rest \<Rightarrow>
           let rules = map (\<lambda>h. \<lparr>pattern = \<lparr>first_token = h, rest_tokens = rest\<rparr>,
                                 rule_decision = d, justification = j\<rparr>) (token_alternatives head);
               loc = map_option error_location_from_file_span span
           in Ok (fold add_rule rules (add_pending_example_validation rules ms nms loc b)))))))"

definition network_rule ::
    "string \<Rightarrow> string \<Rightarrow> string \<Rightarrow> string option \<Rightarrow> PolicyBuilder \<Rightarrow> Error + PolicyBuilder" where
  "network_rule raw_host prot dec just b =
     rbind (NetworkRuleProtocol_parse prot) (\<lambda>pr.
     rbind (parse_network_rule_decision dec) (\<lambda>d.
     rbind (parse_justification just) (\<lambda>j.
     rbind (normalize_network_rule_host raw_host) (\<lambda>h.
       Ok (builder_add_network_rule
             \<lparr>host = h, protocol = pr, net_decision = d, net_justification = j\<rparr> b)))))"

fun parse_host_paths :: "exec_env \<Rightarrow> string \<Rightarrow> value list \<Rightarrow> path list \<Rightarrow> Error + path list" where
  "parse_host_paths env name [] parsed = Ok parsed"
| "parse_host_paths env name (v # vs) parsed =
     (case unpack_str v of
        None \<Rightarrow> Err (InvalidRule (''host_executable paths must be strings (got '' @ get_type v @ '')''))
      | Some raw \<Rightarrow>
          rbind (parse_literal_absolute_path env raw)
            (\<lambda>p. if executable_path_lookup_key p \<noteq> Some (executable_lookup_key name)
                 then Err (InvalidRule (''host_executable path `'' @ raw @ ''` must have basename `'' @ name @ ''`''))
                 else parse_host_paths env name vs (if p \<in> set parsed then parsed else parsed @ [p])))"

definition host_executable :: "exec_env \<Rightarrow> string \<Rightarrow> value list \<Rightarrow> PolicyBuilder \<Rightarrow> Error + PolicyBuilder" where
  "host_executable env name paths b =
     rbind (validate_host_executable_name name)
       (\<lambda>_. rbind (parse_host_paths env name paths [])
         (\<lambda>parsed. Ok (add_host_executable (executable_lookup_key name) parsed b)))"

fun run_call :: "exec_env \<Rightarrow> call \<Rightarrow> PolicyBuilder \<Rightarrow> Error + PolicyBuilder" where
  "run_call env (PrefixRuleCall pat dec mat not_mat just span) b =
     prefix_rule env pat dec mat not_mat just span b"
| "run_call env (NetworkRuleCall h prot dec just) b = network_rule h prot dec just b"
| "run_call env (HostExecutableCall name paths) b = host_executable env name paths b"

text \<open>The evaluation of a module. A call that fails ends it; what earlier calls added stays.\<close>

fun eval_module ::
    "exec_env \<Rightarrow> starlark \<Rightarrow> call list \<Rightarrow> StarlarkError option \<Rightarrow> PolicyBuilder \<Rightarrow> (Error + unit) \<times> PolicyBuilder" where
  "eval_module env st [] fin b = (case fin of None \<Rightarrow> Ok () | Some e \<Rightarrow> Err (Starlark e), b)"
| "eval_module env st (c # cs) fin b =
     (case run_call env c b of
        Inl e \<Rightarrow> (Err (Starlark (st_wrap st e)), b)
      | Inr b1 \<Rightarrow> eval_module env st cs fin b1)"

definition parse_policy ::
    "exec_env \<Rightarrow> starlark \<Rightarrow> string \<Rightarrow> string \<Rightarrow> PolicyBuilder \<Rightarrow> (Error + unit) \<times> PolicyBuilder" where
  "parse_policy env st policy_identifier policy_file_contents b =
     (let pending_validation_count = length (pending_example_validations b) in
      case st_run st policy_identifier policy_file_contents of
        Inl e \<Rightarrow> (Err (Starlark e), b)
      | Inr (calls, fin) \<Rightarrow>
          (case eval_module env st calls fin b of
             (Inl e, b1) \<Rightarrow> (Err e, b1)
           | (Inr _, b1) \<Rightarrow> (validate_pending_examples_from env b1 pending_validation_count, b1)))"

section \<open>execpolicycheck.rs\<close>

text \<open>The context of a failure: reading or parsing a file.\<close>

datatype load_error = ReadFailed string | ParseFailed string Error

fun load_loop ::
    "exec_env \<Rightarrow> starlark \<Rightarrow> (string \<Rightarrow> string option) \<Rightarrow> string list \<Rightarrow> PolicyBuilder \<Rightarrow> load_error + Policy" where
  "load_loop env st read_file [] b = Ok (build b)"
| "load_loop env st read_file (path # paths) b =
     (case read_file path of
        None \<Rightarrow> Err (ReadFailed path)
      | Some contents \<Rightarrow>
          (case parse_policy env st path contents b of
             (Inl e, _) \<Rightarrow> Err (ParseFailed path e)
           | (Inr _, b1) \<Rightarrow> load_loop env st read_file paths b1))"

definition load_policies ::
    "exec_env \<Rightarrow> starlark \<Rightarrow> (string \<Rightarrow> string option) \<Rightarrow> string list \<Rightarrow> load_error + Policy" where
  "load_policies env st read_file policy_paths = load_loop env st read_file policy_paths PolicyBuilder_new"

fun decision_json :: "Decision \<Rightarrow> json" where
  "decision_json Allow = JStr ''allow''"
| "decision_json Prompt = JStr ''prompt''"
| "decision_json Forbidden = JStr ''forbidden''"

definition skip_none :: "string \<Rightarrow> ('a \<Rightarrow> json) \<Rightarrow> 'a option \<Rightarrow> (string \<times> json) list" where
  "skip_none k f x = (case x of None \<Rightarrow> [] | Some y \<Rightarrow> [(k, f y)])"

fun match_json :: "RuleMatch \<Rightarrow> json" where
  "match_json (PrefixRuleMatch mp d prog j) =
     JObj [(''prefixRuleMatch'', JObj
       ([(''matchedPrefix'', JArr (map JStr mp)), (''decision'', decision_json d)]
        @ skip_none ''resolvedProgram'' (\<lambda>p. JStr (path_str p)) prog
        @ skip_none ''justification'' JStr j))]"
| "match_json (HeuristicsRuleMatch cmd d) =
     JObj [(''heuristicsRuleMatch'', JObj
       [(''command'', JArr (map JStr cmd)), (''decision'', decision_json d)])]"

definition format_matches :: "RuleMatch list \<Rightarrow> json" where
  "format_matches ms =
     JObj ((''matchedRules'', JArr (map match_json ms)) # skip_none ''decision'' decision_json (max_decision ms))"

definition run_check ::
    "exec_env \<Rightarrow> starlark \<Rightarrow> (string \<Rightarrow> string option) \<Rightarrow> string list \<Rightarrow> bool \<Rightarrow> string list \<Rightarrow> load_error + json" where
  "run_check env st read_file rules resolve cmd =
     rbind (load_policies env st read_file rules)
       (\<lambda>p. Ok (format_matches
              (matches_for_command_with_options env p cmd None \<lparr>resolve_host_executables = resolve\<rparr>)))"

section \<open>amend.rs\<close>

text \<open>
  The answers of the operating system to one call: \<open>None\<close> is success. A write that fails may
  have written a part. \<open>am_json\<close> is \<open>serde_json::to_string\<close> on a string.
\<close>

datatype AmendError =
  EmptyPrefix | InvalidNetworkRule string | MissingParent string | CreatePolicyDir string string
| SerializePrefix string | SerializeNetworkRule string | OpenPolicyFile string string
| WritePolicyFile string string | LockPolicyFile string string | SeekPolicyFile string string
| ReadPolicyFile string string

datatype mkdir_result = Created | AlreadyExists | MkdirFailed string

record amend_env =
  am_parent :: "string \<Rightarrow> string option"
  am_create_dir :: "string \<Rightarrow> mkdir_result"
  am_open :: "string option"
  am_lock :: "string option"
  am_seek :: "string option"
  am_read :: "string option"
  am_write :: "string \<Rightarrow> (nat \<times> string) option"
  am_json :: "string \<Rightarrow> string + string"
  am_str_debug :: "string \<Rightarrow> string"

type_synonym files = "string \<rightharpoonup> string"

definition contents_of :: "files \<Rightarrow> string \<Rightarrow> string" where
  "contents_of fs p = (case fs p of None \<Rightarrow> [] | Some c \<Rightarrow> c)"

definition write_all :: "amend_env \<Rightarrow> string \<Rightarrow> string \<Rightarrow> files \<Rightarrow> (AmendError + unit) \<times> files" where
  "write_all env path bytes fs =
     (case am_write env bytes of
        None \<Rightarrow> (Ok (), fs(path \<mapsto> contents_of fs path @ bytes))
      | Some (n, e) \<Rightarrow> (Err (WritePolicyFile path e), fs(path \<mapsto> contents_of fs path @ take n bytes)))"

definition append_locked_line :: "amend_env \<Rightarrow> string \<Rightarrow> string \<Rightarrow> files \<Rightarrow> (AmendError + unit) \<times> files" where
  "append_locked_line env path rule_line fs =
     (case am_open env of Some e \<Rightarrow> (Err (OpenPolicyFile path e), fs) | None \<Rightarrow>
      let fs1 = fs(path \<mapsto> contents_of fs path); contents = contents_of fs path in
      case am_lock env of Some e \<Rightarrow> (Err (LockPolicyFile path e), fs1) | None \<Rightarrow>
      case am_seek env of Some e \<Rightarrow> (Err (SeekPolicyFile path e), fs1) | None \<Rightarrow>
      case am_read env of Some e \<Rightarrow> (Err (ReadPolicyFile path e), fs1) | None \<Rightarrow>
      if list_ex (\<lambda>existing. existing = rule_line) (str_lines contents) then (Ok (), fs1)
      else
        (case (if contents \<noteq> [] \<and> \<not> ends_with contents nl then write_all env path nl fs1 else (Ok (), fs1)) of
           (Inl e, fs2) \<Rightarrow> (Err e, fs2)
         | (Inr _, fs2) \<Rightarrow> write_all env path (rule_line @ nl) fs2))"

definition append_rule_line :: "amend_env \<Rightarrow> string \<Rightarrow> string \<Rightarrow> files \<Rightarrow> (AmendError + unit) \<times> files" where
  "append_rule_line env path rl fs =
     (case am_parent env path of
        None \<Rightarrow> (Err (MissingParent path), fs)
      | Some dir \<Rightarrow>
          (case am_create_dir env dir of
             MkdirFailed e \<Rightarrow> (Err (CreatePolicyDir dir e), fs)
           | _ \<Rightarrow> append_locked_line env path rl fs))"

definition quoted :: "string \<Rightarrow> string" where
  "quoted s = [CHR 0x22] @ s @ [CHR 0x22]"

definition allow_rule_text :: "string list \<Rightarrow> string" where
  "allow_rule_text toks =
     ''prefix_rule(pattern='' @ ''['' @ str_join '', '' toks @ '']'' @ '', decision='' @ quoted ''allow'' @ '')''"

definition blocking_append_allow_prefix_rule ::
    "amend_env \<Rightarrow> string \<Rightarrow> string list \<Rightarrow> files \<Rightarrow> (AmendError + unit) \<times> files" where
  "blocking_append_allow_prefix_rule env path pre fs =
     (if pre = [] then (Err EmptyPrefix, fs)
      else
        (case collect_result (map (am_json env) pre) of
           Inl e \<Rightarrow> (Err (SerializePrefix e), fs)
         | Inr toks \<Rightarrow> append_rule_line env path (allow_rule_text toks) fs))"

fun error_message :: "(string \<Rightarrow> string) \<Rightarrow> Error \<Rightarrow> string" where
  "error_message d (InvalidRule m) = ''invalid rule: '' @ m"
| "error_message d (InvalidDecision m) = ''invalid decision: '' @ m"
| "error_message d (InvalidPattern m) = ''invalid pattern element: '' @ m"
| "error_message d (InvalidExample m) = ''invalid example: '' @ m"
| "error_message d (Starlark e) = ''starlark error: '' @ se_display e"
| "error_message d (ExampleDidMatch r x _) = ''expected example to not match rule `'' @ r @ ''`: '' @ x"
| "error_message d (ExampleDidNotMatch rs xs _) =
     ''expected every example to match at least one rule. rules: '' @ list_debug d rs
     @ ''; unmatched examples: '' @ list_debug d xs"

fun policy_decision_string :: "Decision \<Rightarrow> string" where
  "policy_decision_string Allow = ''allow''"
| "policy_decision_string Prompt = ''prompt''"
| "policy_decision_string Forbidden = ''deny''"

definition blocking_append_network_rule ::
    "amend_env \<Rightarrow> string \<Rightarrow> string \<Rightarrow> NetworkRuleProtocol \<Rightarrow> Decision \<Rightarrow> string option \<Rightarrow> files
       \<Rightarrow> (AmendError + unit) \<times> files" where
  "blocking_append_network_rule env path raw_host prot dec just fs =
     (case normalize_network_rule_host raw_host of
        Inl e \<Rightarrow> (Err (InvalidNetworkRule (error_message (am_str_debug env) e)), fs)
      | Inr h \<Rightarrow>
          if (case just of Some raw \<Rightarrow> trim raw = [] | None \<Rightarrow> False)
          then (Err (InvalidNetworkRule ''justification cannot be empty''), fs)
          else
            (case map_err SerializeNetworkRule
                    (rbind (am_json env h) (\<lambda>host_json.
                     rbind (am_json env (as_policy_string prot)) (\<lambda>protocol_json.
                     rbind (am_json env (policy_decision_string dec)) (\<lambda>decision_json.
                     rbind (case just of
                              Some j \<Rightarrow> rbind (am_json env j) (\<lambda>t. Ok [''justification='' @ t])
                            | None \<Rightarrow> Ok []) (\<lambda>more.
                       Ok ([''host='' @ host_json, ''protocol='' @ protocol_json,
                            ''decision='' @ decision_json] @ more)))))) of
               Inl e \<Rightarrow> (Err e, fs)
             | Inr args \<Rightarrow> append_rule_line env path (''network_rule('' @ str_join '', '' args @ '')'') fs))"

section \<open>Lemmas on the parser\<close>

definition builder_rules :: "PolicyBuilder \<Rightarrow> PrefixRule set" where
  "builder_rules b = set (index_rules (rules_by_program b))"

definition builder_wf :: "PolicyBuilder \<Rightarrow> bool" where
  "builder_wf b = index_wf program (rules_by_program b)"

text \<open>
  What every call of a built-in function keeps: rules are only added, the index stays well formed,
  and new examples come with rules that are in the policy.
\<close>

definition grows :: "PolicyBuilder \<Rightarrow> PolicyBuilder \<Rightarrow> bool" where
  "grows b b' \<longleftrightarrow>
     builder_rules b \<subseteq> builder_rules b' \<and> (builder_wf b \<longrightarrow> builder_wf b') \<and>
     (\<exists>vs. pending_example_validations b' = pending_example_validations b @ vs \<and>
        (\<forall>v \<in> set vs. set (pv_rules v) \<subseteq> builder_rules b'))"

lemma grows_refl: "grows b b"
  by (simp add: grows_def)

lemma grows_trans:
  assumes "grows b c" and "grows c d"
  shows "grows b d"
proof -
  from assms obtain vs ws where
    "pending_example_validations c = pending_example_validations b @ vs"
    "pending_example_validations d = pending_example_validations c @ ws"
    and r: "\<forall>v \<in> set vs. set (pv_rules v) \<subseteq> builder_rules c"
      "\<forall>v \<in> set ws. set (pv_rules v) \<subseteq> builder_rules d"
    unfolding grows_def by blast
  then have p: "pending_example_validations d = pending_example_validations b @ (vs @ ws)" by simp
  have s: "builder_rules c \<subseteq> builder_rules d" using assms(2) by (simp add: grows_def)
  then have "\<forall>v \<in> set (vs @ ws). set (pv_rules v) \<subseteq> builder_rules d" using r by auto
  with p s assms show ?thesis unfolding grows_def by blast
qed

lemma add_rules:
  "builder_rules (fold add_rule rs b) = set rs \<union> builder_rules b \<and>
   pending_example_validations (fold add_rule rs b) = pending_example_validations b \<and>
   (builder_wf b \<longrightarrow> builder_wf (fold add_rule rs b))"
proof (induction rs arbitrary: b)
  case (Cons r rs)
  have "builder_rules (add_rule r b) = insert r (builder_rules b)"
    "pending_example_validations (add_rule r b) = pending_example_validations b"
    "builder_wf b \<longrightarrow> builder_wf (add_rule r b)"
    by (simp_all add: add_rule_def builder_rules_def builder_wf_def rules_multimap_insert multimap_insert_wf)
  with Cons show ?case by simp
qed simp

lemma prefix_rule_grows:
  assumes "prefix_rule env pat dec mat not_mat just span b = Ok b'"
  shows "grows b b'"
proof -
  from assms obtain toks d j ms nms where
    "(case toks of [] \<Rightarrow> Err (InvalidPattern ''pattern cannot be empty'')
      | head # rest \<Rightarrow>
          let rules = map (\<lambda>h. \<lparr>pattern = \<lparr>first_token = h, rest_tokens = rest\<rparr>,
                                rule_decision = d, justification = j\<rparr>) (token_alternatives head);
              loc = map_option error_location_from_file_span span
          in Ok (fold add_rule rules (add_pending_example_validation rules ms nms loc b))) = Ok b'"
    unfolding prefix_rule_def rbind_Inr_iff by blast
  then obtain rules loc where
    "b' = fold add_rule rules (add_pending_example_validation rules ms nms loc b)"
    by (cases toks) (auto simp: Let_def)
  with add_rules [of rules "add_pending_example_validation rules ms nms loc b"] show ?thesis
    by (auto simp: grows_def add_pending_example_validation_def builder_rules_def builder_wf_def)
qed

lemma run_call_grows: "run_call env c b = Ok b' \<Longrightarrow> grows b b'"
proof (cases c)
  case (NetworkRuleCall h prot dec just)
  assume "run_call env c b = Ok b'"
  with NetworkRuleCall show ?thesis
    by (auto simp: network_rule_def rbind_Inr_iff grows_def builder_add_network_rule_def
        builder_rules_def builder_wf_def)
next
  case (HostExecutableCall name paths)
  assume "run_call env c b = Ok b'"
  with HostExecutableCall show ?thesis
    by (auto simp: host_executable_def rbind_Inr_iff grows_def add_host_executable_def
        builder_rules_def builder_wf_def)
qed (simp add: prefix_rule_grows)

lemma eval_module_grows: "eval_module env st cs fin b = (r, b') \<Longrightarrow> grows b b'"
proof (induction cs arbitrary: b)
  case (Cons c cs)
  then show ?case
    using run_call_grows grows_trans grows_refl by (auto split: sum.splits) blast
qed (simp add: grows_refl)

lemma parse_policy_grows: "parse_policy env st ident contents b = (r, b') \<Longrightarrow> grows b b'"
  using eval_module_grows grows_refl
  by (auto simp: parse_policy_def Let_def split: sum.splits prod.splits)

text \<open>When an example is matched by a set of rules.\<close>

definition example_matched ::
    "exec_env \<Rightarrow> (string \<rightharpoonup> path list) \<Rightarrow> PrefixRule set \<Rightarrow> string list \<Rightarrow> bool" where
  "example_matched env hosts rules cmd \<longleftrightarrow>
     (\<exists>r \<in> rules. covers r cmd) \<or>
     (cmd \<noteq> [] \<and>
      (\<exists>prog basename.
         from_absolute_path (ee_home_dir env) (ee_current_dir env) (hd cmd) = Ok prog \<and>
         file_name prog = Some basename \<and>
         (\<forall>paths. hosts basename = Some paths \<longrightarrow> prog \<in> set paths) \<and>
         (\<exists>r \<in> rules. covers r (basename # tl cmd))))"

lemma lookup_nonempty:
  assumes "policy_wf p"
  shows "(case get_vec w (rules_by_program p) of
            None \<Rightarrow> [] | Some rs \<Rightarrow> List.map_filter (\<lambda>r. rule_matches r (w # ws)) rs) \<noteq> [] \<longleftrightarrow>
         (\<exists>r \<in> set (all_rules p). covers r (w # ws))"
proof -
  have e: "(case get_vec w (rules_by_program p) of
              None \<Rightarrow> [] | Some rs \<Rightarrow> List.map_filter (\<lambda>r. rule_matches r (w # ws)) rs) =
           List.map_filter (\<lambda>r. rule_matches r (w # ws))
             (case get_vec w (rules_by_program p) of None \<Rightarrow> [] | Some rs \<Rightarrow> rs)"
    by (simp split: option.split)
  have "{x. \<exists>r \<in> set (all_rules p). rule_matches r (w # ws) = Some x} \<noteq> {} \<longleftrightarrow>
        (\<exists>r \<in> set (all_rules p). covers r (w # ws))"
    by (auto simp: rule_matches_covers split: if_splits)
  then show ?thesis
    unfolding e set_empty [symmetric]
    using prefix_rules.lookup_complete [of "rules_by_program p" w ws] assms
    by (simp add: policy_wf_def all_rules_def)
qed

lemma match_host_nonempty:
  assumes "policy_wf p"
  shows "match_host_executable_rules env p cmd \<noteq> [] \<longleftrightarrow>
     cmd \<noteq> [] \<and>
      (\<exists>prog basename.
         from_absolute_path (ee_home_dir env) (ee_current_dir env) (hd cmd) = Ok prog \<and>
         file_name prog = Some basename \<and>
         (\<forall>paths. host_executables_by_name p basename = Some paths \<longrightarrow> prog \<in> set paths) \<and>
         (\<exists>r \<in> set (all_rules p). covers r (basename # tl cmd)))"
proof (cases cmd)
  case (Cons w args)
  show ?thesis
  proof (cases "from_absolute_path (ee_home_dir env) (ee_current_dir env) w")
    case (Inr prog)
    show ?thesis
    proof (cases "file_name prog")
      case (Some basename)
      let ?gate = "\<forall>paths. host_executables_by_name p basename = Some paths \<longrightarrow> prog \<in> set paths"
      have "match_host_executable_rules env p cmd \<noteq> [] \<longleftrightarrow> ?gate \<and>
          (case get_vec basename (rules_by_program p) of
            None \<Rightarrow> [] | Some rs \<Rightarrow> List.map_filter (\<lambda>r. rule_matches r (basename # args)) rs) \<noteq> []"
        using Cons Inr Some
        by (auto simp: match_host_executable_rules_def executable_path_lookup_key_def
            executable_lookup_key_def list_ex_iff split: option.splits)
      then show ?thesis using Cons Inr Some lookup_nonempty [OF assms, of basename args] by simp
    qed (use Cons Inr in \<open>simp add: match_host_executable_rules_def executable_path_lookup_key_def\<close>)
  qed (use Cons in \<open>simp add: match_host_executable_rules_def\<close>)
qed (simp add: match_host_executable_rules_def)

lemma matches_resolving:
  assumes "policy_wf p"
  shows "matches_for_command_with_options env p cmd None resolving \<noteq> [] \<longleftrightarrow>
         example_matched env (host_executables_by_name p) (set (all_rules p)) cmd"
proof -
  have x: "(\<exists>m ms. match_exact_rules p cmd = Some (m # ms)) \<longleftrightarrow> (\<exists>r \<in> set (all_rules p). covers r cmd)"
  proof (cases cmd)
    case Nil
    then show ?thesis using covers_first by (fastforce simp: match_exact_rules_def)
  next
    case (Cons w ws)
    show ?thesis using lookup_nonempty [OF assms, of w ws]
      by (simp add: match_exact_rules_def Cons neq_Nil_conv)
  qed
  have "matches_for_command_with_options env p cmd None resolving \<noteq> [] \<longleftrightarrow>
        (\<exists>m ms. match_exact_rules p cmd = Some (m # ms)) \<or> match_host_executable_rules env p cmd \<noteq> []"
    by (auto simp: matches_for_command_with_options_def resolving_def Let_def neq_Nil_conv
        split: option.splits list.splits bind_splits if_splits)
  then show ?thesis unfolding x match_host_nonempty [OF assms] example_matched_def .
qed

lemma validation_policy_rules:
  "policy_wf (validation_policy b v) \<and> set (all_rules (validation_policy b v)) = set (pv_rules v)"
proof -
  have "index_wf program m \<Longrightarrow>
      index_wf program (fold (\<lambda>r. multimap_insert (program r) r) rs m) \<and>
      set (index_rules (fold (\<lambda>r. multimap_insert (program r) r) rs m)) = set rs \<union> set (index_rules m)"
    for rs m
    by (induction rs arbitrary: m) (auto simp: multimap_insert_wf rules_multimap_insert)
  from this [of "[]" "pv_rules v"] show ?thesis
    by (simp add: policy_wf_def all_rules_def validation_policy_def index_wf_def index_rules_def)
qed

lemma validate_not_match_Ok:
  "validate_not_match_examples env p rules es = Ok () \<longleftrightarrow>
     (\<forall>e \<in> set es. matches_for_command_with_options env p e None resolving = [])"
  by (induction es) (auto split: list.splits)

lemma validate_match_Ok:
  "validate_match_examples env p rules es = Ok () \<longleftrightarrow>
     (\<forall>e \<in> set es. matches_for_command_with_options env p e None resolving \<noteq> [])"
  by (auto simp: validate_match_examples_def Let_def filter_empty_conv)

lemma map_err_Inr [simp]: "map_err f r = Inr x \<longleftrightarrow> r = Inr x"
  by (cases r) (auto simp: map_err_def)

lemma validate_each_Ok:
  "validate_each env b vs = Ok () \<longleftrightarrow>
     (\<forall>v \<in> set vs.
        (\<forall>e \<in> set (pv_matches v).
           example_matched env (host_executables_by_name b) (set (pv_rules v)) e) \<and>
        (\<forall>e \<in> set (pv_not_matches v).
           \<not> example_matched env (host_executables_by_name b) (set (pv_rules v)) e))"
proof (induction vs)
  case (Cons v vs)
  have h: "host_executables_by_name (validation_policy b v) = host_executables_by_name b"
    by (simp add: validation_policy_def)
  have m: "matches_for_command_with_options env (validation_policy b v) e None resolving \<noteq> [] \<longleftrightarrow>
      example_matched env (host_executables_by_name b) (set (pv_rules v)) e" for e
    using matches_resolving [of "validation_policy b v" env e] validation_policy_rules [of b v]
    by (simp add: h)
  then have n: "matches_for_command_with_options env (validation_policy b v) e None resolving = [] \<longleftrightarrow>
      \<not> example_matched env (host_executables_by_name b) (set (pv_rules v)) e" for e
    by blast
  have "validate_each env b (v # vs) = Ok () \<longleftrightarrow>
      validate_not_match_examples env (validation_policy b v) (pv_rules v) (pv_not_matches v) = Ok () \<and>
      validate_match_examples env (validation_policy b v) (pv_rules v) (pv_matches v) = Ok () \<and>
      validate_each env b vs = Ok ()"
    by (simp add: Let_def rbind_Inr_iff)
  then show ?case
    unfolding validate_not_match_Ok validate_match_Ok n Cons.IH by auto
qed simp

section \<open>Properties\<close>


definition git_starlark :: starlark where
  "git_starlark =
     \<lparr>st_run = (\<lambda>_ _. Ok ([PrefixRuleCall [VStr ''git'', VList [VStr ''status'', VStr ''log'']] (Some ''prompt'')
                   (Some [VStr ''git log -p'', VList [VStr ''git'', VStr ''status'']])
                   (Some [VStr ''git push'']) None None], None)),
      st_wrap = (\<lambda>e. \<lparr>se_display = ''error'', se_span = None\<rparr>)\<rparr>"


section \<open>Lemmas on amending a file\<close>

text \<open>Contents with a line feed at the end of the last line.\<close>

definition terminated :: "string \<Rightarrow> string" where
  "terminated s = (if s \<noteq> [] \<and> \<not> ends_with s nl then s @ nl else s)"

lemma str_lines_snoc:
  assumes "CHR 0x0A \<notin> set l" and "l \<noteq> []" and "last l \<noteq> CHR 0x0D"
  shows "str_lines (terminated s @ l @ nl) = str_lines (terminated s) @ [l]"
proof -
  have l: "split_char (CHR 0x0A) (l @ nl) = [l, []]"
    using split_char_app [of "CHR 0x0A" l "[]"] split_char_none [OF assms(1)] by (simp add: nl_def)
  have cr: "strip_cr l = l" using assms by (simp add: strip_cr_def)
  show ?thesis
  proof (cases "terminated s = []")
    case True
    with l cr show ?thesis by (simp add: str_lines_def Let_def)
  next
    case False
    then have "ends_with (terminated s) nl"
      by (auto simp: terminated_def ends_with_def nl_def split: if_splits)
    then obtain u where u: "terminated s = u @ nl" by (auto simp: ends_with_def suffix_def)
    have "split_char (CHR 0x0A) (terminated s @ l @ nl) = split_char (CHR 0x0A) u @ [l, []]"
      using split_char_app [of "CHR 0x0A" u "l @ nl"] l by (simp add: u nl_def)
    moreover have "split_char (CHR 0x0A) (terminated s) = split_char (CHR 0x0A) u @ [[]]"
      using split_char_app [of "CHR 0x0A" u "[]"] by (simp add: u nl_def)
    ultimately show ?thesis using cr by (simp add: str_lines_def Let_def butlast_append)
  qed
qed

lemma append_locked_line_Ok:
  assumes "append_locked_line env path l fs = (Ok (), fs')"
  shows "fs' = fs(path \<mapsto> if l \<in> set (str_lines (contents_of fs path)) then contents_of fs path
                           else terminated (contents_of fs path) @ l @ nl)"
  using assms
  by (auto simp: append_locked_line_def write_all_def Let_def terminated_def list_ex_iff contents_of_def
      split: option.splits if_splits prod.splits sum.splits)

lemma append_rule_line_Ok:
  "append_rule_line env path l fs = (Ok (), fs') \<Longrightarrow> append_locked_line env path l fs = (Ok (), fs')"
  by (auto simp: append_rule_line_def split: option.splits mkdir_result.splits)

lemma set_str_join: "set (str_join sep xs) \<subseteq> set sep \<union> (\<Union>x \<in> set xs. set x)"
  by (induction sep xs rule: str_join.induct) auto

lemma allow_rule_text_line:
  assumes "\<forall>t \<in> set toks. CHR 0x0A \<notin> set t"
  shows "CHR 0x0A \<notin> set (allow_rule_text toks) \<and> allow_rule_text toks \<noteq> [] \<and>
         last (allow_rule_text toks) \<noteq> CHR 0x0D"
  using assms set_str_join [of "'', ''" toks] by (auto simp: allow_rule_text_def quoted_def)

text \<open>
  Allowing a prefix appends one line to the policy file and is idempotent. When it succeeds, and
  JSON strings have no line feed in them, the file has the rule as one of its lines; if it was not
  there, the lines before are kept as they were and the rule is the last line; no other file
  changes; and doing it again changes nothing.
\<close>

theorem append_allow_rule_idempotent:
  assumes "blocking_append_allow_prefix_rule env path pre fs = (Ok (), fs')"
    and "\<And>s t. am_json env s = Ok t \<Longrightarrow> CHR 0x0A \<notin> set t"
  shows "\<exists>toks. collect_result (map (am_json env) pre) = Ok toks \<and>
           str_lines (contents_of fs' path) =
             (if allow_rule_text toks \<in> set (str_lines (contents_of fs path))
              then str_lines (contents_of fs path)
              else str_lines (terminated (contents_of fs path)) @ [allow_rule_text toks]) \<and>
           (\<forall>q. q \<noteq> path \<longrightarrow> fs' q = fs q) \<and>
           blocking_append_allow_prefix_rule env path pre fs' = (Ok (), fs')"
proof -
  from assms(1) obtain toks where t: "collect_result (map (am_json env) pre) = Ok toks" and ne: "pre \<noteq> []"
    and a: "append_rule_line env path (allow_rule_text toks) fs = (Ok (), fs')"
    by (auto simp: blocking_append_allow_prefix_rule_def split: if_splits sum.splits)
  let ?l = "allow_rule_text toks"
  have "\<forall>x \<in> set toks. CHR 0x0A \<notin> set x"
    using t assms(2) by (auto simp: collect_result_Inr list_eq_iff_nth_eq in_set_conv_nth) metis
  note l = allow_rule_text_line [OF this]
  note fs' = append_locked_line_Ok [OF append_rule_line_Ok [OF a]]
  have c: "contents_of fs' path =
      (if ?l \<in> set (str_lines (contents_of fs path)) then contents_of fs path
       else terminated (contents_of fs path) @ ?l @ nl)"
    by (subst fs') (simp add: contents_of_def)
  then have lines: "str_lines (contents_of fs' path) =
      (if ?l \<in> set (str_lines (contents_of fs path)) then str_lines (contents_of fs path)
       else str_lines (terminated (contents_of fs path)) @ [?l])"
    using str_lines_snoc l by simp
  then have "?l \<in> set (str_lines (contents_of fs' path))" by simp
  moreover have "fs'(path \<mapsto> contents_of fs' path) = fs'"
    by (subst (2) fs') (simp add: fun_eq_iff fs' contents_of_def)
  ultimately have "append_rule_line env path ?l fs' = (Ok (), fs')"
    using a
    by (auto simp: append_rule_line_def append_locked_line_def Let_def list_ex_iff
        split: option.splits mkdir_result.splits)
  then have "blocking_append_allow_prefix_rule env path pre fs' = (Ok (), fs')"
    using ne t by (simp add: blocking_append_allow_prefix_rule_def)
  with t lines fs' show ?thesis by auto
qed

definition plain_amend :: amend_env where
  "plain_amend =
     \<lparr>am_parent = (\<lambda>_. Some ''rules''), am_create_dir = (\<lambda>_. AlreadyExists), am_open = None, am_lock = None,
      am_seek = None, am_read = None, am_write = (\<lambda>_. None),
      am_json = (\<lambda>s. Ok (quoted (replace_char (CHR 0x0A) [CHR 0x5C, CHR ''n''] s))), am_str_debug = id\<rparr>"

theorem append_allow_rule_idempotent_witness:
  "\<exists>fs'. blocking_append_allow_prefix_rule plain_amend ''rules/default'' [''git'', ''log''] Map.empty = (Ok (), fs') \<and>
     blocking_append_allow_prefix_rule plain_amend ''rules/default'' [''git'', ''log''] fs' = (Ok (), fs')"
proof -
  have "fst (blocking_append_allow_prefix_rule plain_amend ''rules/default'' [''git'', ''log''] Map.empty) = Ok ()"
    by code_simp
  then obtain fs' where
    b: "blocking_append_allow_prefix_rule plain_amend ''rules/default'' [''git'', ''log''] Map.empty = (Ok (), fs')"
    by (metis prod.collapse)
  have j: "CHR 0x0A \<notin> set t" if "am_json plain_amend s = Ok t" for s t
    using that by (auto simp: plain_amend_def quoted_def replace_char_def split: if_splits)
  have "blocking_append_allow_prefix_rule plain_amend ''rules/default'' [''git'', ''log''] fs' = (Ok (), fs')"
    using append_allow_rule_idempotent [where env = plain_amend, OF b] j by blast
  with b show ?thesis by blast
qed

end
