(* ===== verification/Shell_Bash.thy ===== *)
theory Shell_Bash
  imports Abs_Path "HOL-Library.Multiset"
begin

text \<open>
  Shell invocations: \<open>shell-command/src/bash.rs\<close>, \<open>shell_detect.rs\<close>, and what
  \<open>powershell.rs\<close> and \<open>parse_command.rs\<close> contribute to finding the script in an argument
  vector.

  The Bash grammar is tree-sitter's and not part of the program: a syntax tree is a value of
  type \<open>node\<close>, and the parser an argument that maps a script to a tree. A node has a kind,
  is named or a token, covers a range of bytes of the script and has children in order.
\<close>

section \<open>shell\_detect.rs\<close>

datatype ShellType = Zsh | Bash | PowerShell | Sh | Cmd

text \<open>\<open>Path::file_stem\<close>: the last name up to its last dot, unless that dot is its first byte.\<close>

definition stem_of :: "string \<Rightarrow> string" where
  "stem_of n =
     (let parts = split_char (CHR ''.'') n
      in if n = ''..'' \<or> length parts \<le> 1 \<or> str_join ''.'' (butlast parts) = [] then n
         else str_join ''.'' (butlast parts))"

definition file_stem :: "string \<Rightarrow> string option" where
  "file_stem p = map_option stem_of (file_name (components p))"

lemma length_split_char_join: "str_join [c] (split_char c s) = s"
proof (induction s)
  case (Cons x s)
  then show ?case by (cases "split_char c s" rule: list.exhaust; cases "tl (split_char c s)") auto
qed simp

lemma str_join_butlast:
  "xs \<noteq> [] \<Longrightarrow> str_join sep xs = (if butlast xs = [] then last xs else str_join sep (butlast xs) @ sep @ last xs)"
proof (induction xs rule: induct_list012)
  case (3 x y zs)
  then show ?case by (cases zs) auto
qed auto

lemma stem_of_shorter: "stem_of n = n \<or> length (stem_of n) < length n"
proof -
  let ?ps = "split_char (CHR ''.'') n"
  have "butlast ?ps \<noteq> [] \<Longrightarrow> length (str_join ''.'' (butlast ?ps)) < length (str_join ''.'' ?ps)"
    using str_join_butlast [of ?ps "''.''"] by simp
  moreover have "\<not> length ?ps \<le> 1 \<Longrightarrow> butlast ?ps \<noteq> []"
    by (cases ?ps rule: rev_cases) auto
  ultimately show ?thesis
    using length_split_char_join [of "CHR ''.''" n] by (simp add: stem_of_def Let_def)
qed

lemma stem_of_le: "length (stem_of n) \<le> length n"
  using stem_of_shorter [of n] by auto

lemma length_split_char_le: "n \<in> set (split_char c s) \<Longrightarrow> length n \<le> length s"
proof (induction s arbitrary: n)
  case (Cons x s)
  then show ?case by (cases "split_char c s") (fastforce split: if_splits)+
qed simp

lemma split_char_full: "n \<in> set (split_char c s) \<Longrightarrow> length n = length s \<Longrightarrow> n = s"
proof (induction s arbitrary: n)
  case (Cons x s)
  then show ?case
    using length_split_char_le [of _ c s]
    by (cases "split_char c s") (fastforce split: if_splits)+
qed simp

lemma file_name_in_split: "file_name (components p) = Some n \<Longrightarrow> n \<in> set (split_char slash p)"
proof -
  assume a: "file_name (components p) = Some n"
  then have ne: "components p \<noteq> []" and "last (components p) = Normal n"
    by (auto simp: file_name_def split: if_splits component.splits)
  with last_in_set [OF ne] have "Normal n \<in> set (components p)" by simp
  then show ?thesis
    by (auto simp: components_def names_def component_of_def split: if_splits)
qed

lemma file_stem_shorter:
  assumes "file_stem p = Some stem" and "components stem \<noteq> components p"
  shows "length stem < length p"
proof -
  obtain n where n: "file_name (components p) = Some n" "stem = stem_of n"
    using assms(1) by (auto simp: file_stem_def)
  then have mem: "n \<in> set (split_char slash p)" by (simp add: file_name_in_split)
  have "length stem \<noteq> length p"
  proof
    assume eq: "length stem = length p"
    then have "length n = length p"
      using stem_of_le [of n] length_split_char_le [OF mem] n(2) by simp
    then have "n = p" by (rule split_char_full [OF mem])
    with eq n(2) stem_of_shorter [of p] have "stem_of p = p" by auto
    with n(2) \<open>n = p\<close> assms(2) show False by simp
  qed
  with stem_of_le [of n] length_split_char_le [OF mem] n(2) show ?thesis by simp
qed

function detect_shell_type :: "string \<Rightarrow> ShellType option" where
  "detect_shell_type p =
     (if p = ''zsh'' then Some Zsh
      else if p = ''sh'' then Some Sh
      else if p = ''cmd'' then Some Cmd
      else if p = ''bash'' then Some Bash
      else if p = ''pwsh'' then Some PowerShell
      else if p = ''powershell'' then Some PowerShell
      else case file_stem p of
             Some shell_name \<Rightarrow>
               if components shell_name \<noteq> components p then detect_shell_type shell_name else None
           | None \<Rightarrow> None)"
  by pat_completeness auto
termination
  by (relation "measure length") (auto dest: file_stem_shorter)

declare detect_shell_type.simps [simp del]

section \<open>bash.rs\<close>

datatype node =
  Node (node_kind: string) (is_named: bool) (start_byte: nat) (end_byte: nat) (node_children: "node list")

record tree =
  root_node :: node
  root_has_error :: bool

text \<open>\<open>try_parse_shell\<close> is the parser of tree-sitter.\<close>

type_synonym bash_parser = "string \<Rightarrow> tree option"

definition named_children :: "node \<Rightarrow> node list" where
  "named_children n = filter is_named (node_children n)"

text \<open>
  \<open>utf8_text\<close>: the bytes of the range, which tree-sitter takes from the source; a range that
  cuts a character is the error of \<open>str::from_utf8\<close>.
\<close>

definition utf8_text :: "string \<Rightarrow> node \<Rightarrow> string option" where
  "utf8_text src n =
     (if start_byte n \<le> end_byte n \<and> char_boundary src (start_byte n) \<and> char_boundary src (end_byte n)
      then Some (take (end_byte n - start_byte n) (drop (start_byte n) src)) else None)"

definition ALLOWED_KINDS :: "string list" where
  "ALLOWED_KINDS =
     [''program'', ''list'', ''pipeline'', ''command'', ''command_name'', ''word'', ''string'',
      ''string_content'', ''raw_string'', ''number'', ''concatenation'']"

definition dquote :: char where "dquote = CHR 0x22"
definition squote :: char where "squote = CHR 0x27"

definition ALLOWED_PUNCT_TOKENS :: "string list" where
  "ALLOWED_PUNCT_TOKENS = [''&&'', ''||'', '';'', ''|'', [dquote], [squote]]"

text \<open>The checks of the loop body that make it return \<open>None\<close>.\<close>

definition node_rejected :: "node \<Rightarrow> bool" where
  "node_rejected n =
     (let kind = node_kind n in
      if is_named n then kind \<notin> set ALLOWED_KINDS
      else (list_ex (\<lambda>c. c \<in> set ''&;|'') kind \<and> kind \<notin> set ALLOWED_PUNCT_TOKENS)
         \<or> \<not> (kind \<in> set ALLOWED_PUNCT_TOKENS \<or> trim kind = []))"

definition is_command :: "node \<Rightarrow> bool" where
  "is_command n = (is_named n \<and> node_kind n = ''command'')"

text \<open>The loop over the stack, its top first, with the vector of command nodes.\<close>

function walk_stack :: "node list \<Rightarrow> node list \<Rightarrow> node list option" where
  "walk_stack [] command_nodes = Some command_nodes"
| "walk_stack (n # stack) command_nodes =
     (if node_rejected n then None
      else walk_stack (rev (node_children n) @ stack)
             (if is_command n then command_nodes @ [n] else command_nodes))"
  by pat_completeness auto
termination
proof (relation "measure (\<lambda>(stack, _). sum_list (map size stack))", goal_cases)
  case (2 n stack acc)
  have "sum_list (map size (node_children n)) < size n"
    by (cases n) (simp add: size_list_conv_sum_list)
  then show ?case by (simp flip: rev_map)
qed simp

definition strip_both :: "char \<Rightarrow> string \<Rightarrow> string option" where
  "strip_both q s =
     (case strip_prefix [q] s of
        Some t \<Rightarrow> if t \<noteq> [] \<and> last t = q then Some (butlast t) else None
      | None \<Rightarrow> None)"

definition parse_double_quoted_string :: "string \<Rightarrow> node \<Rightarrow> string option" where
  "parse_double_quoted_string src n =
     (if node_kind n \<noteq> ''string'' then None
      else if list_ex (\<lambda>part. node_kind part \<noteq> ''string_content'') (named_children n) then None
      else Option.bind (utf8_text src n) (strip_both dquote))"

definition parse_raw_string :: "string \<Rightarrow> node \<Rightarrow> string option" where
  "parse_raw_string src n =
     (if node_kind n \<noteq> ''raw_string'' then None else Option.bind (utf8_text src n) (strip_both squote))"

text \<open>
  One part of a concatenation and one child of a command; a loop that pushes what each step
  yields and returns at the first \<open>None\<close> is \<open>those\<close>.
\<close>

definition concat_part :: "string \<Rightarrow> node \<Rightarrow> string option" where
  "concat_part src part =
     (let kind = node_kind part in
      if kind = ''word'' \<or> kind = ''number'' then utf8_text src part
      else if kind = ''string'' then parse_double_quoted_string src part
      else if kind = ''raw_string'' then parse_raw_string src part
      else None)"

definition plain_word :: "string \<Rightarrow> node \<Rightarrow> string option" where
  "plain_word src child =
     (let kind = node_kind child in
      if kind = ''command_name'' then
        (case named_children child of
           [] \<Rightarrow> None
         | word_node # _ \<Rightarrow> if node_kind word_node \<noteq> ''word'' then None else utf8_text src word_node)
      else if kind = ''word'' \<or> kind = ''number'' then utf8_text src child
      else if kind = ''string'' then parse_double_quoted_string src child
      else if kind = ''raw_string'' then parse_raw_string src child
      else if kind = ''concatenation'' then
        Option.bind (those (map (concat_part src) (named_children child)))
          (\<lambda>parts. if concat parts = [] then None else Some (concat parts))
      else None)"

definition parse_plain_command_from_node :: "string \<Rightarrow> node \<Rightarrow> string list option" where
  "parse_plain_command_from_node src cmd =
     (if node_kind cmd \<noteq> ''command'' then None
      else those (map (plain_word src) (named_children cmd)))"

definition try_parse_word_only_commands_sequence :: "tree \<Rightarrow> string \<Rightarrow> string list list option" where
  "try_parse_word_only_commands_sequence t src =
     (if root_has_error t then None
      else Option.bind (walk_stack [root_node t] [])
        (\<lambda>command_nodes.
           those (map (parse_plain_command_from_node src) (sort_key start_byte command_nodes))))"

definition extract_bash_command :: "string list \<Rightarrow> (string \<times> string) option" where
  "extract_bash_command command =
     (case command of
        [shell, flag, script] \<Rightarrow>
          if \<not> (flag = ''-lc'' \<or> flag = ''-c'') \<or>
             \<not> (detect_shell_type shell = Some Zsh \<or> detect_shell_type shell = Some Bash
                \<or> detect_shell_type shell = Some Sh)
          then None else Some (shell, script)
      | _ \<Rightarrow> None)"

definition parse_shell_lc_plain_commands :: "bash_parser \<Rightarrow> string list \<Rightarrow> string list list option" where
  "parse_shell_lc_plain_commands parse command =
     Option.bind (extract_bash_command command)
       (\<lambda>(_, script). Option.bind (parse script)
          (\<lambda>t. try_parse_word_only_commands_sequence t script))"

text \<open>The two searches for the form with a here-document; their order does not matter, and the
  first stops at the second command.\<close>

function has_named_kind :: "string \<Rightarrow> node list \<Rightarrow> bool" where
  "has_named_kind kind [] = False"
| "has_named_kind kind (n # stack) =
     (if node_kind n = kind then True
      else has_named_kind kind (rev (named_children n) @ stack))"
  by pat_completeness auto
termination
proof (relation "measure (\<lambda>(_, stack). sum_list (map size stack))", goal_cases)
  case (2 kind n stack)
  have "sum_list (map size (named_children n)) \<le> sum_list (map size (node_children n))"
    unfolding named_children_def by (rule sum_list_filter_le_nat)
  moreover have "sum_list (map size (node_children n)) < size n"
    by (cases n) (simp add: size_list_conv_sum_list)
  ultimately show ?case by (simp flip: rev_map)
qed simp

definition has_named_descendant_kind :: "node \<Rightarrow> string \<Rightarrow> bool" where
  "has_named_descendant_kind n kind = has_named_kind kind [n]"

function find_command :: "node list \<Rightarrow> node option \<Rightarrow> node option" where
  "find_command [] single_command = single_command"
| "find_command (n # stack) single_command =
     (if node_kind n = ''command'' \<and> single_command \<noteq> None then None
      else find_command (rev (named_children n) @ stack)
             (if node_kind n = ''command'' then Some n else single_command))"
  by pat_completeness auto
termination
proof (relation "measure (\<lambda>(stack, _). sum_list (map size stack))", goal_cases)
  case (2 n stack c)
  have "sum_list (map size (named_children n)) \<le> sum_list (map size (node_children n))"
    unfolding named_children_def by (rule sum_list_filter_le_nat)
  moreover have "sum_list (map size (node_children n)) < size n"
    by (cases n) (simp add: size_list_conv_sum_list)
  ultimately show ?case by (simp flip: rev_map)
qed simp

definition find_single_command_node :: "node \<Rightarrow> node option" where
  "find_single_command_node root = find_command [root] None"

definition is_literal_word_or_number :: "node \<Rightarrow> bool" where
  "is_literal_word_or_number n =
     ((node_kind n = ''word'' \<or> node_kind n = ''number'') \<and> named_children n = [])"

definition is_allowed_heredoc_attachment_kind :: "string \<Rightarrow> bool" where
  "is_allowed_heredoc_attachment_kind kind =
     (kind \<in> set [''heredoc_body'', ''simple_heredoc_body'', ''heredoc_redirect'',
                  ''herestring_redirect'', ''file_redirect'', ''redirected_statement''])"

text \<open>What one child of the command contributes: nothing, a word, or a return of \<open>None\<close>.\<close>

definition heredoc_word :: "string \<Rightarrow> node \<Rightarrow> string list option" where
  "heredoc_word src child =
     (let kind = node_kind child in
      if kind = ''command_name'' then
        (case named_children child of
           [] \<Rightarrow> None
         | word_node # _ \<Rightarrow>
             if \<not> (node_kind word_node = ''word'' \<or> node_kind word_node = ''number'')
                \<or> \<not> is_literal_word_or_number word_node
             then None else map_option (\<lambda>w. [w]) (utf8_text src word_node))
      else if kind = ''word'' \<or> kind = ''number'' then
        (if \<not> is_literal_word_or_number child then None
         else map_option (\<lambda>w. [w]) (utf8_text src child))
      else if kind = ''variable_assignment'' \<or> kind = ''comment'' then Some []
      else if is_allowed_heredoc_attachment_kind kind then Some []
      else None)"

definition parse_heredoc_command_words :: "string \<Rightarrow> node \<Rightarrow> string list option" where
  "parse_heredoc_command_words src cmd =
     (if node_kind cmd \<noteq> ''command'' then None
      else Option.bind (those (map (heredoc_word src) (named_children cmd)))
        (\<lambda>words. if concat words = [] then None else Some (concat words)))"

definition parse_shell_lc_single_command_prefix :: "bash_parser \<Rightarrow> string list \<Rightarrow> string list option" where
  "parse_shell_lc_single_command_prefix parse command =
     Option.bind (extract_bash_command command)
       (\<lambda>(_, script). Option.bind (parse script)
          (\<lambda>t. if root_has_error t then None
               else if \<not> has_named_descendant_kind (root_node t) ''heredoc_redirect'' then None
               else Option.bind (find_single_command_node (root_node t))
                      (parse_heredoc_command_words script)))"

section \<open>powershell.rs and parse\_command.rs\<close>

definition POWERSHELL_FLAGS :: "string list" where
  "POWERSHELL_FLAGS = [''-nologo'', ''-noprofile'', ''-command'', ''-c'']"

text \<open>The \<open>while\<close> loop over the arguments from index \<open>i\<close> on.\<close>

fun powershell_flags :: "string list \<Rightarrow> string option" where
  "powershell_flags (flag # script # rest) =
     (if to_ascii_lowercase flag \<notin> set POWERSHELL_FLAGS then None
      else if to_ascii_lowercase flag = ''-command'' \<or> to_ascii_lowercase flag = ''-c'' then Some script
      else powershell_flags (script # rest))"
| "powershell_flags _ = None"

definition extract_powershell_command :: "string list \<Rightarrow> (string \<times> string) option" where
  "extract_powershell_command command =
     (if length command < 3 then None
      else if detect_shell_type (hd command) \<noteq> Some PowerShell then None
      else map_option (\<lambda>script. (hd command, script)) (powershell_flags (tl command)))"

definition UTF8_OUTPUT_PREFIX :: string where
  "UTF8_OUTPUT_PREFIX = ''[Console]::OutputEncoding=[System.Text.Encoding]::UTF8;'' @ nl"

definition prefix_powershell_script_with_utf8 :: "string list \<Rightarrow> string list" where
  "prefix_powershell_script_with_utf8 command =
     (case extract_powershell_command command of
        None \<Rightarrow> command
      | Some (_, script) \<Rightarrow>
          butlast command
          @ [if prefix UTF8_OUTPUT_PREFIX (trim_start script) then script
             else UTF8_OUTPUT_PREFIX @ script])"

definition extract_shell_command :: "string list \<Rightarrow> (string \<times> string) option" where
  "extract_shell_command command =
     (case extract_bash_command command of
        Some r \<Rightarrow> Some r
      | None \<Rightarrow> extract_powershell_command command)"

section \<open>Scanning wrapped commands\<close>

text \<open>
  Two guards look through shell wrappers to a bounded depth. \<open>unwraps\<close> is the relation of a
  command to the ones at most \<open>n\<close> levels inside it; the locale is what the guards have in
  common.
\<close>

inductive unwraps :: "('c \<Rightarrow> 'c list) \<Rightarrow> nat \<Rightarrow> 'c \<Rightarrow> 'c \<Rightarrow> bool" for inner where
  here: "unwraps inner n c c"
| inside: "c' \<in> set (inner c) \<Longrightarrow> unwraps inner n c' d \<Longrightarrow> unwraps inner (Suc n) c d"

inductive_simps unwraps_0: "unwraps inner 0 c d"
inductive_simps unwraps_Suc: "unwraps inner (Suc n) c d"

locale bounded_scan =
  fixes inner :: "'c \<Rightarrow> 'c list" and hit :: "'c \<Rightarrow> 'r option" and scan :: "nat \<Rightarrow> 'c \<Rightarrow> 'r option"
  assumes scan_0: "scan 0 c = hit c"
    and scan_Suc: "scan (Suc n) c = (case hit c of Some r \<Rightarrow> Some r | None \<Rightarrow> find_map (scan n) (inner c))"
begin

lemma scan_None: "scan n c = None \<longleftrightarrow> (\<forall>d. unwraps inner n c d \<longrightarrow> hit d = None)"
proof (induction n arbitrary: c)
  case 0
  show ?case by (auto simp: scan_0 unwraps_0)
next
  case (Suc n)
  show ?case
    by (cases "hit c") (auto simp: scan_Suc unwraps_Suc find_map_None Suc.IH)
qed

lemma scan_Some:
  assumes "scan n c = Some r"
  shows "\<exists>d. unwraps inner n c d \<and> hit d = Some r"
  using assms
proof (induction n arbitrary: c)
  case 0
  then show ?case by (auto simp: scan_0 intro: unwraps.here)
next
  case (Suc n)
  show ?case
  proof (cases "hit c")
    case None
    with Suc.prems have "find_map (scan n) (inner c) = Some r" by (simp add: scan_Suc)
    then obtain c' where "c' \<in> set (inner c)" "scan n c' = Some r" by (auto dest: find_map_Some)
    with Suc.IH show ?thesis by (blast intro: unwraps.inside)
  next
    case (Some r')
    with Suc.prems show ?thesis by (auto simp: scan_Suc intro: unwraps.here)
  qed
qed

end

section \<open>Lemmas\<close>

subsection \<open>The walk over the tree\<close>

text \<open>The nodes of a tree in source order.\<close>

fun all_nodes :: "node \<Rightarrow> node list" where
  "all_nodes (Node k nm a b cs) = Node k nm a b cs # concat (map all_nodes cs)"

lemma all_nodes_children: "all_nodes n = n # concat (map all_nodes (node_children n))"
  by (cases n) simp

declare all_nodes.simps [simp del]

lemma mset_concat_rev: "mset (concat (map f (rev xs))) = mset (concat (map f xs))"
  by (induction xs) auto

lemma walk_stack_None:
  "walk_stack stack acc = None \<longleftrightarrow> list_ex node_rejected (concat (map all_nodes stack))"
proof (induction stack acc rule: walk_stack.induct)
  case (2 n stack acc)
  have "list_ex node_rejected (concat (map all_nodes (rev (node_children n)))) \<longleftrightarrow>
        list_ex node_rejected (concat (map all_nodes (node_children n)))"
    unfolding list_ex_iff by (simp add: mset_concat_rev flip: set_mset_mset)
  with 2 show ?case by (simp add: all_nodes_children [of n])
qed simp

lemma walk_stack_Some:
  "walk_stack stack acc = Some cmds \<Longrightarrow>
   mset cmds = mset acc + mset (filter is_command (concat (map all_nodes stack)))"
proof (induction stack acc rule: walk_stack.induct)
  case (2 n stack acc)
  then show ?case
    by (auto simp: all_nodes_children [of n] mset_concat_rev mset_filter split: if_splits)
qed simp

lemma sort_key_distinct:
  assumes "mset xs = mset ys" and "sorted_wrt (<) (map f ys)"
  shows "sort_key f xs = ys"
proof -
  from assms(2) have "sorted (map f ys)" and "distinct (map f ys)"
    by (auto simp: strict_sorted_iff)
  with assms(1) show ?thesis
    by (intro sort_key_inj_key_eq) (auto simp: distinct_map dest: mset_eq_setD)
qed

subsection \<open>Which argument vectors hold a script\<close>

text \<open>The names that are no shell; stated as a list to be evaluated.\<close>

lemma detect_shell_type_plain:
  assumes "file_name (components p) = Some n" and "stem_of n = n" and "components n = [Normal n]"
    and "n \<notin> set [''zsh'', ''sh'', ''cmd'', ''bash'', ''pwsh'', ''powershell'']"
  shows "detect_shell_type p = None"
proof -
  have fn: "file_name (components n) = Some n" using assms(3) by (simp add: file_name_def)
  have stem: "file_stem p = Some n" and stem': "file_stem n = Some n"
    using assms(1,2) fn by (simp_all add: file_stem_def)
  have n: "detect_shell_type n = None"
    using assms(4) stem' by (simp add: detect_shell_type.simps [of n])
  have "p \<notin> set [''zsh'', ''sh'', ''cmd'', ''bash'', ''pwsh'', ''powershell'']"
  proof
    assume "p \<in> set [''zsh'', ''sh'', ''cmd'', ''bash'', ''pwsh'', ''powershell'']"
    moreover have "file_name (components q) = Some q"
      if "q \<in> set [''zsh'', ''sh'', ''cmd'', ''bash'', ''pwsh'', ''powershell'']" for q
      using that
      by (auto simp: file_name_def components_def names_def component_of_def is_absolute_def slash_def)
    ultimately have "n = p" using assms(1) by simp
    with assms(4) \<open>p \<in> _\<close> show False by simp
  qed
  with stem n show ?thesis by (simp add: detect_shell_type.simps [of p])
qed

lemma components_name:
  assumes "slash \<notin> set n" and "n \<noteq> []" and "n \<noteq> ''.''" and "n \<noteq> ''..''"
  shows "components n = [Normal n]"
  using assms
  by (cases n) (auto simp: components_def names_def component_of_def is_absolute_def split_char_none)

lemma split_char_map:
  "(\<And>x. f x = c \<longleftrightarrow> x = c) \<Longrightarrow> split_char c (map f s) = map (map f) (split_char c s)"
proof (induction s)
  case (Cons x s)
  then show ?case by (cases "split_char c s") auto
qed simp

lemma map_str_join: "map f (str_join sep xs) = str_join (map f sep) (map (map f) xs)"
  by (induction sep xs rule: str_join.induct) auto

lemma stem_of_lowercase: "to_ascii_lowercase (stem_of n) = stem_of (to_ascii_lowercase n)"
proof -
  have dot: "ascii_lower x = CHR ''.'' \<longleftrightarrow> x = CHR ''.''" for x
    using ascii_lower_fixes [of x] by (auto simp: ascii_lower_def)
  have dots: "map ascii_lower n = ''..'' \<longleftrightarrow> n = ''..''"
    by (auto simp: map_eq_Cons_conv dot)
  have sep: "map ascii_lower ''.'' = ''.''" by (simp add: dot)
  have j: "str_join ''.'' (butlast (map (map ascii_lower) xs)) = map ascii_lower (str_join ''.'' (butlast xs))"
    for xs by (simp only: map_str_join sep map_butlast)
  show ?thesis
    unfolding stem_of_def Let_def to_ascii_lowercase_def split_char_map [of ascii_lower, OF dot] dots j
    by (simp only: length_map map_is_Nil_conv if_distrib [of "map ascii_lower"])
qed

text \<open>A PowerShell executable is not taken for another shell, however its name is written.\<close>

lemma detect_lower_powershell:
  assumes "to_ascii_lowercase q \<in> set [''powershell'', ''pwsh'']"
  shows "detect_shell_type q \<in> {None, Some PowerShell}"
proof (cases "q \<in> set [''powershell'', ''pwsh'']")
  case True
  then show ?thesis by (auto simp: detect_shell_type.simps)
next
  case False
  have other: "q \<notin> set [''zsh'', ''sh'', ''cmd'', ''bash'']"
    using assms by (auto simp: to_ascii_lowercase_def ascii_lower_def)
  have lower: "ascii_lower x = x" if "x \<in> {slash, CHR ''.''}" for x
    using that by (auto simp: ascii_lower_def slash_def)
  have notin: "x \<notin> set q" if "x \<in> {slash, CHR ''.''}" for x
  proof
    assume "x \<in> set q"
    then have "x \<in> set (to_ascii_lowercase q)"
      using lower [OF that] by (force simp: to_ascii_lowercase_def)
    with assms that show False by (auto simp: slash_def)
  qed
  have "components q = [Normal q]"
    using notin assms by (intro components_name) (auto simp: to_ascii_lowercase_def)
  moreover have "stem_of q = q"
    using notin by (simp add: stem_of_def Let_def split_char_none)
  ultimately show ?thesis
    using False other detect_shell_type_plain [of q q] by (simp add: file_name_def)
qed

subsection \<open>Words come from the script\<close>

lemma those_Some: "those xs = Some ys \<longleftrightarrow> xs = map Some ys"
proof (induction xs arbitrary: ys)
  case (Cons x xs)
  then show ?case by (cases x; cases ys) auto
qed auto

lemma utf8_text_chars: "utf8_text src n = Some w \<Longrightarrow> set w \<subseteq> set src"
  by (auto simp: utf8_text_def dest!: in_set_takeD in_set_dropD split: if_splits)

lemma strip_both_chars: "strip_both q s = Some w \<Longrightarrow> set w \<subseteq> set s"
  by (auto simp: strip_both_def strip_prefix_def dest!: in_set_butlastD in_set_dropD
      split: option.splits if_splits)

lemma bind_chars:
  "Option.bind (utf8_text src n) (strip_both q) = Some w \<Longrightarrow> set w \<subseteq> set src"
  by (auto simp: bind_eq_Some_conv dest: strip_both_chars utf8_text_chars)

lemma concat_part_chars: "concat_part src n = Some w \<Longrightarrow> set w \<subseteq> set src"
  by (auto simp: concat_part_def parse_double_quoted_string_def parse_raw_string_def Let_def
      dest!: bind_chars utf8_text_chars split: if_splits)

lemma concat_parts_chars:
  "map (concat_part src) ns = map Some parts \<Longrightarrow> set (concat parts) \<subseteq> set src"
proof (induction ns arbitrary: parts)
  case (Cons n ns)
  then show ?case by (cases parts) (auto dest: concat_part_chars)
qed auto

lemma plain_word_chars:
  assumes "plain_word src n = Some w" shows "set w \<subseteq> set src"
proof -
  have c: "set w \<subseteq> set src"
    if "Option.bind (those (map (concat_part src) (named_children n)))
          (\<lambda>parts. if concat parts = [] then None else Some (concat parts)) = Some w"
  proof -
    from that obtain parts where "map (concat_part src) (named_children n) = map Some parts"
      and "w = concat parts"
      by (auto simp: bind_eq_Some_conv those_Some split: if_splits)
    then show ?thesis by (simp only: concat_parts_chars)
  qed
  from assms show ?thesis
    unfolding plain_word_def Let_def parse_double_quoted_string_def parse_raw_string_def
    by (auto simp del: concat_eq_Nil_conv dest!: c bind_chars utf8_text_chars split: if_splits list.splits)
qed

lemma plain_commands_chars:
  assumes "parse_shell_lc_plain_commands parse [shell, flag, script] = Some cmds"
    and "c \<in> set cmds" and "w \<in> set c"
  shows "set w \<subseteq> set script"
proof -
  from assms(1) obtain ns where "map (parse_plain_command_from_node script) ns = map Some cmds"
    by (auto simp: parse_shell_lc_plain_commands_def extract_bash_command_def bind_eq_Some_conv
        try_parse_word_only_commands_sequence_def those_Some split: if_splits)
  with assms(2) obtain n where "parse_plain_command_from_node script n = Some c"
    by (metis (no_types, opaque_lifting) imageE image_eqI list.set_map)
  then have "map (plain_word script) (named_children n) = map Some c"
    by (simp add: parse_plain_command_from_node_def those_Some split: if_splits)
  with assms(3) obtain m where "plain_word script m = Some w"
    by (metis (no_types, opaque_lifting) imageE image_eqI list.set_map)
  then show ?thesis by (rule plain_word_chars)
qed

section \<open>Properties\<close>

text \<open>
  The iterative walk over the syntax tree is equivalent to its declarative reading: a script
  is accepted exactly when the tree has no error, every node is of an allowed kind or an allowed
  token, and every command consists of plain words; the result is then the words of the commands
  in source order. The hypothesis is tree-sitter's: commands start at increasing positions.
\<close>

theorem word_only_commands_spec:
  assumes "sorted_wrt (<) (map start_byte (filter is_command (all_nodes (root_node t))))"
  shows "try_parse_word_only_commands_sequence t src =
    (if root_has_error t \<or> list_ex node_rejected (all_nodes (root_node t)) then None
     else those (map (parse_plain_command_from_node src) (filter is_command (all_nodes (root_node t)))))"
proof (cases "walk_stack [root_node t] []")
  case None
  then show ?thesis
    using walk_stack_None [of "[root_node t]" "[]"]
    by (simp add: try_parse_word_only_commands_sequence_def)
next
  case (Some cmds)
  with walk_stack_Some [OF Some] walk_stack_None [of "[root_node t]" "[]"]
    sort_key_distinct [OF _ assms, of cmds]
  show ?thesis by (simp add: try_parse_word_only_commands_sequence_def)
qed

text \<open>The tree of \<open>ls && pwd\<close>.\<close>

definition demo_command :: "nat \<Rightarrow> nat \<Rightarrow> node" where
  "demo_command a b =
     Node ''command'' True a b [Node ''command_name'' True a b [Node ''word'' True a b []]]"

definition demo_tree :: tree where
  "demo_tree =
     \<lparr>root_node = Node ''program'' True 0 9
        [Node ''list'' True 0 9 [demo_command 0 2, Node ''&&'' False 3 5 [], demo_command 6 9]],
      root_has_error = False\<rparr>"

theorem word_only_commands_spec_witness:
  "try_parse_word_only_commands_sequence demo_tree ''ls && pwd'' = Some [[''ls''], [''pwd'']]"
proof -
  have s: "sorted_wrt (<) (map start_byte (filter is_command (all_nodes (root_node demo_tree))))"
    by code_simp
  have "(if root_has_error demo_tree \<or> list_ex node_rejected (all_nodes (root_node demo_tree)) then None
     else those (map (parse_plain_command_from_node ''ls && pwd'')
                  (filter is_command (all_nodes (root_node demo_tree))))) = Some [[''ls''], [''pwd'']]"
    by code_simp
  with word_only_commands_spec [OF s, of "''ls && pwd''"] show ?thesis by simp
qed

end
