(* ===== verification/Sensitive_Output.thy ===== *)
theory Sensitive_Output
  imports Shell_Bash
begin

text \<open>
  What must not leave the machine: \<open>core/src/sensitive_output.rs\<close> and the redaction of
  \<open>secrets/src/sanitizer.rs\<close>.

  The environment holds what lies outside the program: regular expressions (a pattern, a
  replacement and a text give the text with every match replaced), the tables of
  \<open>str::to_lowercase\<close>, \<open>shlex\<close>, lossy decoding and the Bash grammar.
\<close>

record scrub_env =
  sc_to_lowercase :: "string \<Rightarrow> string"
  sc_replace_all :: "string \<Rightarrow> string \<Rightarrow> string \<Rightarrow> string"
  sc_shlex_split :: "string \<Rightarrow> string list option"
  sc_from_utf8_lossy :: "string \<Rightarrow> string"
  sc_bash :: bash_parser

record SanitizedOutput =
  so_text :: string
  so_changed :: bool

record SensitiveCommandBlock =
  block_path :: string
  block_message :: string

section \<open>Sensitive paths\<close>

definition is_sensitive_component_name :: "string \<Rightarrow> bool" where
  "is_sensitive_component_name component =
     (component \<in> set [''.git'', ''target'', ''node_modules'', ''vendor'']
      \<or> component = ''.env''
      \<or> prefix ''.env.'' component
      \<or> component = ''auth.json''
      \<or> str_contains component ''credentials''
      \<or> component = ''id_rsa''
      \<or> component = ''id_ed25519''
      \<or> ends_with component ''.pem''
      \<or> ends_with component ''.key''
      \<or> str_contains component ''private_key''
      \<or> str_contains component ''private-key'')"

definition sensitive_component :: "(string \<Rightarrow> string) \<Rightarrow> component \<Rightarrow> bool" where
  "sensitive_component lower c =
     (case c of Normal value \<Rightarrow> is_sensitive_component_name (lower value) | _ \<Rightarrow> False)"

definition is_sensitive_path :: "(string \<Rightarrow> string) \<Rightarrow> string \<Rightarrow> bool" where
  "is_sensitive_path lower p = list_ex (sensitive_component lower) (components p)"

definition backslash :: char where "backslash = CHR 0x5C"

definition forward_slashes :: "string \<Rightarrow> string" where
  "forward_slashes s = replace_char backslash ''/'' s"

text \<open>The suffix of an absolute path from its first sensitive name on.\<close>

fun capture_suffix :: "(string \<Rightarrow> string) \<Rightarrow> bool \<Rightarrow> component list \<Rightarrow> string list" where
  "capture_suffix lower capturing [] = []"
| "capture_suffix lower capturing (c # cs) =
     (case c of
        Normal value \<Rightarrow>
          if capturing \<or> is_sensitive_component_name (lower value)
          then value # capture_suffix lower True cs else capture_suffix lower capturing cs
      | CurDir \<Rightarrow> (if capturing then [''.''] else []) @ capture_suffix lower capturing cs
      | ParentDir \<Rightarrow> (if capturing then [''..''] else []) @ capture_suffix lower capturing cs
      | RootDir \<Rightarrow> capture_suffix lower capturing cs)"

definition sensitive_path_display :: "(string \<Rightarrow> string) \<Rightarrow> string \<Rightarrow> string option" where
  "sensitive_path_display lower p =
     (if \<not> is_sensitive_path lower p then None
      else if \<not> is_absolute p then Some (forward_slashes p)
      else let captured = capture_suffix lower False (components p)
           in Some (if captured = [] then forward_slashes p else str_join ''/'' captured))"

definition first_sensitive_path :: "(string \<Rightarrow> string) \<Rightarrow> string list \<Rightarrow> string option" where
  "first_sensitive_path lower paths = find_map (sensitive_path_display lower) paths"

section \<open>Commands that would print a sensitive file\<close>

definition sensitive_command_block_message :: "string \<Rightarrow> string" where
  "sensitive_command_block_message p =
     ''blocked: command would expose sensitive file contents ('' @ p
     @ ''). Use non-sensitive context or ask the user.''"

definition sensitive_patch_block_message :: "string \<Rightarrow> string" where
  "sensitive_patch_block_message p = ''blocked: patch modifies sensitive path '' @ p @ ''.''"

definition SHELL_PUNCTUATION :: string where
  "SHELL_PUNCTUATION = [dquote, squote] @ ''()[]{};,|&<>''"

definition trim_shell_punctuation :: "string \<Rightarrow> string" where
  "trim_shell_punctuation token = trim_matches (\<lambda>ch. ch \<in> set SHELL_PUNCTUATION) token"

definition suffix_after :: "char \<Rightarrow> string \<Rightarrow> string list" where
  "suffix_after c trimmed =
     (case rsplit_once c trimmed of
        Some (_, after) \<Rightarrow> if after \<noteq> [] then [trim_shell_punctuation after] else []
      | None \<Rightarrow> [])"

definition token_path_candidates :: "string \<Rightarrow> string list" where
  "token_path_candidates token =
     (let trimmed = trim_shell_punctuation token in
      if trimmed = [] then []
      else suffix_after (CHR '':'') trimmed @ suffix_after (CHR ''='') trimmed @ [trimmed])"

definition sensitive_path_in_tokens :: "(string \<Rightarrow> string) \<Rightarrow> string list \<Rightarrow> string option" where
  "sensitive_path_in_tokens lower tokens =
     find_map (sensitive_path_display lower) (concat (map token_path_candidates tokens))"

definition tokenize_shell_script :: "(string \<Rightarrow> string list option) \<Rightarrow> string \<Rightarrow> string list option" where
  "tokenize_shell_script shlex_split script =
     (case shlex_split script of
        Some tokens \<Rightarrow> Some tokens
      | None \<Rightarrow> let tokens = split_whitespace script in if tokens \<noteq> [] then Some tokens else None)"

definition MAX_SHELL_WRAPPER_DEPTH :: nat where "MAX_SHELL_WRAPPER_DEPTH = 4"

text \<open>The recursion is on the depth that is left, \<open>MAX_SHELL_WRAPPER_DEPTH - depth\<close>.\<close>

fun sensitive_path_in_command :: "scrub_env \<Rightarrow> nat \<Rightarrow> string list \<Rightarrow> string option" where
  "sensitive_path_in_command env left command =
     (case sensitive_path_in_tokens (sc_to_lowercase env) command of
        Some p \<Rightarrow> Some p
      | None \<Rightarrow>
          (case left of
             0 \<Rightarrow> None
           | Suc left' \<Rightarrow>
               (case Option.bind (parse_shell_lc_plain_commands (sc_bash env) command)
                       (find_map (sensitive_path_in_command env left')) of
                  Some p \<Rightarrow> Some p
                | None \<Rightarrow>
                    (case extract_shell_command command of
                       Some (_, script) \<Rightarrow>
                         (case tokenize_shell_script (sc_shlex_split env) script of
                            Some tokens \<Rightarrow> sensitive_path_in_command env left' tokens
                          | None \<Rightarrow> None)
                     | None \<Rightarrow> None))))"

declare sensitive_path_in_command.simps [simp del]

definition command_block :: "string \<Rightarrow> SensitiveCommandBlock" where
  "command_block p = \<lparr>block_path = p, block_message = sensitive_command_block_message p\<rparr>"

definition sensitive_command_block :: "scrub_env \<Rightarrow> string list \<Rightarrow> SensitiveCommandBlock option" where
  "sensitive_command_block env command =
     map_option command_block (sensitive_path_in_command env MAX_SHELL_WRAPPER_DEPTH command)"

definition sensitive_command_block_from_text :: "scrub_env \<Rightarrow> string \<Rightarrow> SensitiveCommandBlock option" where
  "sensitive_command_block_from_text env command =
     Option.bind (tokenize_shell_script (sc_shlex_split env) command) (sensitive_command_block env)"

section \<open>Redaction\<close>

subsection \<open>Diffs of sensitive files\<close>

definition diff_path_token_to_display_path :: "string \<Rightarrow> string option" where
  "diff_path_token_to_display_path token =
     (let trimmed0 = trim_matches (\<lambda>c. c = dquote) token;
          trimmed = (case strip_prefix ''a/'' trimmed0 of
                       Some t \<Rightarrow> t
                     | None \<Rightarrow> (case strip_prefix ''b/'' trimmed0 of Some t \<Rightarrow> t | None \<Rightarrow> trimmed0))
      in if trimmed \<noteq> [] then Some (forward_slashes trimmed) else None)"

definition newline :: char where "newline = CHR 0x0A"

definition DIFF_HEADER :: string where "DIFF_HEADER = ''diff --git ''"

definition sensitive_diff_block_path :: "(string \<Rightarrow> string) \<Rightarrow> string \<Rightarrow> string option" where
  "sensitive_diff_block_path lower line =
     (if \<not> prefix DIFF_HEADER line then None
      else case split_whitespace line of
             _ # _ # lhs # rhs # _ \<Rightarrow>
               List.find (is_sensitive_path lower)
                 (List.map_filter diff_path_token_to_display_path [lhs, rhs])
           | _ \<Rightarrow> None)"

definition diff_marker :: "string \<Rightarrow> string" where
  "diff_marker p = ''[REDACTED_SENSITIVE_FILE_DIFF path='' @ [dquote] @ p @ [dquote] @ '']''"

text \<open>The outer loop over the lines; the inner loop skips up to the next header.\<close>

function redact_lines :: "(string \<Rightarrow> string) \<Rightarrow> string list \<Rightarrow> string \<times> bool" where
  "redact_lines lower [] = ([], False)"
| "redact_lines lower (line # lines) =
     (case sensitive_diff_block_path lower line of
        Some p \<Rightarrow>
          let (output, _) = redact_lines lower (dropWhile (\<lambda>next. \<not> prefix DIFF_HEADER next) lines)
          in (diff_marker p @ (if ends_with line nl \<or> lines \<noteq> [] then nl else []) @ output, True)
      | None \<Rightarrow>
          let (output, changed) = redact_lines lower lines in (line @ output, changed))"
  by pat_completeness auto
termination
  by (relation "measure (\<lambda>(_, lines). length lines)") (auto simp: le_imp_less_Suc length_dropWhile_le)

definition redact_sensitive_diff_blocks :: "(string \<Rightarrow> string) \<Rightarrow> string \<Rightarrow> SanitizedOutput" where
  "redact_sensitive_diff_blocks lower input =
     (let (output, changed) = redact_lines lower (split_inclusive newline input)
      in \<lparr>so_text = output, so_changed = changed\<rparr>)"

subsection \<open>Secrets\<close>

text \<open>
  The patterns of \<open>sanitizer.rs\<close> with their replacements, in the order they are applied. In
  a literal below a tilde stands for a backslash, an at sign for a double quote and a hash for
  a single quote.
\<close>

definition re_text :: "string \<Rightarrow> string" where
  "re_text s =
     map (\<lambda>c. if c = CHR ''~'' then backslash else if c = CHR ''@'' then dquote
              else if c = CHR ''#'' then squote else c) s"

definition SANITIZER_PATTERNS :: "(string \<times> string) list" where
  "SANITIZER_PATTERNS =
     [(re_text ''sk-[A-Za-z0-9]{20,}'', ''[REDACTED_SECRET]''),
      (re_text ''~bAKIA[0-9A-Z]{16}~b'', ''[REDACTED_SECRET]''),
      (re_text ''(?i)~bBearer~s+[A-Za-z0-9._~-]{16,}~b'', ''Bearer [REDACTED_SECRET]''),
      (re_text ''(?i)~b(api[_-]?key|token|secret|password)~b(~s*[:=]~s*)([@#]?)[^~s@#]{8,}'',
       ''$1$2$3[REDACTED_SECRET]'')]"

definition redact_secrets :: "scrub_env \<Rightarrow> string \<Rightarrow> string" where
  "redact_secrets env input =
     fold (\<lambda>(regex, replacement) text. sc_replace_all env regex replacement text) SANITIZER_PATTERNS input"

definition REDACTION_PATTERNS :: "(string \<times> string) list" where
  "REDACTION_PATTERNS =
     [(re_text ''~b(OPENAI_API_KEY|MINIMAX_API_KEY|MINIMAX_CODING_PLAN_KEY)~s*=~s*[^~s@#]+'',
       ''$1=[REDACTED_SECRET]''),
      (re_text ''(Authorization:~s*Bearer~s+)[A-Za-z0-9._-]+'', ''${1}[REDACTED_SECRET]''),
      (re_text ''(~b(?:api[_-]?key|token|secret|password)~b~s*[:=]~s*)(?:@[^@]+@|#[^#]+#|[^~s@#]+)'',
       ''${1}[REDACTED_SECRET]''),
      (re_text ''~bsk-[A-Za-z0-9_-]{8,}~b'', ''[REDACTED_SECRET]'')]"

definition redact_step :: "scrub_env \<Rightarrow> string \<times> string \<Rightarrow> SanitizedOutput \<Rightarrow> SanitizedOutput" where
  "redact_step env rule s =
     (let next = sc_replace_all env (fst rule) (snd rule) (so_text s)
      in if next \<noteq> so_text s then \<lparr>so_text = next, so_changed = True\<rparr> else s)"

definition redact_secret_patterns :: "scrub_env \<Rightarrow> string \<Rightarrow> SanitizedOutput" where
  "redact_secret_patterns env input =
     (let updated = redact_secrets env input
      in fold (redact_step env) REDACTION_PATTERNS \<lparr>so_text = updated, so_changed = (updated \<noteq> input)\<rparr>)"

definition sanitize_output_text :: "scrub_env \<Rightarrow> string \<Rightarrow> SanitizedOutput" where
  "sanitize_output_text env text =
     (let diff_redacted = redact_sensitive_diff_blocks (sc_to_lowercase env) text;
          secret_redacted = redact_secret_patterns env (so_text diff_redacted)
      in \<lparr>so_text = so_text secret_redacted,
          so_changed = (so_changed diff_redacted \<or> so_changed secret_redacted)\<rparr>)"

subsection \<open>Output of a command\<close>

record StreamOutput =
  out_text :: string
  truncated_after_lines :: "u32 option"

record ExecToolCallOutput =
  exec_exit_code :: int
  exec_stdout :: StreamOutput
  exec_stderr :: StreamOutput
  aggregated_output :: StreamOutput
  exec_duration :: nat
  timed_out :: bool

definition sanitize_stream :: "scrub_env \<Rightarrow> StreamOutput \<Rightarrow> StreamOutput" where
  "sanitize_stream env s =
     \<lparr>out_text = so_text (sanitize_output_text env (out_text s)),
      truncated_after_lines = truncated_after_lines s\<rparr>"

definition sanitize_exec_output :: "scrub_env \<Rightarrow> ExecToolCallOutput \<Rightarrow> ExecToolCallOutput" where
  "sanitize_exec_output env e =
     \<lparr>exec_exit_code = exec_exit_code e,
      exec_stdout = sanitize_stream env (exec_stdout e),
      exec_stderr = sanitize_stream env (exec_stderr e),
      aggregated_output = sanitize_stream env (aggregated_output e),
      exec_duration = exec_duration e, timed_out = timed_out e\<rparr>"

definition sanitize_utf8_lossy_bytes :: "scrub_env \<Rightarrow> string \<Rightarrow> string" where
  "sanitize_utf8_lossy_bytes env bytes = so_text (sanitize_output_text env (sc_from_utf8_lossy env bytes))"

section \<open>Lemmas\<close>

subsection \<open>Commands\<close>

text \<open>The commands that one level of wrapping hides, in the order in which they are examined.\<close>

definition inner_commands :: "scrub_env \<Rightarrow> string list \<Rightarrow> string list list" where
  "inner_commands env command =
     (case parse_shell_lc_plain_commands (sc_bash env) command of Some cs \<Rightarrow> cs | None \<Rightarrow> [])
     @ (case extract_shell_command command of
          Some (_, script) \<Rightarrow>
            (case tokenize_shell_script (sc_shlex_split env) script of Some ts \<Rightarrow> [ts] | None \<Rightarrow> [])
        | None \<Rightarrow> [])"

interpretation sensitive_scan: bounded_scan "inner_commands env"
  "sensitive_path_in_tokens (sc_to_lowercase env)" "sensitive_path_in_command env" for env
proof
  show "sensitive_path_in_command env 0 c = sensitive_path_in_tokens (sc_to_lowercase env) c" for c
    by (simp add: sensitive_path_in_command.simps split: option.split)
  show "sensitive_path_in_command env (Suc n) c =
      (case sensitive_path_in_tokens (sc_to_lowercase env) c of
         Some r \<Rightarrow> Some r
       | None \<Rightarrow> find_map (sensitive_path_in_command env n) (inner_commands env c))" for n c
    by (subst sensitive_path_in_command.simps)
      (simp add: inner_commands_def find_map_append split: option.split prod.split)
qed

lemma sensitive_path_display_None: "sensitive_path_display lower p = None \<longleftrightarrow> \<not> is_sensitive_path lower p"
  by (simp add: sensitive_path_display_def Let_def)

lemma first_sensitive_path_None:
  "first_sensitive_path lower ps = None \<longleftrightarrow> (\<forall>p \<in> set ps. \<not> is_sensitive_path lower p)"
  by (simp add: first_sensitive_path_def find_map_None sensitive_path_display_None)

text \<open>The paths a vector of tokens may name.\<close>

definition names_sensitive :: "(string \<Rightarrow> string) \<Rightarrow> string list \<Rightarrow> bool" where
  "names_sensitive lower tokens =
     list_ex (\<lambda>t. list_ex (is_sensitive_path lower) (token_path_candidates t)) tokens"

lemma sensitive_path_in_tokens_None:
  "sensitive_path_in_tokens lower tokens = None \<longleftrightarrow> \<not> names_sensitive lower tokens"
  by (auto simp: sensitive_path_in_tokens_def find_map_None sensitive_path_display_None
      names_sensitive_def list_ex_iff)

subsection \<open>Lines\<close>

text \<open>A line as \<open>split_inclusive\<close> yields it, and a text as a list of such lines.\<close>

lemma nl_newline: "nl = [newline]"
  by (simp add: nl_def newline_def)

definition line_wf :: "string \<Rightarrow> bool" where
  "line_wf l = (l \<noteq> [] \<and> newline \<notin> set (butlast l))"

fun lines_wf :: "string list \<Rightarrow> bool" where
  "lines_wf [] = True"
| "lines_wf (l # ls) = (line_wf l \<and> (ls \<noteq> [] \<longrightarrow> last l = newline) \<and> lines_wf ls)"

lemma split_inclusive_wf: "lines_wf (split_inclusive newline s)"
proof (induction s)
  case (Cons x s)
  then show ?case
    by (cases "split_inclusive newline s") (auto simp: line_wf_def)
qed simp

lemma concat_split_inclusive: "concat (split_inclusive c s) = s"
proof (induction s)
  case (Cons x s)
  then show ?case by (cases "split_inclusive c s") auto
qed simp

lemma split_inclusive_line:
  "line_wf l \<Longrightarrow> last l = newline \<or> s = [] \<Longrightarrow> split_inclusive newline (l @ s) = l # split_inclusive newline s"
proof (induction l)
  case (Cons x l)
  show ?case
  proof (cases "l = []")
    case False
    with Cons.prems have "line_wf l" "x \<noteq> newline" "last l = newline \<or> s = []"
      by (auto simp: line_wf_def)
    with Cons.IH show ?thesis by simp
  qed (use Cons.prems in \<open>auto simp: line_wf_def\<close>)
qed (simp add: line_wf_def)

lemma split_inclusive_concat: "lines_wf ls \<Longrightarrow> split_inclusive newline (concat ls) = ls"
proof (induction ls)
  case (Cons l ls)
  have "last l = newline \<or> concat ls = []" using Cons.prems by auto
  with Cons show ?case by (simp add: split_inclusive_line)
qed simp

lemma lines_wf_dropWhile: "lines_wf ls \<Longrightarrow> lines_wf (dropWhile p ls)"
  by (induction ls) auto

text \<open>The words of a line contain no line feed.\<close>

lemma str_chars_newline:
  "newline \<notin> set (butlast s) \<Longrightarrow> ch \<in> set (str_chars s) \<Longrightarrow> newline \<in> set ch \<Longrightarrow> ch = [newline]"
proof (induction s rule: str_chars.induct)
  case (2 c s)
  have nc: "\<not> cont_byte newline" by code_simp
  have tw: "newline \<notin> set (takeWhile cont_byte s)" using nc by (auto dest: set_takeWhileD)
  consider "ch = c # takeWhile cont_byte s" | "ch \<in> set (str_chars (dropWhile cont_byte s))"
    using "2.prems"(2) by auto
  then show ?case
  proof cases
    case 1
    with "2.prems"(3) tw have "c = newline" by simp
    with "2.prems"(1) have "s = []" by (cases s) auto
    with 1 \<open>c = newline\<close> show ?thesis by simp
  next
    case 2
    have "newline \<notin> set (butlast (dropWhile cont_byte s))"
    proof
      assume a: "newline \<in> set (butlast (dropWhile cont_byte s))"
      then have "dropWhile cont_byte s \<noteq> []" by (metis butlast.simps(1) emptyE list.set(1))
      then have "butlast s = takeWhile cont_byte s @ butlast (dropWhile cont_byte s)"
        using butlast_append [of "takeWhile cont_byte s" "dropWhile cont_byte s"]
        by (simp only: takeWhile_dropWhile_id if_False)
      with a "2.prems"(1) show False by (cases "s = []") auto
    qed
    with 2 "2.IH" "2.prems"(3) show ?thesis by blast
  qed
qed simp

lemma ws_tokens_newline:
  assumes "\<forall>ch \<in> set cs. newline \<in> set ch \<longrightarrow> ch = [newline]" and "newline \<notin> set token"
    and "w \<in> set (ws_tokens cs token)"
  shows "newline \<notin> set w"
proof -
  have ws: "[newline] \<in> set ws_encodings" by code_simp
  from assms show ?thesis
  proof (induction cs token rule: ws_tokens.induct)
    case (2 c cs token)
    have "newline \<notin> set c" if "c \<notin> set ws_encodings" using "2.prems"(1) ws that by auto
    with 2 show ?case by (auto split: if_splits)
  qed (auto split: if_splits)
qed

lemma split_whitespace_newline: "line_wf l \<Longrightarrow> w \<in> set (split_whitespace l) \<Longrightarrow> newline \<notin> set w"
  unfolding split_whitespace_def line_wf_def
  using ws_tokens_newline [of "str_chars l" "[]" w] str_chars_newline [of l] by auto

subsection \<open>Redaction of diffs\<close>

lemma set_trim_matches: "set (trim_matches p s) \<subseteq> set s"
  by (auto simp: trim_matches_def dest!: set_dropWhileD)

lemma set_forward_slashes: "set (forward_slashes s) \<subseteq> set s \<union> {CHR ''/''}"
  by (auto simp: forward_slashes_def replace_char_def split: if_splits)

lemma diff_path_chars:
  "diff_path_token_to_display_path t = Some p \<Longrightarrow> newline \<notin> set t \<Longrightarrow> newline \<notin> set p"
  using set_trim_matches [of "\<lambda>c. c = dquote" t] set_forward_slashes
  by (fastforce simp: diff_path_token_to_display_path_def Let_def strip_prefix_def newline_def
      dest: in_set_dropD split: if_splits)

lemma sensitive_diff_block_path_newline:
  assumes "sensitive_diff_block_path lower l = Some p" and "line_wf l"
  shows "newline \<notin> set p"
proof -
  obtain w0 w1 lhs rhs ws where w: "split_whitespace l = w0 # w1 # lhs # rhs # ws"
    and "List.find (is_sensitive_path lower) (List.map_filter diff_path_token_to_display_path [lhs, rhs]) = Some p"
    using assms(1) by (auto simp: sensitive_diff_block_path_def split: if_splits list.splits)
  then have "p \<in> set (List.map_filter diff_path_token_to_display_path [lhs, rhs])"
    by (auto simp: find_Some_iff dest: nth_mem)
  then obtain t where t: "t \<in> {lhs, rhs}" "diff_path_token_to_display_path t = Some p"
    by (auto simp: map_filter_simps split: option.splits)
  then have "t \<in> set (split_whitespace l)" by (auto simp: w)
  then have "newline \<notin> set t" by (rule split_whitespace_newline [OF assms(2)])
  with t(2) show ?thesis by (rule diff_path_chars)
qed

lemma marker_line:
  assumes "newline \<notin> set p"
  shows "sensitive_diff_block_path lower (diff_marker p @ e) = None \<and>
     (e = [] \<or> e = nl \<longrightarrow> line_wf (diff_marker p @ e))"
proof -
  have chars: "newline \<notin> set (diff_marker p)" and ne: "diff_marker p \<noteq> []"
    using assms by (simp_all add: diff_marker_def newline_def dquote_def)
  have "\<not> prefix DIFF_HEADER (diff_marker p @ e)"
    by (simp add: DIFF_HEADER_def diff_marker_def)
  moreover have "line_wf (diff_marker p @ nl)" using chars by (simp add: line_wf_def nl_newline butlast_append)
  moreover have "line_wf (diff_marker p)" using chars ne by (auto simp: line_wf_def dest: in_set_butlastD)
  ultimately show ?thesis by (auto simp: sensitive_diff_block_path_def)
qed

text \<open>What the loop yields is a text in lines none of which heads a sensitive diff.\<close>

lemma redact_lines_out:
  assumes "lines_wf ls"
  obtains out where "fst (redact_lines lower ls) = concat out" and "lines_wf out"
    and "out \<noteq> [] \<Longrightarrow> ls \<noteq> []" and "\<forall>l \<in> set out. sensitive_diff_block_path lower l = None"
proof -
  have "\<exists>out. fst (redact_lines lower ls) = concat out \<and> lines_wf out \<and> (out \<noteq> [] \<longrightarrow> ls \<noteq> []) \<and>
      (\<forall>l \<in> set out. sensitive_diff_block_path lower l = None)"
    using assms
  proof (induction lower ls rule: redact_lines.induct)
    case (2 lower line lines)
    let ?rest = "dropWhile (\<lambda>next. \<not> prefix DIFF_HEADER next) lines"
    show ?case
    proof (cases "sensitive_diff_block_path lower line")
      case None
      from "2.IH"(1) [OF None] "2.prems" obtain out where
        "fst (redact_lines lower lines) = concat out" "lines_wf out" "out \<noteq> [] \<longrightarrow> lines \<noteq> []"
        "\<forall>l \<in> set out. sensitive_diff_block_path lower l = None" by auto
      with None "2.prems" show ?thesis
        by (intro exI [of _ "line # out"]) (auto simp: split_beta)
    next
      case (Some p)
      let ?e = "if ends_with line nl \<or> lines \<noteq> [] then nl else []"
      from "2.IH"(2) [OF Some] "2.prems" lines_wf_dropWhile obtain out where
        out: "fst (redact_lines lower ?rest) = concat out" "lines_wf out" "out \<noteq> [] \<longrightarrow> ?rest \<noteq> []"
        "\<forall>l \<in> set out. sensitive_diff_block_path lower l = None" by fastforce
      have "newline \<notin> set p" using sensitive_diff_block_path_newline [OF Some] "2.prems" by simp
      note m = marker_line [OF this, of lower ?e]
      have "out \<noteq> [] \<longrightarrow> last (diff_marker p @ ?e) = newline" using out(3) by (auto simp: nl_newline)
      with Some out m show ?thesis
        by (intro exI [of _ "(diff_marker p @ ?e) # out"]) (simp add: split_beta)
    qed
  qed simp
  with that show ?thesis by blast
qed

lemma redact_lines_clean:
  "\<forall>l \<in> set ls. sensitive_diff_block_path lower l = None \<Longrightarrow> redact_lines lower ls = (concat ls, False)"
  by (induction ls) auto

lemma redact_lines_changed:
  "snd (redact_lines lower ls) \<longleftrightarrow> fst (redact_lines lower ls) \<noteq> concat ls"
proof (induction lower ls rule: redact_lines.induct)
  case (2 lower line lines)
  show ?case
  proof (cases "sensitive_diff_block_path lower line")
    case None
    with "2.IH"(1) [OF None] show ?thesis by (simp add: split_beta)
  next
    case (Some p)
    then have "prefix DIFF_HEADER line" by (simp add: sensitive_diff_block_path_def split: if_splits)
    then obtain r where "line = DIFF_HEADER @ r" by (auto simp: prefix_def)
    with Some show ?thesis by (simp add: split_beta diff_marker_def DIFF_HEADER_def)
  qed
qed simp

section \<open>Properties\<close>

text \<open>
  C29. A command is refused exactly when it, or a command at most four shell wrappers inside it,
  has a token that names a sensitive path: as it stands, behind its last colon or behind its
  last equals sign, and without surrounding punctuation.
\<close>

theorem sensitive_command_block_iff:
  "sensitive_command_block env command \<noteq> None \<longleftrightarrow>
     (\<exists>d. unwraps (inner_commands env) 4 command d \<and> names_sensitive (sc_to_lowercase env) d)"
  using sensitive_scan.scan_None [of env 4 command]
  by (auto simp: sensitive_command_block_def MAX_SHELL_WRAPPER_DEPTH_def sensitive_path_in_tokens_None)


end
