(* ===== verification/Str_Truncate.thy ===== *)
theory Str_Truncate
  imports Prelude
begin

text \<open>
  Cutting text to a budget: \<open>utils/string/src/lib.rs\<close> and \<open>truncate.rs\<close>, and
  \<open>utils/output-truncation/src/lib.rs\<close>. A \<open>usize\<close> and a \<open>u64\<close> are natural numbers below
  $2^{64}$ with the saturating operations written out.
\<close>

definition USIZE_MAX :: nat where "USIZE_MAX = 2 ^ 64 - 1"

definition sat_add :: "nat \<Rightarrow> nat \<Rightarrow> nat" where "sat_add a b = min USIZE_MAX (a + b)"

definition sat_mul :: "nat \<Rightarrow> nat \<Rightarrow> nat" where "sat_mul a b = min USIZE_MAX (a * b)"

section \<open>utils/string/src/lib.rs\<close>

text \<open>\<open>char_indices()\<close>.\<close>

fun indices_from :: "nat \<Rightarrow> string list \<Rightarrow> (nat \<times> string) list" where
  "indices_from i [] = []"
| "indices_from i (c # cs) = (i, c) # indices_from (i + length c) cs"

definition char_indices :: "string \<Rightarrow> (nat \<times> string) list" where
  "char_indices s = indices_from 0 (str_chars s)"

fun last_ok_loop :: "nat \<Rightarrow> nat \<Rightarrow> (nat \<times> string) list \<Rightarrow> nat" where
  "last_ok_loop maxb last_ok [] = last_ok"
| "last_ok_loop maxb last_ok ((i, ch) # rest) =
     (let nb = i + length ch in if maxb < nb then last_ok else last_ok_loop maxb nb rest)"

definition take_bytes_at_char_boundary :: "string \<Rightarrow> nat \<Rightarrow> string" where
  "take_bytes_at_char_boundary s maxb =
     (if length s \<le> maxb then s else take (last_ok_loop maxb 0 (char_indices s)) s)"

definition is_ascii_alnum :: "char \<Rightarrow> bool" where
  "is_ascii_alnum c =
     (let n = (of_char c :: nat) in 48 \<le> n \<and> n \<le> 57 \<or> 65 \<le> n \<and> n \<le> 90 \<or> 97 \<le> n \<and> n \<le> 122)"

text \<open>The characters kept, one underscore for any other character.\<close>

definition tag_char :: "string \<Rightarrow> char" where
  "tag_char ch =
     (if \<not> cont_byte (hd ch) \<and> length ch = 1 \<and> (is_ascii_alnum (hd ch) \<or> hd ch \<in> set ''._-/'')
      then hd ch else CHR ''_'')"

definition sanitize_metric_tag_value :: "string \<Rightarrow> string" where
  "sanitize_metric_tag_value v =
     (let sanitized = map tag_char (str_chars v);
          trimmed = trim_matches (\<lambda>c. c = CHR ''_'') sanitized
      in if trimmed = [] \<or> list_all (\<lambda>c. \<not> is_ascii_alnum c) trimmed then ''unspecified''
         else if length trimmed \<le> 256 then trimmed else take 256 trimmed)"

definition parse_markdown_hash_location_point :: "string \<Rightarrow> (string \<times> string option) option" where
  "parse_markdown_hash_location_point point =
     map_option
       (\<lambda>p. case split_once (CHR ''C'') p of
              Some (line, column) \<Rightarrow> (line, Some column)
            | None \<Rightarrow> (p, None))
       (strip_prefix ''L'' point)"

definition location_str :: "string \<times> string option \<Rightarrow> string" where
  "location_str p = fst p @ (case snd p of Some column \<Rightarrow> '':'' @ column | None \<Rightarrow> [])"

definition normalize_markdown_hash_location_suffix :: "string \<Rightarrow> string option" where
  "normalize_markdown_hash_location_suffix sfx =
     Option.bind (strip_prefix ''#'' sfx)
       (\<lambda>fragment.
          let (start, end_opt) =
                (case split_once (CHR ''-'') fragment of
                   Some (a, b) \<Rightarrow> (a, Some b)
                 | None \<Rightarrow> (fragment, None))
          in Option.bind (parse_markdown_hash_location_point start)
               (\<lambda>p. case end_opt of
                      None \<Rightarrow> Some ('':'' @ location_str p)
                    | Some e \<Rightarrow>
                        map_option (\<lambda>q. '':'' @ location_str p @ ''-'' @ location_str q)
                          (parse_markdown_hash_location_point e)))"

section \<open>truncate.rs\<close>

definition APPROX_BYTES_PER_TOKEN :: nat where "APPROX_BYTES_PER_TOKEN = 4"

definition approx_token_count :: "string \<Rightarrow> nat" where
  "approx_token_count text =
     sat_add (length text) (APPROX_BYTES_PER_TOKEN - 1) div APPROX_BYTES_PER_TOKEN"

definition approx_bytes_for_tokens :: "nat \<Rightarrow> nat" where
  "approx_bytes_for_tokens tokens = sat_mul tokens APPROX_BYTES_PER_TOKEN"

definition approx_tokens_from_byte_count :: "nat \<Rightarrow> nat" where
  "approx_tokens_from_byte_count bytes =
     sat_add bytes (APPROX_BYTES_PER_TOKEN - 1) div APPROX_BYTES_PER_TOKEN"

definition split_budget :: "nat \<Rightarrow> nat \<times> nat" where
  "split_budget budget = (budget div 2, budget - budget div 2)"

record split_state =
  prefix_end :: nat
  suffix_start :: nat
  removed_chars :: nat
  suffix_started :: bool

definition split_step :: "nat \<Rightarrow> nat \<Rightarrow> nat \<times> string \<Rightarrow> split_state \<Rightarrow> split_state" where
  "split_step beginning_bytes tail_start_target p st =
     (let (idx, ch) = p; char_end = idx + length ch in
      if char_end \<le> beginning_bytes then st\<lparr>prefix_end := char_end\<rparr>
      else if tail_start_target \<le> idx then
        (if \<not> suffix_started st then st\<lparr>suffix_start := idx, suffix_started := True\<rparr> else st)
      else st\<lparr>removed_chars := sat_add (removed_chars st) 1\<rparr>)"

definition split_string :: "string \<Rightarrow> nat \<Rightarrow> nat \<Rightarrow> nat \<times> string \<times> string" where
  "split_string s beginning_bytes end_bytes =
     (if s = [] then (0, [], [])
      else let len = length s;
               st = fold (split_step beginning_bytes (len - end_bytes)) (char_indices s)
                      \<lparr>prefix_end = 0, suffix_start = len, removed_chars = 0, suffix_started = False\<rparr>;
               sstart = (if suffix_start st < prefix_end st then prefix_end st else suffix_start st)
           in (removed_chars st, take (prefix_end st) s, drop sstart s))"

definition ellipsis :: string where "ellipsis = [CHR 0xE2, CHR 0x80, CHR 0xA6]"

definition format_truncation_marker :: "bool \<Rightarrow> nat \<Rightarrow> string" where
  "format_truncation_marker use_tokens removed_count =
     ellipsis @ nat_str removed_count @ (if use_tokens then '' tokens truncated'' else '' chars truncated'')
     @ ellipsis"

definition removed_units :: "bool \<Rightarrow> nat \<Rightarrow> nat \<Rightarrow> nat" where
  "removed_units use_tokens removed_bytes rem_chars =
     (if use_tokens then approx_tokens_from_byte_count removed_bytes else rem_chars)"

definition truncate_with_byte_estimate :: "string \<Rightarrow> nat \<Rightarrow> bool \<Rightarrow> string" where
  "truncate_with_byte_estimate s max_bytes use_tokens =
     (if s = [] then []
      else let total_chars = length (str_chars s) in
      if max_bytes = 0 then
        format_truncation_marker use_tokens (removed_units use_tokens (length s) total_chars)
      else if length s \<le> max_bytes then s
      else let (left_budget, right_budget) = split_budget max_bytes;
               (rem_chars, left, right) = split_string s left_budget right_budget;
               marker = format_truncation_marker use_tokens
                          (removed_units use_tokens (length s - max_bytes) rem_chars)
           in left @ marker @ right)"

definition truncate_middle_chars :: "string \<Rightarrow> nat \<Rightarrow> string" where
  "truncate_middle_chars s max_bytes = truncate_with_byte_estimate s max_bytes False"

definition truncate_middle_with_token_budget :: "string \<Rightarrow> nat \<Rightarrow> string \<times> nat option" where
  "truncate_middle_with_token_budget s max_tokens =
     (if s = [] then ([], None)
      else if 0 < max_tokens \<and> length s \<le> approx_bytes_for_tokens max_tokens then (s, None)
      else let truncated = truncate_with_byte_estimate s (approx_bytes_for_tokens max_tokens) True;
               total_tokens = approx_token_count s
           in if truncated = s then (truncated, None) else (truncated, Some total_tokens))"

section \<open>output-truncation\<close>

datatype TruncationPolicy = Bytes nat | Tokens nat

fun token_budget :: "TruncationPolicy \<Rightarrow> nat" where
  "token_budget (Bytes bytes) = approx_tokens_from_byte_count bytes"
| "token_budget (Tokens tokens) = tokens"

fun byte_budget :: "TruncationPolicy \<Rightarrow> nat" where
  "byte_budget (Bytes bytes) = bytes"
| "byte_budget (Tokens tokens) = approx_bytes_for_tokens tokens"

fun truncate_text :: "string \<Rightarrow> TruncationPolicy \<Rightarrow> string" where
  "truncate_text content (Bytes bytes) = truncate_middle_chars content bytes"
| "truncate_text content (Tokens tokens) = fst (truncate_middle_with_token_budget content tokens)"

definition formatted_truncate_text :: "string \<Rightarrow> TruncationPolicy \<Rightarrow> string" where
  "formatted_truncate_text content policy =
     (if length content \<le> byte_budget policy then content
      else ''Total output lines: '' @ nat_str (length (str_lines content)) @ nl @ nl
           @ truncate_text content policy)"

text \<open>The detail of an image is carried along and never read.\<close>

datatype 'd content_item = InputText string | InputImage string "'d option"

definition item_text :: "'d content_item \<Rightarrow> string option" where
  "item_text item = (case item of InputText text \<Rightarrow> Some text | InputImage _ _ \<Rightarrow> None)"

definition is_image :: "'d content_item \<Rightarrow> bool" where
  "is_image item = (case item of InputText _ \<Rightarrow> False | InputImage _ _ \<Rightarrow> True)"

definition push_line :: "string \<Rightarrow> string \<Rightarrow> string" where
  "push_line text combined = (if combined \<noteq> [] then combined @ nl else combined) @ text"

definition formatted_truncate_text_content_items_with_policy ::
    "'d content_item list \<Rightarrow> TruncationPolicy \<Rightarrow> 'd content_item list \<times> nat option" where
  "formatted_truncate_text_content_items_with_policy items policy =
     (let text_segments = List.map_filter item_text items in
      if text_segments = [] then (items, None)
      else let combined = fold push_line text_segments [] in
      if length combined \<le> byte_budget policy then (items, None)
      else (InputText (formatted_truncate_text combined policy) # filter is_image items,
            Some (approx_token_count combined)))"

fun text_cost :: "TruncationPolicy \<Rightarrow> string \<Rightarrow> nat" where
  "text_cost (Bytes _) text = length text"
| "text_cost (Tokens _) text = approx_token_count text"

fun with_budget :: "TruncationPolicy \<Rightarrow> nat \<Rightarrow> TruncationPolicy" where
  "with_budget (Bytes _) b = Bytes b"
| "with_budget (Tokens _) b = Tokens b"

text \<open>The loop: the items kept so far, the budget left and the number of texts left out.\<close>

fun truncate_items_loop ::
    "TruncationPolicy \<Rightarrow> 'd content_item list \<Rightarrow> nat \<Rightarrow> 'd content_item list \<times> nat" where
  "truncate_items_loop policy [] remaining = ([], 0)"
| "truncate_items_loop policy (InputText text # items) remaining =
     (if remaining = 0 then
        let (out, omitted) = truncate_items_loop policy items 0 in (out, omitted + 1)
      else if text_cost policy text \<le> remaining then
        let (out, omitted) = truncate_items_loop policy items (remaining - text_cost policy text)
        in (InputText text # out, omitted)
      else let snippet = truncate_text text (with_budget policy remaining);
               (out, omitted) = truncate_items_loop policy items 0
           in if snippet = [] then (out, omitted + 1) else (InputText snippet # out, omitted))"
| "truncate_items_loop policy (InputImage url detail # items) remaining =
     (let (out, omitted) = truncate_items_loop policy items remaining
      in (InputImage url detail # out, omitted))"

definition truncate_function_output_items_with_policy ::
    "'d content_item list \<Rightarrow> TruncationPolicy \<Rightarrow> 'd content_item list" where
  "truncate_function_output_items_with_policy items policy =
     (let remaining = (case policy of Bytes _ \<Rightarrow> byte_budget policy | Tokens _ \<Rightarrow> token_budget policy);
          (out, omitted) = truncate_items_loop policy items remaining
      in out @ (if 0 < omitted then [InputText (''[omitted '' @ nat_str omitted @ '' text items ...]'')] else []))"

definition approx_tokens_from_byte_count_i64 :: "int \<Rightarrow> int" where
  "approx_tokens_from_byte_count_i64 bytes =
     (if bytes \<le> 0 then 0
      else min (2 ^ 63 - 1) (int (approx_tokens_from_byte_count (min USIZE_MAX (nat bytes)))))"

section \<open>Lemmas\<close>

lemma concat_str_chars: "concat (str_chars s) = s"
  by (induction s rule: str_chars.induct) auto

lemma str_chars_nonempty: "c \<in> set (str_chars s) \<Longrightarrow> c \<noteq> []"
  by (induction s rule: str_chars.induct) auto

lemma length_str_chars: "length (str_chars s) \<le> length s"
proof -
  have "\<forall>c \<in> set cs. c \<noteq> [] \<Longrightarrow> length cs \<le> length (concat cs)" for cs :: "string list"
    by (induction cs) (auto simp: Suc_le_eq neq_Nil_conv)
  from this [of "str_chars s"] str_chars_nonempty [of _ s] show ?thesis
    unfolding concat_str_chars by blast
qed

lemma concat_take_le: "length (concat (take k cs)) \<le> length (concat cs)"
  by (metis append_take_drop_id concat_append le_add1 length_append)

subsection \<open>A prefix within a budget\<close>

lemma last_ok_loop_take:
  "\<exists>k \<le> length cs. last_ok_loop maxb i (indices_from i cs) = i + length (concat (take k cs)) \<and>
     (i \<le> maxb \<longrightarrow> i + length (concat (take k cs)) \<le> maxb) \<and>
     (k < length cs \<longrightarrow> maxb < i + length (concat (take (Suc k) cs)))"
proof (induction cs arbitrary: i)
  case (Cons c cs)
  show ?case
  proof (cases "maxb < i + length c")
    case True
    then show ?thesis by (intro exI [of _ 0]) simp
  next
    case False
    obtain k where "k \<le> length cs"
      "last_ok_loop maxb (i + length c) (indices_from (i + length c) cs) = i + length c + length (concat (take k cs))"
      "i + length c \<le> maxb \<longrightarrow> i + length c + length (concat (take k cs)) \<le> maxb"
      "k < length cs \<longrightarrow> maxb < i + length c + length (concat (take (Suc k) cs))"
      using Cons.IH [of "i + length c"] by blast
    with False show ?thesis by (intro exI [of _ "Suc k"]) (simp add: add.assoc)
  qed
qed simp

lemma take_concat: "take (length (concat (take k cs))) (concat cs) = concat (take k cs)"
  by (metis append_eq_conv_conj append_take_drop_id concat_append)

text \<open>The longest prefix that fits, at the end of a character.\<close>

lemma take_bytes_spec:
  obtains k where "take_bytes_at_char_boundary s maxb = concat (take k (str_chars s))"
    and "k \<le> length (str_chars s)" and "length (take_bytes_at_char_boundary s maxb) \<le> maxb"
    and "k < length (str_chars s) \<Longrightarrow> maxb < length (concat (take (Suc k) (str_chars s)))"
proof (cases "length s \<le> maxb")
  case True
  then show ?thesis
    by (intro that [of "length (str_chars s)"]) (simp_all add: take_bytes_at_char_boundary_def concat_str_chars)
next
  case False
  obtain k where k: "k \<le> length (str_chars s)"
    "last_ok_loop maxb 0 (char_indices s) = length (concat (take k (str_chars s)))"
    "length (concat (take k (str_chars s))) \<le> maxb"
    "k < length (str_chars s) \<longrightarrow> maxb < length (concat (take (Suc k) (str_chars s)))"
    using last_ok_loop_take [of "str_chars s" maxb 0] by (auto simp: char_indices_def)
  with False have "take_bytes_at_char_boundary s maxb = concat (take k (str_chars s))"
    using take_concat [of k "str_chars s"]
    by (simp add: take_bytes_at_char_boundary_def concat_str_chars)
  with k that show ?thesis by simp
qed

lemma take_bytes_prefix: "prefix (take_bytes_at_char_boundary s maxb) s"
  by (simp add: take_bytes_at_char_boundary_def take_is_prefix)

lemma take_bytes_length: "length (take_bytes_at_char_boundary s maxb) \<le> maxb"
  by (metis take_bytes_spec)

subsection \<open>Cutting out the middle\<close>

lemma split_step_cases:
  "i + length c \<le> b \<Longrightarrow> split_step b t (i, c) st = st\<lparr>prefix_end := i + length c\<rparr>"
  "b < i + length c \<Longrightarrow> t \<le> i \<Longrightarrow> suffix_started st \<Longrightarrow> split_step b t (i, c) st = st"
  "b < i + length c \<Longrightarrow> t \<le> i \<Longrightarrow> \<not> suffix_started st \<Longrightarrow>
     split_step b t (i, c) st = st\<lparr>suffix_start := i, suffix_started := True\<rparr>"
  "b < i + length c \<Longrightarrow> i < t \<Longrightarrow> removed_chars st < USIZE_MAX \<Longrightarrow>
     split_step b t (i, c) st = st\<lparr>removed_chars := removed_chars st + 1\<rparr>"
  by (simp_all add: split_step_def sat_add_def)

lemma split_prefix_phase:
  "prefix_end st = i \<Longrightarrow>
   \<exists>ps rest. cs = ps @ rest \<and>
     fold (split_step b t) (indices_from i cs) st =
       fold (split_step b t) (indices_from (i + length (concat ps)) rest)
         (st\<lparr>prefix_end := i + length (concat ps)\<rparr>) \<and>
     (ps \<noteq> [] \<longrightarrow> i + length (concat ps) \<le> b) \<and>
     (rest \<noteq> [] \<longrightarrow> b < i + length (concat ps) + length (hd rest))"
proof (induction cs arbitrary: i st)
  case (Cons c cs)
  show ?case
  proof (cases "i + length c \<le> b")
    case True
    obtain ps rest where IH: "cs = ps @ rest"
      "fold (split_step b t) (indices_from (i + length c) cs) (st\<lparr>prefix_end := i + length c\<rparr>) =
         fold (split_step b t) (indices_from (i + length c + length (concat ps)) rest)
           (st\<lparr>prefix_end := i + length c + length (concat ps)\<rparr>)"
      "ps \<noteq> [] \<longrightarrow> i + length c + length (concat ps) \<le> b"
      "rest \<noteq> [] \<longrightarrow> b < i + length c + length (concat ps) + length (hd rest)"
      using Cons.IH [of "st\<lparr>prefix_end := i + length c\<rparr>" "i + length c"] by auto
    show ?thesis
      by (rule exI [of _ "c # ps"], rule exI [of _ rest])
        (use True IH in \<open>auto simp: split_step_cases(1) add.assoc\<close>)
  next
    case False
    with Cons.prems show ?thesis
      by (intro exI [of _ "[]"] exI [of _ "c # cs"]) auto
  qed
qed auto

lemma split_suffix_phase:
  "suffix_started st \<Longrightarrow> t \<le> i \<Longrightarrow> \<forall>c \<in> set cs. c \<noteq> [] \<Longrightarrow> b \<le> i \<Longrightarrow>
   fold (split_step b t) (indices_from i cs) st = st"
  by (induction cs arbitrary: i) (auto simp: split_step_cases(2) neq_Nil_conv)

lemma split_middle_phase:
  assumes "\<not> suffix_started st" and "\<forall>c \<in> set cs. c \<noteq> []" and "cs \<noteq> [] \<longrightarrow> b < i + length (hd cs)"
    and "removed_chars st + length cs \<le> USIZE_MAX"
  shows "\<exists>ms qs. cs = ms @ qs \<and>
     fold (split_step b t) (indices_from i cs) st =
       (if qs = [] then st\<lparr>removed_chars := removed_chars st + length ms\<rparr>
        else st\<lparr>removed_chars := removed_chars st + length ms,
                suffix_start := i + length (concat ms), suffix_started := True\<rparr>) \<and>
     (qs \<noteq> [] \<longrightarrow> t \<le> i + length (concat ms)) \<and>
     (ms \<noteq> [] \<longrightarrow> i + length (concat (butlast ms)) < t)"
  using assms
proof (induction cs arbitrary: i st)
  case Nil
  then show ?case by simp
next
  case (Cons c cs)
  have c: "c \<noteq> []" "b < i + length c" using Cons.prems by auto
  show ?case
  proof (cases "t \<le> i")
    case True
    let ?st = "st\<lparr>suffix_start := i, suffix_started := True\<rparr>"
    have "fold (split_step b t) (indices_from (i + length c) cs) ?st = ?st"
      using Cons.prems True c by (intro split_suffix_phase) auto
    with True c Cons.prems show ?thesis
      by (intro exI [of _ "[]"] exI [of _ "c # cs"]) (simp add: split_step_cases(3))
  next
    case False
    let ?st = "st\<lparr>removed_chars := removed_chars st + 1\<rparr>"
    have step: "split_step b t (i, c) st = ?st"
      using False c Cons.prems by (intro split_step_cases(4)) auto
    have "cs \<noteq> [] \<longrightarrow> b < (i + length c) + length (hd cs)" using c by auto
    then obtain ms qs where IH: "cs = ms @ qs"
      "fold (split_step b t) (indices_from (i + length c) cs) ?st =
         (if qs = [] then ?st\<lparr>removed_chars := removed_chars ?st + length ms\<rparr>
          else ?st\<lparr>removed_chars := removed_chars ?st + length ms,
                   suffix_start := i + length c + length (concat ms), suffix_started := True\<rparr>)"
      "qs \<noteq> [] \<longrightarrow> t \<le> i + length c + length (concat ms)"
      "ms \<noteq> [] \<longrightarrow> i + length c + length (concat (butlast ms)) < t"
      using Cons.IH [of ?st "i + length c"] Cons.prems by auto
    show ?thesis
      by (rule exI [of _ "c # ms"], rule exI [of _ qs])
        (use step False IH in \<open>auto simp: add.assoc\<close>)
  qed
qed

text \<open>The three parts of a string: a prefix, the characters left out and a suffix.\<close>

lemma split_string_parts:
  assumes "s \<noteq> []" and "length s \<le> USIZE_MAX"
  obtains ps ms qs where "str_chars s = ps @ ms @ qs"
    and "split_string s b e = (length ms, concat ps, concat qs)"
    and "length (concat ps) \<le> b" and "length (concat qs) \<le> e"
    and "ms \<noteq> [] \<Longrightarrow> b < length (concat (ps @ [hd ms]))"
    and "ms \<noteq> [] \<Longrightarrow> e < length (concat (last ms # qs))"
proof -
  let ?n = "length s" and ?t = "length s - e"
  let ?st = "\<lparr>prefix_end = 0, suffix_start = ?n, removed_chars = 0, suffix_started = False\<rparr>"
  obtain ps rest where p: "str_chars s = ps @ rest"
    "fold (split_step b ?t) (char_indices s) ?st =
       fold (split_step b ?t) (indices_from (length (concat ps)) rest) (?st\<lparr>prefix_end := length (concat ps)\<rparr>)"
    "length (concat ps) \<le> b" "rest \<noteq> [] \<longrightarrow> b < length (concat ps) + length (hd rest)"
    using split_prefix_phase [of ?st 0 "str_chars s" b ?t] unfolding char_indices_def by force
  define st' where "st' = ?st\<lparr>prefix_end := length (concat ps)\<rparr>"
  have st': "prefix_end st' = length (concat ps)" "suffix_start st' = ?n" "removed_chars st' = 0"
    "\<not> suffix_started st'" by (simp_all add: st'_def)
  have "\<forall>c \<in> set rest. c \<noteq> []" using str_chars_nonempty [of _ s] p(1) by auto
  moreover have "removed_chars st' + length rest \<le> USIZE_MAX"
    using length_str_chars [of s] p(1) assms(2) st'(3) by simp
  ultimately have "\<exists>ms qs. rest = ms @ qs \<and>
      fold (split_step b ?t) (indices_from (length (concat ps)) rest) st' =
       (if qs = [] then st'\<lparr>removed_chars := removed_chars st' + length ms\<rparr>
        else st'\<lparr>removed_chars := removed_chars st' + length ms,
                 suffix_start := length (concat ps) + length (concat ms), suffix_started := True\<rparr>) \<and>
      (qs \<noteq> [] \<longrightarrow> ?t \<le> length (concat ps) + length (concat ms)) \<and>
      (ms \<noteq> [] \<longrightarrow> length (concat ps) + length (concat (butlast ms)) < ?t)"
    using split_middle_phase [OF st'(4) _ p(4)] by blast
  then obtain ms qs where m: "rest = ms @ qs"
    "fold (split_step b ?t) (indices_from (length (concat ps)) rest) st' =
       (if qs = [] then st'\<lparr>removed_chars := length ms\<rparr>
        else st'\<lparr>removed_chars := length ms, suffix_start := length (concat ps) + length (concat ms),
                  suffix_started := True\<rparr>)"
    "qs \<noteq> [] \<longrightarrow> ?t \<le> length (concat ps) + length (concat ms)"
    "ms \<noteq> [] \<longrightarrow> length (concat ps) + length (concat (butlast ms)) < ?t"
    unfolding st'(3) add_0 by blast
  have str: "s = concat ps @ concat ms @ concat qs"
    using concat_str_chars [of s] p(1) m(1) by simp
  define F where "F = fold (split_step b ?t) (char_indices s) ?st"
  have F: "F = (if qs = [] then st'\<lparr>removed_chars := length ms\<rparr>
      else st'\<lparr>removed_chars := length ms, suffix_start := length (concat ps) + length (concat ms),
               suffix_started := True\<rparr>)"
    unfolding F_def p(2) by (fold st'_def) (rule m(2))
  have "prefix_end F = length (concat ps)" "removed_chars F = length ms" using F st' by simp_all
  moreover have "suffix_start F = length (concat ps) + length (concat ms)"
    using F st' arg_cong [OF str, of length] by simp
  ultimately have "split_string s b e = (length ms, take (length (concat ps)) s,
      drop (length (concat ps) + length (concat ms)) s)"
    using assms(1) by (simp add: split_string_def Let_def flip: F_def)
  moreover have "take (length (concat ps)) s = concat ps"
    "drop (length (concat ps) + length (concat ms)) s = concat qs"
    by (subst str, simp)+
  ultimately have "split_string s b e = (length ms, concat ps, concat qs)" by simp
  moreover have "length (concat qs) \<le> e"
    using m(3) arg_cong [OF str, of length] by (cases "qs = []") auto
  moreover have "b < length (concat (ps @ [hd ms]))" if "ms \<noteq> []" using p(4) m(1) that by simp
  moreover have "e < length (concat (last ms # qs))" if "ms \<noteq> []"
  proof -
    have "length (concat ms) = length (concat (butlast ms)) + length (last ms)"
      using that by (metis append_butlast_last_id concat_append concat.simps append_Nil2 length_append)
    then show ?thesis using m(4) that arg_cong [OF str, of length] by auto
  qed
  ultimately show ?thesis using that p(1,3) m(1) by simp
qed

section \<open>Properties\<close>

text \<open>
  C32. Truncation in the middle. For a text longer than a positive budget the result is a prefix
  of the text, a marker and a suffix of the text, cut between characters. The prefix is the
  longest one within half of the budget, the suffix the longest one within the other half that
  does not overlap it, so at most \<open>max_bytes\<close> bytes of the text are kept; the marker counts
  exactly the characters between them, or the tokens of the bytes over the budget.
\<close>

theorem truncate_middle_spec:
  assumes "0 < max_bytes" and "max_bytes < length s" and "length s \<le> USIZE_MAX"
  shows "\<exists>ps ms qs. str_chars s = ps @ ms @ qs \<and> ms \<noteq> [] \<and>
    truncate_with_byte_estimate s max_bytes use_tokens =
      concat ps @ format_truncation_marker use_tokens
        (if use_tokens then approx_tokens_from_byte_count (length s - max_bytes) else length ms)
      @ concat qs \<and>
    length (concat ps) \<le> max_bytes div 2 \<and> length (concat ps) + length (concat qs) \<le> max_bytes \<and>
    max_bytes div 2 < length (concat (ps @ [hd ms])) \<and>
    max_bytes - max_bytes div 2 < length (concat (last ms # qs))"
proof -
  have ne: "s \<noteq> []" using assms by auto
  from split_string_parts [OF ne assms(3), of "max_bytes div 2" "max_bytes - max_bytes div 2"]
  obtain ps ms qs where p: "str_chars s = ps @ ms @ qs"
    "split_string s (max_bytes div 2) (max_bytes - max_bytes div 2) = (length ms, concat ps, concat qs)"
    "length (concat ps) \<le> max_bytes div 2" "length (concat qs) \<le> max_bytes - max_bytes div 2"
    "ms \<noteq> [] \<Longrightarrow> max_bytes div 2 < length (concat (ps @ [hd ms]))"
    "ms \<noteq> [] \<Longrightarrow> max_bytes - max_bytes div 2 < length (concat (last ms # qs))"
    by metis
  have "ms \<noteq> []"
  proof
    assume "ms = []"
    then have "length s = length (concat ps) + length (concat qs)"
      using concat_str_chars [of s] p(1) by (metis append_Nil concat_append length_append)
    with p(3,4) assms(2) show False by simp
  qed
  moreover have "truncate_with_byte_estimate s max_bytes use_tokens =
      concat ps @ format_truncation_marker use_tokens
        (if use_tokens then approx_tokens_from_byte_count (length s - max_bytes) else length ms)
      @ concat qs"
    using assms ne p(2)
    by (simp add: truncate_with_byte_estimate_def Let_def split_budget_def removed_units_def)
  ultimately show ?thesis using p(1,3,4,5,6) by (intro exI [of _ ps] exI [of _ ms] exI [of _ qs]) simp
qed

theorem truncate_middle_spec_witness:
  "\<exists>ps ms qs. str_chars ''abcdefgh'' = ps @ ms @ qs \<and>
    truncate_with_byte_estimate ''abcdefgh'' 4 False =
      concat ps @ format_truncation_marker False (length ms) @ concat qs"
proof -
  have "0 < (4 :: nat)" "4 < length ''abcdefgh''" "length ''abcdefgh'' \<le> USIZE_MAX"
    by (simp_all add: USIZE_MAX_def)
  from truncate_middle_spec [OF this, of False] show ?thesis unfolding if_False by blast
qed

end
