(* ===== verification/Context_Packer.thy ===== *)
theory Context_Packer
  imports Sensitive_Output Str_Truncate "HOL-Library.List_Lexorder" "HOL-Library.Char_ord"
begin

text \<open>
  The local context that a delegated task takes along:
  \<open>core/src/minimax_delegate/context_packer.rs\<close> and \<open>git_status.rs\<close>, and the search for the
  repository root of \<open>git-utils/src/info.rs\<close>.

  The file system, the output of \<open>git status\<close> and regular expressions come from the
  environment. A path is the string the program holds; paths are compared by their components.
\<close>

record git_output =
  git_success :: bool
  git_status_display :: string
  git_stdout :: string
  git_stderr :: string

record pack_env =
  pk_scrub :: scrub_env
  pk_exists :: "string \<Rightarrow> bool"
  pk_is_dir :: "string \<Rightarrow> bool"
  pk_canonicalize :: "string \<Rightarrow> string option"
  pk_read :: "string \<Rightarrow> string option"
  pk_git_status :: "string \<Rightarrow> string + git_output"
  pk_str_debug :: "string \<Rightarrow> string"
  pk_is_match :: "string \<Rightarrow> string \<Rightarrow> bool"

abbreviation lower_of :: "pack_env \<Rightarrow> string \<Rightarrow> string" where
  "lower_of env \<equiv> sc_to_lowercase (pk_scrub env)"

section \<open>Paths as strings\<close>

text \<open>
  The pieces between separators, with their positions. A piece is a component unless it is
  empty or a dot; at the start it is the root of an absolute path, and a dot counts there.
\<close>

definition pieces :: "string \<Rightarrow> (nat \<times> string) list" where
  "pieces p = enumerate 0 (split_char slash p)"

definition significant :: "bool \<Rightarrow> nat \<times> string \<Rightarrow> bool" where
  "significant rooted x = (if fst x = 0 then rooted \<or> snd x \<noteq> [] else snd x \<noteq> [] \<and> snd x \<noteq> ''.'')"

fun skip_components :: "bool \<Rightarrow> nat \<Rightarrow> (nat \<times> string) list \<Rightarrow> (nat \<times> string) list" where
  "skip_components rooted 0 xs = xs"
| "skip_components rooted (Suc n) [] = []"
| "skip_components rooted (Suc n) (x # xs) =
     (if significant rooted x then skip_components rooted n xs else skip_components rooted (Suc n) xs)"

definition trim_pieces :: "bool \<Rightarrow> (nat \<times> string) list \<Rightarrow> (nat \<times> string) list" where
  "trim_pieces rooted xs = rev (dropWhile (\<lambda>x. \<not> significant rooted x) (rev xs))"

definition join_pieces :: "bool \<Rightarrow> (nat \<times> string) list \<Rightarrow> string" where
  "join_pieces rooted xs = (if rooted \<and> map fst xs = [0] then ''/'' else str_join ''/'' (map snd xs))"

text \<open>\<open>Path::starts_with\<close>, \<open>Path::strip_prefix\<close> and \<open>PathBuf::pop\<close>.\<close>

definition path_starts_with :: "string \<Rightarrow> string \<Rightarrow> bool" where
  "path_starts_with p base = prefix (components base) (components p)"

definition path_strip_prefix :: "string \<Rightarrow> string \<Rightarrow> string option" where
  "path_strip_prefix p base =
     (if path_starts_with p base then
        let n = length (components base); rest = skip_components (is_absolute p) n (pieces p)
        in Some (join_pieces (is_absolute p)
             (trim_pieces (is_absolute p)
                (if n = 0 then rest else dropWhile (\<lambda>x. \<not> significant (is_absolute p) x) rest)))
      else None)"

definition path_parent :: "string \<Rightarrow> string option" where
  "path_parent p =
     (if components p = [] \<or> last (components p) = RootDir then None
      else Some (join_pieces (is_absolute p)
             (trim_pieces (is_absolute p) (butlast (trim_pieces (is_absolute p) (pieces p))))))"

lemma prefix_trim_pieces: "prefix (trim_pieces rooted xs) xs"
  unfolding trim_pieces_def
  by (metis prefix_def rev_append rev_rev_ident takeWhile_dropWhile_id)

lemma length_join_prefix:
  assumes "prefix xs ys" and "length xs < length ys" and "str_join sep ys \<noteq> []" and "sep \<noteq> []"
  shows "length (str_join sep xs) < length (str_join sep ys)"
proof -
  have app: "as \<noteq> [] \<Longrightarrow> bs \<noteq> [] \<Longrightarrow> str_join sep (as @ bs) = str_join sep as @ sep @ str_join sep bs" for as bs
  proof (induction as rule: induct_list012)
    case (2 x)
    then show ?case by (cases bs) auto
  qed (auto)
  from assms(1,2) obtain zs where "ys = xs @ zs" "zs \<noteq> []" by (auto simp: prefix_def)
  with assms(3,4) app [of xs zs] show ?thesis by (cases "xs = []") auto
qed

lemma path_parent_shorter: "path_parent p = Some q \<Longrightarrow> length q < length p"
proof -
  assume a: "path_parent p = Some q"
  let ?r = "is_absolute p"
  let ?xs = "trim_pieces ?r (butlast (trim_pieces ?r (pieces p)))"
  have c: "components p \<noteq> []" "last (components p) \<noteq> RootDir" and q: "q = join_pieces ?r ?xs"
    using a by (auto simp: path_parent_def split: if_splits)
  have ne: "p \<noteq> []" using c(1) by (auto simp: components_def names_def is_absolute_def)
  have "p \<noteq> ''/''" using c(2) by (auto simp: components_def names_def is_absolute_def slash_def)
  with ne have len: "?r \<Longrightarrow> 1 < length p" by (cases p; cases "tl p") (auto simp: is_absolute_def slash_def)
  have "prefix ?xs (pieces p)"
    by (meson prefix_trim_pieces prefix_order.trans prefixeq_butlast)
  moreover have "length ?xs < length (pieces p)"
  proof -
    have "length ?xs \<le> length (butlast (trim_pieces ?r (pieces p)))"
      by (rule prefix_length_le [OF prefix_trim_pieces])
    moreover have "length (trim_pieces ?r (pieces p)) \<le> length (pieces p)"
      by (rule prefix_length_le [OF prefix_trim_pieces])
    moreover have "pieces p \<noteq> []" by (simp add: pieces_def enumerate_eq_zip)
    ultimately show ?thesis by (cases "pieces p") auto
  qed
  moreover have j: "str_join ''/'' (map snd (pieces p)) = p"
    using length_split_char_join [of slash p] by (simp add: pieces_def slash_def)
  ultimately have "length (str_join ''/'' (map snd ?xs)) < length (str_join ''/'' (map snd (pieces p)))"
    using ne by (intro length_join_prefix map_mono_prefix) (simp_all add: j)
  then have "length (str_join ''/'' (map snd ?xs)) < length p" unfolding j .
  then show ?thesis using q len by (simp add: join_pieces_def)
qed

text \<open>The loop of \<open>find_ancestor_git_entry\<close>, which goes up one directory per turn.\<close>

function ancestor_loop :: "(string \<Rightarrow> bool) \<Rightarrow> string \<Rightarrow> string option" where
  "ancestor_loop ex dir =
     (if ex (path_join dir ''.git'') then Some dir
      else case path_parent dir of Some parent \<Rightarrow> ancestor_loop ex parent | None \<Rightarrow> None)"
  by pat_completeness auto
termination
  by (relation "measure (\<lambda>(_, dir). length dir)") (auto dest: path_parent_shorter)

declare ancestor_loop.simps [simp del]

definition find_ancestor_git_entry :: "pack_env \<Rightarrow> string \<Rightarrow> string option" where
  "find_ancestor_git_entry env base_dir =
     ancestor_loop (pk_exists env) base_dir"

definition get_git_repo_root :: "pack_env \<Rightarrow> string \<Rightarrow> string option" where
  "get_git_repo_root env base_dir =
     (if pk_is_dir env base_dir then find_ancestor_git_entry env base_dir
      else Option.bind (path_parent base_dir) (find_ancestor_git_entry env))"

section \<open>git\_status.rs\<close>

definition MAX_GIT_CONTEXT_FILES :: nat where "MAX_GIT_CONTEXT_FILES = 5"

datatype GitStatusCandidate = Modified string | Deleted string | Untracked string

text \<open>
  The loop over the NUL-terminated records. A record has two status bytes, a space and a path;
  a rename or a copy is followed by a record with the source path.
\<close>

function parse_records :: "pack_env \<Rightarrow> string list \<Rightarrow> string + GitStatusCandidate list" where
  "parse_records env [] = Ok []"
| "parse_records env (record # records) =
     (if length record < 3 \<or> record ! 2 \<noteq> CHR '' '' then
        Err (''unparseable git status entry: ''
             @ pk_str_debug env (sc_from_utf8_lossy (pk_scrub env) record))
      else let index_status = record ! 0; worktree_status = record ! 1; bytes = drop 3 record in
      if \<not> utf8_valid bytes then Err ''git status returned a non-utf8 path''
      else let p = forward_slashes bytes in
      if index_status = CHR ''?'' \<and> worktree_status = CHR ''?'' then
        rbind (parse_records env records) (\<lambda>cs. Ok (Untracked p # cs))
      else if index_status = CHR ''!'' \<and> worktree_status = CHR ''!'' then parse_records env records
      else let candidate = (if index_status = CHR ''D'' \<or> worktree_status = CHR ''D'' then Deleted p
                            else Modified p) in
      if index_status \<in> {CHR ''R'', CHR ''C''} \<or> worktree_status \<in> {CHR ''R'', CHR ''C''} then
        (case records of
           [] \<Rightarrow> Err ''git status rename/copy entry was missing the source path''
         | _ # rest \<Rightarrow> rbind (parse_records env rest) (\<lambda>cs. Ok (candidate # cs)))
      else rbind (parse_records env records) (\<lambda>cs. Ok (candidate # cs)))"
  by pat_completeness auto
termination
  by (relation "measure (\<lambda>(_, records). length records)") auto

definition parse_status_porcelain_v1_z :: "pack_env \<Rightarrow> string \<Rightarrow> string + GitStatusCandidate list" where
  "parse_status_porcelain_v1_z env out =
     parse_records env (filter (\<lambda>r. r \<noteq> []) (split_char (CHR 0x00) out))"

definition collect_git_status_candidates :: "pack_env \<Rightarrow> string \<Rightarrow> string + GitStatusCandidate list" where
  "collect_git_status_candidates env repo_root =
     rbind (pk_git_status env repo_root)
       (\<lambda>out.
          if \<not> git_success out then
            let lossy = sc_from_utf8_lossy (pk_scrub env);
                stderr = trim (lossy (git_stderr out)); stdout = trim (lossy (git_stdout out))
            in Err (if stderr \<noteq> [] then stderr
                    else if stdout \<noteq> [] then stdout
                    else ''git exited with status '' @ git_status_display out)
          else parse_status_porcelain_v1_z env (git_stdout out))"

section \<open>context\_packer.rs\<close>

subsection \<open>Data\<close>

definition DEFAULT_CONTEXT_FILE_MAX_BYTES :: nat where "DEFAULT_CONTEXT_FILE_MAX_BYTES = 24 * 1024"

datatype ContextSource = ExplicitFile | ExplicitSnippet | TaskMention | GitModified

record PackedContextFile =
  pf_path :: string
  pf_content :: string
  pf_truncated :: bool
  pf_redacted :: bool
  pf_source :: ContextSource

record ContextPack =
  cp_files :: "PackedContextFile list"
  cp_git_modified_paths :: "string list"
  cp_messages :: "string list"
  cp_truncated :: bool

definition ContextPack_default :: ContextPack where
  "ContextPack_default =
     \<lparr>cp_files = [], cp_git_modified_paths = [], cp_messages = [], cp_truncated = False\<rparr>"

record ExplicitContextSnippet =
  sn_path :: string
  sn_content :: string

record ContextPackRequest =
  explicit_files :: "string list"
  explicit_snippets :: "ExplicitContextSnippet list"
  task_text :: string
  include_modified_files :: bool

record ContextPacker =
  pk_cwd :: string
  pk_repo_root :: string
  pk_repo_root_canonical :: string
  total_budget_bytes :: nat
  per_file_budget_bytes :: nat

text \<open>The mutable variables of \<open>pack_with_request\<close>.\<close>

record pack_state =
  ps_pack :: ContextPack
  ps_seen :: "string set"
  ps_remaining :: nat

definition omitted_message :: "ContextSource \<Rightarrow> string \<Rightarrow> string \<Rightarrow> string" where
  "omitted_message source p reason =
     (if source = GitModified then ''omitted git modified file '' else ''omitted '') @ p @ '': '' @ reason"

definition ContextPacker_new :: "pack_env \<Rightarrow> string \<Rightarrow> nat \<Rightarrow> nat \<Rightarrow> ContextPacker" where
  "ContextPacker_new env cwd total_bytes per_file =
     (let repo_root = (case get_git_repo_root env cwd of Some r \<Rightarrow> r | None \<Rightarrow> cwd)
      in \<lparr>pk_cwd = cwd, pk_repo_root = repo_root,
          pk_repo_root_canonical =
            (case pk_canonicalize env repo_root of Some c \<Rightarrow> c | None \<Rightarrow> repo_root),
          total_budget_bytes = total_bytes, per_file_budget_bytes = per_file\<rparr>)"

subsection \<open>Diagnostics and budget\<close>

definition push_diag :: "string \<Rightarrow> pack_state \<Rightarrow> pack_state" where
  "push_diag message st =
     (if message \<in> set (cp_messages (ps_pack st)) then st
      else st\<lparr>ps_pack := (ps_pack st)\<lparr>cp_messages := cp_messages (ps_pack st) @ [message]\<rparr>\<rparr>)"

definition set_truncated :: "pack_state \<Rightarrow> pack_state" where
  "set_truncated st = st\<lparr>ps_pack := (ps_pack st)\<lparr>cp_truncated := True\<rparr>\<rparr>"

definition mark_total_budget_exhausted :: "pack_state \<Rightarrow> pack_state" where
  "mark_total_budget_exhausted st =
     push_diag ''context truncated: exceeded total budget'' (set_truncated st)"

definition normalize_display_path :: "string \<Rightarrow> string" where
  "normalize_display_path p = forward_slashes p"

definition is_path_traversal :: "string \<Rightarrow> bool" where
  "is_path_traversal p = (ParentDir \<in> set (components p))"

definition is_denied_path :: "pack_env \<Rightarrow> string \<Rightarrow> bool" where
  "is_denied_path env p = is_sensitive_path (lower_of env) p"

definition add_context_entry ::
    "pack_env \<Rightarrow> nat \<Rightarrow> ContextSource \<Rightarrow> string \<Rightarrow> string \<Rightarrow> pack_state \<Rightarrow> bool \<times> pack_state" where
  "add_context_entry env per_file source p content st =
     (if ps_remaining st = 0 then (False, mark_total_budget_exhausted st)
      else
        let redacted_content = sanitize_output_text (pk_scrub env) content;
            redacted = so_changed redacted_content;
            st1 = (if redacted then push_diag (''redacted potential secret in '' @ p) st else st);
            per_file_content = take_bytes_at_char_boundary (so_text redacted_content) per_file;
            truncated1 = (length per_file_content < length (so_text redacted_content));
            st2 = (if truncated1
                   then set_truncated (push_diag (''context file '' @ p @ '' truncated at ''
                          @ nat_str per_file @ '' bytes'') st1)
                   else st1);
            total_content = take_bytes_at_char_boundary per_file_content (ps_remaining st);
            cut = (length total_content < length per_file_content);
            st3 = (if cut then mark_total_budget_exhausted st2 else st2);
            consumed = length total_content;
            st4 = st3\<lparr>ps_remaining := ps_remaining st - consumed\<rparr>
        in if consumed = 0 then (False, st4)
           else (True, st4\<lparr>ps_pack := (ps_pack st4)\<lparr>cp_files := cp_files (ps_pack st4) @
                   [\<lparr>pf_path = p, pf_content = total_content, pf_truncated = (truncated1 \<or> cut),
                     pf_redacted = redacted, pf_source = source\<rparr>]\<rparr>\<rparr>))"

subsection \<open>Resolving a path\<close>

datatype PathResolution =
  Resolved (absolute_path: string) (resolved_display: string)
| Denied (resolved_display: string)
| OutsideRepo (resolved_display: string)
| Missing (resolved_display: string)

definition display_path :: "ContextPacker \<Rightarrow> string \<Rightarrow> string" where
  "display_path pk p =
     normalize_display_path
       (case path_strip_prefix p (pk_repo_root pk) of Some rest \<Rightarrow> rest | None \<Rightarrow> p)"

definition is_inside_repo_lexically :: "ContextPacker \<Rightarrow> string \<Rightarrow> bool" where
  "is_inside_repo_lexically pk p = path_starts_with p (pk_repo_root pk)"

definition canonical_inside :: "pack_env \<Rightarrow> ContextPacker \<Rightarrow> string \<Rightarrow> bool" where
  "canonical_inside env pk p =
     path_starts_with (case pk_canonicalize env p of Some c \<Rightarrow> c | None \<Rightarrow> p) (pk_repo_root_canonical pk)"

definition resolve_absolute_path :: "pack_env \<Rightarrow> ContextPacker \<Rightarrow> string \<Rightarrow> PathResolution" where
  "resolve_absolute_path env pk requested =
     (let dp = display_path pk requested in
      if is_denied_path env requested \<or> is_denied_path env dp then Denied dp
      else if \<not> is_inside_repo_lexically pk requested then OutsideRepo dp
      else if \<not> pk_exists env requested then Missing dp
      else if \<not> canonical_inside env pk requested then OutsideRepo dp
      else Resolved requested dp)"

text \<open>The loop over the candidates, up to the first that exists inside the repository.\<close>

fun resolve_candidates :: "pack_env \<Rightarrow> ContextPacker \<Rightarrow> string list \<Rightarrow> PathResolution option" where
  "resolve_candidates env pk [] = None"
| "resolve_candidates env pk (candidate # candidates) =
     (if \<not> is_inside_repo_lexically pk candidate then resolve_candidates env pk candidates
      else if \<not> pk_exists env candidate then resolve_candidates env pk candidates
      else let dp = display_path pk candidate in
           if is_denied_path env dp then Some (Denied dp)
           else if \<not> canonical_inside env pk candidate then Some (OutsideRepo dp)
           else Some (Resolved candidate dp))"

definition resolve_path :: "pack_env \<Rightarrow> ContextPacker \<Rightarrow> string \<Rightarrow> PathResolution" where
  "resolve_path env pk requested =
     (if requested = [] then Missing requested
      else if is_path_traversal requested then OutsideRepo (requested @ '' (path traversal)'')
      else if is_absolute requested then resolve_absolute_path env pk requested
      else if is_denied_path env requested then Denied requested
      else
        let first = path_join (pk_cwd pk) requested;
            repo_relative = path_join (pk_repo_root pk) requested;
            candidates = first # (if components repo_relative \<noteq> components first then [repo_relative] else [])
        in case resolve_candidates env pk candidates of
             Some r \<Rightarrow> r
           | None \<Rightarrow>
               if list_ex (is_inside_repo_lexically pk) candidates then Missing requested
               else OutsideRepo requested)"

subsection \<open>Packing\<close>

definition insert_seen :: "string \<Rightarrow> pack_state \<Rightarrow> pack_state" where
  "insert_seen key st = st\<lparr>ps_seen := insert key (ps_seen st)\<rparr>"

definition push_git_path :: "string \<Rightarrow> pack_state \<Rightarrow> pack_state" where
  "push_git_path p st =
     st\<lparr>ps_pack := (ps_pack st)\<lparr>cp_git_modified_paths := cp_git_modified_paths (ps_pack st) @ [p]\<rparr>\<rparr>"

definition pack_file_candidate ::
    "pack_env \<Rightarrow> ContextPacker \<Rightarrow> ContextSource \<Rightarrow> string \<Rightarrow> pack_state \<Rightarrow> pack_state" where
  "pack_file_candidate env pk source requested st0 =
     (let resolution = resolve_path env pk requested;
          dp = resolved_display resolution;
          dedupe_key = normalize_display_path dp
      in if dedupe_key \<in> ps_seen st0 then st0
         else let st = insert_seen dedupe_key st0; omit = \<lambda>reason. push_diag (omitted_message source dp reason) in
         if ps_remaining st = 0 then omit ''budget exhausted'' (mark_total_budget_exhausted st)
         else case resolution of
           Resolved absolute _ \<Rightarrow>
             (case pk_read env absolute of
                None \<Rightarrow> omit ''file missing'' st
              | Some bytes \<Rightarrow>
                  if CHR 0x00 \<in> set bytes then omit ''binary/non-utf8'' st
                  else if \<not> utf8_valid bytes then omit ''binary/non-utf8'' st
                  else let (added, st') =
                             add_context_entry env (per_file_budget_bytes pk) source dp bytes st
                       in if added \<and> source = GitModified then push_git_path dp st' else st')
         | Denied _ \<Rightarrow> omit ''denied path'' st
         | OutsideRepo _ \<Rightarrow> omit ''outside repo'' st
         | Missing _ \<Rightarrow> omit ''file missing'' st)"

fun pack_snippets ::
    "pack_env \<Rightarrow> ContextPacker \<Rightarrow> ExplicitContextSnippet list \<Rightarrow> pack_state \<Rightarrow> pack_state" where
  "pack_snippets env pk [] st = st"
| "pack_snippets env pk (snippet # snippets) st0 =
     (let normalized_path = normalize_display_path (sn_path snippet) in
      if normalized_path \<in> ps_seen st0 then pack_snippets env pk snippets st0
      else let st = insert_seen normalized_path st0 in
      if is_path_traversal normalized_path then
        pack_snippets env pk snippets
          (push_diag (''omitted '' @ sn_path snippet @ '': outside repo (path traversal)'') st)
      else if is_denied_path env normalized_path then
        pack_snippets env pk snippets (push_diag (''omitted '' @ sn_path snippet @ '': denied path'') st)
      else if ps_remaining st = 0 then mark_total_budget_exhausted st
      else let (added, st') = add_context_entry env (per_file_budget_bytes pk) ExplicitSnippet
                                normalized_path (sn_content snippet) st
           in if \<not> added \<and> ps_remaining st' = 0 then st' else pack_snippets env pk snippets st')"

text \<open>The loops over the requested files and over the paths the task mentions.\<close>

fun pack_candidates ::
    "pack_env \<Rightarrow> ContextPacker \<Rightarrow> ContextSource \<Rightarrow> string list \<Rightarrow> pack_state \<Rightarrow> pack_state" where
  "pack_candidates env pk source [] st = st"
| "pack_candidates env pk source (p # ps) st =
     (if ps_remaining st = 0 then mark_total_budget_exhausted st
      else pack_candidates env pk source ps (pack_file_candidate env pk source p st))"

definition PATH_PATTERN :: string where
  "PATH_PATTERN = re_text ''^~.?/?[A-Za-z0-9._-]+(?:/[A-Za-z0-9._-]+)+$''"

definition looks_like_path :: "pack_env \<Rightarrow> string \<Rightarrow> bool" where
  "looks_like_path env token = pk_is_match env PATH_PATTERN token"

definition task_token :: "string \<Rightarrow> string" where
  "task_token raw =
     trim_end_matches (CHR ''.'') (trim_end_matches (CHR ''!'') (trim_end_matches (CHR ''?'')
       (trim_matches (\<lambda>c. c \<in> set ([CHR 0x60, dquote, squote] @ ''()[]{},:;<>'')) raw)))"

definition mentions_path :: "pack_env \<Rightarrow> string \<Rightarrow> bool" where
  "mentions_path env token = (token \<noteq> [] \<and> \<not> str_contains token ''://'' \<and> looks_like_path env token)"

text \<open>The loop keeps the first occurrence of every path.\<close>

fun keep_first :: "'a list \<Rightarrow> 'a list \<Rightarrow> 'a list" where
  "keep_first seen [] = []"
| "keep_first seen (x # xs) =
     (if x \<in> set seen then keep_first seen xs else x # keep_first (x # seen) xs)"

definition mentioned_task_paths :: "pack_env \<Rightarrow> string \<Rightarrow> string list" where
  "mentioned_task_paths env text =
     keep_first [] (map normalize_display_path
       (filter (mentions_path env) (map task_token (split_whitespace text))))"

fun candidate_path :: "GitStatusCandidate \<Rightarrow> string" where
  "candidate_path (Modified p) = p"
| "candidate_path (Deleted p) = p"
| "candidate_path (Untracked p) = p"

text \<open>The candidates not yet seen, the first of each path, by kind.\<close>

fun fresh_candidates :: "string set \<Rightarrow> GitStatusCandidate list \<Rightarrow> GitStatusCandidate list" where
  "fresh_candidates seen [] = []"
| "fresh_candidates seen (c # cs) =
     (let p = normalize_display_path (candidate_path c) in
      if p \<in> seen then fresh_candidates seen cs else c # fresh_candidates (insert p seen) cs)"

definition paths_of :: "(GitStatusCandidate \<Rightarrow> bool) \<Rightarrow> GitStatusCandidate list \<Rightarrow> string list" where
  "paths_of kind cs = sort (map (\<lambda>c. normalize_display_path (candidate_path c)) (filter kind cs))"

fun is_modified :: "GitStatusCandidate \<Rightarrow> bool" where
  "is_modified (Modified _) = True" | "is_modified _ = False"

fun is_deleted :: "GitStatusCandidate \<Rightarrow> bool" where
  "is_deleted (Deleted _) = True" | "is_deleted _ = False"

fun is_untracked :: "GitStatusCandidate \<Rightarrow> bool" where
  "is_untracked (Untracked _) = True" | "is_untracked _ = False"

definition omit_all :: "string \<Rightarrow> string list \<Rightarrow> pack_state \<Rightarrow> pack_state" where
  "omit_all reason ps st = fold (\<lambda>p. push_diag (omitted_message GitModified p reason)) ps st"

definition pack_git_modified_files :: "pack_env \<Rightarrow> ContextPacker \<Rightarrow> pack_state \<Rightarrow> pack_state" where
  "pack_git_modified_files env pk st =
     (case collect_git_status_candidates env (pk_repo_root pk) of
        Inl reason \<Rightarrow> push_diag (''git status unavailable: '' @ reason) st
      | Inr git_candidates \<Rightarrow>
          let fresh = fresh_candidates (ps_seen st) git_candidates;
              modified = paths_of is_modified fresh;
              st1 = omit_all ''deleted file'' (paths_of is_deleted fresh) st;
              st2 = omit_all ''untracked file'' (paths_of is_untracked fresh) st1;
              st3 = fold (pack_file_candidate env pk GitModified) (take MAX_GIT_CONTEXT_FILES modified) st2
          in omit_all ''max git context files exceeded'' (drop MAX_GIT_CONTEXT_FILES modified) st3)"

definition pack_with_request :: "pack_env \<Rightarrow> ContextPacker \<Rightarrow> ContextPackRequest \<Rightarrow> ContextPack" where
  "pack_with_request env pk request =
     (let st0 = \<lparr>ps_pack = ContextPack_default, ps_seen = {}, ps_remaining = total_budget_bytes pk\<rparr>;
          st1 = pack_snippets env pk (explicit_snippets request) st0;
          st2 = pack_candidates env pk ExplicitFile (explicit_files request) st1;
          st3 = pack_candidates env pk TaskMention (mentioned_task_paths env (task_text request)) st2;
          st4 = (if include_modified_files request then pack_git_modified_files env pk st3 else st3)
      in ps_pack st4)"

definition pack_context :: "pack_env \<Rightarrow> ContextPacker \<Rightarrow> string list \<Rightarrow> ExplicitContextSnippet list \<Rightarrow> string \<Rightarrow> ContextPack" where
  "pack_context env pk files snippets text =
     pack_with_request env pk
       \<lparr>explicit_files = files, explicit_snippets = snippets, task_text = text,
        include_modified_files = False\<rparr>"

section \<open>Lemmas\<close>

lemma forward_slashes_idem: "forward_slashes (forward_slashes s) = forward_slashes s"
  by (induction s) (auto simp: forward_slashes_def replace_char_def backslash_def)

lemma normalize_display_path_idem [simp]:
  "normalize_display_path (normalize_display_path s) = normalize_display_path s"
  "normalize_display_path (display_path pk p) = display_path pk p"
  by (simp_all add: normalize_display_path_def display_path_def forward_slashes_idem)

text \<open>Diagnostics touch neither the files nor the budget.\<close>

lemma state_simps [simp]:
  "cp_files (ps_pack (push_diag m st)) = cp_files (ps_pack st)"
  "cp_git_modified_paths (ps_pack (push_diag m st)) = cp_git_modified_paths (ps_pack st)"
  "ps_seen (push_diag m st) = ps_seen st"
  "ps_remaining (push_diag m st) = ps_remaining st"
  "cp_files (ps_pack (set_truncated st)) = cp_files (ps_pack st)"
  "cp_git_modified_paths (ps_pack (set_truncated st)) = cp_git_modified_paths (ps_pack st)"
  "ps_seen (set_truncated st) = ps_seen st"
  "ps_remaining (set_truncated st) = ps_remaining st"
  "cp_files (ps_pack (mark_total_budget_exhausted st)) = cp_files (ps_pack st)"
  "cp_git_modified_paths (ps_pack (mark_total_budget_exhausted st)) = cp_git_modified_paths (ps_pack st)"
  "ps_seen (mark_total_budget_exhausted st) = ps_seen st"
  "ps_remaining (mark_total_budget_exhausted st) = ps_remaining st"
  "cp_files (ps_pack (insert_seen k st)) = cp_files (ps_pack st)"
  "cp_git_modified_paths (ps_pack (insert_seen k st)) = cp_git_modified_paths (ps_pack st)"
  "ps_seen (insert_seen k st) = insert k (ps_seen st)"
  "ps_remaining (insert_seen k st) = ps_remaining st"
  "cp_files (ps_pack (push_git_path p st)) = cp_files (ps_pack st)"
  "cp_git_modified_paths (ps_pack (push_git_path p st)) = cp_git_modified_paths (ps_pack st) @ [p]"
  "ps_seen (push_git_path p st) = ps_seen st"
  "ps_remaining (push_git_path p st) = ps_remaining st"
  by (simp_all add: push_diag_def set_truncated_def mark_total_budget_exhausted_def insert_seen_def
      push_git_path_def)

subsection \<open>The invariant\<close>

text \<open>Where the content of a packed file comes from.\<close>

definition provenance ::
    "pack_env \<Rightarrow> ContextPacker \<Rightarrow> ExplicitContextSnippet list \<Rightarrow> string \<Rightarrow> string \<Rightarrow> bool" where
  "provenance env pk snippets p content \<longleftrightarrow>
     (\<exists>sn \<in> set snippets. p = normalize_display_path (sn_path sn) \<and>
        prefix content (so_text (sanitize_output_text (pk_scrub env) (sn_content sn)))) \<or>
     (\<exists>file bytes. p = display_path pk file \<and> pk_exists env file \<and> canonical_inside env pk file \<and>
        pk_read env file = Some bytes \<and> utf8_valid bytes \<and>
        prefix content (so_text (sanitize_output_text (pk_scrub env) bytes)))"

definition file_ok :: "pack_env \<Rightarrow> ContextPacker \<Rightarrow> ExplicitContextSnippet list \<Rightarrow> PackedContextFile \<Rightarrow> bool" where
  "file_ok env pk snippets f \<longleftrightarrow>
     pf_content f \<noteq> [] \<and> length (pf_content f) \<le> per_file_budget_bytes pk \<and>
     \<not> is_sensitive_path (lower_of env) (pf_path f) \<and> provenance env pk snippets (pf_path f) (pf_content f)"

definition files_ok :: "pack_env \<Rightarrow> ContextPacker \<Rightarrow> ExplicitContextSnippet list \<Rightarrow> PackedContextFile list \<Rightarrow> bool" where
  "files_ok env pk snippets files \<longleftrightarrow>
     list_all (file_ok env pk snippets) files \<and> distinct (map pf_path files)"

definition packed_bytes :: "PackedContextFile list \<Rightarrow> nat" where
  "packed_bytes files = sum_list (map (\<lambda>f. length (pf_content f)) files)"

definition pack_inv :: "pack_env \<Rightarrow> ContextPacker \<Rightarrow> ExplicitContextSnippet list \<Rightarrow> pack_state \<Rightarrow> bool" where
  "pack_inv env pk snippets st \<longleftrightarrow>
     (let files = cp_files (ps_pack st) in
      ps_remaining st + packed_bytes files = total_budget_bytes pk \<and>
      files_ok env pk snippets files \<and> set (map pf_path files) \<subseteq> ps_seen st)"

lemma pack_inv_cong:
  assumes "pack_inv env pk snippets st" and "cp_files (ps_pack st') = cp_files (ps_pack st)"
    and "ps_remaining st' = ps_remaining st" and "ps_seen st \<subseteq> ps_seen st'"
  shows "pack_inv env pk snippets st'"
  using assms by (auto simp: pack_inv_def Let_def)

lemma pack_inv_silent [simp]:
  "pack_inv env pk sns (push_diag m st) = pack_inv env pk sns st"
  "pack_inv env pk sns (mark_total_budget_exhausted st) = pack_inv env pk sns st"
  "pack_inv env pk sns (push_git_path p st) = pack_inv env pk sns st"
  by (simp_all add: pack_inv_def)

lemma add_context_entry_result:
  assumes "add_context_entry env per_file source p content st = (added, st')"
  defines "body \<equiv> take_bytes_at_char_boundary
      (take_bytes_at_char_boundary (so_text (sanitize_output_text (pk_scrub env) content)) per_file)
      (ps_remaining st)"
  shows "ps_seen st' = ps_seen st" and "cp_git_modified_paths (ps_pack st') = cp_git_modified_paths (ps_pack st)"
    and "\<not> added \<Longrightarrow> cp_files (ps_pack st') = cp_files (ps_pack st) \<and> ps_remaining st' = ps_remaining st"
    and "added \<Longrightarrow> body \<noteq> [] \<and> ps_remaining st' = ps_remaining st - length body \<and>
      (\<exists>t r. cp_files (ps_pack st') = cp_files (ps_pack st) @
         [\<lparr>pf_path = p, pf_content = body, pf_truncated = t, pf_redacted = r, pf_source = source\<rparr>])"
  using assms(1) unfolding body_def add_context_entry_def Let_def
  by (auto split: if_splits)

lemma add_context_entry_inv:
  assumes "pack_inv env pk sns st" and "p \<in> ps_seen st" and "p \<notin> set (map pf_path (cp_files (ps_pack st)))"
    and "\<not> is_denied_path env p"
    and "\<And>c. prefix c (so_text (sanitize_output_text (pk_scrub env) content)) \<Longrightarrow> provenance env pk sns p c"
    and "add_context_entry env (per_file_budget_bytes pk) source p content st = (added, st')"
  shows "pack_inv env pk sns st'"
proof (cases added)
  case False
  with add_context_entry_result [OF assms(6)] assms(1) show ?thesis by (auto intro: pack_inv_cong)
next
  case True
  define one where "one = take_bytes_at_char_boundary
      (so_text (sanitize_output_text (pk_scrub env) content)) (per_file_budget_bytes pk)"
  define body where "body = take_bytes_at_char_boundary one (ps_remaining st)"
  have len: "length body \<le> ps_remaining st" by (simp add: body_def take_bytes_length)
  have "prefix body one" by (simp add: body_def take_bytes_prefix)
  moreover have "length one \<le> per_file_budget_bytes pk" by (simp add: one_def take_bytes_length)
  moreover have "prefix one (so_text (sanitize_output_text (pk_scrub env) content))"
    by (simp add: one_def take_bytes_prefix)
  ultimately have "length body \<le> per_file_budget_bytes pk" and "provenance env pk sns p body"
    using assms(5) prefix_length_le prefix_order.trans by (blast intro: le_trans)+
  with True len add_context_entry_result [OF assms(6), folded one_def, folded body_def] assms(1-4)
  show ?thesis
    by (auto simp: pack_inv_def Let_def files_ok_def file_ok_def packed_bytes_def is_denied_path_def
        image_subset_iff)
qed

lemma resolve_candidates_Resolved:
  "resolve_candidates env pk cs = Some (Resolved f dp) \<Longrightarrow>
   \<not> is_denied_path env dp \<and> dp = display_path pk f \<and> pk_exists env f \<and> canonical_inside env pk f"
  by (induction cs) (auto simp: Let_def split: if_splits)

lemma resolve_path_Resolved:
  assumes "resolve_path env pk requested = Resolved f dp"
  shows "\<not> is_denied_path env dp \<and> dp = display_path pk f \<and> pk_exists env f \<and> canonical_inside env pk f"
  using assms
  by (auto simp: resolve_path_def resolve_absolute_path_def Let_def
      dest: resolve_candidates_Resolved split: if_splits option.splits)

lemma pack_file_candidate_inv:
  assumes "pack_inv env pk sns st"
  shows "pack_inv env pk sns (pack_file_candidate env pk source requested st)"
proof -
  let ?r = "resolve_path env pk requested"
  let ?key = "normalize_display_path (resolved_display ?r)"
  let ?st = "insert_seen ?key st"
  have ins: "pack_inv env pk sns ?st" using assms by (rule pack_inv_cong) auto
  show ?thesis
  proof (cases ?r)
    case (Resolved f dp)
    note res = resolve_path_Resolved [OF Resolved]
    have key: "?key = dp" using Resolved res by simp
    show ?thesis
    proof (cases "?key \<notin> ps_seen st \<and> ps_remaining st \<noteq> 0 \<and>
        (\<exists>bytes. pk_read env f = Some bytes \<and> CHR 0x00 \<notin> set bytes \<and> utf8_valid bytes)")
      case True
      then obtain bytes where b: "pk_read env f = Some bytes" "CHR 0x00 \<notin> set bytes" "utf8_valid bytes" by auto
      obtain added st' where add: "add_context_entry env (per_file_budget_bytes pk) source dp bytes ?st = (added, st')"
        by fastforce
      have "dp \<notin> set (map pf_path (cp_files (ps_pack ?st)))"
        using True key assms by (auto simp: pack_inv_def Let_def)
      moreover have "provenance env pk sns dp c"
        if "prefix c (so_text (sanitize_output_text (pk_scrub env) bytes))" for c
        using that res b by (auto simp: provenance_def)
      ultimately have "pack_inv env pk sns st'"
        using ins key res add by (intro add_context_entry_inv [OF ins]) auto
      with True Resolved key b add show ?thesis
        by (simp add: pack_file_candidate_def Let_def)
    next
      case False
      with assms ins Resolved show ?thesis
        by (auto simp: pack_file_candidate_def Let_def split: option.splits)
    qed
  qed (use assms ins in \<open>auto simp: pack_file_candidate_def Let_def\<close>)
qed

lemma pack_candidates_inv:
  "pack_inv env pk sns st \<Longrightarrow> pack_inv env pk sns (pack_candidates env pk source ps st)"
  by (induction ps arbitrary: st) (auto simp: pack_file_candidate_inv)

lemma pack_snippets_inv:
  "pack_inv env pk sns st \<Longrightarrow> set sns' \<subseteq> set sns \<Longrightarrow> pack_inv env pk sns (pack_snippets env pk sns' st)"
proof (induction sns' arbitrary: st)
  case (Cons sn sns')
  let ?p = "normalize_display_path (sn_path sn)"
  let ?st = "insert_seen ?p st"
  have ins: "pack_inv env pk sns ?st" using Cons.prems(1) by (rule pack_inv_cong) auto
  obtain added st' where add:
    "add_context_entry env (per_file_budget_bytes pk) ExplicitSnippet ?p (sn_content sn) ?st = (added, st')"
    by fastforce
  have "pack_inv env pk sns st'" if "?p \<notin> ps_seen st" "\<not> is_denied_path env ?p"
  proof (rule add_context_entry_inv [OF ins _ _ _ _ add])
    show "?p \<notin> set (map pf_path (cp_files (ps_pack ?st)))"
      using that Cons.prems(1) by (auto simp: pack_inv_def Let_def)
    show "provenance env pk sns ?p c"
      if "prefix c (so_text (sanitize_output_text (pk_scrub env) (sn_content sn)))" for c
      using that Cons.prems(2) by (auto simp: provenance_def)
  qed (use that in auto)
  with Cons ins add show ?case by (simp add: Let_def)
qed simp

lemma omit_all_state [simp]:
  "cp_files (ps_pack (omit_all r ps st)) = cp_files (ps_pack st)"
  "cp_git_modified_paths (ps_pack (omit_all r ps st)) = cp_git_modified_paths (ps_pack st)"
  "pack_inv env pk sns (omit_all r ps st) = pack_inv env pk sns st"
  by (induction ps arbitrary: st) (simp_all add: omit_all_def)

lemma pack_git_inv: "pack_inv env pk sns st \<Longrightarrow> pack_inv env pk sns (pack_git_modified_files env pk st)"
proof -
  assume a: "pack_inv env pk sns st"
  have "pack_inv env pk sns st \<Longrightarrow>
      pack_inv env pk sns (fold (pack_file_candidate env pk GitModified) ps st)" for ps st
    by (induction ps arbitrary: st) (auto simp: pack_file_candidate_inv)
  with a show ?thesis by (simp add: pack_git_modified_files_def Let_def split: sum.split)
qed

subsection \<open>Files taken from git\<close>

lemma pack_file_candidate_git:
  "length (cp_git_modified_paths (ps_pack (pack_file_candidate env pk source p st)))
     \<le> length (cp_git_modified_paths (ps_pack st)) + (if source = GitModified then 1 else 0)"
  by (auto simp: pack_file_candidate_def Let_def add_context_entry_result(2)
      split: PathResolution.split option.split prod.split)

lemma pack_candidates_git:
  "source \<noteq> GitModified \<Longrightarrow>
   length (cp_git_modified_paths (ps_pack (pack_candidates env pk source ps st)))
     \<le> length (cp_git_modified_paths (ps_pack st))"
proof (induction ps arbitrary: st)
  case (Cons p ps)
  with pack_file_candidate_git [of env pk source p st] show ?case by (auto intro: le_trans)
qed simp

lemma pack_snippets_git:
  "cp_git_modified_paths (ps_pack (pack_snippets env pk sns st)) = cp_git_modified_paths (ps_pack st)"
  by (induction sns arbitrary: st)
    (auto simp: Let_def add_context_entry_result(2) split: prod.split)

lemma fold_candidates_git:
  "length (cp_git_modified_paths (ps_pack (fold (pack_file_candidate env pk GitModified) ps st)))
     \<le> length (cp_git_modified_paths (ps_pack st)) + length ps"
proof (induction ps arbitrary: st)
  case (Cons p ps)
  from Cons.IH [of "pack_file_candidate env pk GitModified p st"]
    pack_file_candidate_git [of env pk GitModified p st]
  show ?case by simp
qed simp

lemma pack_git_git:
  "length (cp_git_modified_paths (ps_pack (pack_git_modified_files env pk st)))
     \<le> length (cp_git_modified_paths (ps_pack st)) + MAX_GIT_CONTEXT_FILES"
proof -
  have "length (cp_git_modified_paths (ps_pack
      (fold (pack_file_candidate env pk GitModified) (take MAX_GIT_CONTEXT_FILES ps) st')))
     \<le> length (cp_git_modified_paths (ps_pack st)) + MAX_GIT_CONTEXT_FILES"
    if "cp_git_modified_paths (ps_pack st') = cp_git_modified_paths (ps_pack st)" for ps st'
    using fold_candidates_git [of env pk "take MAX_GIT_CONTEXT_FILES ps" st'] that by simp
  then show ?thesis
    by (simp add: pack_git_modified_files_def Let_def split: sum.split)
qed

section \<open>Properties\<close>

text \<open>
  C8. What leaves the machine with a delegated task. Whatever is requested, mentioned or
  modified: the packed contents stay within the total budget and each within the budget of a
  file; no packed path is sensitive and none is packed twice; every content is a non-empty
  prefix of a sanitised text, which is a snippet of the request or a UTF-8 file whose canonical
  path lies in the repository; and at most five files are there because git reports them.
\<close>

theorem context_pack_safe:
  "let pack = pack_with_request env pk request
   in packed_bytes (cp_files pack) \<le> total_budget_bytes pk \<and>
      files_ok env pk (explicit_snippets request) (cp_files pack) \<and>
      length (cp_git_modified_paths pack) \<le> MAX_GIT_CONTEXT_FILES"
proof -
  let ?sns = "explicit_snippets request"
  let ?st0 = "\<lparr>ps_pack = ContextPack_default, ps_seen = {}, ps_remaining = total_budget_bytes pk\<rparr>"
  define st1 where "st1 = pack_snippets env pk ?sns ?st0"
  define st2 where "st2 = pack_candidates env pk ExplicitFile (explicit_files request) st1"
  define st3 where "st3 = pack_candidates env pk TaskMention (mentioned_task_paths env (task_text request)) st2"
  define st4 where "st4 = (if include_modified_files request then pack_git_modified_files env pk st3 else st3)"
  have pack: "pack_with_request env pk request = ps_pack st4"
    by (simp add: pack_with_request_def st1_def st2_def st3_def st4_def Let_def)
  have "pack_inv env pk ?sns ?st0"
    by (simp add: pack_inv_def ContextPack_default_def files_ok_def packed_bytes_def)
  then have "pack_inv env pk ?sns st1" by (simp add: st1_def pack_snippets_inv)
  then have "pack_inv env pk ?sns st4"
    by (simp add: st4_def st3_def st2_def pack_candidates_inv pack_git_inv)
  moreover have "length (cp_git_modified_paths (ps_pack st3)) = 0"
    using pack_candidates_git [of ExplicitFile env pk "explicit_files request" st1]
      pack_candidates_git [of TaskMention env pk "mentioned_task_paths env (task_text request)" st2]
    by (simp add: st1_def st2_def st3_def pack_snippets_git ContextPack_default_def)
  then have "length (cp_git_modified_paths (ps_pack st4)) \<le> MAX_GIT_CONTEXT_FILES"
    using pack_git_git [of env pk st3] by (simp add: st4_def)
  ultimately show ?thesis by (auto simp: pack pack_inv_def Let_def)
qed

end
