(* ===== verification/Patch_Seek.thy ===== *)
theory Patch_Seek
  imports Prelude
begin

text \<open>
  The line matcher of \<open>apply-patch/src/seek_sequence.rs\<close>: four passes of decreasing strictness over
  the positions of a file, each a \<open>for\<close> loop that returns the first position where it matches.
\<close>

section \<open>The matcher\<close>

text \<open>The characters that \<open>normalise\<close> replaces, by their UTF-8 encodings.\<close>

definition dash_encodings :: "string list" where
  "dash_encodings =
     [[CHR 0xE2, CHR 0x80, CHR 0x90], [CHR 0xE2, CHR 0x80, CHR 0x91], [CHR 0xE2, CHR 0x80, CHR 0x92],
      [CHR 0xE2, CHR 0x80, CHR 0x93], [CHR 0xE2, CHR 0x80, CHR 0x94], [CHR 0xE2, CHR 0x80, CHR 0x95],
      [CHR 0xE2, CHR 0x88, CHR 0x92]]"

definition single_quote_encodings :: "string list" where
  "single_quote_encodings =
     [[CHR 0xE2, CHR 0x80, CHR 0x98], [CHR 0xE2, CHR 0x80, CHR 0x99],
      [CHR 0xE2, CHR 0x80, CHR 0x9A], [CHR 0xE2, CHR 0x80, CHR 0x9B]]"

definition double_quote_encodings :: "string list" where
  "double_quote_encodings =
     [[CHR 0xE2, CHR 0x80, CHR 0x9C], [CHR 0xE2, CHR 0x80, CHR 0x9D],
      [CHR 0xE2, CHR 0x80, CHR 0x9E], [CHR 0xE2, CHR 0x80, CHR 0x9F]]"

definition space_encodings :: "string list" where
  "space_encodings =
     [[CHR 0xC2, CHR 0xA0],
      [CHR 0xE2, CHR 0x80, CHR 0x82], [CHR 0xE2, CHR 0x80, CHR 0x83], [CHR 0xE2, CHR 0x80, CHR 0x84],
      [CHR 0xE2, CHR 0x80, CHR 0x85], [CHR 0xE2, CHR 0x80, CHR 0x86], [CHR 0xE2, CHR 0x80, CHR 0x87],
      [CHR 0xE2, CHR 0x80, CHR 0x88], [CHR 0xE2, CHR 0x80, CHR 0x89], [CHR 0xE2, CHR 0x80, CHR 0x8A],
      [CHR 0xE2, CHR 0x80, CHR 0xAF], [CHR 0xE2, CHR 0x81, CHR 0x9F], [CHR 0xE3, CHR 0x80, CHR 0x80]]"

definition normalise_char :: "string \<Rightarrow> string" where
  "normalise_char c =
     (if c \<in> set dash_encodings then ''-''
      else if c \<in> set single_quote_encodings then [CHR 0x27]
      else if c \<in> set double_quote_encodings then [CHR 0x22]
      else if c \<in> set space_encodings then '' ''
      else c)"

definition normalise :: "string \<Rightarrow> string" where
  "normalise s = concat (map normalise_char (str_chars (trim s)))"

text \<open>One comparison of the pattern with the lines at a position, after \<open>f\<close> on every line.\<close>

definition lines_match :: "(string \<Rightarrow> string) \<Rightarrow> string list \<Rightarrow> string list \<Rightarrow> nat \<Rightarrow> bool" where
  "lines_match f lines pat i = list_all2 (\<lambda>l p. f l = f p) (take (length pat) (drop i lines)) pat"

text \<open>\<open>for i in search_start..=stop\<close>, returning at the first match.\<close>

definition first_match ::
    "(string \<Rightarrow> string) \<Rightarrow> string list \<Rightarrow> string list \<Rightarrow> nat \<Rightarrow> nat \<Rightarrow> nat option" where
  "first_match f lines pat search_start stop =
     List.find (lines_match f lines pat) [search_start ..< Suc stop]"

definition seek_sequence :: "string list \<Rightarrow> string list \<Rightarrow> nat \<Rightarrow> bool \<Rightarrow> nat option" where
  "seek_sequence lines pat start eof =
     (if pat = [] then Some start
      else if length pat > length lines then None
      else let search_start = (if eof \<and> length lines \<ge> length pat
                               then length lines - length pat else start);
               stop = length lines - length pat
           in case first_match id lines pat search_start stop of
                Some i \<Rightarrow> Some i
              | None \<Rightarrow>
                  (case first_match trim_end lines pat search_start stop of
                     Some i \<Rightarrow> Some i
                   | None \<Rightarrow>
                       (case first_match trim lines pat search_start stop of
                          Some i \<Rightarrow> Some i
                        | None \<Rightarrow> first_match normalise lines pat search_start stop)))"

section \<open>Lemmas\<close>

lemma first_match_Some:
  "first_match f lines pat a b = Some i \<longleftrightarrow>
     a \<le> i \<and> i \<le> b \<and> lines_match f lines pat i \<and> (\<forall>j. a \<le> j \<and> j < i \<longrightarrow> \<not> lines_match f lines pat j)"
proof
  assume "first_match f lines pat a b = Some i"
  then obtain k where k: "k < length [a ..< Suc b]" "[a ..< Suc b] ! k = i" "lines_match f lines pat i"
    "\<forall>j < k. \<not> lines_match f lines pat ([a ..< Suc b] ! j)"
    unfolding first_match_def find_Some_iff by blast
  then have "i = a + k" "i \<le> b" by (auto simp del: upt_Suc)
  moreover have "\<not> lines_match f lines pat j" if "a \<le> j" "j < i" for j
    using k(4) that \<open>i = a + k\<close> \<open>i \<le> b\<close> by (auto simp del: upt_Suc dest!: spec [of _ "j - a"])
  ultimately show "a \<le> i \<and> i \<le> b \<and> lines_match f lines pat i \<and>
      (\<forall>j. a \<le> j \<and> j < i \<longrightarrow> \<not> lines_match f lines pat j)" using k(3) by auto
next
  assume h: "a \<le> i \<and> i \<le> b \<and> lines_match f lines pat i \<and>
      (\<forall>j. a \<le> j \<and> j < i \<longrightarrow> \<not> lines_match f lines pat j)"
  then show "first_match f lines pat a b = Some i"
    unfolding first_match_def find_Some_iff
    by (intro exI [of _ "i - a"]) (auto simp del: upt_Suc)
qed

lemma first_match_None:
  "first_match f lines pat a b = None \<longleftrightarrow> (\<forall>i. a \<le> i \<and> i \<le> b \<longrightarrow> \<not> lines_match f lines pat i)"
  by (auto simp: first_match_def find_None_iff simp del: upt_Suc)

lemma lines_match_mono:
  assumes "lines_match f lines pat i" and "\<And>x y. f x = f y \<Longrightarrow> g x = g y"
  shows "lines_match g lines pat i"
  using assms(1) unfolding lines_match_def by (rule list_all2_mono) (rule assms(2))

lemma lines_match_length:
  assumes "lines_match f lines pat i" and "pat \<noteq> []"
  shows "i + length pat \<le> length lines"
proof -
  have "min (length lines - i) (length pat) = length pat"
    using assms(1) by (auto simp: lines_match_def dest!: list_all2_lengthD)
  moreover have "0 < length pat" using assms(2) by simp
  ultimately show ?thesis by linarith
qed

text \<open>The four levels, from strict to lenient.\<close>

definition levels :: "(string \<Rightarrow> string) list" where
  "levels = [id, trim_end, trim, normalise]"

lemma seek_sequence_Some:
  assumes "seek_sequence lines pat start eof = Some i" and "pat \<noteq> []"
  shows "(if eof then i = length lines - length pat else start \<le> i) \<and>
         i + length pat \<le> length lines \<and> (\<exists>f \<in> set levels. lines_match f lines pat i)"
proof -
  from assms have len: "length pat \<le> length lines"
    by (auto simp: seek_sequence_def split: if_splits)
  let ?s = "if eof then length lines - length pat else start" and ?b = "length lines - length pat"
  have "\<exists>f \<in> set levels. first_match f lines pat ?s ?b = Some i"
    using assms len by (auto simp: seek_sequence_def Let_def levels_def split: option.splits if_splits)
  then obtain f where "f \<in> set levels" "?s \<le> i" "i \<le> ?b" "lines_match f lines pat i"
    by (auto simp: first_match_Some)
  with lines_match_length [OF this(4) assms(2)] show ?thesis by (auto split: if_splits)
qed

section \<open>Properties\<close>

text \<open>
  A match that \<open>seek_sequence\<close> returns for a non-empty pattern lies within the file (so the
  slices the callers take do not panic), at or after \<open>start\<close> (with the end-of-file flag: at the
  last possible position), and its lines equal the pattern up to one of the four levels of
  leniency.
\<close>

theorem seek_sequence_sound:
  assumes "seek_sequence lines pat start eof = Some i" and "pat \<noteq> []"
  shows "(if eof then i = length lines - length pat else start \<le> i) \<and>
         i + length pat \<le> length lines \<and> (\<exists>f \<in> set levels. lines_match f lines pat i)"
  using assms by (rule seek_sequence_Some)

theorem seek_sequence_sound_witness:
  "seek_sequence [''a'', ''b  '', ''c''] [''b'', ''c''] 0 False = Some 1 \<and>
   (\<exists>f \<in> set levels. lines_match f [''a'', ''b  '', ''c''] [''b'', ''c''] 1)"
proof -
  have s: "seek_sequence [''a'', ''b  '', ''c''] [''b'', ''c''] 0 False = Some 1" by code_simp
  from seek_sequence_sound [OF s] s show ?thesis by blast
qed

text \<open>
  Completeness and priority. Without the end-of-file flag, the first exact match at or after
  \<open>start\<close> is returned whenever there is one, however many lenient matches precede it; and
  nothing is found only when no position from \<open>start\<close> on matches at any level.
\<close>

theorem seek_sequence_complete:
  assumes "pat \<noteq> []"
  shows "(\<forall>i. start \<le> i \<and> lines_match id lines pat i \<and>
              (\<forall>j. start \<le> j \<and> j < i \<longrightarrow> \<not> lines_match id lines pat j) \<longrightarrow>
              seek_sequence lines pat start False = Some i) \<and>
         (seek_sequence lines pat start False = None \<longleftrightarrow>
            (\<forall>f \<in> set levels. \<forall>i \<ge> start. \<not> lines_match f lines pat i))"
proof (intro conjI allI impI)
  fix i assume h: "start \<le> i \<and> lines_match id lines pat i \<and>
              (\<forall>j. start \<le> j \<and> j < i \<longrightarrow> \<not> lines_match id lines pat j)"
  then have l: "i + length pat \<le> length lines" using lines_match_length assms by blast
  with h have "first_match id lines pat start (length lines - length pat) = Some i"
    by (auto simp: first_match_Some)
  with l assms show "seek_sequence lines pat start False = Some i"
    by (simp add: seek_sequence_def Let_def)
next
  let ?b = "length lines - length pat"
  show "seek_sequence lines pat start False = None \<longleftrightarrow>
            (\<forall>f \<in> set levels. \<forall>i \<ge> start. \<not> lines_match f lines pat i)"
  proof (cases "length lines < length pat")
    case True
    then have "\<not> lines_match f lines pat i" for f i
      using lines_match_length [of f lines pat i] assms by auto
    with True assms show ?thesis by (simp add: seek_sequence_def)
  next
    case False
    have "(\<forall>i \<ge> start. \<not> lines_match f lines pat i) \<longleftrightarrow> first_match f lines pat start ?b = None" for f
      using lines_match_length [of f lines pat] assms unfolding first_match_None
      by (meson add_le_imp_le_diff order.trans)
    with False assms show ?thesis
      by (simp add: seek_sequence_def Let_def levels_def split: option.splits)
  qed
qed

theorem seek_sequence_complete_witness:
  "seek_sequence [''a'', ''b''] [''x''] 0 False = None \<and>
   \<not> lines_match normalise [''a'', ''b''] [''x''] 1"
proof -
  have n: "seek_sequence [''a'', ''b''] [''x''] 0 False = None" by code_simp
  have "[''x''] \<noteq> []" by simp
  with n have "\<forall>f \<in> set levels. \<forall>i \<ge> 0. \<not> lines_match f [''a'', ''b''] [''x''] i"
    using seek_sequence_complete [of "[''x'']" 0 "[''a'', ''b'']"] by blast
  with n show ?thesis by (simp add: levels_def)
qed

end
