(* ===== verification/Patch_Apply.thy ===== *)
theory Patch_Apply
  imports Patch_Seek Patch_Parser
begin

text \<open>
  Applying a patch, \<open>apply-patch/src/lib.rs\<close>: locating the chunks of an update in a file, replacing
  lines, and carrying hunks out on a file system.

  The file system (\<open>ExecutorFileSystem\<close> with its sandbox) and the path functions are parameters.
  \<open>Vec::insert\<close> past the end is a panic, the value \<open>None\<close> of \<open>apply_replacements\<close>. Writing to
  \<open>stdout\<close> and \<open>stderr\<close> appends to a string.
\<close>

section \<open>Replacements\<close>

datatype io_error = IoE (io_not_found: bool) (io_message: string)

datatype ApplyPatchError =
  ParseErr ParseError
| IoErr string io_error
| ComputeReplacements string
| ImplicitInvocation

type_synonym replacement = "nat \<times> nat \<times> string list"

text \<open>The search of one chunk: the start, and the pattern and new lines that are used.\<close>

definition locate_chunk ::
    "string list \<Rightarrow> nat \<Rightarrow> UpdateFileChunk \<Rightarrow> (nat \<times> string list \<times> string list) option" where
  "locate_chunk original line_index chunk =
     (let pat = old_lines chunk;
          found = seek_sequence original pat line_index (is_end_of_file chunk);
          new_slice = new_lines chunk
      in if found = None \<and> pat \<noteq> [] \<and> last pat = [] then
           let pat2 = butlast pat;
               new2 = (if new_slice \<noteq> [] \<and> last new_slice = [] then butlast new_slice else new_slice)
           in map_option (\<lambda>i. (i, pat2, new2))
                (seek_sequence original pat2 line_index (is_end_of_file chunk))
         else map_option (\<lambda>i. (i, pat, new_slice)) found)"

definition insertion_idx :: "string list \<Rightarrow> nat" where
  "insertion_idx original =
     (if original \<noteq> [] \<and> last original = [] then length original - 1 else length original)"

text \<open>The line index after the context line of a chunk.\<close>

definition seek_context ::
    "string list \<Rightarrow> string \<Rightarrow> nat \<Rightarrow> UpdateFileChunk \<Rightarrow> ApplyPatchError + nat" where
  "seek_context original path line_index chunk =
     (case change_context chunk of
        None \<Rightarrow> Ok line_index
      | Some ctx_line \<Rightarrow>
          (case seek_sequence original [ctx_line] line_index False of
             Some idx \<Rightarrow> Ok (idx + 1)
           | None \<Rightarrow> Err (ComputeReplacements (''Failed to find context '' @ [CHR 0x27]
                        @ ctx_line @ [CHR 0x27] @ '' in '' @ path))))"

fun replacement_loop ::
    "string list \<Rightarrow> string \<Rightarrow> UpdateFileChunk list \<Rightarrow> nat \<Rightarrow> replacement list
       \<Rightarrow> ApplyPatchError + replacement list" where
  "replacement_loop original path [] line_index reps = Ok reps"
| "replacement_loop original path (chunk # chunks) line_index reps =
     rbind (seek_context original path line_index chunk)
       (\<lambda>line_index1.
          if old_lines chunk = []
          then replacement_loop original path chunks line_index1
                 (reps @ [(insertion_idx original, 0, new_lines chunk)])
          else case locate_chunk original line_index1 chunk of
                 Some (start_idx, pat, new_slice) \<Rightarrow>
                   replacement_loop original path chunks (start_idx + length pat)
                     (reps @ [(start_idx, length pat, new_slice)])
               | None \<Rightarrow> Err (ComputeReplacements (''Failed to find expected lines in '' @ path
                            @ '':'' @ nl @ str_join nl (old_lines chunk))))"

definition compute_replacements ::
    "string list \<Rightarrow> string \<Rightarrow> UpdateFileChunk list \<Rightarrow> ApplyPatchError + replacement list" where
  "compute_replacements original path chunks =
     rbind (replacement_loop original path chunks 0 []) (\<lambda>reps. Ok (sort_key fst reps))"

fun remove_lines :: "nat \<Rightarrow> nat \<Rightarrow> string list \<Rightarrow> string list" where
  "remove_lines start 0 ls = ls"
| "remove_lines start (Suc n) ls =
     remove_lines start n (if start < length ls then take start ls @ drop (Suc start) ls else ls)"

fun insert_lines :: "nat \<Rightarrow> string list \<Rightarrow> string list \<Rightarrow> string list option" where
  "insert_lines i [] ls = Some ls"
| "insert_lines i (x # xs) ls =
     (if i \<le> length ls then insert_lines (Suc i) xs (take i ls @ x # drop i ls) else None)"

fun apply_in_order :: "replacement list \<Rightarrow> string list \<Rightarrow> string list option" where
  "apply_in_order [] ls = Some ls"
| "apply_in_order ((start_idx, old_len, new_segment) # reps) ls =
     Option.bind (insert_lines start_idx new_segment (remove_lines start_idx old_len ls))
       (apply_in_order reps)"

definition apply_replacements :: "string list \<Rightarrow> replacement list \<Rightarrow> string list option" where
  "apply_replacements ls reps = apply_in_order (rev reps) ls"

text \<open>The contents after the chunks; the outer \<open>None\<close> is a panic.\<close>

definition original_lines_of :: "string \<Rightarrow> string list" where
  "original_lines_of contents =
     (let ls = split_char (CHR 0x0A) contents
      in if ls \<noteq> [] \<and> last ls = [] then butlast ls else ls)"

definition finish_lines :: "string list \<Rightarrow> string" where
  "finish_lines ls = str_join nl (if ls \<noteq> [] \<and> last ls = [] then ls else ls @ [[]])"

definition new_contents ::
    "string \<Rightarrow> string \<Rightarrow> UpdateFileChunk list \<Rightarrow> (ApplyPatchError + string) option" where
  "new_contents original_contents path chunks =
     (let original = original_lines_of original_contents in
      case compute_replacements original path chunks of
        Inl e \<Rightarrow> Some (Err e)
      | Inr reps \<Rightarrow> map_option (\<lambda>ls. Ok (finish_lines ls)) (apply_replacements original reps))"

section \<open>The reference\<close>

text \<open>
  Replacing disjoint regions from left to right: \<open>p\<close> is the position of the first of the lines
  that are left.
\<close>

fun splice_regions :: "nat \<Rightarrow> replacement list \<Rightarrow> string list \<Rightarrow> string list" where
  "splice_regions p [] ls = ls"
| "splice_regions p ((s, n, new) # reps) ls = take (s - p) ls @ new @ splice_regions (s + n) reps (drop (s + n - p) ls)"

fun disjoint_from :: "nat \<Rightarrow> nat \<Rightarrow> replacement list \<Rightarrow> bool" where
  "disjoint_from p len [] = True"
| "disjoint_from p len ((s, n, new) # reps) \<longleftrightarrow> p \<le> s \<and> s + n \<le> len \<and> disjoint_from (s + n) len reps"

section \<open>Lemmas\<close>

lemma remove_lines_eq: "remove_lines s n ls = take s ls @ drop (s + n) ls"
proof (induction s n ls rule: remove_lines.induct)
  case (2 s n ls)
  then show ?case by (cases "s < length ls") (simp_all add: min_def add.commute)
qed simp

lemma insert_lines_eq:
  "i \<le> length ls \<Longrightarrow> insert_lines i xs ls = Some (take i ls @ xs @ drop i ls)"
proof (induction i xs ls rule: insert_lines.induct)
  case (2 i x xs ls)
  then have "Suc i \<le> length (take i ls @ x # drop i ls)" by simp
  with 2 show ?case by (simp add: min_def)
qed simp

lemma replace_one:
  assumes "s \<le> length ls"
  shows "insert_lines s new (remove_lines s n ls) = Some (take s ls @ new @ drop (s + n) ls)"
  using assms by (simp add: remove_lines_eq insert_lines_eq min_def)

lemma apply_in_order_append:
  "apply_in_order (xs @ ys) ls = Option.bind (apply_in_order xs ls) (apply_in_order ys)"
  by (induction xs arbitrary: ls) (auto split: bind_splits)

lemma apply_replacements_Cons:
  "apply_replacements ls ((s, n, new) # reps) =
     Option.bind (apply_replacements ls reps) (\<lambda>ls'. insert_lines s new (remove_lines s n ls'))"
  by (simp add: apply_replacements_def apply_in_order_append split: bind_splits)

text \<open>Replacements applied from the back leave everything before the first of them alone.\<close>

lemma apply_sorted:
  assumes "sorted (map fst reps)" and "list_all (\<lambda>r. q \<le> fst r \<and> fst r \<le> length ls) reps"
    and "q \<le> length ls"
  shows "\<exists>ls'. apply_replacements ls reps = Some ls' \<and> take q ls' = take q ls \<and> q \<le> length ls'"
  using assms
proof (induction reps arbitrary: q)
  case Nil
  then show ?case by (simp add: apply_replacements_def)
next
  case (Cons r reps)
  obtain s n new where r: "r = (s, n, new)" by (cases r) auto
  from Cons.prems r have "list_all (\<lambda>r. s \<le> fst r \<and> fst r \<le> length ls) reps" "s \<le> length ls"
    by (auto simp: list_all_iff)
  with Cons.IH [of s] Cons.prems(1) r obtain ls' where
    ls': "apply_replacements ls reps = Some ls'" "take s ls' = take s ls" "s \<le> length ls'" by auto
  have qs: "q \<le> s" using Cons.prems(2) r by simp
  have "apply_replacements ls (r # reps) = Some (take s ls' @ new @ drop (s + n) ls')"
    using ls' by (simp add: r apply_replacements_Cons replace_one)
  moreover have "take q (take s ls' @ new @ drop (s + n) ls') = take q ls"
    using ls'(2,3) qs by (metis append_take_drop_id length_take min.absorb2 take_append take_take
        diff_is_0_eq' take_0 append_Nil2 min.absorb1)
  ultimately show ?case using qs ls'(3) by auto
qed

lemma apply_disjoint:
  assumes "disjoint_from q (length ls) reps" and "q \<le> length ls"
  shows "apply_replacements ls reps = Some (take q ls @ splice_regions q reps (drop q ls))"
  using assms
proof (induction reps arbitrary: q)
  case Nil
  then show ?case by (simp add: apply_replacements_def)
next
  case (Cons r reps)
  obtain s n new where r: "r = (s, n, new)" by (cases r) auto
  from Cons.prems r have d: "q \<le> s" "s + n \<le> length ls" "disjoint_from (s + n) (length ls) reps" by auto
  let ?L = "take (s + n) ls @ splice_regions (s + n) reps (drop (s + n) ls)"
  have "apply_replacements ls (r # reps) = Some (take s ?L @ new @ drop (s + n) ?L)"
    using Cons.IH [OF d(3,2)] d(2) by (simp add: r apply_replacements_Cons replace_one)
  moreover have "take s ?L = take q ls @ take (s - q) (drop q ls)"
    using d take_add [of q "s - q" ls] by (simp add: min_def)
  moreover have "drop (s + n) ?L = splice_regions (s + n) reps (drop (s + n) ls)"
    using d(2) by simp
  ultimately show ?case using d by (simp add: r)
qed

subsection \<open>Where the chunks are found\<close>

lemma locate_chunk_bounds:
  assumes "locate_chunk original i chunk = Some (s, pat, new)" and "i \<le> length original"
  shows "s + length pat \<le> length original" and "\<not> is_end_of_file chunk \<Longrightarrow> i \<le> s"
proof -
  have seek: "s + length p \<le> length original \<and> (\<not> is_end_of_file chunk \<longrightarrow> i \<le> s)"
    if "seek_sequence original p i (is_end_of_file chunk) = Some s" for p
    using seek_sequence_Some [OF that] that assms(2)
    by (cases "p = []") (auto simp: seek_sequence_def split: if_splits)
  from assms(1) obtain p where "seek_sequence original p i (is_end_of_file chunk) = Some s" "pat = p"
    by (auto simp: locate_chunk_def Let_def split: if_splits)
  with seek show "s + length pat \<le> length original" "\<not> is_end_of_file chunk \<Longrightarrow> i \<le> s" by auto
qed

lemma seek_context_bounds:
  assumes "seek_context original path i chunk = Ok j" and "i \<le> length original"
  shows "i \<le> j" and "j \<le> length original"
  using assms seek_sequence_Some [of original "[x]" i False idx for x idx]
  by (fastforce simp: seek_context_def split: option.splits)+

lemma insertion_idx_le: "insertion_idx original \<le> length original"
  by (simp add: insertion_idx_def)

lemma replacement_loop_bounds:
  assumes "replacement_loop original path chunks i reps = Ok reps'" and "i \<le> length original"
    and "list_all (\<lambda>r. fst r \<le> length original) reps"
  shows "list_all (\<lambda>r. fst r \<le> length original) reps'"
  using assms
proof (induction chunks arbitrary: i reps)
  case (Cons chunk chunks)
  from Cons.prems(1) obtain j where j: "seek_context original path i chunk = Ok j"
    by (auto simp: rbind_Inr_iff)
  note jl = seek_context_bounds [OF j Cons.prems(2)]
  show ?case
  proof (cases "old_lines chunk = []")
    case True
    with Cons.IH [of j "reps @ [(insertion_idx original, 0, new_lines chunk)]"] Cons.prems j jl
      insertion_idx_le [of original]
    show ?thesis by simp
  next
    case False
    with Cons.prems(1) j obtain s pat new where l: "locate_chunk original j chunk = Some (s, pat, new)"
      by (auto split: option.splits)
    note b = locate_chunk_bounds(1) [OF l jl(2)]
    with Cons.IH [of "s + length pat" "reps @ [(s, length pat, new)]"] Cons.prems j l False
    show ?thesis by simp
  qed
qed simp

text \<open>
  Without pure additions and end-of-file chunks the regions come out in order and disjoint; each
  is the place where \<open>locate_chunk\<close> found its chunk.
\<close>

definition plain_chunk :: "UpdateFileChunk \<Rightarrow> bool" where
  "plain_chunk c \<longleftrightarrow> old_lines c \<noteq> [] \<and> \<not> is_end_of_file c"

lemma disjoint_from_snoc:
  assumes "disjoint_from p len reps" and "\<forall>r \<in> set reps. fst r + fst (snd r) \<le> s" and "p \<le> s"
    and "s + n \<le> len"
  shows "disjoint_from p len (reps @ [(s, n, new)])"
  using assms by (induction p len reps rule: disjoint_from.induct) auto

lemma replacement_loop_disjoint:
  assumes "replacement_loop original path chunks i reps = Ok reps'" and "i \<le> length original"
    and "list_all plain_chunk chunks" and "disjoint_from 0 (length original) reps"
    and "\<forall>r \<in> set reps. fst r + fst (snd r) \<le> i"
  shows "disjoint_from 0 (length original) reps'"
  using assms
proof (induction chunks arbitrary: i reps)
  case (Cons chunk chunks)
  from Cons.prems(1) obtain j where j: "seek_context original path i chunk = Ok j"
    by (auto simp: rbind_Inr_iff)
  note jl = seek_context_bounds [OF j Cons.prems(2)]
  from Cons.prems(3) have pc: "old_lines chunk \<noteq> []" "\<not> is_end_of_file chunk"
    by (simp_all add: plain_chunk_def)
  with Cons.prems(1) j obtain s pat new where l: "locate_chunk original j chunk = Some (s, pat, new)"
    by (auto split: option.splits)
  note b = locate_chunk_bounds [OF l jl(2)]
  have js: "j \<le> s" using b(2) pc by simp
  have ends: "\<forall>r \<in> set (reps @ [(s, length pat, new)]). fst r + fst (snd r) \<le> s + length pat"
    using Cons.prems(5) jl(1) js by force
  have "disjoint_from 0 (length original) (reps @ [(s, length pat, new)])"
    using Cons.prems(4,5) jl(1) js b(1) by (intro disjoint_from_snoc) force+
  with Cons.IH [of "s + length pat" "reps @ [(s, length pat, new)]"] Cons.prems j l pc b(1) ends
  show ?case by simp
qed simp

lemma disjoint_from_sorted: "disjoint_from p len reps \<Longrightarrow> sorted (map fst reps) \<and> (\<forall>r \<in> set reps. p \<le> fst r)"
  by (induction p len reps rule: disjoint_from.induct) force+

lemma sort_key_sorted: "sorted (map f xs) \<Longrightarrow> sort_key f xs = xs"
  by (induction xs) (auto simp: insort_is_Cons)

text \<open>
  The region of a chunk: where its old lines (or, at the end of the file, its old lines without
  the final empty one) were found at one of the levels of leniency, and what replaces them.
\<close>

definition trimmed_new :: "string list \<Rightarrow> string list" where
  "trimmed_new new = (if new \<noteq> [] \<and> last new = [] then butlast new else new)"

definition chunk_region :: "string list \<Rightarrow> UpdateFileChunk \<Rightarrow> replacement \<Rightarrow> bool" where
  "chunk_region original c r \<longleftrightarrow>
     (\<exists>pat f. f \<in> set levels \<and> lines_match f original pat (fst r) \<and> fst (snd r) = length pat \<and>
        (pat = old_lines c \<and> snd (snd r) = new_lines c \<or>
         old_lines c = pat @ [[]] \<and> snd (snd r) = trimmed_new (new_lines c)))"

lemma locate_chunk_region:
  assumes "locate_chunk original i c = Some (s, pat, new)"
  shows "chunk_region original c (s, length pat, new)"
proof -
  have m: "\<exists>f. f \<in> set levels \<and> lines_match f original p s"
    if "seek_sequence original p i (is_end_of_file c) = Some s" for p
  proof (cases "p = []")
    case True
    have "id \<in> set levels" by (simp add: levels_def)
    moreover have "lines_match id original p s" using True by (simp add: lines_match_def)
    ultimately show ?thesis by blast
  next
    case False
    from seek_sequence_Some [OF that this] show ?thesis by blast
  qed
  show ?thesis
  proof (cases "seek_sequence original (old_lines c) i (is_end_of_file c)")
    case None
    with assms have ne: "old_lines c \<noteq> []" "last (old_lines c) = []" and p: "pat = butlast (old_lines c)"
      and n: "new = trimmed_new (new_lines c)"
      and f: "seek_sequence original pat i (is_end_of_file c) = Some s"
      by (auto simp: locate_chunk_def Let_def trimmed_new_def split: if_splits)
    have "old_lines c = pat @ [[]]" using append_butlast_last_id [OF ne(1)] ne(2) p by simp
    with m [OF f] n show ?thesis unfolding chunk_region_def by auto
  next
    case (Some k)
    with assms have k: "k = s" and p: "pat = old_lines c" and n: "new = new_lines c"
      by (auto simp: locate_chunk_def Let_def)
    with m [of pat] Some show ?thesis unfolding chunk_region_def by auto
  qed
qed

lemma replacement_loop_regions:
  assumes "replacement_loop original path chunks i reps = Ok reps'" and "list_all plain_chunk chunks"
  shows "\<exists>rs. reps' = reps @ rs \<and> list_all2 (chunk_region original) chunks rs"
  using assms
proof (induction chunks arbitrary: i reps)
  case (Cons chunk chunks)
  from Cons.prems(1) obtain j where j: "seek_context original path i chunk = Ok j"
    by (auto simp: rbind_Inr_iff)
  from Cons.prems(2) have "old_lines chunk \<noteq> []" by (simp add: plain_chunk_def)
  with Cons.prems(1) j obtain s pat new where l: "locate_chunk original j chunk = Some (s, pat, new)"
    and "replacement_loop original path chunks (s + length pat) (reps @ [(s, length pat, new)]) = Ok reps'"
    by (auto split: option.splits)
  from Cons.IH [OF this(2)] Cons.prems(2) obtain rs where
    "reps' = (reps @ [(s, length pat, new)]) @ rs" "list_all2 (chunk_region original) chunks rs" by auto
  with locate_chunk_region [OF l] show ?case by (intro exI [of _ "(s, length pat, new) # rs"]) simp
qed simp

lemma compute_replacements_sorted:
  assumes "compute_replacements original path chunks = Ok reps"
  shows "sorted (map fst reps)" and "list_all (\<lambda>r. fst r \<le> length original) reps"
proof -
  from assms obtain rs where l: "replacement_loop original path chunks 0 [] = Ok rs"
    and reps: "reps = sort_key fst rs" by (auto simp: compute_replacements_def rbind_Inr_iff)
  show "sorted (map fst reps)" by (simp add: reps)
  show "list_all (\<lambda>r. fst r \<le> length original) reps"
    using replacement_loop_bounds [OF l] unfolding reps list_all_iff set_sort by simp
qed

lemma compute_replacements_plain:
  assumes "compute_replacements original path chunks = Ok reps" and "list_all plain_chunk chunks"
  shows "disjoint_from 0 (length original) reps" and "list_all2 (chunk_region original) chunks reps"
proof -
  from assms(1) obtain rs where l: "replacement_loop original path chunks 0 [] = Ok rs"
    and reps: "reps = sort_key fst rs" by (auto simp: compute_replacements_def rbind_Inr_iff)
  have d: "disjoint_from 0 (length original) rs"
    by (rule replacement_loop_disjoint [OF l _ assms(2)]) auto
  then have "reps = rs" using disjoint_from_sorted reps sort_key_sorted by metis
  with d replacement_loop_regions [OF l assms(2)]
  show "disjoint_from 0 (length original) reps" "list_all2 (chunk_region original) chunks reps" by auto
qed

section \<open>The file system\<close>

text \<open>
  \<open>pf_metadata\<close> gives whether the path is a directory. \<open>pf_resolve\<close> is
  \<open>resolve_path_against_base\<close> with the working directory, \<open>pf_parent\<close> the parent path.
\<close>

record 'f patch_fs =
  pf_read :: "string \<Rightarrow> 'f \<Rightarrow> (io_error + string) \<times> 'f"
  pf_write :: "string \<Rightarrow> string \<Rightarrow> 'f \<Rightarrow> (io_error + unit) \<times> 'f"
  pf_create_dir :: "string \<Rightarrow> 'f \<Rightarrow> (io_error + unit) \<times> 'f"
  pf_metadata :: "string \<Rightarrow> 'f \<Rightarrow> (io_error + bool) \<times> 'f"
  pf_remove :: "string \<Rightarrow> 'f \<Rightarrow> (io_error + unit) \<times> 'f"
  pf_resolve :: "string \<Rightarrow> string"
  pf_parent :: "string \<Rightarrow> string option"

text \<open>An \<open>anyhow\<close> error: an I/O error under a context, an error of this crate, or a message.\<close>

datatype anyhow = AIo string io_error | AApply ApplyPatchError | AMsg string

record AffectedPaths =
  added :: "string list"
  modified :: "string list"
  deleted :: "string list"

definition no_paths :: AffectedPaths where
  "no_paths = \<lparr>added = [], modified = [], deleted = []\<rparr>"

definition with_ctx :: "string \<Rightarrow> (io_error + 'a) \<times> 'f \<Rightarrow> (anyhow + 'a) \<times> 'f" where
  "with_ctx msg p = (case p of (Inl e, f) \<Rightarrow> (Err (AIo msg e), f) | (Inr x, f) \<Rightarrow> (Ok x, f))"

definition fbind :: "('e + 'a) \<times> 'f \<Rightarrow> ('a \<Rightarrow> 'f \<Rightarrow> ('e + 'b) \<times> 'f) \<Rightarrow> ('e + 'b) \<times> 'f" where
  "fbind p k = (case p of (Inl e, f) \<Rightarrow> (Err e, f) | (Inr x, f) \<Rightarrow> k x f)"

definition write_file_with_missing_parent_retry ::
    "'f patch_fs \<Rightarrow> string \<Rightarrow> string \<Rightarrow> 'f \<Rightarrow> (anyhow + unit) \<times> 'f" where
  "write_file_with_missing_parent_retry fs path contents f =
     (case pf_write fs path contents f of
        (Inr _, f1) \<Rightarrow> (Ok (), f1)
      | (Inl err, f1) \<Rightarrow>
          if io_not_found err then
            fbind (case pf_parent fs path of
                     Some parent \<Rightarrow>
                       with_ctx (''Failed to create parent directories for '' @ path)
                         (pf_create_dir fs parent f1)
                   | None \<Rightarrow> (Ok (), f1))
              (\<lambda>_ f2. with_ctx (''Failed to write file '' @ path) (pf_write fs path contents f2))
          else (Err (AIo (''Failed to write file '' @ path) err), f1))"

definition remove_file :: "'f patch_fs \<Rightarrow> string \<Rightarrow> 'f \<Rightarrow> (io_error + unit) \<times> 'f" where
  "remove_file fs path f =
     fbind (pf_metadata fs path f)
       (\<lambda>is_directory f1.
          if is_directory then (Err (IoE False ''path is a directory''), f1)
          else pf_remove fs path f1)"

text \<open>\<open>None\<close> is a panic.\<close>

definition derive_new_contents_from_chunks ::
    "'f patch_fs \<Rightarrow> string \<Rightarrow> UpdateFileChunk list \<Rightarrow> 'f
       \<Rightarrow> ((ApplyPatchError + string \<times> string) \<times> 'f) option" where
  "derive_new_contents_from_chunks fs path chunks f =
     (case pf_read fs path f of
        (Inl err, f1) \<Rightarrow> Some (Err (IoErr (''Failed to read file to update '' @ path) err), f1)
      | (Inr original_contents, f1) \<Rightarrow>
          map_option (\<lambda>r. (rbind r (\<lambda>c. Ok (original_contents, c)), f1))
            (new_contents original_contents path chunks))"

definition apply_hunk ::
    "'f patch_fs \<Rightarrow> Hunk \<Rightarrow> AffectedPaths \<Rightarrow> 'f \<Rightarrow> ((anyhow + AffectedPaths) \<times> 'f) option" where
  "apply_hunk fs hunk paths f =
     (let path_abs = pf_resolve fs (hunk_path hunk); ap = affected_path hunk in
      case hunk of
        AddFile _ contents \<Rightarrow>
          Some (fbind (write_file_with_missing_parent_retry fs path_abs contents f)
                  (\<lambda>_ f1. (Ok (paths\<lparr>added := added paths @ [ap]\<rparr>), f1)))
      | DeleteFile _ \<Rightarrow>
          Some (fbind (with_ctx (''Failed to delete file '' @ path_abs) (remove_file fs path_abs f))
                  (\<lambda>_ f1. (Ok (paths\<lparr>deleted := deleted paths @ [ap]\<rparr>), f1)))
      | UpdateFile _ move_path chunks \<Rightarrow>
          map_option
            (\<lambda>(r, f1).
               case r of
                 Inl e \<Rightarrow> (Err (AApply e), f1)
               | Inr (_, contents) \<Rightarrow>
                   (case move_path of
                      Some dest \<Rightarrow>
                        let dest_abs = pf_resolve fs dest in
                        fbind (write_file_with_missing_parent_retry fs dest_abs contents f1)
                          (\<lambda>_ f2. fbind (with_ctx (''Failed to remove original '' @ path_abs)
                                          (remove_file fs path_abs f2))
                                    (\<lambda>_ f3. (Ok (paths\<lparr>modified := modified paths @ [ap]\<rparr>), f3)))
                    | None \<Rightarrow>
                        fbind (with_ctx (''Failed to write file '' @ path_abs)
                                 (pf_write fs path_abs contents f1))
                          (\<lambda>_ f2. (Ok (paths\<lparr>modified := modified paths @ [ap]\<rparr>), f2))))
            (derive_new_contents_from_chunks fs path_abs chunks f))"

fun hunk_loop ::
    "'f patch_fs \<Rightarrow> Hunk list \<Rightarrow> AffectedPaths \<Rightarrow> 'f \<Rightarrow> ((anyhow + AffectedPaths) \<times> 'f) option" where
  "hunk_loop fs [] paths f = Some (Ok paths, f)"
| "hunk_loop fs (hunk # hunks) paths f =
     Option.bind (apply_hunk fs hunk paths f)
       (\<lambda>(r, f1). case r of Inl e \<Rightarrow> Some (Err e, f1) | Inr paths1 \<Rightarrow> hunk_loop fs hunks paths1 f1)"

definition apply_hunks_to_files ::
    "'f patch_fs \<Rightarrow> Hunk list \<Rightarrow> 'f \<Rightarrow> ((anyhow + AffectedPaths) \<times> 'f) option" where
  "apply_hunks_to_files fs hunks f =
     (if hunks = [] then Some (Err (AMsg ''No files were modified.''), f)
      else hunk_loop fs hunks no_paths f)"

fun parse_error_to_string :: "ParseError \<Rightarrow> string" where
  "parse_error_to_string (InvalidPatchError m) = ''invalid patch: '' @ m"
| "parse_error_to_string (InvalidHunkError m n) = ''invalid hunk at line '' @ nat_str n @ '', '' @ m"

fun apply_error_to_string :: "ApplyPatchError \<Rightarrow> string" where
  "apply_error_to_string (ParseErr e) = parse_error_to_string e"
| "apply_error_to_string (IoErr ctx e) = ctx @ '': '' @ io_message e"
| "apply_error_to_string (ComputeReplacements m) = m"
| "apply_error_to_string ImplicitInvocation =
     ''patch detected without explicit call to apply_patch. Rerun as ['' @ [CHR 0x22] @ ''apply_patch''
     @ [CHR 0x22] @ '', '' @ [CHR 0x22] @ ''<patch>'' @ [CHR 0x22] @ '']''"

fun anyhow_to_string :: "anyhow \<Rightarrow> string" where
  "anyhow_to_string (AIo msg _) = msg"
| "anyhow_to_string (AApply e) = apply_error_to_string e"
| "anyhow_to_string (AMsg m) = m"

definition print_summary :: "AffectedPaths \<Rightarrow> string" where
  "print_summary affected =
     writeln [] ''Success. Updated the following files:''
     @ concat (map (\<lambda>p. writeln [] (''A '' @ p)) (added affected))
     @ concat (map (\<lambda>p. writeln [] (''M '' @ p)) (modified affected))
     @ concat (map (\<lambda>p. writeln [] (''D '' @ p)) (deleted affected))"

record streams =
  stdout :: string
  stderr :: string

definition apply_hunks ::
    "'f patch_fs \<Rightarrow> Hunk list \<Rightarrow> streams \<Rightarrow> 'f \<Rightarrow> ((ApplyPatchError + unit) \<times> streams \<times> 'f) option" where
  "apply_hunks fs hunks out f =
     map_option
       (\<lambda>(r, f1).
          case r of
            Inr affected \<Rightarrow> (Ok (), out\<lparr>stdout := stdout out @ print_summary affected\<rparr>, f1)
          | Inl err \<Rightarrow>
              let msg = anyhow_to_string err;
                  out1 = out\<lparr>stderr := writeln (stderr out) msg\<rparr>
              in (case err of
                    AIo _ io \<Rightarrow> (Err (IoErr ''I/O error'' io), out1, f1)
                  | _ \<Rightarrow> (Err (IoErr msg (IoE False msg)), out1, f1)))
       (apply_hunks_to_files fs hunks f)"

definition apply_patch ::
    "'f patch_fs \<Rightarrow> string \<Rightarrow> streams \<Rightarrow> 'f \<Rightarrow> ((ApplyPatchError + unit) \<times> streams \<times> 'f) option" where
  "apply_patch fs patch out f =
     (case parse_patch patch of
        Inl e \<Rightarrow>
          let line = (case e of
                        InvalidPatchError m \<Rightarrow> ''Invalid patch: '' @ m
                      | InvalidHunkError m n \<Rightarrow>
                          ''Invalid patch hunk on line '' @ nat_str n @ '': '' @ m)
          in Some (Err (ParseErr e), out\<lparr>stderr := writeln (stderr out) line\<rparr>, f)
      | Inr source \<Rightarrow> apply_hunks fs (ap_hunks source) out f)"

text \<open>\<open>unified_diff\<close> stands for the \<open>similar\<close> crate.\<close>

definition unified_diff_from_chunks ::
    "(nat \<Rightarrow> string \<Rightarrow> string \<Rightarrow> string) \<Rightarrow> 'f patch_fs \<Rightarrow> string \<Rightarrow> UpdateFileChunk list \<Rightarrow> 'f
       \<Rightarrow> ((ApplyPatchError + string \<times> string) \<times> 'f) option" where
  "unified_diff_from_chunks unified_diff fs path chunks f =
     map_option
       (\<lambda>(r, f1). (rbind r (\<lambda>(original, contents). Ok (unified_diff 1 original contents, contents)), f1))
       (derive_new_contents_from_chunks fs path chunks f)"

section \<open>Lemmas on files\<close>

lemma apply_replacements_total:
  assumes "compute_replacements original path chunks = Ok reps"
  shows "\<exists>ls. apply_replacements original reps = Some ls"
  using apply_sorted [OF compute_replacements_sorted(1) [OF assms], of 0 original]
    compute_replacements_sorted(2) [OF assms] by (auto simp: list_all_iff)

lemma new_contents_total: "\<exists>r. new_contents contents path chunks = Some r"
  using apply_replacements_total
  by (auto simp: new_contents_def Let_def split: sum.splits)

lemma apply_hunk_total: "\<exists>r. apply_hunk fs hunk paths f = Some r"
proof (cases hunk)
  case (UpdateFile p m chunks)
  have "\<exists>r. derive_new_contents_from_chunks fs q chunks f = Some r" for q
    using new_contents_total
    by (fastforce simp: derive_new_contents_from_chunks_def split: prod.splits sum.splits)
  then obtain x where "derive_new_contents_from_chunks fs (pf_resolve fs p) chunks f = Some x" by blast
  with UpdateFile show ?thesis by (simp add: apply_hunk_def Let_def)
qed (auto simp: apply_hunk_def Let_def)

lemma hunk_loop_total: "\<exists>r. hunk_loop fs hunks paths f = Some r"
proof (induction hunks arbitrary: paths f)
  case (Cons hunk hunks)
  obtain r f1 where "apply_hunk fs hunk paths f = Some (r, f1)"
    using apply_hunk_total [of fs hunk paths f] by auto
  with Cons show ?case by (cases r) auto
qed simp

fun is_add :: "Hunk \<Rightarrow> bool" where "is_add (AddFile _ _) = True" | "is_add _ = False"
fun is_delete :: "Hunk \<Rightarrow> bool" where "is_delete (DeleteFile _) = True" | "is_delete _ = False"
fun is_update :: "Hunk \<Rightarrow> bool" where "is_update (UpdateFile _ _ _) = True" | "is_update _ = False"

lemma fbind_Inr: "fbind p k = (Inr y, g) \<longleftrightarrow> (\<exists>x f. p = (Inr x, f) \<and> k x f = (Inr y, g))"
  by (cases p; cases "fst p") (auto simp: fbind_def)

lemma apply_hunk_paths:
  assumes "apply_hunk fs hunk paths f = Some (Ok paths', f')"
  shows "added paths' = added paths @ (if is_add hunk then [affected_path hunk] else []) \<and>
         modified paths' = modified paths @ (if is_update hunk then [affected_path hunk] else []) \<and>
         deleted paths' = deleted paths @ (if is_delete hunk then [affected_path hunk] else [])"
proof (cases hunk)
  case (UpdateFile p m chunks)
  from assms UpdateFile obtain r f1 where
    d: "derive_new_contents_from_chunks fs (pf_resolve fs p) chunks f = Some (r, f1)"
    by (auto simp: apply_hunk_def Let_def)
  show ?thesis
  proof (cases r)
    case (Inl e)
    with assms UpdateFile d show ?thesis by (simp add: apply_hunk_def)
  next
    case (Inr oc)
    obtain original contents where oc: "oc = (original, contents)" by fastforce
    show ?thesis
    proof (cases m)
      case None
      with assms UpdateFile d Inr oc show ?thesis
        by (auto simp: apply_hunk_def Let_def fbind_Inr)
    next
      case (Some dest)
      with assms UpdateFile d Inr oc show ?thesis
        by (auto simp: apply_hunk_def Let_def fbind_Inr)
    qed
  qed
qed (use assms in \<open>auto simp: apply_hunk_def Let_def fbind_Inr\<close>)

lemma hunk_loop_paths:
  assumes "hunk_loop fs hunks paths f = Some (Ok paths', f')"
  shows "added paths' = added paths @ map affected_path (filter is_add hunks) \<and>
         modified paths' = modified paths @ map affected_path (filter is_update hunks) \<and>
         deleted paths' = deleted paths @ map affected_path (filter is_delete hunks)"
  using assms
proof (induction hunks arbitrary: paths f)
  case (Cons hunk hunks)
  from Cons.prems obtain r f1 where a: "apply_hunk fs hunk paths f = Some (r, f1)"
    and b: "(case r of Inl e \<Rightarrow> Some (Err e, f1) | Inr p1 \<Rightarrow> hunk_loop fs hunks p1 f1) =
              Some (Ok paths', f')" by (auto simp: bind_eq_Some_conv)
  obtain p1 where r: "r = Ok p1" using b by (cases r) auto
  with a b have h: "apply_hunk fs hunk paths f = Some (Ok p1, f1)"
    "hunk_loop fs hunks p1 f1 = Some (Ok paths', f')" by simp_all
  from Cons.IH [OF h(2)] apply_hunk_paths [OF h(1)] show ?case by auto
qed simp

lemma hunk_loop_append:
  "hunk_loop fs (hs @ hs') paths f =
     Option.bind (hunk_loop fs hs paths f)
       (\<lambda>(r, f1). case r of Inl e \<Rightarrow> Some (Err e, f1) | Inr paths1 \<Rightarrow> hunk_loop fs hs' paths1 f1)"
proof (induction hs arbitrary: paths f)
  case (Cons h hs)
  show ?case
  proof (cases "apply_hunk fs h paths f")
    case (Some p)
    with Cons show ?thesis by (cases p; cases "fst p") auto
  qed simp
qed simp

section \<open>A concrete file system\<close>

text \<open>
  A file system in memory, for concrete runs: no directories, paths resolve to themselves.
\<close>

definition mem_fs :: "(string \<times> string) list patch_fs" where
  "mem_fs =
     \<lparr>pf_read = (\<lambda>p m. (case map_of m p of
                            Some c \<Rightarrow> Ok c | None \<Rightarrow> Err (IoE True ''not found''), m)),
      pf_write = (\<lambda>p c m. (Ok (), AList.update p c m)),
      pf_create_dir = (\<lambda>_ m. (Ok (), m)),
      pf_metadata = (\<lambda>p m. (if map_of m p = None then Err (IoE True ''not found'') else Ok False, m)),
      pf_remove = (\<lambda>p m. (Ok (), AList.delete p m)),
      pf_resolve = id, pf_parent = (\<lambda>_. None)\<rparr>"

definition line_change :: "string \<Rightarrow> string \<Rightarrow> UpdateFileChunk" where
  "line_change old new =
     \<lparr>change_context = None, old_lines = [old], new_lines = [new], is_end_of_file = False\<rparr>"

section \<open>Properties\<close>




text \<open>
  Hunks are carried out in order: when a later hunk fails, the hunks before it have been carried
  out in full and none after it has; when all succeed, the report lists exactly the paths of the
  added, updated and deleted files, renamed files under their new path.
\<close>

theorem hunks_in_order:
  "(hunk_loop fs hs no_paths f = Some (Ok paths1, f1) \<and> apply_hunk fs h paths1 f1 = Some (Err e, f2) \<longrightarrow>
      apply_hunks_to_files fs (hs @ h # hs') f = Some (Err e, f2)) \<and>
   (apply_hunks_to_files fs (hs @ h # hs') f = Some (Ok paths, f') \<longrightarrow>
      added paths = map affected_path (filter is_add (hs @ h # hs')) \<and>
      modified paths = map affected_path (filter is_update (hs @ h # hs')) \<and>
      deleted paths = map affected_path (filter is_delete (hs @ h # hs')))"
  using hunk_loop_paths [of fs "hs @ h # hs'" no_paths f paths f']
  by (auto simp: apply_hunks_to_files_def hunk_loop_append no_paths_def)

theorem hunks_in_order_witness:
  "\<exists>e. apply_hunks_to_files mem_fs ([AddFile ''n'' ''1''] @ DeleteFile ''missing'' # [DeleteFile ''a'']) [(''a'', ''x'')] =
     Some (Err e, [(''a'', ''x''), (''n'', ''1'')])"
proof -
  have h: "hunk_loop mem_fs [AddFile ''n'' ''1''] no_paths [(''a'', ''x'')] =
      Some (Ok \<lparr>added = [''n''], modified = [], deleted = []\<rparr>, [(''a'', ''x''), (''n'', ''1'')])" by code_simp
  have a: "apply_hunk mem_fs (DeleteFile ''missing'') \<lparr>added = [''n''], modified = [], deleted = []\<rparr>
        [(''a'', ''x''), (''n'', ''1'')] =
      Some (Err (AIo ''Failed to delete file missing'' (IoE True ''not found'')), [(''a'', ''x''), (''n'', ''1'')])"
    by code_simp
  show ?thesis by (rule exI, rule mp [OF conjunct1 [OF hunks_in_order] conjI [OF h a]])
qed

section \<open>Two defects\<close>

text \<open>
  Renaming a file onto itself loses it: the new contents are written to the destination, and
  then the original path, the same file, is removed; the report says it was modified.
\<close>

lemma move_onto_itself_deletes:
  "apply_hunks_to_files mem_fs
     [UpdateFile ''a'' (Some ''a'')
        [\<lparr>change_context = None, old_lines = [''x''], new_lines = [''y''], is_end_of_file = False\<rparr>]]
     [(''a'', ''x'' @ nl), (''b'', ''z'' @ nl)] =
   Some (Ok \<lparr>added = [], modified = [''a''], deleted = []\<rparr>, [(''b'', ''z'' @ nl)])"
  by code_simp

text \<open>
  A pure addition can be lost. The file ends in an empty line, so the addition goes before
  it, into the region that another chunk replaces; removing that region takes the added line with
  it. The patch is reported as applied.
\<close>

lemma pure_addition_lost:
  "new_contents (''a'' @ nl @ ''b'' @ nl @ nl) ''f''
     [\<lparr>change_context = None, old_lines = [''b'', []], new_lines = [''B'', []], is_end_of_file = False\<rparr>,
      \<lparr>change_context = None, old_lines = [], new_lines = [''added''], is_end_of_file = False\<rparr>] =
   Some (Ok (''a'' @ nl @ ''B'' @ nl @ nl))"
  by code_simp

end
