(* ===== verification/Patch_Invocation.thy ===== *)
theory Patch_Invocation
  imports Patch_Apply Shell_Bash
begin

text \<open>
  Recognising a call of \<open>apply_patch\<close> and checking it against the files,
  \<open>apply-patch/src/invocation.rs\<close>.

  The tree-sitter query over a script is a parameter that yields the matches in order, each
  with its captures: the name of a capture and its text, or the error when the text is no
  UTF-8.
\<close>

section \<open>Shells\<close>

definition APPLY_PATCH_COMMANDS :: "string list" where
  "APPLY_PATCH_COMMANDS = [''apply_patch'', ''applypatch'']"

datatype ApplyPatchShell = UnixShell | PowerShellShell | CmdShell

datatype ExtractHeredocError =
  CommandDidNotStartWithApplyPatch
| FailedToLoadBashGrammar
| HeredocNotUtf8
| FailedToParsePatchIntoAst
| FailedToFindHeredocBody

datatype MaybeApplyPatch =
  Body ApplyPatchArgs
| ShellParseError ExtractHeredocError
| PatchParseError ParseError
| NotApplyPatch

definition classify_shell_name :: "string \<Rightarrow> string option" where
  "classify_shell_name shell = map_option to_ascii_lowercase (file_stem shell)"

definition classify_shell :: "string \<Rightarrow> string \<Rightarrow> ApplyPatchShell option" where
  "classify_shell shell flag =
     Option.bind (classify_shell_name shell)
       (\<lambda>name.
          if name \<in> {''bash'', ''zsh'', ''sh''} \<and> (flag = ''-lc'' \<or> flag = ''-c'') then Some UnixShell
          else if name \<in> {''pwsh'', ''powershell''} \<and> to_ascii_lowercase flag = ''-command''
          then Some PowerShellShell
          else if name = ''cmd'' \<and> to_ascii_lowercase flag = ''/c'' then Some CmdShell
          else None)"

definition can_skip_flag :: "string \<Rightarrow> string \<Rightarrow> bool" where
  "can_skip_flag shell flag =
     (case classify_shell_name shell of
        Some name \<Rightarrow> name \<in> {''pwsh'', ''powershell''} \<and> to_ascii_lowercase flag = ''-noprofile''
      | None \<Rightarrow> False)"

definition parse_shell_script :: "string list \<Rightarrow> (ApplyPatchShell \<times> string) option" where
  "parse_shell_script argv =
     (case argv of
        [shell, flag, script] \<Rightarrow> map_option (\<lambda>t. (t, script)) (classify_shell shell flag)
      | [shell, skip_flag, flag, script] \<Rightarrow>
          if can_skip_flag shell skip_flag
          then map_option (\<lambda>t. (t, script)) (classify_shell shell flag) else None
      | _ \<Rightarrow> None)"

section \<open>The here-document\<close>

type_synonym capture = "string \<times> (unit + string)"
type_synonym bash_query = "string \<Rightarrow> ExtractHeredocError + capture list list"

text \<open>The loop over the captures of one match, with \<open>heredoc_text\<close> and \<open>cd_path\<close>.\<close>

fun read_captures ::
    "capture list \<Rightarrow> string option \<times> string option \<Rightarrow> ExtractHeredocError + string option \<times> string option" where
  "read_captures [] acc = Ok acc"
| "read_captures ((name, text) # captures) (heredoc_text, cd_path) =
     (if name = ''heredoc'' then
        (case text of
           Inl _ \<Rightarrow> Err HeredocNotUtf8
         | Inr t \<Rightarrow> read_captures captures (Some (trim_end_matches (CHR 0x0A) t), cd_path))
      else if name = ''cd_path'' then
        (case text of
           Inl _ \<Rightarrow> Err HeredocNotUtf8
         | Inr t \<Rightarrow> read_captures captures (heredoc_text, Some t))
      else if name = ''cd_raw_string'' then
        (case text of
           Inl _ \<Rightarrow> Err HeredocNotUtf8
         | Inr t \<Rightarrow>
             read_captures captures
               (heredoc_text, Some (case strip_both squote t of Some u \<Rightarrow> u | None \<Rightarrow> t)))
      else read_captures captures (heredoc_text, cd_path))"

fun first_heredoc :: "capture list list \<Rightarrow> ExtractHeredocError + string \<times> string option" where
  "first_heredoc [] = Err CommandDidNotStartWithApplyPatch"
| "first_heredoc (m # ms) =
     rbind (read_captures m (None, None))
       (\<lambda>(heredoc_text, cd_path).
          case heredoc_text of Some heredoc \<Rightarrow> Ok (heredoc, cd_path) | None \<Rightarrow> first_heredoc ms)"

definition extract_apply_patch_from_bash :: "bash_query \<Rightarrow> string \<Rightarrow> ExtractHeredocError + string \<times> string option" where
  "extract_apply_patch_from_bash query src = rbind (query src) first_heredoc"

definition extract_apply_patch_from_shell ::
    "bash_query \<Rightarrow> ApplyPatchShell \<Rightarrow> string \<Rightarrow> ExtractHeredocError + string \<times> string option" where
  "extract_apply_patch_from_shell query shell script =
     (case shell of
        UnixShell \<Rightarrow> extract_apply_patch_from_bash query script
      | PowerShellShell \<Rightarrow> extract_apply_patch_from_bash query script
      | CmdShell \<Rightarrow> extract_apply_patch_from_bash query script)"

definition maybe_parse_apply_patch :: "bash_query \<Rightarrow> string list \<Rightarrow> MaybeApplyPatch" where
  "maybe_parse_apply_patch query argv =
     (let from_script =
        (case parse_shell_script argv of
           Some (shell, script) \<Rightarrow>
             (case extract_apply_patch_from_shell query shell script of
                Inr (body, workdir) \<Rightarrow>
                  (case parse_patch body of
                     Inr source \<Rightarrow> Body (source\<lparr>ap_workdir := workdir\<rparr>)
                   | Inl e \<Rightarrow> PatchParseError e)
              | Inl e \<Rightarrow>
                  if e = CommandDidNotStartWithApplyPatch then NotApplyPatch else ShellParseError e)
         | None \<Rightarrow> NotApplyPatch)
      in case argv of
           [cmd, body] \<Rightarrow>
             if cmd \<in> set APPLY_PATCH_COMMANDS
             then (case parse_patch body of Inr source \<Rightarrow> Body source | Inl e \<Rightarrow> PatchParseError e)
             else from_script
         | _ \<Rightarrow> from_script)"

section \<open>Verification\<close>

datatype ApplyPatchFileChange =
  ChangeAdd string
| ChangeDelete string
| ChangeUpdate (unified_diff: string) (change_move_path: "path option") (change_new_content: string)

record ApplyPatchAction =
  act_changes :: "path \<rightharpoonup> ApplyPatchFileChange"
  act_patch :: string
  act_cwd :: path

datatype MaybeApplyPatchVerified =
  VBody ApplyPatchAction
| VShellParseError ExtractHeredocError
| CorrectnessError ApplyPatchError
| VNotApplyPatch

text \<open>What the functions take from outside: the query, the home directory and the diff.\<close>

record inv_env =
  iv_query :: bash_query
  iv_home_dir :: "string option"
  iv_unified_diff :: "nat \<Rightarrow> string \<Rightarrow> string \<Rightarrow> string"

definition hunk_resolve_path :: "inv_env \<Rightarrow> path \<Rightarrow> Hunk \<Rightarrow> path" where
  "hunk_resolve_path env cwd hunk =
     resolve_path_against_base (iv_home_dir env) (hunk_path hunk) (path_str cwd)"

text \<open>The change of one hunk; \<open>None\<close> is a panic.\<close>

definition verify_hunk ::
    "inv_env \<Rightarrow> 'f patch_fs \<Rightarrow> path \<Rightarrow> Hunk \<Rightarrow> 'f \<Rightarrow> ((ApplyPatchError + ApplyPatchFileChange) \<times> 'f) option" where
  "verify_hunk env fs cwd hunk f =
     (let p = path_str (hunk_resolve_path env cwd hunk) in
      case hunk of
        AddFile _ contents \<Rightarrow> Some (Ok (ChangeAdd contents), f)
      | DeleteFile _ \<Rightarrow>
          (case pf_read fs p f of
             (Inr content, f1) \<Rightarrow> Some (Ok (ChangeDelete content), f1)
           | (Inl e, f1) \<Rightarrow> Some (Err (IoErr (''Failed to read '' @ p) e), f1))
      | UpdateFile _ move_path chunks \<Rightarrow>
          map_option
            (\<lambda>(r, f1). (rbind r (\<lambda>(diff, contents).
                Ok (ChangeUpdate diff (map_option (abs_join (iv_home_dir env) cwd) move_path) contents)), f1))
            (unified_diff_from_chunks (iv_unified_diff env) fs p chunks f))"

fun verify_hunks ::
    "inv_env \<Rightarrow> 'f patch_fs \<Rightarrow> path \<Rightarrow> Hunk list \<Rightarrow> (path \<rightharpoonup> ApplyPatchFileChange) \<Rightarrow> 'f
       \<Rightarrow> ((ApplyPatchError + (path \<rightharpoonup> ApplyPatchFileChange)) \<times> 'f) option" where
  "verify_hunks env fs cwd [] changes f = Some (Ok changes, f)"
| "verify_hunks env fs cwd (hunk # hunks) changes f =
     Option.bind (verify_hunk env fs cwd hunk f)
       (\<lambda>(r, f1).
          case r of
            Inl e \<Rightarrow> Some (Err e, f1)
          | Inr change \<Rightarrow>
              verify_hunks env fs cwd hunks (changes(hunk_resolve_path env cwd hunk \<mapsto> change)) f1)"

definition maybe_parse_apply_patch_verified ::
    "inv_env \<Rightarrow> 'f patch_fs \<Rightarrow> string list \<Rightarrow> path \<Rightarrow> 'f \<Rightarrow> (MaybeApplyPatchVerified \<times> 'f) option" where
  "maybe_parse_apply_patch_verified env fs argv cwd f =
     (if (case argv of [body] \<Rightarrow> is_ok (parse_patch body) | _ \<Rightarrow> False)
      then Some (CorrectnessError ImplicitInvocation, f)
      else if (case parse_shell_script argv of
                 Some (_, script) \<Rightarrow> is_ok (parse_patch script) | None \<Rightarrow> False)
      then Some (CorrectnessError ImplicitInvocation, f)
      else case maybe_parse_apply_patch (iv_query env) argv of
        Body args \<Rightarrow>
          let effective_cwd = (case ap_workdir args of
                                 Some dir \<Rightarrow> abs_join (iv_home_dir env) cwd dir
                               | None \<Rightarrow> cwd)
          in map_option
               (\<lambda>(r, f1). (case r of
                             Inl e \<Rightarrow> CorrectnessError e
                           | Inr changes \<Rightarrow>
                               VBody \<lparr>act_changes = changes, act_patch = ap_patch args, act_cwd = effective_cwd\<rparr>,
                           f1))
               (verify_hunks env fs effective_cwd (ap_hunks args) Map.empty f)
      | ShellParseError e \<Rightarrow> Some (VShellParseError e, f)
      | PatchParseError e \<Rightarrow> Some (CorrectnessError (ParseErr e), f)
      | NotApplyPatch \<Rightarrow> Some (VNotApplyPatch, f))"

section \<open>Lemmas\<close>

lemma verify_hunk_total: "\<exists>r. verify_hunk env fs cwd hunk f = Some r"
proof (cases hunk)
  case (UpdateFile p m chunks)
  obtain x where "derive_new_contents_from_chunks fs (path_str (hunk_resolve_path env cwd hunk)) chunks f = Some x"
    using new_contents_total
    by (fastforce simp: derive_new_contents_from_chunks_def split: prod.splits sum.splits)
  with UpdateFile show ?thesis by (simp add: verify_hunk_def Let_def unified_diff_from_chunks_def)
qed (auto simp: verify_hunk_def Let_def split: prod.split sum.split)

lemma verify_hunks_total: "\<exists>r. verify_hunks env fs cwd hunks changes f = Some r"
proof (induction hunks arbitrary: changes f)
  case (Cons hunk hunks)
  obtain r f1 where "verify_hunk env fs cwd hunk f = Some (r, f1)"
    using verify_hunk_total [of env fs cwd hunk f] by auto
  with Cons show ?case by (cases r) auto
qed simp

lemma verify_hunks_dom:
  "verify_hunks env fs cwd hunks changes f = Some (Ok changes', f') \<Longrightarrow>
   dom changes' = dom changes \<union> hunk_resolve_path env cwd ` set hunks"
proof (induction hunks arbitrary: changes f)
  case (Cons hunk hunks)
  obtain r f1 where v: "verify_hunk env fs cwd hunk f = Some (r, f1)"
    using verify_hunk_total [of env fs cwd hunk f] by auto
  show ?case
  proof (cases r)
    case (Inr change)
    with v Cons.prems
    have "verify_hunks env fs cwd hunks (changes(hunk_resolve_path env cwd hunk \<mapsto> change)) f1 = Some (Ok changes', f')"
      by simp
    from Cons.IH [OF this] show ?thesis by auto
  qed (use v Cons.prems in simp)
qed simp

lemma abs_join_wf: "abs_wf cwd \<Longrightarrow> abs_wf (abs_join h cwd p)"
  by (simp add: abs_join_def components_path_str(2) resolve_wf)

lemma hunk_resolve_path_wf: "abs_wf cwd \<Longrightarrow> abs_wf (hunk_resolve_path env cwd hunk)"
  by (simp add: hunk_resolve_path_def components_path_str(2) resolve_wf)

lemma maybe_parse_verified_total: "\<exists>r. maybe_parse_apply_patch_verified env fs argv cwd f = Some r"
proof (cases "maybe_parse_apply_patch (iv_query env) argv")
  case (Body args)
  let ?cwd = "case ap_workdir args of Some dir \<Rightarrow> abs_join (iv_home_dir env) cwd dir | None \<Rightarrow> cwd"
  obtain x where "verify_hunks env fs ?cwd (ap_hunks args) Map.empty f = Some x"
    using verify_hunks_total [of env fs ?cwd "ap_hunks args" Map.empty f] by auto
  with Body show ?thesis by (simp add: maybe_parse_apply_patch_verified_def Let_def)
qed (simp_all add: maybe_parse_apply_patch_verified_def)

lemma verified_action:
  assumes "maybe_parse_apply_patch_verified env fs argv cwd f = Some (VBody act, f')"
  shows "\<exists>args. maybe_parse_apply_patch (iv_query env) argv = Body args \<and> act_patch act = ap_patch args \<and>
    act_cwd act = (case ap_workdir args of Some dir \<Rightarrow> abs_join (iv_home_dir env) cwd dir | None \<Rightarrow> cwd) \<and>
    dom (act_changes act) = hunk_resolve_path env (act_cwd act) ` set (ap_hunks args)"
proof -
  obtain args where args: "maybe_parse_apply_patch (iv_query env) argv = Body args"
    using assms by (auto simp: maybe_parse_apply_patch_verified_def split: if_splits MaybeApplyPatch.splits)
  let ?cwd = "case ap_workdir args of Some dir \<Rightarrow> abs_join (iv_home_dir env) cwd dir | None \<Rightarrow> cwd"
  obtain r f1 where v: "verify_hunks env fs ?cwd (ap_hunks args) Map.empty f = Some (r, f1)"
    using verify_hunks_total [of env fs ?cwd "ap_hunks args" Map.empty f] by auto
  with assms args obtain changes where r: "r = Ok changes" "f1 = f'"
    and act: "act = \<lparr>act_changes = changes, act_patch = ap_patch args, act_cwd = ?cwd\<rparr>"
    by (cases r) (auto simp: maybe_parse_apply_patch_verified_def Let_def split: if_split_asm)
  have "dom changes = hunk_resolve_path env ?cwd ` set (ap_hunks args)"
    using verify_hunks_dom [OF v [unfolded r]] by simp
  with args act show ?thesis by auto
qed

lemma verified_direct:
  assumes "maybe_parse_apply_patch_verified env fs [''apply_patch'', patch] cwd f = Some (VBody act, f')"
  shows "\<exists>parsed. parse_patch patch = Ok parsed \<and> act_patch act = ap_patch parsed"
proof -
  obtain args where "maybe_parse_apply_patch (iv_query env) [''apply_patch'', patch] = Body args"
    and a: "act_patch act = ap_patch args"
    using verified_action [OF assms] by blast
  then have "parse_patch patch = Ok args"
    by (cases "parse_patch patch") (simp_all add: maybe_parse_apply_patch_def APPLY_PATCH_COMMANDS_def)
  with a show ?thesis by blast
qed

section \<open>Properties\<close>

text \<open>
  Verification of a call of \<open>apply_patch\<close> always returns. When it succeeds, the argument
  vector was an explicit invocation whose patch parses, the working directory and every path of
  the resulting changes are absolute and normalised, and the changes cover exactly the files
  that the hunks of the patch name.
\<close>

theorem verified_changes_cover:
  assumes "abs_wf cwd"
  shows "\<exists>r f'. maybe_parse_apply_patch_verified env fs argv cwd f = Some (r, f') \<and>
    (\<forall>act. r = VBody act \<longrightarrow>
       (\<exists>args. maybe_parse_apply_patch (iv_query env) argv = Body args \<and>
         act_patch act = ap_patch args \<and> abs_wf (act_cwd act) \<and>
         dom (act_changes act) = hunk_resolve_path env (act_cwd act) ` set (ap_hunks args) \<and>
         dom (act_changes act) \<subseteq> {p. abs_wf p}))"
proof -
  obtain r f' where v: "maybe_parse_apply_patch_verified env fs argv cwd f = Some (r, f')"
    using maybe_parse_verified_total [of env fs argv cwd f] by auto
  have "\<exists>args. maybe_parse_apply_patch (iv_query env) argv = Body args \<and>
         act_patch act = ap_patch args \<and> abs_wf (act_cwd act) \<and>
         dom (act_changes act) = hunk_resolve_path env (act_cwd act) ` set (ap_hunks args) \<and>
         dom (act_changes act) \<subseteq> {p. abs_wf p}" if body: "r = VBody act" for act
  proof -
    obtain args where a: "maybe_parse_apply_patch (iv_query env) argv = Body args" "act_patch act = ap_patch args"
      "act_cwd act = (case ap_workdir args of Some dir \<Rightarrow> abs_join (iv_home_dir env) cwd dir | None \<Rightarrow> cwd)"
      "dom (act_changes act) = hunk_resolve_path env (act_cwd act) ` set (ap_hunks args)"
      using verified_action [OF v [unfolded body]] by blast
    have "abs_wf (act_cwd act)" using assms a(3) by (simp add: abs_join_wf split: option.splits)
    with a hunk_resolve_path_wf [OF this] show ?thesis by auto
  qed
  with v show ?thesis by blast
qed

definition plain_inv :: inv_env where
  "plain_inv = \<lparr>iv_query = (\<lambda>_. Err CommandDidNotStartWithApplyPatch), iv_home_dir = None,
                iv_unified_diff = (\<lambda>_ _ new. new)\<rparr>"

definition add_patch :: string where
  "add_patch = ''*** Begin Patch'' @ nl @ ''*** Add File: a'' @ nl @ ''+x'' @ nl @ ''*** End Patch''"

definition work_dir :: path where "work_dir = [RootDir, Normal ''w'']"

lemma add_patch_verified:
  "\<exists>changes. maybe_parse_apply_patch_verified plain_inv mem_fs [''apply_patch'', add_patch] work_dir [] =
     Some (VBody \<lparr>act_changes = changes, act_patch = add_patch, act_cwd = work_dir\<rparr>, [])"
proof -
  have p: "parse_patch add_patch = Ok \<lparr>ap_patch = add_patch, ap_hunks = [AddFile ''a'' (''x'' @ nl)], ap_workdir = None\<rparr>"
    by code_simp
  then show ?thesis
    by (simp add: maybe_parse_apply_patch_verified_def maybe_parse_apply_patch_def parse_shell_script_def
        APPLY_PATCH_COMMANDS_def verify_hunk_def Let_def)
qed

theorem verified_changes_cover_witness:
  "\<exists>act args. maybe_parse_apply_patch_verified plain_inv mem_fs [''apply_patch'', add_patch] work_dir [] =
       Some (VBody act, []) \<and>
     maybe_parse_apply_patch (iv_query plain_inv) [''apply_patch'', add_patch] = Body args \<and>
     act_patch act = ap_patch args"
proof -
  have w: "abs_wf work_dir" by code_simp
  from add_patch_verified obtain act where
    v: "maybe_parse_apply_patch_verified plain_inv mem_fs [''apply_patch'', add_patch] work_dir [] = Some (VBody act, [])"
    by blast
  from verified_changes_cover [OF w, of plain_inv mem_fs "[''apply_patch'', add_patch]" "[]"] v
  show ?thesis by auto
qed

section \<open>A gap in what is shown for approval\<close>

text \<open>
  Two updates of one file are applied one after the other, but verification computes both from
  the file as it is and keeps one entry per path, so only the second change is shown.
\<close>

definition twice :: "Hunk list" where
  "twice = [UpdateFile ''f'' None [line_change ''a'' ''A''], UpdateFile ''f'' None [line_change ''b'' ''B'']]"

definition two_lines :: "(string \<times> string) list" where
  "two_lines = [(''/w/f'', ''a'' @ nl @ ''b'' @ nl)]"

definition shown :: ApplyPatchFileChange where
  "shown = ChangeUpdate (''a'' @ nl @ ''B'' @ nl) None (''a'' @ nl @ ''B'' @ nl)"

lemma second_update_hides_first:
  "\<exists>changes. verify_hunks plain_inv mem_fs work_dir twice Map.empty two_lines = Some (Ok changes, two_lines) \<and>
     changes [RootDir, Normal ''w'', Normal ''f''] = Some shown \<and>
     apply_hunks_to_files mem_fs (map (\<lambda>h. case h of UpdateFile _ m c \<Rightarrow> UpdateFile ''/w/f'' m c) twice) two_lines =
       Some (Ok \<lparr>added = [], modified = [''/w/f'', ''/w/f''], deleted = []\<rparr>, [(''/w/f'', ''A'' @ nl @ ''B'' @ nl)])"
proof -
  have 1: "\<exists>c. verify_hunk plain_inv mem_fs work_dir (UpdateFile ''f'' None [line_change ''a'' ''A'']) two_lines =
      Some (Ok c, two_lines)"
    by (rule exI [of _ "ChangeUpdate (''A'' @ nl @ ''b'' @ nl) None (''A'' @ nl @ ''b'' @ nl)"]) code_simp
  have 2: "verify_hunk plain_inv mem_fs work_dir (UpdateFile ''f'' None [line_change ''b'' ''B'']) two_lines =
      Some (Ok shown, two_lines)" by code_simp
  have r: "hunk_resolve_path plain_inv work_dir (UpdateFile ''f'' None c) = [RootDir, Normal ''w'', Normal ''f'']" for c
    unfolding hunk_resolve_path_def by (simp, code_simp)
  have 3: "apply_hunks_to_files mem_fs (map (\<lambda>h. case h of UpdateFile _ m c \<Rightarrow> UpdateFile ''/w/f'' m c) twice) two_lines =
      Some (Ok \<lparr>added = [], modified = [''/w/f'', ''/w/f''], deleted = []\<rparr>, [(''/w/f'', ''A'' @ nl @ ''B'' @ nl)])"
    by code_simp
  show ?thesis unfolding 3 using 1 2 by (auto simp: twice_def r)
qed

end
