(* ===== verification/Line_Endings.thy ===== *)
theory Line_Endings
  imports Prelude
begin

text \<open>
  Line endings: the replacement of carriage return and line feed by a line feed that several
  components apply to texts, and how it commutes with trimming and with cutting into lines.
\<close>

fun replace_crlf :: "string \<Rightarrow> string" where
  "replace_crlf (a # b # s) =
     (if a = CHR 0x0D \<and> b = CHR 0x0A then CHR 0x0A # replace_crlf s else a # replace_crlf (b # s))"
| "replace_crlf s = s"

section \<open>Trimming\<close>

lemma length_strip_words: "length (strip_words ws s) \<le> length s"
  by (induction ws s rule: strip_words.induct) (subst strip_words.simps, auto split: option.split dest: le_trans)

lemma length_trim: "length (trim s) \<le> length s"
proof -
  have "length (trim_end t) \<le> length t" for t
    using length_strip_words [of "map rev ws_encodings" "rev t"] by (simp add: trim_end_def)
  moreover have "length (trim_start t) \<le> length t" for t
    by (simp add: trim_start_def length_strip_words)
  ultimately show ?thesis unfolding trim_def by (meson le_trans)
qed

lemma trim_Nil [simp]: "trim [] = []"
  using length_trim [of "[]"] by simp

lemma set_strip_words_rest: "set s \<subseteq> set (strip_words ws s) \<union> (\<Union>w \<in> set ws. set w)"
proof (induction ws s rule: strip_words.induct)
  case (1 ws s)
  show ?case
  proof (cases "List.find (\<lambda>w. w \<noteq> [] \<and> prefix w s) ws")
    case (Some w)
    then have "w \<in> set ws" "prefix w s" by (auto simp: find_Some_iff)
    then have "set s \<subseteq> set w \<union> set (drop (length w) s)" by (auto simp: prefix_def)
    then show ?thesis using 1 [OF Some] \<open>w \<in> set ws\<close> Some
      by (subst strip_words.simps) auto
  qed (subst strip_words.simps, simp)
qed

lemma trim_blank:
  assumes "trim s = []" "c \<in> set s" shows "\<exists>w \<in> set ws_encodings. c \<in> set w"
proof -
  have "set s \<subseteq> set (trim_start s) \<union> (\<Union>w \<in> set ws_encodings. set w)"
    by (simp add: trim_start_def set_strip_words_rest)
  moreover have "set (trim_start s) \<subseteq> (\<Union>w \<in> set ws_encodings. set w)"
    using set_strip_words_rest [of "rev (trim_start s)" "map rev ws_encodings"] assms(1)
    by (simp add: trim_def trim_end_def)
  ultimately show ?thesis using assms(2) by auto
qed

lemmas sublist_trans = sublist_order.order.trans

lemma sublist_strip_words: "sublist (strip_words ws s) s"
proof (induction ws s rule: strip_words.induct)
  case (1 ws s)
  show ?case
  proof (cases "List.find (\<lambda>w. w \<noteq> [] \<and> prefix w s) ws")
    case (Some w)
    with 1 show ?thesis
      by (subst strip_words.simps) (auto intro: sublist_trans [OF _ sublist_drop])
  qed (subst strip_words.simps, simp)
qed

lemma sublist_trim: "sublist (trim s) s"
proof -
  have "sublist (trim_end (trim_start s)) (trim_start s)"
    using sublist_strip_words [of "map rev ws_encodings" "rev (trim_start s)"]
    by (metis trim_end_def sublist_rev rev_rev_ident)
  moreover have "sublist (trim_start s) s" by (simp add: trim_start_def sublist_strip_words)
  ultimately show ?thesis unfolding trim_def by (rule sublist_trans)
qed

text \<open>The encodings of white space: no encoding is the start of another or the end of another.\<close>

definition prefix_free :: "string list \<Rightarrow> bool" where
  "prefix_free ws = list_all (\<lambda>v. list_all (\<lambda>w. prefix v w \<longrightarrow> v = w) ws) ws"

lemma ws_prefix_free: "prefix_free ws_encodings" "prefix_free (map rev ws_encodings)"
  by code_simp+

lemma ws_nonempty: "[] \<notin> set ws_encodings" "[] \<notin> set (map rev ws_encodings)"
  by code_simp+

lemma strip_words_word:
  assumes "prefix_free ws" "w \<in> set ws" "w \<noteq> []" shows "strip_words ws (w @ s) = strip_words ws s"
proof -
  obtain v where v: "List.find (\<lambda>v. v \<noteq> [] \<and> prefix v (w @ s)) ws = Some v"
    using assms(2,3) by (cases "List.find (\<lambda>v. v \<noteq> [] \<and> prefix v (w @ s)) ws") (auto simp: find_None_iff)
  then have "v \<in> set ws" "prefix v (w @ s)" by (auto simp: find_Some_iff)
  then have "prefix v w \<or> prefix w v" by (auto simp: prefix_append)
  with assms \<open>v \<in> set ws\<close> have "v = w" by (auto simp: prefix_free_def list_all_iff)
  with v show ?thesis by (subst strip_words.simps) simp
qed

lemma strip_words_none:
  assumes "\<And>w. w \<in> set ws \<Longrightarrow> w \<noteq> [] \<Longrightarrow> \<not> prefix w s" shows "strip_words ws s = s"
proof -
  have "List.find (\<lambda>w. w \<noteq> [] \<and> prefix w s) ws = None" using assms by (auto simp: find_None_iff)
  then show ?thesis by (subst strip_words.simps) simp
qed

text \<open>Strings from which a word can be stripped, or none.\<close>

lemma strip_words_induct [consumes 1, case_names word stop]:
  assumes free: "prefix_free ws"
    and word: "\<And>w s. w \<in> set ws \<Longrightarrow> w \<noteq> [] \<Longrightarrow> P s \<Longrightarrow> P (w @ s)"
    and stop: "\<And>s. (\<And>w. w \<in> set ws \<Longrightarrow> w \<noteq> [] \<Longrightarrow> \<not> prefix w s) \<Longrightarrow> P s"
  shows "P s"
proof (induction "length s" arbitrary: s rule: less_induct)
  case less
  show ?case
  proof (cases "\<exists>w \<in> set ws. w \<noteq> [] \<and> prefix w s")
    case True
    then obtain w r where "w \<in> set ws" "w \<noteq> []" "s = w @ r" by (auto simp: prefix_def)
    with less word show ?thesis by simp
  qed (use stop in blast)
qed

definition cr :: char where "cr = CHR 0x0D"
definition lf :: char where "lf = CHR 0x0A"

lemma ws_line_ends: "[cr] \<in> set ws_encodings" "[lf] \<in> set ws_encodings"
  "[cr] \<in> set (map rev ws_encodings)" "[lf] \<in> set (map rev ws_encodings)"
  by code_simp+

lemma ws_line_end_words:
  "w \<in> set ws_encodings \<Longrightarrow> cr \<in> set w \<or> lf \<in> set w \<Longrightarrow> w = [cr] \<or> w = [lf]"
  "w \<in> set (map rev ws_encodings) \<Longrightarrow> cr \<in> set w \<or> lf \<in> set w \<Longrightarrow> w = [cr] \<or> w = [lf]"
proof -
  have "list_all (\<lambda>w. cr \<in> set w \<or> lf \<in> set w \<longrightarrow> w = [cr] \<or> w = [lf]) ws_encodings"
    "list_all (\<lambda>w. cr \<in> set w \<or> lf \<in> set w \<longrightarrow> w = [cr] \<or> w = [lf]) (map rev ws_encodings)"
    by code_simp+
  then show "w \<in> set ws_encodings \<Longrightarrow> cr \<in> set w \<or> lf \<in> set w \<Longrightarrow> w = [cr] \<or> w = [lf]"
    "w \<in> set (map rev ws_encodings) \<Longrightarrow> cr \<in> set w \<or> lf \<in> set w \<Longrightarrow> w = [cr] \<or> w = [lf]"
    unfolding list_all_iff by blast+
qed

section \<open>The replacement\<close>

lemma replace_crlf_simps:
  "replace_crlf (cr # lf # s) = lf # replace_crlf s" "a \<noteq> cr \<Longrightarrow> replace_crlf (a # s) = a # replace_crlf s"
  "replace_crlf [a] = [a]" "b \<noteq> lf \<Longrightarrow> replace_crlf (a # b # s) = a # replace_crlf (b # s)" "replace_crlf [] = []"
  by (cases s; simp add: cr_def lf_def)+

declare replace_crlf.simps [simp del]

lemma cr_lf [simp]: "cr \<noteq> lf" "lf \<noteq> cr"
  by (simp_all add: cr_def lf_def)

lemma replace_crlf_induct [case_names empty crlf char]:
  assumes "P []" and "\<And>s. P s \<Longrightarrow> P (cr # lf # s)"
    and "\<And>a s. \<not> (a = cr \<and> s \<noteq> [] \<and> hd s = lf) \<Longrightarrow> P s \<Longrightarrow> P (a # s)"
  shows "P s"
  using assms
proof (induction s rule: replace_crlf.induct)
  case (1 a b s)
  then show ?case by (cases "a = cr \<and> b = lf") (auto simp: cr_def lf_def)
qed auto

lemma replace_crlf_char:
  "\<not> (a = cr \<and> s \<noteq> [] \<and> hd s = lf) \<Longrightarrow> replace_crlf (a # s) = a # replace_crlf s"
  by (cases s) (auto simp: replace_crlf_simps)

lemma replace_crlf_append:
  "\<not> (x \<noteq> [] \<and> y \<noteq> [] \<and> last x = cr \<and> hd y = lf) \<Longrightarrow> replace_crlf (x @ y) = replace_crlf x @ replace_crlf y"
proof (induction x rule: replace_crlf_induct)
  case (crlf x)
  then show ?case by (cases "x = []") (auto simp: replace_crlf_simps)
next
  case (char a x)
  then show ?case by (cases x) (auto simp: replace_crlf_char replace_crlf_simps)
qed (simp add: replace_crlf_simps)

lemma replace_crlf_none: "cr \<notin> set w \<Longrightarrow> replace_crlf w = w"
  by (induction w) (auto simp: replace_crlf_simps)

lemma set_replace_crlf: "set (replace_crlf s) \<subseteq> set s"
  by (induction s rule: replace_crlf_induct) (auto simp: replace_crlf_simps replace_crlf_char)

text \<open>A word without line ends at the start or the end of the result is there in the text.\<close>

lemma prefix_replace_crlf:
  "prefix w (replace_crlf s) \<Longrightarrow> cr \<notin> set w \<Longrightarrow> lf \<notin> set w \<Longrightarrow> prefix w s"
proof (induction s arbitrary: w rule: replace_crlf_induct)
  case (crlf s)
  then show ?case by (cases w) (auto simp: replace_crlf_simps)
next
  case (char a s)
  then show ?case by (cases w) (auto simp: replace_crlf_char)
qed (simp add: replace_crlf_simps)

lemma suffix_replace_crlf:
  "suffix w (replace_crlf s) \<Longrightarrow> cr \<notin> set w \<Longrightarrow> lf \<notin> set w \<Longrightarrow> suffix w s"
proof (induction s rule: replace_crlf_induct)
  case (crlf s)
  then show ?case by (auto simp: replace_crlf_simps suffix_Cons)
next
  case (char a s)
  then have "suffix w (replace_crlf s) \<or> w = a # replace_crlf s" by (auto simp: replace_crlf_char suffix_Cons)
  then show ?case
  proof
    assume w: "w = a # replace_crlf s"
    with char.prems have "prefix (a # replace_crlf s) (a # s)"
      using prefix_replace_crlf [of "replace_crlf s" s] by simp
    have "cr \<notin> set (replace_crlf s)" "lf \<notin> set (replace_crlf s)" using w char.prems by auto
    then have "replace_crlf s = s"
      by (induction s rule: replace_crlf_induct) (auto simp: replace_crlf_simps replace_crlf_char)
    with w show ?thesis by simp
  qed (use char in \<open>auto simp: suffix_Cons\<close>)
qed (simp add: replace_crlf_simps)

section \<open>Trimming and replacing\<close>

lemma ws_last_cr: "w \<in> set ws_encodings \<Longrightarrow> w \<noteq> [] \<Longrightarrow> last w = cr \<Longrightarrow> w = [cr]"
  using ws_line_end_words(1) [of w] last_in_set [of w] by (cases w rule: rev_cases) auto

lemma ws_hd_lf: "w \<in> set ws_encodings \<Longrightarrow> w \<noteq> [] \<Longrightarrow> hd w = lf \<Longrightarrow> w = [lf]"
  using ws_line_end_words(1) [of w] by (cases w) auto

lemma ws_replace_crlf: "w \<in> set ws_encodings \<Longrightarrow> replace_crlf w = w"
  using ws_line_end_words(1) [of w] by (cases "cr \<in> set w") (auto simp: replace_crlf_none replace_crlf_simps)

lemma trim_start_replace_crlf: "trim_start (replace_crlf s) = replace_crlf (trim_start s)"
  using ws_prefix_free(1)
proof (induction s rule: strip_words_induct)
  case (word w s)
  have strip: "trim_start (w @ s) = trim_start s"
    using strip_words_word [OF ws_prefix_free(1) word(1,2)] by (simp add: trim_start_def)
  show ?case
  proof (cases "w = [cr] \<and> s \<noteq> [] \<and> hd s = lf")
    case True
    then obtain r where r: "w = [cr]" "s = lf # r" by (cases s) auto
    then have "replace_crlf (w @ s) = replace_crlf s" by (simp add: replace_crlf_simps)
    with word strip show ?thesis by simp
  next
    case False
    then have "\<not> (w \<noteq> [] \<and> s \<noteq> [] \<and> last w = cr \<and> hd s = lf)"
      using ws_last_cr [OF word(1)] by auto
    then have "replace_crlf (w @ s) = replace_crlf w @ replace_crlf s" by (rule replace_crlf_append)
    moreover have "replace_crlf w = w" using word(1) by (rule ws_replace_crlf)
    moreover have "trim_start (w @ replace_crlf s) = trim_start (replace_crlf s)"
      using strip_words_word [OF ws_prefix_free(1) word(1,2)] by (simp add: trim_start_def)
    ultimately show ?thesis using word strip by simp
  qed
next
  case (stop s)
  have "\<not> prefix w (replace_crlf s)" if w: "w \<in> set ws_encodings" "w \<noteq> []" for w
  proof
    assume p: "prefix w (replace_crlf s)"
    show False
    proof (cases "cr \<in> set w \<or> lf \<in> set w")
      case False
      with p prefix_replace_crlf stop [OF w] show False by blast
    next
      case True
      then have "w = [cr] \<or> w = [lf]" using ws_line_end_words(1) [OF w(1)] by blast
      moreover have "s = [] \<or> hd s \<noteq> cr \<and> hd s \<noteq> lf" using stop ws_line_ends(1,2) by (cases s) fastforce+
      ultimately show False using p by (cases s) (auto simp: replace_crlf_simps)
    qed
  qed
  with stop show ?case by (simp add: trim_start_def strip_words_none)
qed

lemma trim_end_word: "w \<in> set ws_encodings \<Longrightarrow> w \<noteq> [] \<Longrightarrow> trim_end (s @ w) = trim_end s"
  using strip_words_word [OF ws_prefix_free(2), of "rev w" "rev s"] by (simp add: trim_end_def)

lemma trim_end_none: "(\<And>w. w \<in> set ws_encodings \<Longrightarrow> w \<noteq> [] \<Longrightarrow> \<not> suffix w s) \<Longrightarrow> trim_end s = s"
  unfolding trim_end_def by (subst strip_words_none) (auto simp: suffix_to_prefix)

lemma trim_end_induct [case_names word stop]:
  assumes "\<And>w s. w \<in> set ws_encodings \<Longrightarrow> w \<noteq> [] \<Longrightarrow> P s \<Longrightarrow> P (s @ w)"
    and "\<And>s. (\<And>w. w \<in> set ws_encodings \<Longrightarrow> w \<noteq> [] \<Longrightarrow> \<not> suffix w s) \<Longrightarrow> P s"
  shows "P s"
proof -
  have "P (rev t)" for t
    using ws_prefix_free(2)
  proof (induction t rule: strip_words_induct)
    case (word w t)
    then show ?case using assms(1) [of "rev w" "rev t"] by auto
  next
    case (stop t)
    then show ?case using assms(2) [of "rev t"] by (auto simp: suffix_to_prefix)
  qed
  from this [of "rev s"] show ?thesis by simp
qed

lemma trim_end_replace_crlf: "trim_end (replace_crlf s) = replace_crlf (trim_end s)"
proof (induction s rule: trim_end_induct)
  case (word w s)
  note strip = trim_end_word [OF word(1,2)]
  show ?case
  proof (cases "w = [lf] \<and> s \<noteq> [] \<and> last s = cr")
    case True
    then obtain r where r: "w = [lf]" "s = r @ [cr]" by (cases s rule: rev_cases) auto
    have "replace_crlf (r @ [cr]) = replace_crlf r @ [cr]" "replace_crlf (r @ [cr, lf]) = replace_crlf r @ [lf]"
      using replace_crlf_append [of r "[cr]"] replace_crlf_append [of r "[cr, lf]"]
      by (simp_all add: replace_crlf_simps)
    with word strip [of s] r show ?thesis using trim_end_word [OF ws_line_ends(1)] trim_end_word [OF ws_line_ends(2)] by simp
  next
    case False
    then have "\<not> (s \<noteq> [] \<and> w \<noteq> [] \<and> last s = cr \<and> hd w = lf)" using ws_hd_lf [OF word(1)] by auto
    then have "replace_crlf (s @ w) = replace_crlf s @ w"
      using replace_crlf_append ws_replace_crlf [OF word(1)] by metis
    with word strip show ?thesis by simp
  qed
next
  case (stop s)
  have "\<not> suffix w (replace_crlf s)" if w: "w \<in> set ws_encodings" "w \<noteq> []" for w
  proof
    assume p: "suffix w (replace_crlf s)"
    show False
    proof (cases "cr \<in> set w \<or> lf \<in> set w")
      case False
      with p suffix_replace_crlf stop [OF w] show False by blast
    next
      case True
      then have "w = [cr] \<or> w = [lf]" using ws_line_end_words(1) [OF w(1)] by blast
      moreover obtain r c where "s = r @ [c]" "c \<noteq> cr" "c \<noteq> lf"
        using stop ws_line_ends(1,2) p w by (cases s rule: rev_cases) (fastforce simp: replace_crlf_simps)+
      moreover from this have "replace_crlf s = replace_crlf r @ [c]"
        using replace_crlf_append [of r "[c]"] by (simp add: replace_crlf_simps)
      ultimately show False using p by auto
    qed
  qed
  with stop show ?case by (simp add: trim_end_none)
qed

lemma trim_replace_crlf: "trim (replace_crlf s) = replace_crlf (trim s)"
  by (simp add: trim_def trim_start_replace_crlf trim_end_replace_crlf)

text \<open>Line ends at the end do not matter for trimming.\<close>

lemma trim_start_line_ends:
  assumes "set v \<subseteq> {cr, lf}"
  shows "trim_start (s @ v) = (if trim_start s = [] then [] else trim_start s @ v)"
  using ws_prefix_free(1)
proof (induction s rule: strip_words_induct)
  case (word w s)
  then show ?case using strip_words_word [OF ws_prefix_free(1) word(1,2)] by (simp add: trim_start_def)
next
  case (stop s)
  have v: "trim_start v = []" using assms
  proof (induction v)
    case (Cons c v)
    then show ?case
      using strip_words_word [OF ws_prefix_free(1), of "[c]" v] ws_line_ends(1,2) by (auto simp: trim_start_def)
  qed (simp add: trim_start_def strip_words_none ws_nonempty)
  show ?case
  proof (cases "s = []")
    case False
    have "\<not> prefix w (s @ v)" if w: "w \<in> set ws_encodings" "w \<noteq> []" for w
    proof
      assume "prefix w (s @ v)"
      with stop [OF w] obtain b where b: "w = s @ b" "prefix b v" "b \<noteq> []" by (auto simp: prefix_append)
      then have "cr \<in> set w \<or> lf \<in> set w" using assms by (cases b) (auto simp: prefix_def)
      then have "w = [cr] \<or> w = [lf]" using ws_line_end_words(1) [OF w(1)] by blast
      with b False show False by (cases s) auto
    qed
    with stop False show ?thesis by (simp add: trim_start_def strip_words_none)
  qed (use v in \<open>simp add: trim_start_def strip_words_none\<close>)
qed

lemma trim_end_line_ends: "set v \<subseteq> {cr, lf} \<Longrightarrow> trim_end (s @ v) = trim_end s"
proof (induction v rule: rev_induct)
  case (snoc c v)
  then show ?case
    using trim_end_word [OF ws_line_ends(1), of "s @ v"] trim_end_word [OF ws_line_ends(2), of "s @ v"] by auto
qed simp

lemma trim_line_ends: "set v \<subseteq> {cr, lf} \<Longrightarrow> trim (s @ v) = trim s"
  by (simp add: trim_def trim_start_line_ends trim_end_line_ends)

section \<open>Lines\<close>

text \<open>The lines of a text are those of its replacement, cut at line feeds only.\<close>

lemma strip_cr_Cons: "l \<noteq> [] \<or> a \<noteq> cr \<Longrightarrow> strip_cr (a # l) = a # strip_cr l"
  by (auto simp: strip_cr_def cr_def)

lemma strip_cr_Nil [simp]: "strip_cr [] = []"
  by (simp add: strip_cr_def)

lemma split_replace_crlf:
  "split_char lf (replace_crlf s) =
     map strip_cr (butlast (split_char lf s)) @ [last (split_char lf s)]"
proof (induction s rule: replace_crlf_induct)
  case (crlf s)
  then show ?case by (cases "split_char lf s") (auto simp: replace_crlf_simps strip_cr_def cr_def [symmetric])
next
  case (char a s)
  obtain y ys where ys: "split_char lf s = y # ys" by (cases "split_char lf s") auto
  have "a \<noteq> cr \<or> y \<noteq> [] \<or> ys = []"
  proof (cases s)
    case (Cons b r)
    then show ?thesis using char.hyps ys by (cases "split_char lf r") (auto split: if_splits)
  qed (use ys in auto)
  with char ys show ?case
    by (cases ys) (auto simp: replace_crlf_char strip_cr_Cons)
qed (simp add: replace_crlf_simps)

definition line_pieces :: "string \<Rightarrow> string list" where
  "line_pieces s = (let ps = split_char lf s in butlast ps @ (if last ps = [] then [] else [last ps]))"

lemma str_lines_replace_crlf: "str_lines s = line_pieces (replace_crlf s)"
  using split_replace_crlf [of s] by (simp add: str_lines_def line_pieces_def Let_def lf_def)

end
