(* ===== verification/Delegate_Response.thy ===== *)
theory Delegate_Response
  imports Context_Packer Patch_Invocation Minimax_Bridge Line_Endings
begin

text \<open>
  The delegation tool of the agent: \<open>core/src/minimax_delegate.rs\<close> and
  \<open>minimax_delegate/response_parser.rs\<close>. A task and its packed context are sent to the worker
  model; the answer is normalised, decoded, checked and, for a patch, verified against the
  working tree.

  JSON decoding and the stream of the worker's answer come from the environment. A slice whose
  end lies before its start is a panic in Rust; the functions that take such a slice return an
  option, and \<open>None\<close> is the panic.
\<close>

section \<open>Data\<close>

datatype MiniMaxDelegationStatus = StCompleted | StClarify | StInvalid

datatype WorkerPatchFormat = FmtApplyPatch | FmtUnifiedDiff

fun format_str :: "WorkerPatchFormat \<Rightarrow> string" where
  "format_str FmtApplyPatch = ''apply_patch''"
| "format_str FmtUnifiedDiff = ''unified_diff''"

record MiniMaxContextFile =
  cf_path :: string
  cf_source :: ContextSource
  cf_truncated :: bool
  cf_redacted :: bool

record MiniMaxContextSummary =
  included_files :: "MiniMaxContextFile list"
  omitted_count :: nat

record MiniMaxDelegationResult =
  dr_status :: MiniMaxDelegationStatus
  dr_format :: "WorkerPatchFormat option"
  dr_summary :: "string option"
  dr_patch :: "string option"
  dr_question :: "string option"
  dr_error :: "string option"
  dr_diagnostics :: "string list"
  dr_context_summary :: "MiniMaxContextSummary option"

record RawWorkerResponse =
  rw_status :: MiniMaxDelegationStatus
  rw_format :: "WorkerPatchFormat option"
  rw_summary :: "string option"
  rw_patch :: "string option"
  rw_patch_lines :: "string list option"
  rw_question :: "string option"
  rw_error :: "string option"
  rw_diagnostics :: "string list"

record DelegateToMinimaxRequest =
  task_description :: string
  acceptance_criteria :: "string list"
  context_files :: "string list"
  req_include_modified_files :: bool

definition result_completed ::
    "WorkerPatchFormat \<Rightarrow> string \<Rightarrow> string \<Rightarrow> string list \<Rightarrow> MiniMaxContextSummary option \<Rightarrow> MiniMaxDelegationResult" where
  "result_completed fmt summary patch diagnostics ctx =
     \<lparr>dr_status = StCompleted, dr_format = Some fmt, dr_summary = Some summary, dr_patch = Some patch,
      dr_question = None, dr_error = None, dr_diagnostics = diagnostics, dr_context_summary = ctx\<rparr>"

definition result_clarify :: "string \<Rightarrow> string list \<Rightarrow> MiniMaxContextSummary option \<Rightarrow> MiniMaxDelegationResult" where
  "result_clarify question diagnostics ctx =
     \<lparr>dr_status = StClarify, dr_format = None, dr_summary = None, dr_patch = None,
      dr_question = Some question, dr_error = None, dr_diagnostics = diagnostics, dr_context_summary = ctx\<rparr>"

definition result_invalid :: "string \<Rightarrow> string list \<Rightarrow> MiniMaxContextSummary option \<Rightarrow> MiniMaxDelegationResult" where
  "result_invalid message diagnostics ctx =
     \<lparr>dr_status = StInvalid, dr_format = None, dr_summary = None, dr_patch = None, dr_question = None,
      dr_error = Some message, dr_diagnostics = diagnostics, dr_context_summary = ctx\<rparr>"

text \<open>What comes from outside.\<close>

record deleg_env =
  dg_pack :: pack_env
  dg_inv :: inv_env
  dg_current_dir :: "unit + string"
  dg_from_str :: "string \<Rightarrow> RawWorkerResponse option"
  dg_is_json_object :: "string \<Rightarrow> bool"

section \<open>Searching in strings\<close>

text \<open>\<open>rfind\<close>: the start of the last occurrence.\<close>

fun str_rfind :: "string \<Rightarrow> string \<Rightarrow> nat option" where
  "str_rfind p [] = (if p = [] then Some 0 else None)"
| "str_rfind p (c # s) =
     (case str_rfind p s of
        Some i \<Rightarrow> Some (Suc i)
      | None \<Rightarrow> if prefix p (c # s) then Some 0 else None)"

text \<open>\<open>matches(p).count()\<close> for a non-empty pattern.\<close>

function str_count :: "string \<Rightarrow> string \<Rightarrow> nat" where
  "str_count p [] = 0"
| "str_count p (c # s) =
     (if p \<noteq> [] \<and> prefix p (c # s) then Suc (str_count p (drop (length p) (c # s))) else str_count p s)"
  by pat_completeness auto
termination
  by (relation "measure (\<lambda>(p, s). length s)") (auto simp: neq_Nil_conv)

text \<open>A slice; \<open>None\<close> is the panic.\<close>

definition slice :: "nat \<Rightarrow> nat \<Rightarrow> string \<Rightarrow> string option" where
  "slice a b s = (if a \<le> b \<and> b \<le> length s then Some (take (b - a) (drop a s)) else None)"

definition crlf :: string where "crlf = [CHR 0x0D, CHR 0x0A]"
definition fence :: string where "fence = [CHR 0x60, CHR 0x60, CHR 0x60]"

section \<open>response\_parser.rs\<close>

definition sanitize_metadata :: "deleg_env \<Rightarrow> string \<Rightarrow> string" where
  "sanitize_metadata env text = so_text (sanitize_output_text (pk_scrub (dg_pack env)) text)"

definition sanitize_diagnostics :: "deleg_env \<Rightarrow> string list \<Rightarrow> string list" where
  "sanitize_diagnostics env items = map (sanitize_metadata env) items"

text \<open>Between the first and the last line feed, when the last line is a fence.\<close>

definition strip_markdown_fence :: "string \<Rightarrow> string option" where
  "strip_markdown_fence text =
     (let trimmed = trim text in
      if \<not> prefix fence trimmed then None
      else case (str_find nl trimmed, str_rfind nl trimmed) of
             (Some first_newline, Some last_newline) \<Rightarrow>
               if last_newline \<le> first_newline then None
               else if trim (drop (last_newline + 1) trimmed) \<noteq> fence then None
               else Some (take (last_newline - (first_newline + 1)) (drop (first_newline + 1) trimmed))
           | _ \<Rightarrow> None)"

text \<open>The scan for the end of an object: depth, whether in a string, whether after a backslash.\<close>

fun balanced_end :: "nat \<Rightarrow> bool \<Rightarrow> bool \<Rightarrow> (nat \<times> string) list \<Rightarrow> nat option" where
  "balanced_end depth in_string escaped [] = None"
| "balanced_end depth in_string escaped ((index, ch) # rest) =
     (if in_string then
        (if escaped then balanced_end depth True False rest
         else if ch = [backslash] then balanced_end depth True True rest
         else if ch = [dquote] then balanced_end depth False False rest
         else balanced_end depth True False rest)
      else if ch = [dquote] then balanced_end depth True escaped rest
      else if ch = ''{'' then balanced_end (depth + 1) False escaped rest
      else if ch = ''}'' then
        (if depth - 1 = 0 then Some (index + length ch) else balanced_end (depth - 1) False escaped rest)
      else balanced_end depth False escaped rest)"

definition find_balanced_json_object_end :: "string \<Rightarrow> nat \<Rightarrow> nat option" where
  "find_balanced_json_object_end text start =
     map_option (\<lambda>i. start + i) (balanced_end 0 False False (char_indices (drop start text)))"

lemma balanced_end_pos:
  "balanced_end d i e xs = Some n \<Longrightarrow> 0 < n"
  by (induction d i e xs rule: balanced_end.induct) (auto split: if_splits)

text \<open>The loop over the positions; the objects found, in order.\<close>

function json_objects :: "deleg_env \<Rightarrow> string \<Rightarrow> nat \<Rightarrow> string list" where
  "json_objects env text index =
     (if length text \<le> index then []
      else if text ! index \<noteq> CHR ''{'' then json_objects env text (index + 1)
      else case find_balanced_json_object_end text index of
             None \<Rightarrow> []
           | Some e \<Rightarrow>
               let candidate = take (e - index) (drop index text)
               in (if dg_is_json_object env candidate then [candidate] else []) @ json_objects env text e)"
  by pat_completeness auto
termination
  by (relation "measure (\<lambda>(env, text, index). length text - index)")
    (auto simp: find_balanced_json_object_end_def dest: balanced_end_pos)

declare json_objects.simps [simp del]

definition extract_single_json_object :: "deleg_env \<Rightarrow> string \<Rightarrow> string + string option" where
  "extract_single_json_object env text =
     (case json_objects env text 0 of
        [] \<Rightarrow> Ok None
      | [object] \<Rightarrow> Ok (Some object)
      | _ \<Rightarrow> Err ''ambiguous_worker_output: multiple JSON objects found'')"

text \<open>A failure is its message with the diagnostics so far; a success the text with them.\<close>

type_synonym normalized = "(string \<times> string list) + (string \<times> string list)"

definition normalize_worker_output :: "deleg_env \<Rightarrow> string \<Rightarrow> normalized" where
  "normalize_worker_output env output =
     (let text0 = trim output;
          (text1, d1) = (if str_contains text0 crlf
                         then (replace_crlf text0, [''normalized worker response: normalized line endings''])
                         else (text0, []));
          (text2, d2) = (case strip_markdown_fence text1 of
                           Some stripped \<Rightarrow>
                             (trim stripped, d1 @ [''normalized worker response: stripped markdown fence''])
                         | None \<Rightarrow> (text1, d1))
      in case extract_single_json_object env text2 of
           Inl error \<Rightarrow> Err (error, d2)
         | Inr (Some extracted) \<Rightarrow>
             if extracted \<noteq> text2
             then Ok (extracted, d2 @ [''normalized worker response: extracted single JSON object''])
             else Ok (text2, d2)
         | Inr None \<Rightarrow> Ok (text2, d2))"

definition resolve_patch_source :: "string option \<Rightarrow> string list option \<Rightarrow> normalized" where
  "resolve_patch_source patch patch_lines =
     (let joined = ''normalized worker patch: joined patch_lines into patch string'' in
      case (patch, patch_lines) of
        (Some p, Some ls) \<Rightarrow>
          if trim p \<noteq> [] then
            Ok (p, [''normalized worker patch: ignored patch_lines because patch string was also provided''])
          else if ls \<noteq> [] then Ok (str_join nl ls, [joined])
          else Err (''invalid_completed_response: missing patch'', [])
      | (Some p, None) \<Rightarrow>
          if trim p \<noteq> [] then Ok (p, []) else Err (''invalid_completed_response: missing patch'', [])
      | (None, Some ls) \<Rightarrow>
          if ls \<noteq> [] then Ok (str_join nl ls, [joined])
          else Err (''invalid_completed_response: missing patch'', [])
      | (None, None) \<Rightarrow> Err (''invalid_completed_response: missing patch'', []))"

definition BEGIN_MARKER :: string where "BEGIN_MARKER = ''*** Begin Patch''"
definition END_MARKER :: string where "END_MARKER = ''*** End Patch''"
definition HEREDOC_CALL :: string where "HEREDOC_CALL = ''apply_patch <<''"

text \<open>The outer \<open>None\<close> is a panic, the inner one the answer \<open>None\<close>.\<close>

definition extract_wrapped_apply_patch :: "string \<Rightarrow> (string \<times> string) option option" where
  "extract_wrapped_apply_patch text =
     (if str_count BEGIN_MARKER text \<noteq> 1 \<or> str_count END_MARKER text \<noteq> 1 then Some None
      else case (str_find BEGIN_MARKER text, str_rfind END_MARKER text) of
             (Some begin_index, Some end_index) \<Rightarrow>
               let end_offset = end_index + length END_MARKER in
               if trim (take begin_index text) = [] \<and> trim (drop end_offset text) = [] then Some None
               else let diagnostic = (if str_contains text HEREDOC_CALL
                                      then ''normalized worker patch: extracted apply_patch heredoc''
                                      else ''normalized worker patch: extracted patch body'')
                    in map_option (\<lambda>body. Some (body, diagnostic)) (slice begin_index end_offset text)
           | _ \<Rightarrow> Some None)"

definition looks_like_unified_diff :: "string \<Rightarrow> bool" where
  "looks_like_unified_diff text =
     (str_contains text ''diff --git'' \<or> str_contains text ''--- '' \<and> str_contains text ''+++ '')"

definition detect_raw_patch_format :: "string \<Rightarrow> WorkerPatchFormat option" where
  "detect_raw_patch_format text =
     (if list_ex (str_contains text)
           [BEGIN_MARKER, ''*** Update File: '', ''*** Add File: '', ''*** Delete File: '', HEREDOC_CALL]
      then Some FmtApplyPatch
      else if looks_like_unified_diff text then Some FmtUnifiedDiff else None)"

definition squoted :: "string \<Rightarrow> string" where "squoted s = [squote] @ s @ [squote]"

fun map_apply_patch_parse_error :: "deleg_env \<Rightarrow> ParseError \<Rightarrow> string" where
  "map_apply_patch_parse_error env (InvalidPatchError message) =
     (if str_contains message (''first line of the patch must be '' @ squoted BEGIN_MARKER)
      then ''invalid_apply_patch_format: missing *** Begin Patch''
      else if str_contains message (''last line of the patch must be '' @ squoted END_MARKER)
      then ''invalid_apply_patch_format: missing *** End Patch''
      else ''invalid_apply_patch_format: '' @ sanitize_metadata env message)"
| "map_apply_patch_parse_error env (InvalidHunkError message _) =
     (if str_contains message (squote # ''--- '')
      then ''invalid_apply_patch_format: patch looks like unified diff, not apply_patch''
      else if str_contains message ''not a valid hunk header''
      then ''invalid_apply_patch_format: malformed hunk header''
      else ''invalid_apply_patch_format: '' @ sanitize_metadata env message)"

subsection \<open>The patch text\<close>

lemma strip_markdown_fence_shorter:
  assumes "strip_markdown_fence text = Some s" shows "length s < length text"
proof -
  have "prefix fence (trim text)"
    using assms by (auto simp: strip_markdown_fence_def Let_def split: if_splits)
  then have "trim text \<noteq> []" by (auto simp: fence_def)
  moreover have "length s \<le> length (trim text) - 1"
    using assms by (auto simp: strip_markdown_fence_def Let_def split: if_splits option.splits)
  moreover have "length (trim text) > 0" using \<open>trim text \<noteq> []\<close> by simp
  ultimately show ?thesis using length_trim [of "text"] by linarith
qed

lemma extract_wrapped_shorter:
  assumes "extract_wrapped_apply_patch text = Some (Some (body, d))" shows "length body < length text"
proof -
  obtain b e where e: "\<not> (trim (take b text) = [] \<and> trim (drop e text) = [])"
    and s: "slice b e text = Some body"
    using assms by (auto simp: extract_wrapped_apply_patch_def Let_def split: if_splits option.splits)
  have "length body = e - b" "b \<le> e" "e \<le> length text"
    using s by (auto simp: slice_def split: if_splits)
  moreover have "0 < b \<and> 0 < length text \<or> e < length text"
    using e by (cases "b = 0"; cases "text = []"; cases "e < length text") auto
  ultimately show ?thesis by linarith
qed

text \<open>The loop that unwraps until neither a fence nor a wrapper is left.\<close>

function normalize_loop :: "string \<Rightarrow> string list \<Rightarrow> (string \<times> string list) option" where
  "normalize_loop text diagnostics =
     (case strip_markdown_fence text of
        Some stripped \<Rightarrow>
          normalize_loop (trim stripped) (diagnostics @ [''normalized worker patch: stripped markdown fence''])
      | None \<Rightarrow>
          (case extract_wrapped_apply_patch text of
             None \<Rightarrow> None
           | Some None \<Rightarrow> Some (text, diagnostics)
           | Some (Some (extracted, diagnostic)) \<Rightarrow>
               normalize_loop (trim extracted) (diagnostics @ [diagnostic])))"
  by pat_completeness auto
termination
proof (relation "measure (\<lambda>(text, _). length text)")
  fix "text" stripped diagnostics
  assume "strip_markdown_fence text = Some stripped"
  then have "length (trim stripped) < length text"
    using strip_markdown_fence_shorter length_trim le_less_trans by blast
  then show "((trim stripped, diagnostics @ [''normalized worker patch: stripped markdown fence'']), text, diagnostics)
      \<in> measure (\<lambda>(text, _). length text)" by simp
next
  fix "text" diagnostics x y extracted diagnostic
  assume "extract_wrapped_apply_patch text = Some x" "x = Some y" "(extracted, diagnostic) = y"
  then have "length (trim extracted) < length text"
    using extract_wrapped_shorter length_trim le_less_trans by blast
  then show "((trim extracted, diagnostics @ [diagnostic]), text, diagnostics)
      \<in> measure (\<lambda>(text, _). length text)" by simp
qed simp

declare normalize_loop.simps [simp del]

definition normalize_line_endings :: "string \<Rightarrow> string \<times> string list" where
  "normalize_line_endings patch =
     (let text = trim patch in
      if str_contains text crlf
      then (replace_crlf text, [''normalized worker patch: normalized line endings'']) else (text, []))"

text \<open>\<open>None\<close> is a panic.\<close>

definition normalize_apply_patch_text :: "deleg_env \<Rightarrow> string \<Rightarrow> normalized option" where
  "normalize_apply_patch_text env patch =
     (let (text0, d0) = normalize_line_endings patch in
      map_option
        (\<lambda>(text, diagnostics).
           if looks_like_unified_diff text
           then Err (''invalid_apply_patch_format: patch looks like unified diff, not apply_patch'', diagnostics)
           else if str_contains text fence
           then Err (''invalid_apply_patch_format: patch contains markdown fence'', diagnostics)
           else if str_contains text HEREDOC_CALL
           then Err (''invalid_apply_patch_format: patch contains apply_patch heredoc wrapper'', diagnostics)
           else case parse_patch text of
                  Inr parsed \<Rightarrow>
                    if ap_hunks parsed = []
                    then Err (''invalid_apply_patch_format: patch contained no file operations'', diagnostics)
                    else Ok (text, diagnostics)
                | Inl error \<Rightarrow> Err (map_apply_patch_parse_error env error, diagnostics))
        (normalize_loop text0 d0))"

definition normalize_unified_diff_text :: "string \<Rightarrow> normalized" where
  "normalize_unified_diff_text patch =
     (let (text0, d0) = normalize_line_endings patch;
          (text, d) = (case strip_markdown_fence text0 of
                         Some stripped \<Rightarrow>
                           (trim stripped, d0 @ [''normalized worker patch: stripped markdown fence''])
                       | None \<Rightarrow> (text0, d0))
      in if looks_like_unified_diff text then Ok (text, d)
         else Err (''invalid_unified_diff_format: expected diff --git, ---/+++, or @@ markers'', d))"

definition normalize_patch_for_format :: "deleg_env \<Rightarrow> WorkerPatchFormat \<Rightarrow> string \<Rightarrow> normalized option" where
  "normalize_patch_for_format env format patch =
     (case format of
        FmtApplyPatch \<Rightarrow> normalize_apply_patch_text env patch
      | FmtUnifiedDiff \<Rightarrow> Some (normalize_unified_diff_text patch))"

subsection \<open>The worker's answer\<close>

definition CLARIFY_PREFIX :: string where "CLARIFY_PREFIX = ''CLARIFY:''"

text \<open>\<open>sanitize_metadata(x.unwrap_or_default().trim()).trim()\<close>\<close>

definition sanitized_field :: "deleg_env \<Rightarrow> string option \<Rightarrow> string" where
  "sanitized_field env x = trim (sanitize_metadata env (trim (case x of Some s \<Rightarrow> s | None \<Rightarrow> [])))"

text \<open>The three arms of the match on the status; \<open>None\<close> is a panic.\<close>

definition completed_response ::
    "deleg_env \<Rightarrow> RawWorkerResponse \<Rightarrow> string list \<Rightarrow> MiniMaxContextSummary option \<Rightarrow> MiniMaxDelegationResult option" where
  "completed_response env response diagnostics ctx =
     (case rw_format response of
        None \<Rightarrow> Some (result_invalid ''invalid_completed_response: missing format'' diagnostics ctx)
      | Some format \<Rightarrow>
          let summary = sanitized_field env (rw_summary response) in
          if summary = []
          then Some (result_invalid ''invalid_completed_response: missing summary'' diagnostics ctx)
          else case resolve_patch_source (rw_patch response) (rw_patch_lines response) of
            Inl (error, d) \<Rightarrow> Some (result_invalid error (diagnostics @ d) ctx)
          | Inr (patch_source, d) \<Rightarrow>
              map_option
                (\<lambda>normalized. case normalized of
                   Inl (error, d') \<Rightarrow> result_invalid error (diagnostics @ d @ d') ctx
                 | Inr (patch, d') \<Rightarrow> result_completed format summary patch (diagnostics @ d @ d') ctx)
                (normalize_patch_for_format env format patch_source))"

definition clarify_response ::
    "deleg_env \<Rightarrow> RawWorkerResponse \<Rightarrow> string list \<Rightarrow> MiniMaxContextSummary option \<Rightarrow> MiniMaxDelegationResult" where
  "clarify_response env response diagnostics ctx =
     (let question = sanitized_field env (rw_question response) in
      if question = [] then result_invalid ''invalid_clarify_response: missing question'' diagnostics ctx
      else result_clarify question diagnostics ctx)"

definition invalid_response ::
    "deleg_env \<Rightarrow> RawWorkerResponse \<Rightarrow> string list \<Rightarrow> MiniMaxContextSummary option \<Rightarrow> MiniMaxDelegationResult" where
  "invalid_response env response diagnostics ctx =
     (let error = sanitized_field env (rw_error response) in
      result_invalid (if error = [] then ''invalid_worker_response: missing error'' else error) diagnostics ctx)"

definition parse_delegate_output ::
    "deleg_env \<Rightarrow> string \<Rightarrow> string list \<Rightarrow> MiniMaxContextSummary option \<Rightarrow> MiniMaxDelegationResult option" where
  "parse_delegate_output env output context_diagnostics ctx =
     (let diagnostics = sanitize_diagnostics env context_diagnostics in
      if trim output = [] then Some (result_invalid ''worker_response_not_json: empty response'' diagnostics ctx)
      else case strip_prefix CLARIFY_PREFIX (trim output) of
        Some question \<Rightarrow> Some (result_clarify (trim (sanitize_metadata env (trim question))) diagnostics ctx)
      | None \<Rightarrow>
          (case normalize_worker_output env output of
             Inl (error, d) \<Rightarrow> Some (result_invalid error (diagnostics @ d) ctx)
           | Inr (normalized_output, d) \<Rightarrow>
               (case dg_from_str env normalized_output of
                  None \<Rightarrow>
                    let raw = (case detect_raw_patch_format normalized_output of
                                 Some format \<Rightarrow>
                                   [''worker returned raw '' @ format_str format @ '' patch instead of JSON'']
                               | None \<Rightarrow> [])
                    in Some (result_invalid
                         ''worker_response_not_json: expected JSON object with status completed/clarify/invalid''
                         (diagnostics @ d @ raw) ctx)
                | Some response \<Rightarrow>
                    let ds = diagnostics @ d @ sanitize_diagnostics env (rw_diagnostics response)
                    in (case rw_status response of
                          StCompleted \<Rightarrow> completed_response env response ds ctx
                        | StClarify \<Rightarrow> Some (clarify_response env response ds ctx)
                        | StInvalid \<Rightarrow> Some (invalid_response env response ds ctx)))))"

subsection \<open>Against the working tree\<close>

definition invalid_from_completed_result ::
    "deleg_env \<Rightarrow> MiniMaxDelegationResult \<Rightarrow> string \<Rightarrow> string option \<Rightarrow> MiniMaxDelegationResult" where
  "invalid_from_completed_result env result error diagnostic =
     result\<lparr>dr_status := StInvalid, dr_format := None, dr_summary := None, dr_patch := None,
            dr_question := None, dr_error := Some (sanitize_metadata env error),
            dr_diagnostics := dr_diagnostics result @
              (case diagnostic of Some d \<Rightarrow> [sanitize_metadata env d] | None \<Rightarrow> [])\<rparr>"

fun paths_of_hunk :: "Hunk \<Rightarrow> string list" where
  "paths_of_hunk (AddFile p _) = [p]"
| "paths_of_hunk (DeleteFile p) = [p]"
| "paths_of_hunk (UpdateFile p move_path _) =
     p # (case move_path of Some m \<Rightarrow> [m] | None \<Rightarrow> [])"

definition paths_from_hunks :: "Hunk list \<Rightarrow> string list" where
  "paths_from_hunks hunks = concat (map paths_of_hunk hunks)"

definition first_update_path :: "Hunk list \<Rightarrow> string option" where
  "first_update_path hunks =
     find_map (\<lambda>hunk. case hunk of UpdateFile p _ _ \<Rightarrow> Some p | _ \<Rightarrow> None) hunks"

fun map_applicability_error :: "deleg_env \<Rightarrow> Hunk list \<Rightarrow> ApplyPatchError \<Rightarrow> string" where
  "map_applicability_error env hunks (ComputeReplacements _) =
     ''patch_not_applicable: context did not match ''
     @ (case first_update_path hunks of Some p \<Rightarrow> p | None \<Rightarrow> ''patch target'')"
| "map_applicability_error env hunks (IoErr ctx e) =
     (let p = (case first_update_path hunks of Some p \<Rightarrow> p | None \<Rightarrow> ''patch target'');
          message = ctx @ '': '' @ io_message e
      in if str_contains message ''No such file or directory''
         then ''patch_not_applicable: update target '' @ p @ '' does not exist''
         else ''patch_not_applicable: could not read '' @ p)"
| "map_applicability_error env hunks (ParseErr error) = map_apply_patch_parse_error env error"
| "map_applicability_error env hunks ImplicitInvocation =
     ''invalid_apply_patch_format: patch could not be parsed as apply_patch''"

text \<open>The match on the verdict of the verification.\<close>

fun judge_verified ::
    "deleg_env \<Rightarrow> MiniMaxDelegationResult \<Rightarrow> Hunk list \<Rightarrow> MaybeApplyPatchVerified \<Rightarrow> MiniMaxDelegationResult" where
  "judge_verified env result hunks (VBody _) = result"
| "judge_verified env result hunks (CorrectnessError error) =
     (let m = map_applicability_error env hunks error in invalid_from_completed_result env result m (Some m))"
| "judge_verified env result hunks (VShellParseError _) =
     invalid_from_completed_result env result
       ''invalid_apply_patch_format: patch could not be parsed as apply_patch'' None"
| "judge_verified env result hunks VNotApplyPatch =
     invalid_from_completed_result env result
       ''invalid_apply_patch_format: patch could not be parsed as apply_patch'' None"

text \<open>The result and the state of the file system; \<open>None\<close> is a panic.\<close>

definition validate_delegate_result_against_worktree ::
    "deleg_env \<Rightarrow> 'f patch_fs \<Rightarrow> MiniMaxDelegationResult \<Rightarrow> string \<Rightarrow> 'f \<Rightarrow> (MiniMaxDelegationResult \<times> 'f) option" where
  "validate_delegate_result_against_worktree env fs result cwd f =
     (if dr_status result \<noteq> StCompleted \<or> dr_format result \<noteq> Some FmtApplyPatch then Some (result, f)
      else case dr_patch result of
        None \<Rightarrow> Some (result, f)
      | Some patch \<Rightarrow>
          (case parse_patch patch of
             Inl error \<Rightarrow>
               Some (invalid_from_completed_result env result (map_apply_patch_parse_error env error) None, f)
           | Inr parsed \<Rightarrow>
               (case first_sensitive_path (lower_of (dg_pack env)) (paths_from_hunks (ap_hunks parsed)) of
                  Some p \<Rightarrow>
                    Some (invalid_from_completed_result env result
                            (''blocked_sensitive_patch: patch modifies sensitive path '' @ p) None, f)
                | None \<Rightarrow>
                    (case from_absolute_path (iv_home_dir (dg_inv env)) (dg_current_dir env) cwd of
                       Inl _ \<Rightarrow>
                         Some (invalid_from_completed_result env result
                                 ''patch_not_applicable: current working directory is not absolute'' None, f)
                     | Inr cwd_abs \<Rightarrow>
                         map_option (\<lambda>(verified, f1). (judge_verified env result (ap_hunks parsed) verified, f1))
                           (maybe_parse_apply_patch_verified (dg_inv env) fs [''apply_patch'', patch] cwd_abs f)))))"

section \<open>minimax\_delegate.rs\<close>

definition CONTEXT_FILES_MAX_BYTES :: nat where "CONTEXT_FILES_MAX_BYTES = 32 * 1024"

text \<open>Lines of text, each ended by a line feed; the coding of \<open>re_text\<close> for quotes and backslashes.\<close>

definition text_lines :: "string list \<Rightarrow> string" where
  "text_lines ls = concat (map (\<lambda>l. re_text l @ nl) ls)"

definition render_acceptance :: "string list \<Rightarrow> string" where
  "render_acceptance criteria =
     (if criteria = [] then []
      else nl @ text_lines [''Acceptance criteria:''] @ concat (map (\<lambda>c. ''- '' @ c @ nl) criteria))"

definition render_git_modified :: "string list \<Rightarrow> string" where
  "render_git_modified paths =
     (if paths = [] then []
      else nl @ text_lines [''Git-modified context:'']
        @ ''- The following files were included because they are currently modified in git: ''
        @ str_join '', '' paths @ ''.'' @ nl
        @ text_lines [''- Do not assume this is a complete view of every changed file in the repository.''])"

definition render_file :: "PackedContextFile \<Rightarrow> string" where
  "render_file cf =
     re_text ''<file path=@'' @ pf_path cf @ re_text ''@ truncated=@''
     @ (if pf_truncated cf then ''true'' else ''false'') @ re_text ''@>'' @ nl
     @ pf_content cf @ (if ends_with (pf_content cf) nl then [] else nl)
     @ text_lines [''</file>'', [] ]"

definition render_context_note :: "ContextPack \<Rightarrow> string" where
  "render_context_note pack =
     (if cp_truncated pack \<or> cp_messages pack \<noteq> [] then
        text_lines
          [[], ''Context note:'',
           ''- Some requested context was omitted, truncated, or redacted by safety and budget rules.'',
           ''- If essential context is missing, respond with `status@:@clarify@` instead of guessing.'']
      else [])"

definition return_contract :: string where
  "return_contract =
     text_lines
       [[], ''Return contract:'',
        ''- Return exactly one JSON object and nothing else.'',
        ''- If the task is clear, return completed JSON with `format: @apply_patch@` plus either `patch` with escaped `~n` newlines or `patch_lines` as an array of lines.'',
        ''- If essential context is missing or ambiguous, return: {@status@:@clarify@,@question@:@...@,@diagnostics@:[@...@]}.'',
        ''- If the request is not actionable as given, return: {@status@:@invalid@,@error@:@...@,@diagnostics@:[@...@]}.'',
        ''- Use only the context provided above.'',
        ''- Do not invent files that are not shown above unless creating a new file is explicitly necessary.'',
        ''- Do not include markdown fences, prose, or explanations outside the JSON object.'',
        ''- Do not use shell commands or heredoc wrappers such as `apply_patch <<#PATCH# ... PATCH`.'',
        ''- For existing files, use `*** Update File: path`, copy `-` lines exactly from the context above, and do not use `...`, placeholders, or line numbers inside hunks.'',
        ''- If the provided context is not enough to build an applicable patch, return `status@:@clarify@` or `status@:@invalid@` instead of guessing.'']"

definition render_delegate_request :: "DelegateToMinimaxRequest \<Rightarrow> ContextPack \<Rightarrow> string" where
  "render_delegate_request request pack =
     text_lines [''Task description:''] @ task_description request @ nl
     @ render_acceptance (acceptance_criteria request)
     @ render_git_modified (cp_git_modified_paths pack)
     @ text_lines [[], ''<context>'']
     @ concat (map render_file (cp_files pack))
     @ text_lines [''</context>'']
     @ render_context_note pack
     @ return_contract"

definition build_context_summary :: "ContextPack \<Rightarrow> MiniMaxContextSummary option" where
  "build_context_summary pack =
     (let included = map (\<lambda>cf. \<lparr>cf_path = pf_path cf, cf_source = pf_source cf,
                                cf_truncated = pf_truncated cf, cf_redacted = pf_redacted cf\<rparr>) (cp_files pack);
          omitted = length (filter (prefix ''omitted '') (cp_messages pack))
      in if included = [] \<and> omitted = 0 then None
         else Some \<lparr>included_files = included, omitted_count = omitted\<rparr>)"

text \<open>The loop over the events of the adapter's stream.\<close>

fun collect_events :: "('e + BridgeEvent) list \<Rightarrow> string \<times> string \<Rightarrow> 'e + string \<times> string" where
  "collect_events [] acc = Ok acc"
| "collect_events (item # items) (deltas, final_text) =
     (case item of
        Inl e \<Rightarrow> Err e
      | Inr (EvTextDelta delta) \<Rightarrow> collect_events items (deltas @ delta, final_text)
      | Inr (EvItemDone (MessageItem _ content)) \<Rightarrow>
          collect_events items (deltas, final_text @ concat content)
      | Inr _ \<Rightarrow> collect_events items (deltas, final_text))"

definition collect_stream_text :: "('e + BridgeEvent) list \<Rightarrow> 'e + string" where
  "collect_stream_text stream =
     rbind (collect_events stream ([], []))
       (\<lambda>(deltas, final_text). Ok (if trim deltas = [] then final_text else deltas))"

definition delegate_context :: "deleg_env \<Rightarrow> DelegateToMinimaxRequest \<Rightarrow> string \<Rightarrow> ContextPack" where
  "delegate_context env request cwd =
     (let packer = ContextPacker_new (dg_pack env) cwd CONTEXT_FILES_MAX_BYTES DEFAULT_CONTEXT_FILE_MAX_BYTES
      in if req_include_modified_files request
         then pack_with_request (dg_pack env) packer
                \<lparr>explicit_files = context_files request, explicit_snippets = [],
                 task_text = task_description request, include_modified_files = True\<rparr>
         else pack_context (dg_pack env) packer (context_files request) [] (task_description request))"

text \<open>
  The whole call. \<open>stream\<close> is the adapter: the text of the user message to the events, or
  the error of the call.
\<close>

definition delegate_to_minimax ::
    "deleg_env \<Rightarrow> 'f patch_fs \<Rightarrow> (string \<Rightarrow> 'e + ('e + BridgeEvent) list) \<Rightarrow> DelegateToMinimaxRequest \<Rightarrow> string \<Rightarrow> 'f
       \<Rightarrow> (('e + MiniMaxDelegationResult) \<times> 'f) option" where
  "delegate_to_minimax env fs stream request cwd f =
     (let pack = delegate_context env request cwd in
      case rbind (stream (render_delegate_request request pack)) collect_stream_text of
        Inl e \<Rightarrow> Some (Err e, f)
      | Inr output \<Rightarrow>
          Option.bind (parse_delegate_output env output (cp_messages pack) (build_context_summary pack))
            (\<lambda>result. map_option (\<lambda>(r, f1). (Ok r, f1))
               (validate_delegate_result_against_worktree env fs result cwd f)))"

section \<open>Lemmas\<close>

lemma ws_no_star: "w \<in> set ws_encodings \<Longrightarrow> CHR ''*'' \<notin> set w"
  by (auto simp: ws_encodings_def)

lemma str_rfind_prefix: "str_rfind p s = Some i \<Longrightarrow> prefix p (drop i s) \<and> i \<le> length s"
  by (induction s arbitrary: i) (auto split: if_splits option.splits)

lemma str_find_prefix: "str_find p s = Some i \<Longrightarrow> prefix p (drop i s) \<and> i \<le> length s"
  by (induction s arbitrary: i) (auto split: if_splits option.splits)

definition result_wf :: "MiniMaxDelegationResult \<Rightarrow> bool" where
  "result_wf r =
     (case dr_status r of
        StCompleted \<Rightarrow> dr_format r \<noteq> None \<and> dr_summary r \<notin> {None, Some []} \<and> dr_patch r \<noteq> None
                       \<and> dr_question r = None \<and> dr_error r = None
      | StClarify \<Rightarrow> dr_format r = None \<and> dr_summary r = None \<and> dr_patch r = None
                       \<and> dr_question r \<noteq> None \<and> dr_error r = None
      | StInvalid \<Rightarrow> dr_format r = None \<and> dr_summary r = None \<and> dr_patch r = None
                       \<and> dr_question r = None \<and> dr_error r \<noteq> None)"

lemma result_constructors_wf [simp]:
  "result_wf (result_completed fmt summary patch ds ctx) \<longleftrightarrow> summary \<noteq> []"
  "result_wf (result_clarify question ds ctx)" "result_wf (result_invalid message ds ctx)"
  "dr_context_summary r = c \<Longrightarrow> result_wf (invalid_from_completed_result env r error d)"
  by (simp_all add: result_wf_def result_completed_def result_clarify_def result_invalid_def
      invalid_from_completed_result_def)

text \<open>What the normalised text of a patch satisfies.\<close>

definition patch_clean :: "string \<Rightarrow> bool" where
  "patch_clean patch =
     (\<not> looks_like_unified_diff patch \<and> \<not> str_contains patch fence \<and> \<not> str_contains patch HEREDOC_CALL \<and>
      (case parse_patch patch of Inr parsed \<Rightarrow> ap_hunks parsed \<noteq> [] | Inl _ \<Rightarrow> False))"

lemma normalize_apply_patch_text_clean:
  assumes "normalize_apply_patch_text env patch = Some (Ok (p, d))" shows "patch_clean p"
proof -
  obtain t d0 where "normalize_line_endings patch = (t, d0)" by (cases "normalize_line_endings patch")
  with assms obtain x where "normalize_loop t d0 = Some x"
    by (auto simp: normalize_apply_patch_text_def)
  then obtain t' d' where "normalize_loop t d0 = Some (t', d')" by (cases x) auto
  with assms \<open>normalize_line_endings patch = (t, d0)\<close> show ?thesis
    by (auto simp: normalize_apply_patch_text_def patch_clean_def split: if_splits sum.splits)
qed

text \<open>What the parser guarantees of a result.\<close>

definition parsed_ok :: "MiniMaxDelegationResult \<Rightarrow> bool" where
  "parsed_ok r =
     (result_wf r \<and>
      (dr_status r = StCompleted \<longrightarrow> dr_format r = Some FmtApplyPatch \<longrightarrow> patch_clean (the (dr_patch r))))"

lemma parsed_ok_constructors [simp]:
  "parsed_ok (result_completed fmt summary patch ds ctx) \<longleftrightarrow>
     summary \<noteq> [] \<and> (fmt = FmtApplyPatch \<longrightarrow> patch_clean patch)"
  "parsed_ok (result_clarify question ds ctx)" "parsed_ok (result_invalid message ds ctx)"
  by (auto simp: parsed_ok_def) (auto simp: result_completed_def result_clarify_def result_invalid_def)

lemma normalize_patch_for_format_clean:
  "normalize_patch_for_format env FmtApplyPatch patch = Some (Ok (p, d)) \<Longrightarrow> patch_clean p"
  by (simp add: normalize_patch_for_format_def normalize_apply_patch_text_clean)

lemma completed_response_ok: "completed_response env response ds ctx = Some r \<Longrightarrow> parsed_ok r"
  apply (auto simp: completed_response_def Let_def split: option.splits if_splits sum.splits prod.splits)
  subgoal for fmt patch d z
    using normalize_patch_for_format_clean [of env patch] by (cases z) auto
  done

lemma parse_delegate_output_ok:
  "parse_delegate_output env output ds ctx = Some r \<Longrightarrow> parsed_ok r"
  by (auto simp: parse_delegate_output_def clarify_response_def invalid_response_def Let_def
      dest: completed_response_ok
      split: option.splits if_splits sum.splits prod.splits MiniMaxDelegationStatus.splits)

text \<open>What the whole call guarantees of a completed patch.\<close>

definition patch_applicable ::
    "deleg_env \<Rightarrow> 'f patch_fs \<Rightarrow> string \<Rightarrow> string \<Rightarrow> 'f \<Rightarrow> 'f \<Rightarrow> bool" where
  "patch_applicable env fs cwd patch f f' =
     (\<exists>parsed cwd_abs act.
        parse_patch patch = Ok parsed \<and> ap_hunks parsed \<noteq> [] \<and>
        (\<forall>p \<in> set (paths_from_hunks (ap_hunks parsed)). \<not> is_sensitive_path (lower_of (dg_pack env)) p) \<and>
        from_absolute_path (iv_home_dir (dg_inv env)) (dg_current_dir env) cwd = Ok cwd_abs \<and>
        maybe_parse_apply_patch_verified (dg_inv env) fs [''apply_patch'', patch] cwd_abs f = Some (VBody act, f'))"

lemma validate_total:
  "\<exists>r f'. validate_delegate_result_against_worktree env fs result cwd f = Some (r, f')"
proof -
  have "maybe_parse_apply_patch_verified (dg_inv env) fs argv q f \<noteq> None" for argv q
    using maybe_parse_verified_total [of "dg_inv env" fs argv q f] by auto
  then have "validate_delegate_result_against_worktree env fs result cwd f \<noteq> None"
    unfolding validate_delegate_result_against_worktree_def
    by (simp del: not_None_eq split: option.split sum.split)
  then show ?thesis by auto
qed

lemma judge_verified_wf:
  "result_wf result \<Longrightarrow> result_wf (judge_verified env result hunks v)"
  "dr_status (judge_verified env result hunks v) = StCompleted \<Longrightarrow>
     (\<exists>act. v = VBody act) \<and> judge_verified env result hunks v = result"
  by (cases v; simp add: Let_def invalid_from_completed_result_def result_wf_def)+

lemma invalid_from_completed_status [simp]:
  "dr_status (invalid_from_completed_result env r e d) = StInvalid"
  "result_wf (invalid_from_completed_result env r e d)"
  by (simp_all add: invalid_from_completed_result_def result_wf_def)

lemma validate_wf:
  assumes "validate_delegate_result_against_worktree env fs result cwd f = Some (r, f')" "result_wf result"
  shows "result_wf r"
  using assms judge_verified_wf(1)
  by (auto simp: validate_delegate_result_against_worktree_def split: if_splits option.splits sum.splits)

lemma validate_completed:
  assumes "validate_delegate_result_against_worktree env fs result cwd f = Some (r, f')"
    and "dr_status r = StCompleted" "parsed_ok result"
  shows "r = result"
    and "dr_format r = Some FmtApplyPatch \<Longrightarrow> patch_applicable env fs cwd (the (dr_patch r)) f f'"
proof -
  have "r = result \<and> (dr_format r = Some FmtApplyPatch \<longrightarrow> patch_applicable env fs cwd (the (dr_patch r)) f f')"
    using assms
    by (auto simp: validate_delegate_result_against_worktree_def patch_applicable_def first_sensitive_path_None
        parsed_ok_def patch_clean_def result_wf_def
        dest: judge_verified_wf(2) split: if_splits option.splits sum.splits)
  then show "r = result"
    and "dr_format r = Some FmtApplyPatch \<Longrightarrow> patch_applicable env fs cwd (the (dr_patch r)) f f'" by auto
qed

lemma str_find_count: "str_count p s \<noteq> 0 \<Longrightarrow> \<exists>i. str_find p s = Some i"
  by (induction p s rule: str_count.induct) (auto split: if_splits)

lemma str_rfind_count: "str_count p s \<noteq> 0 \<Longrightarrow> \<exists>i. str_rfind p s = Some i"
proof (induction p s rule: str_count.induct)
  case (2 p c s)
  show ?case
  proof (cases "prefix p (c # s)")
    case False
    with 2 show ?thesis by (auto split: option.split)
  qed (auto split: option.split)
qed simp

lemma sublist_slice: "sublist (take n (drop m s)) s"
  by (meson sublist_drop sublist_trans sublist_take)

lemma sublist_strip_markdown_fence: "strip_markdown_fence t = Some s \<Longrightarrow> sublist s t"
  by (auto simp: strip_markdown_fence_def Let_def split: if_splits option.splits
      intro: sublist_trans [OF sublist_slice sublist_trim])

lemma sublist_extract_wrapped: "extract_wrapped_apply_patch t = Some (Some (s, d)) \<Longrightarrow> sublist s t"
  by (auto simp: extract_wrapped_apply_patch_def slice_def Let_def sublist_slice split: if_splits option.splits)

text \<open>The loop ends in a part of its input from which nothing is left to unwrap.\<close>

lemma normalize_loop_result:
  "normalize_loop t d = Some (t', d') \<Longrightarrow>
   sublist t' t \<and> strip_markdown_fence t' = None \<and> extract_wrapped_apply_patch t' = Some None"
proof (induction t d rule: normalize_loop.induct)
  case (1 t d)
  note step = "1.prems" [unfolded normalize_loop.simps [of t d]]
  show ?case
  proof (cases "strip_markdown_fence t")
    case (Some s)
    then have "sublist (trim s) t"
      by (blast intro: sublist_trans [OF sublist_trim] sublist_strip_markdown_fence)
    with "1.IH"(2) [OF Some] step Some show ?thesis by (auto intro: sublist_trans)
  next
    case None
    then obtain w where w: "extract_wrapped_apply_patch t = Some w"
      using step by (auto split: option.splits)
    show ?thesis
    proof (cases w)
      case (Some x)
      obtain s e where x: "x = (s, e)" by (cases x)
      have "sublist (trim s) t"
        using w Some x by (blast intro: sublist_trans [OF sublist_trim] sublist_extract_wrapped)
      with "1.IH"(1) [OF None w Some, of s e] x step None w Some show ?thesis by (auto intro: sublist_trans)
    qed (use step None w in auto)
  qed
qed

lemma delegate_result:
  assumes "delegate_to_minimax env fs stream request cwd f = Some (Ok r, f')"
  shows "result_wf r \<and>
    (dr_status r = StCompleted \<and> dr_format r = Some FmtApplyPatch \<longrightarrow>
       patch_clean (the (dr_patch r)) \<and> patch_applicable env fs cwd (the (dr_patch r)) f f')"
proof -
  let ?pack = "delegate_context env request cwd"
  obtain out where "rbind (stream (render_delegate_request request ?pack)) collect_stream_text = Ok out"
    using assms by (auto simp: delegate_to_minimax_def Let_def split: sum.splits)
  with assms obtain result
    where parsed: "parse_delegate_output env out (cp_messages ?pack) (build_context_summary ?pack) = Some result"
      and valid: "validate_delegate_result_against_worktree env fs result cwd f = Some (r, f')"
    by (auto simp: delegate_to_minimax_def Let_def bind_eq_Some_conv)
  have ok: "parsed_ok result" using parsed by (rule parse_delegate_output_ok)
  then have "result_wf r" using validate_wf [OF valid] by (simp add: parsed_ok_def)
  moreover have "r = result" "dr_format r = Some FmtApplyPatch \<Longrightarrow> patch_applicable env fs cwd (the (dr_patch r)) f f'"
    if "dr_status r = StCompleted" using validate_completed [OF valid that ok] by auto
  ultimately show ?thesis using ok by (auto simp: parsed_ok_def)
qed

section \<open>Properties\<close>


text \<open>A worker that answers with one added file.\<close>

definition quiet_pack :: pack_env where
  "quiet_pack =
     \<lparr>pk_scrub = \<lparr>sc_to_lowercase = to_ascii_lowercase, sc_replace_all = (\<lambda>_ _ t. t),
        sc_shlex_split = (\<lambda>_. None), sc_from_utf8_lossy = (\<lambda>b. b), sc_bash = (\<lambda>_. None)\<rparr>,
      pk_exists = (\<lambda>_. False), pk_is_dir = (\<lambda>_. True), pk_canonicalize = (\<lambda>_. None), pk_read = (\<lambda>_. None),
      pk_git_status = (\<lambda>_. Err []), pk_str_debug = (\<lambda>s. s), pk_is_match = (\<lambda>_ _. False)\<rparr>"

definition patch_answer :: "string \<Rightarrow> RawWorkerResponse" where
  "patch_answer patch =
     \<lparr>rw_status = StCompleted, rw_format = Some FmtApplyPatch, rw_summary = Some ''ok'', rw_patch = Some patch,
      rw_patch_lines = None, rw_question = None, rw_error = None, rw_diagnostics = []\<rparr>"

definition answering :: "string \<Rightarrow> deleg_env" where
  "answering patch =
     \<lparr>dg_pack = quiet_pack, dg_inv = plain_inv, dg_current_dir = Err (),
      dg_from_str = (\<lambda>_. Some (patch_answer patch)), dg_is_json_object = (\<lambda>s. s = ''{}'')\<rparr>"

definition json_stream :: "string \<Rightarrow> unit + (unit + BridgeEvent) list" where
  "json_stream _ = Ok [Ok (EvTextDelta ''{}'')]"

lemma json_stream_text: "rbind (json_stream t) collect_stream_text = Ok ''{}''"
proof -
  have "trim ''{}'' \<noteq> []" by code_simp
  then show ?thesis by (simp add: json_stream_def collect_stream_text_def)
qed

lemma answering_parse:
  "parse_delegate_output (answering patch) ''{}'' ds ctx =
     completed_response (answering patch) (patch_answer patch) (sanitize_diagnostics (answering patch) ds) ctx"
proof -
  have "trim ''{}'' \<noteq> []" "strip_prefix CLARIFY_PREFIX (trim ''{}'') = None" by code_simp+
  moreover have "normalize_worker_output (answering patch) ''{}'' = Ok (''{}'', [])"
    by code_simp
  ultimately show ?thesis
    by (simp add: parse_delegate_output_def answering_def patch_answer_def sanitize_diagnostics_def Let_def)
qed

lemma answering_completed:
  assumes "trim patch \<noteq> []"
  shows "completed_response (answering patch) (patch_answer patch) ds ctx =
     map_option
       (\<lambda>normalized. case normalized of
          Inl (error, d') \<Rightarrow> result_invalid error (ds @ d') ctx
        | Inr (p, d') \<Rightarrow> result_completed FmtApplyPatch ''ok'' p (ds @ d') ctx)
       (normalize_apply_patch_text (answering patch) patch)"
proof -
  have "sanitized_field (answering patch) (Some ''ok'') = ''ok''" by code_simp
  with assms show ?thesis
    by (simp add: completed_response_def patch_answer_def resolve_patch_source_def normalize_patch_for_format_def Let_def)
qed

definition some_request :: DelegateToMinimaxRequest where
  "some_request = \<lparr>task_description = ''x'', acceptance_criteria = [], context_files = [],
                   req_include_modified_files = False\<rparr>"

lemma delegate_answering:
  assumes "trim patch \<noteq> []"
  shows "\<exists>ds ctx. delegate_to_minimax (answering patch) fs json_stream some_request cwd f =
     Option.bind (completed_response (answering patch) (patch_answer patch) ds ctx)
       (\<lambda>result. map_option (\<lambda>(r, f1). (Ok r, f1))
          (validate_delegate_result_against_worktree (answering patch) fs result cwd f))"
  unfolding delegate_to_minimax_def Let_def json_stream_text by (auto simp: answering_parse)

lemma add_patch_normalized:
  "trim add_patch \<noteq> []" "normalize_apply_patch_text (answering add_patch) add_patch = Some (Ok (add_patch, []))"
  by code_simp+

lemma add_patch_valid:
  assumes "dr_status r = StCompleted" "dr_format r = Some FmtApplyPatch" "dr_patch r = Some add_patch"
  shows "validate_delegate_result_against_worktree (answering add_patch) mem_fs r ''/w'' [] = Some (r, [])"
proof -
  have p: "parse_patch add_patch = Ok \<lparr>ap_patch = add_patch, ap_hunks = [AddFile ''a'' (''x'' @ nl)], ap_workdir = None\<rparr>"
    and s: "first_sensitive_path (lower_of (dg_pack (answering add_patch))) (paths_from_hunks [AddFile ''a'' (''x'' @ nl)]) = None"
    and c: "from_absolute_path (iv_home_dir (dg_inv (answering add_patch))) (dg_current_dir (answering add_patch)) ''/w'' = Ok work_dir"
    by code_simp+
  have i: "dg_inv (answering add_patch) = plain_inv" by (simp add: answering_def)
  from add_patch_verified obtain act where
    "maybe_parse_apply_patch_verified plain_inv mem_fs [''apply_patch'', add_patch] work_dir [] = Some (VBody act, [])"
    by blast
  with assms p s c show ?thesis
    unfolding validate_delegate_result_against_worktree_def by (simp add: i)
qed



definition reversed_patch :: string where
  "reversed_patch = END_MARKER @ nl @ BEGIN_MARKER"

lemma reversed_markers_panic: "delegate_to_minimax (answering reversed_patch) fs json_stream some_request cwd f = None"
proof -
  have "trim reversed_patch \<noteq> []" "normalize_apply_patch_text (answering reversed_patch) reversed_patch = None"
    by code_simp+
  then show ?thesis
    using delegate_answering [of reversed_patch fs cwd f] by (auto simp: answering_completed)
qed

end
