(* ===== verification/Command_Safety.thy ===== *)
theory Command_Safety
  imports Shell_Bash
begin

text \<open>
  Which commands run without asking and which are never run without asking:
  \<open>shell-command/src/command_safety/is_dangerous_command.rs\<close>, \<open>is_safe_command.rs\<close> and
  \<open>windows_safe_commands.rs\<close>, in the Linux build (where the list of dangerous Windows commands
  is not compiled in). The syntax trees of Bash and the answers of the PowerShell parser process
  come from the environment.
\<close>

datatype PowershellParseOutcome = Commands "string list list" | Unsupported | Failed

record safety_env =
  env_bash :: bash_parser
  env_powershell :: "string \<Rightarrow> string \<Rightarrow> PowershellParseOutcome"

section \<open>is\_dangerous\_command.rs\<close>

definition GIT_VALUE_OPTIONS :: "string list" where
  "GIT_VALUE_OPTIONS =
     [''--config-env'', ''--exec-path'', ''--git-dir'', ''--namespace'', ''--super-prefix'', ''--work-tree'']"

definition is_git_global_option_with_value :: "string \<Rightarrow> bool" where
  "is_git_global_option_with_value arg = (arg \<in> set (''-C'' # ''-c'' # GIT_VALUE_OPTIONS))"

definition is_git_global_option_with_inline_value :: "string \<Rightarrow> bool" where
  "is_git_global_option_with_inline_value arg =
     (list_ex (\<lambda>opt. prefix (opt @ ''='') arg) GIT_VALUE_OPTIONS
      \<or> (prefix ''-C'' arg \<or> prefix ''-c'' arg) \<and> 2 < length arg)"

definition git_global_option_requires_prompt :: "string \<Rightarrow> bool" where
  "git_global_option_requires_prompt arg =
     (arg \<in> set (''-c'' # GIT_VALUE_OPTIONS)
      \<or> prefix ''-c'' arg \<and> 2 < length arg
      \<or> list_ex (\<lambda>opt. prefix (opt @ ''='') arg) GIT_VALUE_OPTIONS)"

definition executable_name_lookup_key :: "string \<Rightarrow> string option" where
  "executable_name_lookup_key raw = file_name (components raw)"

text \<open>The loop of \<open>find_git_subcommand\<close>, up to the first argument that is no option.\<close>

fun git_scan :: "bool \<Rightarrow> nat \<Rightarrow> string list \<Rightarrow> (nat \<times> string) option" where
  "git_scan skip_next idx [] = None"
| "git_scan skip_next idx (arg # args) =
     (if skip_next then git_scan False (Suc idx) args
      else if is_git_global_option_with_inline_value arg then git_scan False (Suc idx) args
      else if is_git_global_option_with_value arg then git_scan True (Suc idx) args
      else if arg = ''--'' \<or> prefix ''-'' arg then git_scan False (Suc idx) args
      else Some (idx, arg))"

definition find_git_subcommand :: "string list \<Rightarrow> string list \<Rightarrow> (nat \<times> string) option" where
  "find_git_subcommand command subcommands =
     (case command of
        [] \<Rightarrow> None
      | cmd0 # args \<Rightarrow>
          if executable_name_lookup_key cmd0 \<noteq> Some ''git'' then None
          else (case git_scan False 1 args of
                  Some (idx, arg) \<Rightarrow> if arg \<in> set subcommands then Some (idx, arg) else None
                | None \<Rightarrow> None))"

fun is_dangerous_to_call_with_exec :: "string list \<Rightarrow> bool" where
  "is_dangerous_to_call_with_exec [] = False"
| "is_dangerous_to_call_with_exec (cmd0 # args) =
     (if cmd0 = ''rm'' then args \<noteq> [] \<and> (hd args = ''-f'' \<or> hd args = ''-rf'')
      else if cmd0 = ''sudo'' then is_dangerous_to_call_with_exec args
      else False)"

definition command_might_be_dangerous :: "bash_parser \<Rightarrow> string list \<Rightarrow> bool" where
  "command_might_be_dangerous parse command =
     (is_dangerous_to_call_with_exec command
      \<or> (case parse_shell_lc_plain_commands parse command of
           Some all_commands \<Rightarrow> list_ex is_dangerous_to_call_with_exec all_commands
         | None \<Rightarrow> False))"

section \<open>windows\_safe\_commands.rs\<close>

definition POWERSHELL_EXECUTABLES :: "string list" where
  "POWERSHELL_EXECUTABLES = [''powershell'', ''powershell.exe'', ''pwsh'', ''pwsh.exe'']"

definition is_powershell_executable :: "string \<Rightarrow> bool" where
  "is_powershell_executable exe =
     (to_ascii_lowercase (case file_name (components exe) of Some n \<Rightarrow> n | None \<Rightarrow> exe)
        \<in> set POWERSHELL_EXECUTABLES)"

definition quote_argument :: "string \<Rightarrow> string" where
  "quote_argument arg =
     (if arg = [] then [squote, squote]
      else if \<not> has_whitespace arg then arg
      else squote # replace_char squote [squote, squote] arg @ [squote])"

definition join_arguments_as_script :: "string list \<Rightarrow> string" where
  "join_arguments_as_script args =
     (case args of [] \<Rightarrow> [] | first # rest \<Rightarrow> str_join '' '' (first # map quote_argument rest))"

definition parse_powershell_script :: "safety_env \<Rightarrow> string \<Rightarrow> string \<Rightarrow> string list list option" where
  "parse_powershell_script env executable script =
     (case env_powershell env executable script of Commands cs \<Rightarrow> Some cs | _ \<Rightarrow> None)"

text \<open>The \<open>while\<close> loop over the remaining arguments.\<close>

fun parse_powershell_invocation :: "safety_env \<Rightarrow> string \<Rightarrow> string list \<Rightarrow> string list list option" where
  "parse_powershell_invocation env executable [] = None"
| "parse_powershell_invocation env executable (arg # rest) =
     (let lower = to_ascii_lowercase arg in
      if lower \<in> set [''-command'', ''/command'', ''-c''] then
        (case rest of [script] \<Rightarrow> parse_powershell_script env executable script | _ \<Rightarrow> None)
      else if prefix ''-command:'' lower \<or> prefix ''/command:'' lower then
        (if rest \<noteq> [] then None
         else parse_powershell_script env executable (drop (length ''-command:'') arg))
      else if lower \<in> set [''-nologo'', ''-noprofile'', ''-noninteractive'', ''-mta'', ''-sta''] then
        parse_powershell_invocation env executable rest
      else if lower \<in> set [''-encodedcommand'', ''-ec'', ''-file'', ''/file'', ''-windowstyle'',
                            ''-executionpolicy'', ''-workingdirectory''] then None
      else if prefix ''-'' lower then None
      else parse_powershell_script env executable (join_arguments_as_script (arg # rest)))"

definition try_parse_powershell_command_sequence :: "safety_env \<Rightarrow> string list \<Rightarrow> string list list option" where
  "try_parse_powershell_command_sequence env command =
     (case command of
        [] \<Rightarrow> None
      | exe # rest \<Rightarrow>
          if is_powershell_executable exe then parse_powershell_invocation env exe rest else None)"

definition inner_word :: "string \<Rightarrow> string" where
  "inner_word w =
     to_ascii_lowercase
       (dropWhile (\<lambda>c. c = CHR ''-'') (trim_matches (\<lambda>c. c = CHR ''('' \<or> c = CHR '')'') w))"

definition SIDE_EFFECT_CMDLETS :: "string list" where
  "SIDE_EFFECT_CMDLETS =
     [''set-content'', ''add-content'', ''out-file'', ''new-item'', ''remove-item'', ''move-item'',
      ''copy-item'', ''rename-item'', ''start-process'', ''stop-process'']"

definition SAFE_CMDLETS :: "string list" where
  "SAFE_CMDLETS =
     [''echo'', ''write-output'', ''write-host'', ''dir'', ''ls'', ''get-childitem'', ''gci'',
      ''cat'', ''type'', ''gc'', ''get-content'', ''select-string'', ''sls'', ''findstr'',
      ''measure-object'', ''measure'', ''get-location'', ''gl'', ''pwd'', ''test-path'', ''tp'',
      ''resolve-path'', ''rvpa'', ''select-object'', ''select'', ''get-item'']"

definition UNSAFE_RIPGREP_OPTIONS_WITH_ARGS :: "string list" where
  "UNSAFE_RIPGREP_OPTIONS_WITH_ARGS = [''--pre'', ''--hostname-bin'']"

definition UNSAFE_RIPGREP_OPTIONS_WITHOUT_ARGS :: "string list" where
  "UNSAFE_RIPGREP_OPTIONS_WITHOUT_ARGS = [''--search-zip'', ''-z'']"

definition unsafe_rg_option :: "string \<Rightarrow> bool" where
  "unsafe_rg_option arg =
     (arg \<in> set UNSAFE_RIPGREP_OPTIONS_WITHOUT_ARGS
      \<or> list_ex (\<lambda>opt. arg = opt \<or> prefix (opt @ ''='') arg) UNSAFE_RIPGREP_OPTIONS_WITH_ARGS)"

definition is_safe_ripgrep :: "string list \<Rightarrow> bool" where
  "is_safe_ripgrep words = (\<not> list_ex (\<lambda>arg. unsafe_rg_option (to_ascii_lowercase arg)) (drop 1 words))"

fun safe_git_words :: "string list \<Rightarrow> bool" where
  "safe_git_words [] = False"
| "safe_git_words (arg # args) =
     (let arg_lc = to_ascii_lowercase arg in
      if prefix ''-'' arg then
        (if git_global_option_requires_prompt arg_lc \<or> arg_lc = ''--config'' \<or> prefix ''--config='' arg_lc
         then False else safe_git_words args)
      else arg_lc \<in> set [''status'', ''log'', ''show'', ''diff'', ''cat-file''])"

definition is_safe_git_command :: "string list \<Rightarrow> bool" where
  "is_safe_git_command words = safe_git_words (drop 1 words)"

definition is_safe_powershell_command :: "string list \<Rightarrow> bool" where
  "is_safe_powershell_command words =
     (case words of
        [] \<Rightarrow> False
      | word0 # _ \<Rightarrow>
          if list_ex (\<lambda>w. inner_word w \<in> set SIDE_EFFECT_CMDLETS) words then False
          else let command = inner_word word0 in
               if command \<in> set SAFE_CMDLETS then True
               else if command = ''git'' then is_safe_git_command words
               else if command = ''rg'' then is_safe_ripgrep words
               else False)"

definition is_safe_command_windows :: "safety_env \<Rightarrow> string list \<Rightarrow> bool" where
  "is_safe_command_windows env command =
     (case try_parse_powershell_command_sequence env command of
        Some commands \<Rightarrow> list_all is_safe_powershell_command commands
      | None \<Rightarrow> False)"

section \<open>is\_safe\_command.rs\<close>

definition LINUX_SAFE_COMMANDS :: "string list" where
  "LINUX_SAFE_COMMANDS = [''numfmt'', ''tac'']"

definition SAFE_COMMANDS :: "string list" where
  "SAFE_COMMANDS =
     [''cat'', ''cd'', ''cut'', ''echo'', ''expr'', ''false'', ''grep'', ''head'', ''id'', ''ls'',
      ''nl'', ''paste'', ''pwd'', ''rev'', ''seq'', ''stat'', ''tail'', ''tr'', ''true'', ''uname'',
      ''uniq'', ''wc'', ''which'', ''whoami'']"

definition UNSAFE_BASE64_OPTIONS :: "string list" where
  "UNSAFE_BASE64_OPTIONS = [''-o'', ''--output'']"

definition UNSAFE_FIND_OPTIONS :: "string list" where
  "UNSAFE_FIND_OPTIONS =
     [''-exec'', ''-execdir'', ''-ok'', ''-okdir'', ''-delete'', ''-fls'', ''-fprint'', ''-fprint0'',
      ''-fprintf'']"

definition UNSAFE_GIT_FLAGS :: "string list" where
  "UNSAFE_GIT_FLAGS = [''--output'', ''--ext-diff'', ''--textconv'', ''--exec'', ''--paginate'']"

definition git_subcommand_args_are_read_only :: "string list \<Rightarrow> bool" where
  "git_subcommand_args_are_read_only args =
     (\<not> list_ex (\<lambda>arg. arg \<in> set UNSAFE_GIT_FLAGS \<or> prefix ''--output='' arg \<or> prefix ''--exec='' arg) args)"

definition READ_ONLY_BRANCH_FLAGS :: "string list" where
  "READ_ONLY_BRANCH_FLAGS =
     [''--list'', ''-l'', ''--show-current'', ''-a'', ''--all'', ''-r'', ''--remotes'', ''-v'', ''-vv'',
      ''--verbose'']"

fun branch_loop :: "bool \<Rightarrow> string list \<Rightarrow> bool" where
  "branch_loop saw_read_only_flag [] = saw_read_only_flag"
| "branch_loop saw_read_only_flag (arg # args) =
     (if arg \<in> set READ_ONLY_BRANCH_FLAGS then branch_loop True args
      else if prefix ''--format='' arg then branch_loop True args
      else False)"

definition git_branch_is_read_only :: "string list \<Rightarrow> bool" where
  "git_branch_is_read_only branch_args = (if branch_args = [] then True else branch_loop False branch_args)"

definition git_has_unsafe_global_option :: "string list \<Rightarrow> bool" where
  "git_has_unsafe_global_option command = list_ex git_global_option_requires_prompt (drop 1 command)"

definition all_digits :: "string \<Rightarrow> bool" where
  "all_digits s = (s \<noteq> [] \<and> list_all is_ascii_digit s)"

definition is_valid_sed_n_arg :: "string option \<Rightarrow> bool" where
  "is_valid_sed_n_arg arg =
     (case arg of
        None \<Rightarrow> False
      | Some s \<Rightarrow>
          if s = [] \<or> last s \<noteq> CHR ''p'' then False
          else case split_char (CHR '','') (butlast s) of
                 [num] \<Rightarrow> all_digits num
               | [a, b] \<Rightarrow> all_digits a \<and> all_digits b
               | _ \<Rightarrow> False)"

definition GIT_READ_SUBCOMMANDS :: "string list" where
  "GIT_READ_SUBCOMMANDS = [''status'', ''log'', ''diff'', ''show'', ''branch'']"

definition safe_git :: "string list \<Rightarrow> bool" where
  "safe_git command =
     (if git_has_unsafe_global_option command then False
      else case find_git_subcommand command GIT_READ_SUBCOMMANDS of
             None \<Rightarrow> False
           | Some (subcommand_idx, subcommand) \<Rightarrow>
               let subcommand_args = drop (subcommand_idx + 1) command in
               if subcommand = ''branch''
               then git_subcommand_args_are_read_only subcommand_args
                    \<and> git_branch_is_read_only subcommand_args
               else git_subcommand_args_are_read_only subcommand_args)"

definition is_safe_to_call_with_exec :: "string list \<Rightarrow> bool" where
  "is_safe_to_call_with_exec command =
     (case command of
        [] \<Rightarrow> False
      | cmd0 # args \<Rightarrow>
          (case executable_name_lookup_key cmd0 of
             None \<Rightarrow> False
           | Some cmd \<Rightarrow>
               if cmd \<in> set LINUX_SAFE_COMMANDS then True
               else if cmd \<in> set SAFE_COMMANDS then True
               else if cmd = ''base64'' then
                 \<not> list_ex (\<lambda>arg. arg \<in> set UNSAFE_BASE64_OPTIONS \<or> prefix ''--output='' arg
                                  \<or> (prefix ''-o'' arg \<and> arg \<noteq> ''-o'')) args
               else if cmd = ''find'' then \<not> list_ex (\<lambda>arg. arg \<in> set UNSAFE_FIND_OPTIONS) command
               else if cmd = ''rg'' then \<not> list_ex unsafe_rg_option command
               else if cmd = ''git'' then safe_git command
               else if cmd = ''sed'' then
                 length command \<le> 4 \<and> args \<noteq> [] \<and> hd args = ''-n''
                 \<and> is_valid_sed_n_arg (case args of _ # x # _ \<Rightarrow> Some x | _ \<Rightarrow> None)
               else False))"

definition zsh_as_bash :: "string list \<Rightarrow> string list" where
  "zsh_as_bash command = map (\<lambda>s. if s = ''zsh'' then ''bash'' else s) command"

definition is_known_safe_command :: "safety_env \<Rightarrow> string list \<Rightarrow> bool" where
  "is_known_safe_command env command0 =
     (let command = zsh_as_bash command0 in
      is_safe_command_windows env command
      \<or> is_safe_to_call_with_exec command
      \<or> (case parse_shell_lc_plain_commands (env_bash env) command of
           Some all_commands \<Rightarrow> all_commands \<noteq> [] \<and> list_all is_safe_to_call_with_exec all_commands
         | None \<Rightarrow> False))"

section \<open>Lemmas\<close>

text \<open>The programs that some invocation of them is safe.\<close>

definition safe_programs :: "string list" where
  "safe_programs = LINUX_SAFE_COMMANDS @ SAFE_COMMANDS @ [''base64'', ''find'', ''rg'', ''git'', ''sed'']"

lemma safe_exec_program:
  assumes "is_safe_to_call_with_exec command"
  obtains cmd0 args n where "command = cmd0 # args" and "file_name (components cmd0) = Some n"
    and "n \<in> set safe_programs"
  using assms
  by (auto simp: is_safe_to_call_with_exec_def executable_name_lookup_key_def safe_programs_def
      split: list.splits option.splits if_splits)

text \<open>Names that are a path of their own, and are no shell, no \<open>rm\<close> and no \<open>sudo\<close>.\<close>

definition tool_name :: "string \<Rightarrow> bool" where
  "tool_name n =
     (stem_of n = n \<and> components n = [Normal n] \<and>
      n \<notin> set [''zsh'', ''sh'', ''cmd'', ''bash'', ''pwsh'', ''powershell'', ''rm'', ''sudo''])"

lemma safe_programs_tools: "list_all tool_name safe_programs"
  by code_simp

text \<open>A vector whose program is neither dangerous by its name nor a shell with a script.\<close>

definition inert :: "string \<Rightarrow> bool" where
  "inert cmd0 =
     (cmd0 \<noteq> ''rm'' \<and> cmd0 \<noteq> ''sudo'' \<and> detect_shell_type cmd0 \<in> {None, Some PowerShell})"

lemma inert_not_dangerous: "inert cmd0 \<Longrightarrow> \<not> command_might_be_dangerous parse (cmd0 # args)"
  by (auto simp: inert_def command_might_be_dangerous_def parse_shell_lc_plain_commands_def
      extract_bash_command_def split: list.splits)

lemma special_names:
  "file_name (components ''rm'') = Some ''rm''"
  "file_name (components ''sudo'') = Some ''sudo''"
  "file_name (components ''bash'') = Some ''bash''"
  by code_simp+

lemma safe_exec_inert:
  assumes "is_safe_to_call_with_exec (cmd0 # args)"
  shows "inert cmd0 \<and> cmd0 \<noteq> ''bash''"
proof -
  from assms obtain n where n: "file_name (components cmd0) = Some n" "n \<in> set safe_programs"
    by (auto elim: safe_exec_program)
  then have t: "tool_name n" using safe_programs_tools by (simp add: list_all_iff)
  then have "cmd0 \<noteq> ''rm'' \<and> cmd0 \<noteq> ''sudo'' \<and> cmd0 \<noteq> ''bash''"
    using n(1) special_names by (auto simp: tool_name_def)
  moreover have "detect_shell_type cmd0 = None"
    using t n(1) by (intro detect_shell_type_plain [of _ n]) (auto simp: tool_name_def)
  ultimately show ?thesis by (simp add: inert_def)
qed

lemma safe_exec_not_dangerous:
  "is_safe_to_call_with_exec command \<Longrightarrow> \<not> is_dangerous_to_call_with_exec command"
  by (cases command) (auto dest!: safe_exec_inert simp: inert_def)

lemma powershell_file_name:
  assumes "is_powershell_executable exe"
  obtains b where "file_name (components exe) = Some b" and "to_ascii_lowercase b \<in> set POWERSHELL_EXECUTABLES"
proof (cases "file_name (components exe)")
  case None
  then have l: "to_ascii_lowercase exe \<in> set POWERSHELL_EXECUTABLES"
    using assms by (simp add: is_powershell_executable_def)
  have "slash \<notin> set exe"
  proof
    assume "slash \<in> set exe"
    moreover have "ascii_lower slash = slash" by code_simp
    ultimately have "slash \<in> set (to_ascii_lowercase exe)" by (force simp: to_ascii_lowercase_def)
    with l show False by (auto simp: POWERSHELL_EXECUTABLES_def slash_def)
  qed
  then have "components exe = [Normal exe]"
    using l by (intro components_name)
      (auto simp: POWERSHELL_EXECUTABLES_def to_ascii_lowercase_def ascii_lower_def)
  with None show ?thesis by (simp add: file_name_def)
next
  case (Some b)
  with assms that show ?thesis by (simp add: is_powershell_executable_def)
qed

lemma powershell_stems: "list_all (\<lambda>n. stem_of n \<in> set [''powershell'', ''pwsh'']) POWERSHELL_EXECUTABLES"
  by code_simp

lemma powershell_inert:
  assumes "is_powershell_executable exe"
  shows "inert exe \<and> exe \<noteq> ''bash''"
proof -
  obtain b where b: "file_name (components exe) = Some b" "to_ascii_lowercase b \<in> set POWERSHELL_EXECUTABLES"
    using assms by (rule powershell_file_name)
  have names: "exe \<notin> set [''rm'', ''sudo'', ''bash'', ''zsh'', ''sh'', ''cmd'']"
  proof
    assume e: "exe \<in> set [''rm'', ''sudo'', ''bash'', ''zsh'', ''sh'', ''cmd'']"
    moreover have "list_all (\<lambda>e. file_name (components e) = Some e \<and>
        to_ascii_lowercase e \<notin> set POWERSHELL_EXECUTABLES) [''rm'', ''sudo'', ''bash'', ''zsh'', ''sh'', ''cmd'']"
      by code_simp
    ultimately show False using b unfolding list_all_iff by fastforce
  qed
  have stem: "file_stem exe = Some (stem_of b)" using b(1) by (simp add: file_stem_def)
  have "to_ascii_lowercase (stem_of b) \<in> set [''powershell'', ''pwsh'']"
    using powershell_stems b(2) unfolding list_all_iff stem_of_lowercase by blast
  then have "detect_shell_type (stem_of b) \<in> {None, Some PowerShell}"
    by (rule detect_lower_powershell)
  with names stem have "detect_shell_type exe \<in> {None, Some PowerShell}"
    by (simp add: detect_shell_type.simps [of exe])
  with names show ?thesis by (simp add: inert_def)
qed

lemma shells_not_special:
  "detect_shell_type ''rm'' = None" "detect_shell_type ''sudo'' = None"
proof -
  have "list_all (\<lambda>n. file_name (components n) = Some n \<and> stem_of n = n \<and> components n = [Normal n])
      [''rm'', ''sudo'']" by code_simp
  then show "detect_shell_type ''rm'' = None" "detect_shell_type ''sudo'' = None"
    by (auto intro!: detect_shell_type_plain)
qed

lemma zsh_script_harmless:
  assumes "parse_shell_lc_plain_commands parse [shell, flag, ''zsh''] = Some cmds" and "c \<in> set cmds"
  shows "\<not> is_dangerous_to_call_with_exec c"
proof (cases c)
  case (Cons w ws)
  then have "set w \<subseteq> set ''zsh''" using plain_commands_chars [OF assms] by simp
  then have "w \<noteq> ''rm''" "w \<noteq> ''sudo''" by auto
  with Cons show ?thesis by simp
qed simp

lemma script_not_dangerous:
  assumes "parse_shell_lc_plain_commands parse (zsh_as_bash command) = Some cs"
    and "list_all is_safe_to_call_with_exec cs"
  shows "\<not> command_might_be_dangerous parse command"
proof -
  from assms(1) obtain shell flag script
    where c: "command = [shell, flag, script]" and fl: "flag = ''-lc'' \<or> flag = ''-c''"
    and sh: "detect_shell_type (if shell = ''zsh'' then ''bash'' else shell) \<in> {Some Zsh, Some Bash, Some Sh}"
    by (auto simp: parse_shell_lc_plain_commands_def extract_bash_command_def zsh_as_bash_def
        bind_eq_Some_conv split: list.splits if_splits)
  have name: "shell \<noteq> ''rm''" "shell \<noteq> ''sudo''" using sh shells_not_special by auto
  have inner: "\<not> is_dangerous_to_call_with_exec d"
    if p: "parse_shell_lc_plain_commands parse command = Some ds" and d: "d \<in> set ds" for ds d
  proof (cases "script = ''zsh''")
    case True
    with p d c show ?thesis using zsh_script_harmless by simp
  next
    case False
    with p assms(1) c fl have "ds = cs"
      by (auto simp: parse_shell_lc_plain_commands_def extract_bash_command_def zsh_as_bash_def
          bind_eq_Some_conv split: if_splits)
    with assms(2) d show ?thesis by (auto simp: list_all_iff dest: safe_exec_not_dangerous)
  qed
  with name c show ?thesis
    by (auto simp: command_might_be_dangerous_def list_ex_iff split: option.splits)
qed

lemma known_safe_not_dangerous:
  assumes "is_known_safe_command env command"
  shows "\<not> command_might_be_dangerous (env_bash env) command"
proof (cases command)
  case Nil
  then show ?thesis
    by (simp add: command_might_be_dangerous_def parse_shell_lc_plain_commands_def extract_bash_command_def)
next
  case (Cons cmd0 args)
  define cmd0' where "cmd0' = (if cmd0 = ''zsh'' then ''bash'' else cmd0)"
  have c': "zsh_as_bash command = cmd0' # zsh_as_bash args"
    by (simp add: Cons cmd0'_def zsh_as_bash_def)
  have direct: ?thesis if "inert cmd0' \<and> cmd0' \<noteq> ''bash''"
    using that inert_not_dangerous [of cmd0] by (auto simp: Cons cmd0'_def split: if_splits)
  from assms consider "is_safe_command_windows env (zsh_as_bash command)"
    | "is_safe_to_call_with_exec (zsh_as_bash command)"
    | cs where "parse_shell_lc_plain_commands (env_bash env) (zsh_as_bash command) = Some cs"
        and "list_all is_safe_to_call_with_exec cs"
    by (auto simp: is_known_safe_command_def Let_def split: option.splits)
  then show ?thesis
  proof cases
    case 1
    then have "is_powershell_executable cmd0'"
      by (auto simp: c' is_safe_command_windows_def try_parse_powershell_command_sequence_def
          split: option.splits if_splits)
    then show ?thesis by (intro direct powershell_inert)
  next
    case 2
    then show ?thesis by (intro direct safe_exec_inert) (simp add: c')
  next
    case 3
    then show ?thesis by (rule script_not_dangerous)
  qed
qed

section \<open>Properties\<close>

text \<open>
  C24. The two classifications never contradict each other: a command that is run without asking,
  directly, as a PowerShell invocation or as a script of plain commands, is not one of the
  commands that must not run without asking.
\<close>

theorem safe_not_dangerous:
  assumes "is_known_safe_command env command"
  shows "\<not> command_might_be_dangerous (env_bash env) command"
  by (rule known_safe_not_dangerous [OF assms])

text \<open>An environment in which \<open>ls && pwd\<close> is the only script.\<close>

definition demo_safety :: safety_env where
  "demo_safety =
     \<lparr>env_bash = (\<lambda>s. if s = ''ls && pwd'' then Some demo_tree else None),
      env_powershell = (\<lambda>_ _. Failed)\<rparr>"

theorem safe_not_dangerous_witness:
  "is_known_safe_command demo_safety [''zsh'', ''-lc'', ''ls && pwd''] \<and>
   \<not> command_might_be_dangerous (env_bash demo_safety) [''zsh'', ''-lc'', ''ls && pwd'']"
proof -
  have "is_known_safe_command demo_safety [''zsh'', ''-lc'', ''ls && pwd'']" by code_simp
  with safe_not_dangerous show ?thesis by blast
qed

end
