(* ===== verification/Strict_Delegation.thy ===== *)
theory Strict_Delegation
  imports Delegate_Response Command_Safety
begin

text \<open>
  Strict delegation: \<open>core/src/strict_delegation.rs\<close>, the gates of \<open>core/src/session/mod.rs\<close>
  and \<open>core/src/tools/handlers/apply_patch.rs\<close> that use it, and the tool call of
  \<open>app-server-client/src/dynamic_tools.rs\<close> that feeds it. In this mode the agent may only
  apply patches that the delegation tool returned in the same turn.

  SHA-1, JSON, regular expressions, \<open>shlex\<close> and the Bash grammar come from the environment.
\<close>

section \<open>Data\<close>

datatype StrictDelegationAttemptStatus = AttCompleted | AttClarify | AttInfraError | AttInvalid

record StrictDelegationCandidate =
  cand_hash :: string
  cand_normalized_patch :: string

record StrictDelegationState =
  delegate_called :: bool
  last_status :: "StrictDelegationAttemptStatus option"
  candidates :: "StrictDelegationCandidate list"

definition StrictDelegationState_default :: StrictDelegationState where
  "StrictDelegationState_default = \<lparr>delegate_called = False, last_status = None, candidates = []\<rparr>"

datatype StrictDelegationViolationReason = NoCompletedCandidate | PatchMismatch

datatype StrictDelegationManualAction = ManualApplyPatch | ShellWrite

datatype StrictDelegationSkipReason =
  SupervisorSelectedManualPatch
| SupervisorSelfRestrictedBeforeToolCall
| StartupPluginSyncFailed
| AuthRefreshFailed
| ToolUnavailable
| SkillsRoutingIntercepted
| CandidateMissing
| CandidateInvalid

fun skip_reason_str :: "StrictDelegationSkipReason \<Rightarrow> string" where
  "skip_reason_str SupervisorSelectedManualPatch = ''supervisor_selected_manual_patch''"
| "skip_reason_str SupervisorSelfRestrictedBeforeToolCall = ''supervisor_self_restricted_before_tool_call''"
| "skip_reason_str StartupPluginSyncFailed = ''startup_plugin_sync_failed''"
| "skip_reason_str AuthRefreshFailed = ''auth_refresh_failed''"
| "skip_reason_str ToolUnavailable = ''tool_unavailable''"
| "skip_reason_str SkillsRoutingIntercepted = ''skills_routing_intercepted''"
| "skip_reason_str CandidateMissing = ''candidate_missing''"
| "skip_reason_str CandidateInvalid = ''candidate_invalid''"

record StrictDelegationTrace =
  tr_delegate_called :: bool
  tr_skip_reason :: StrictDelegationSkipReason

record StrictDelegationViolation =
  vi_reason :: StrictDelegationViolationReason
  vi_has_completed_candidate :: bool
  vi_candidate_count :: nat
  vi_trace :: StrictDelegationTrace

datatype StrictCommandDecision = AllowCommand | BlockCommand (block_reason: string) (command_kind: string)

datatype DynamicToolCallOutputContentItem = ToolText string | ToolImage string

record DynamicToolResponse =
  content_items :: "DynamicToolCallOutputContentItem list"
  dt_success :: bool

record strict_env =
  sd_sha1 :: "string \<Rightarrow> string"
  sd_from_str :: "string \<Rightarrow> MiniMaxDelegationResult option"
  sd_is_match :: "string \<Rightarrow> string \<Rightarrow> bool"
  sd_shlex_split :: "string \<Rightarrow> string list option"
  sd_bash :: bash_parser

definition DELEGATE_TO_MINIMAX_TOOL_NAME :: string where
  "DELEGATE_TO_MINIMAX_TOOL_NAME = ''delegate_to_minimax''"

definition STRICT_DELEGATION_MARKER :: string where
  "STRICT_DELEGATION_MARKER = re_text ''<strict_delegation mode=@required@ />''"

definition STRICT_DELEGATION_APPLY_PATCH_BLOCK_MESSAGE :: string where
  "STRICT_DELEGATION_APPLY_PATCH_BLOCK_MESSAGE =
     ''strict_delegation_violation: apply_patch is only allowed for validated delegate candidates returned by delegate_to_minimax.''"

definition STRICT_DELEGATION_SHELL_BLOCK_MESSAGE :: string where
  "STRICT_DELEGATION_SHELL_BLOCK_MESSAGE =
     ''blocked: strict delegation mode forbids manual file modifications via shell. Apply a completed patch candidate returned by delegate_to_minimax instead.''"

section \<open>The state of a turn\<close>

definition default_for_action :: "StrictDelegationManualAction \<Rightarrow> StrictDelegationTrace" where
  "default_for_action action =
     \<lparr>tr_delegate_called = False,
      tr_skip_reason = (case action of ManualApplyPatch \<Rightarrow> SupervisorSelectedManualPatch
                                     | ShellWrite \<Rightarrow> CandidateMissing)\<rparr>"

definition trace_for_completed_turn :: "StrictDelegationState \<Rightarrow> u64 \<Rightarrow> StrictDelegationTrace option" where
  "trace_for_completed_turn s tool_calls =
     (if delegate_called s \<or> tool_calls > 0 then None
      else Some \<lparr>tr_delegate_called = False, tr_skip_reason = SupervisorSelfRestrictedBeforeToolCall\<rparr>)"

definition trace_for_manual_action ::
    "StrictDelegationState \<Rightarrow> StrictDelegationManualAction \<Rightarrow> StrictDelegationTrace" where
  "trace_for_manual_action s action =
     \<lparr>tr_delegate_called = delegate_called s,
      tr_skip_reason =
        (if \<not> delegate_called s then
           (case action of ManualApplyPatch \<Rightarrow> SupervisorSelectedManualPatch | ShellWrite \<Rightarrow> CandidateMissing)
         else case last_status s of
                Some AttInvalid \<Rightarrow> CandidateInvalid
              | Some AttInfraError \<Rightarrow> CandidateInvalid
              | Some AttClarify \<Rightarrow> CandidateMissing
              | Some AttCompleted \<Rightarrow>
                  if candidates s = [] then CandidateMissing else SupervisorSelectedManualPatch
              | None \<Rightarrow> CandidateMissing)\<rparr>"

fun tool_item_text :: "DynamicToolCallOutputContentItem \<Rightarrow> string option" where
  "tool_item_text (ToolText t) = Some t"
| "tool_item_text (ToolImage _) = None"

definition first_text_output :: "DynamicToolResponse \<Rightarrow> string option" where
  "first_text_output response = find_map tool_item_text (content_items response)"

definition normalize_patch_candidate :: "string \<Rightarrow> string" where
  "normalize_patch_candidate patch =
     rev (dropWhile (\<lambda>c. c = CHR 0x0A \<or> c = CHR 0x0D) (rev (replace_crlf patch)))"

fun attempt_status :: "MiniMaxDelegationStatus \<Rightarrow> StrictDelegationAttemptStatus" where
  "attempt_status StCompleted = AttCompleted"
| "attempt_status StClarify = AttClarify"
| "attempt_status StInvalid = AttInvalid"

definition record_delegate_response ::
    "strict_env \<Rightarrow> string \<Rightarrow> DynamicToolResponse \<Rightarrow> StrictDelegationState \<Rightarrow> StrictDelegationState" where
  "record_delegate_response env tool response s =
     (if tool \<noteq> DELEGATE_TO_MINIMAX_TOOL_NAME then s
      else let s1 = s\<lparr>delegate_called := True\<rparr> in
      if \<not> dt_success response then s1\<lparr>last_status := Some AttInfraError\<rparr>
      else case first_text_output response of
        None \<Rightarrow> s1\<lparr>last_status := Some AttInvalid\<rparr>
      | Some t \<Rightarrow>
          (case sd_from_str env t of
             None \<Rightarrow> s1\<lparr>last_status := Some AttInvalid\<rparr>
           | Some result \<Rightarrow>
               let s2 = s1\<lparr>last_status := Some (attempt_status (dr_status result))\<rparr> in
               if dr_status result \<noteq> StCompleted \<or> dr_format result \<noteq> Some FmtApplyPatch then s2
               else case dr_patch result of
                 None \<Rightarrow> s2
               | Some patch \<Rightarrow>
                   let normalized_patch = normalize_patch_candidate patch;
                       hash = sd_sha1 env normalized_patch
                   in if list_ex (\<lambda>c. cand_hash c = hash) (candidates s2) then s2
                      else s2\<lparr>candidates := candidates s2
                              @ [\<lparr>cand_hash = hash, cand_normalized_patch = normalized_patch\<rparr>]\<rparr>))"

definition validate_apply_patch :: "StrictDelegationState \<Rightarrow> string \<Rightarrow> StrictDelegationViolation + unit" where
  "validate_apply_patch s patch =
     (if candidates s = [] then
        Err \<lparr>vi_reason = NoCompletedCandidate, vi_has_completed_candidate = False, vi_candidate_count = 0,
             vi_trace = trace_for_manual_action s ManualApplyPatch\<rparr>
      else if list_ex (\<lambda>c. cand_normalized_patch c = normalize_patch_candidate patch) (candidates s) then Ok ()
      else Err \<lparr>vi_reason = PatchMismatch, vi_has_completed_candidate = True,
                vi_candidate_count = length (candidates s),
                vi_trace = trace_for_manual_action s ManualApplyPatch\<rparr>)"

definition strict_delegation_enabled :: "string option \<Rightarrow> bool" where
  "strict_delegation_enabled developer_instructions =
     (case developer_instructions of
        Some instructions \<Rightarrow> str_contains instructions STRICT_DELEGATION_MARKER
      | None \<Rightarrow> False)"

section \<open>Shell commands\<close>

definition contains_write_redirection :: "string \<Rightarrow> bool" where
  "contains_write_redirection token =
     (let trimmed = trim_matches (\<lambda>c. c = dquote \<or> c = squote) token in
      list_ex (\<lambda>p. trimmed = p \<or>
                 (case strip_prefix p trimmed of
                    Some rest \<Rightarrow> rest \<noteq> [] \<and> \<not> prefix ''&'' rest
                  | None \<Rightarrow> False))
        [''&>'', ''1>>'', ''2>>'', ''>>'', ''>|'', ''1>'', ''2>'', ''>''])"

definition executable_basename :: "string \<Rightarrow> string option" where
  "executable_basename raw = map_option to_ascii_lowercase (file_name (components raw))"

definition dd_writes_output_file :: "string list \<Rightarrow> bool" where
  "dd_writes_output_file command = list_ex (\<lambda>arg. arg = ''of'' \<or> prefix ''of='' arg) (tl command)"

definition sed_edits_in_place :: "string list \<Rightarrow> bool" where
  "sed_edits_in_place command =
     list_ex (\<lambda>arg. arg = ''-i'' \<or> prefix ''-i'' arg \<or> arg = ''--in-place'' \<or> prefix ''--in-place='' arg) (tl command)"

definition script_edits_in_place :: "string list \<Rightarrow> bool" where
  "script_edits_in_place command =
     list_ex (\<lambda>arg. prefix ''-'' arg \<and> \<not> prefix ''--'' arg \<and> CHR ''i'' \<in> set (drop 1 arg)) (tl command)"

definition is_python_command :: "string \<Rightarrow> bool" where
  "is_python_command command = (command = ''python'' \<or> prefix ''python'' command)"

definition PYTHON_OPEN_WRITE :: string where
  "PYTHON_OPEN_WRITE = re_text ''open~s*~([^)]*,~s*[#@][wax][^#@]*[#@]''"

definition python_writes_file :: "strict_env \<Rightarrow> string \<Rightarrow> bool" where
  "python_writes_file env script =
     (let lower = to_ascii_lowercase script in
      sd_is_match env PYTHON_OPEN_WRITE lower \<or> str_contains lower ''.write_text('' \<or> str_contains lower ''.write_bytes('')"

definition is_node_command :: "string \<Rightarrow> bool" where
  "is_node_command command = (command = ''node'' \<or> command = ''nodejs'')"

definition node_writes_file :: "string \<Rightarrow> bool" where
  "node_writes_file script =
     (let lower = to_ascii_lowercase script in
      str_contains lower ''writefilesync('' \<or> str_contains lower ''appendfilesync('')"

definition git_global_option_with_value :: "string \<Rightarrow> bool" where
  "git_global_option_with_value arg =
     (arg \<in> {''-C'', ''-c'', ''--config-env'', ''--exec-path'', ''--git-dir'', ''--namespace'',
              ''--super-prefix'', ''--work-tree''})"

definition git_global_option_with_inline_value :: "string \<Rightarrow> bool" where
  "git_global_option_with_inline_value arg =
     (prefix ''--config-env='' arg \<or> prefix ''--exec-path='' arg \<or> prefix ''--git-dir='' arg
      \<or> prefix ''--namespace='' arg \<or> prefix ''--super-prefix='' arg \<or> prefix ''--work-tree='' arg
      \<or> (prefix ''-C'' arg \<or> prefix ''-c'' arg) \<and> 2 < length arg)"

fun git_positionals :: "bool \<Rightarrow> nat \<Rightarrow> string list \<Rightarrow> (nat \<times> string) option" where
  "git_positionals skip_next index [] = None"
| "git_positionals skip_next index (arg # args) =
     (if skip_next then git_positionals False (Suc index) args
      else if git_global_option_with_inline_value arg then git_positionals False (Suc index) args
      else if git_global_option_with_value arg then git_positionals True (Suc index) args
      else if arg = ''--'' \<or> prefix ''-'' arg then git_positionals False (Suc index) args
      else Some (index, arg))"

definition first_git_subcommand :: "string list \<Rightarrow> (nat \<times> string) option" where
  "first_git_subcommand command =
     (case command of
        [] \<Rightarrow> None
      | cmd0 # args \<Rightarrow>
          if executable_basename cmd0 \<noteq> Some ''git'' then None else git_positionals False 1 args)"

definition next_git_positional :: "string list \<Rightarrow> nat \<Rightarrow> string option" where
  "next_git_positional command start = List.find (\<lambda>arg. arg \<noteq> ''--'' \<and> \<not> prefix ''-'' arg) (drop start command)"

definition GIT_MUTATING :: "string list" where
  "GIT_MUTATING = [''checkout'', ''restore'', ''reset'', ''clean'', ''apply'', ''am'', ''merge'', ''rebase'', ''cherry-pick'']"

definition git_mutates_worktree :: "string list \<Rightarrow> bool" where
  "git_mutates_worktree command =
     (case first_git_subcommand command of
        None \<Rightarrow> False
      | Some (index, subcommand) \<Rightarrow>
          if subcommand \<in> set GIT_MUTATING then True
          else if subcommand = ''stash'' then
            (case next_git_positional command (index + 1) of
               Some arg \<Rightarrow> arg = ''apply'' \<or> arg = ''pop''
             | None \<Rightarrow> False)
          else False)"

definition FILE_WRITE_UTILITIES :: "string list" where
  "FILE_WRITE_UTILITIES = [''touch'', ''truncate'', ''install'']"

definition FILE_OPERATIONS :: "string list" where
  "FILE_OPERATIONS = [''rm'', ''mv'', ''cp'', ''mkdir'', ''rmdir'', ''ln'', ''chmod'', ''chown'']"

definition detect_mutating_shell_command :: "strict_env \<Rightarrow> string list \<Rightarrow> string option" where
  "detect_mutating_shell_command env command =
     (case command of
        [] \<Rightarrow> None
      | first # args \<Rightarrow>
          if list_ex contains_write_redirection command then Some ''write_redirection''
          else case executable_basename first of
            None \<Rightarrow> None
          | Some cmd0 \<Rightarrow>
              if cmd0 = ''apply_patch'' then Some ''apply_patch_via_shell''
              else if cmd0 \<in> set FILE_WRITE_UTILITIES then Some ''file_write_utility''
              else if cmd0 \<in> set FILE_OPERATIONS then Some ''file_operation''
              else if cmd0 = ''tee'' then Some ''file_write_utility''
              else if cmd0 = ''dd'' \<and> dd_writes_output_file command then Some ''file_write_utility''
              else if cmd0 = ''sed'' \<and> sed_edits_in_place command then Some ''in_place_edit''
              else if (cmd0 = ''perl'' \<or> cmd0 = ''ruby'') \<and> script_edits_in_place command then Some ''in_place_edit''
              else if is_python_command cmd0 \<and> list_ex (python_writes_file env) args then Some ''script_write''
              else if is_node_command cmd0 \<and> list_ex node_writes_file args then Some ''script_write''
              else if cmd0 = ''git'' \<and> git_mutates_worktree command then Some ''git_worktree_mutation''
              else None)"

text \<open>The loop over the commands of a script: the first decision that is not to allow.\<close>

fun first_block :: "StrictCommandDecision list \<Rightarrow> StrictCommandDecision" where
  "first_block [] = AllowCommand"
| "first_block (d # ds) = (if d \<noteq> AllowCommand then d else first_block ds)"

text \<open>\<open>n\<close> is the number of wrappers that may still be opened.\<close>

fun check_shell_command_allowed_with_depth :: "strict_env \<Rightarrow> nat \<Rightarrow> string list \<Rightarrow> StrictCommandDecision" where
  "check_shell_command_allowed_with_depth env n command =
     (case detect_mutating_shell_command env command of
        Some kind \<Rightarrow> BlockCommand STRICT_DELEGATION_SHELL_BLOCK_MESSAGE kind
      | None \<Rightarrow>
          (case n of
             0 \<Rightarrow> AllowCommand
           | Suc m \<Rightarrow>
               let plain = (case parse_shell_lc_plain_commands (sd_bash env) command of
                              Some inner \<Rightarrow> first_block (map (check_shell_command_allowed_with_depth env m) inner)
                            | None \<Rightarrow> AllowCommand)
               in if plain \<noteq> AllowCommand then plain
               else let single = (case parse_shell_lc_single_command_prefix (sd_bash env) command of
                                    Some inner \<Rightarrow> check_shell_command_allowed_with_depth env m inner
                                  | None \<Rightarrow> AllowCommand)
               in if single \<noteq> AllowCommand then single
               else case extract_shell_command command of
                      Some (_, script) \<Rightarrow>
                        (case tokenize_shell_script (sd_shlex_split env) script of
                           Some tokens \<Rightarrow> check_shell_command_allowed_with_depth env m tokens
                         | None \<Rightarrow> AllowCommand)
                    | None \<Rightarrow> AllowCommand))"

declare check_shell_command_allowed_with_depth.simps [simp del]

definition check_shell_command_allowed_in_strict_delegation :: "strict_env \<Rightarrow> string list \<Rightarrow> StrictCommandDecision" where
  "check_shell_command_allowed_in_strict_delegation env command =
     check_shell_command_allowed_with_depth env MAX_SHELL_WRAPPER_DEPTH command"

definition check_shell_text_allowed_in_strict_delegation :: "strict_env \<Rightarrow> string \<Rightarrow> StrictCommandDecision" where
  "check_shell_text_allowed_in_strict_delegation env command =
     (case tokenize_shell_script (sd_shlex_split env) command of
        Some tokens \<Rightarrow> check_shell_command_allowed_in_strict_delegation env tokens
      | None \<Rightarrow> AllowCommand)"

section \<open>The gates of a session\<close>

text \<open>
  \<open>active\<close> is the state of the active turn, when there is one. A refusal is the text for the
  model; the second component of a result are the traces that are recorded on the way.
\<close>

definition record_strict_delegation_response_for_turn ::
    "strict_env \<Rightarrow> string option \<Rightarrow> string \<Rightarrow> DynamicToolResponse \<Rightarrow> StrictDelegationState option
       \<Rightarrow> StrictDelegationState option" where
  "record_strict_delegation_response_for_turn env instructions tool response active =
     (if \<not> strict_delegation_enabled instructions then active
      else map_option (record_delegate_response env tool response) active)"

definition strict_delegation_violation_for_patch ::
    "string option \<Rightarrow> StrictDelegationState option \<Rightarrow> string \<Rightarrow> StrictDelegationViolation option" where
  "strict_delegation_violation_for_patch instructions active patch =
     (if \<not> strict_delegation_enabled instructions then None
      else case active of
        None \<Rightarrow> Some \<lparr>vi_reason = NoCompletedCandidate, vi_has_completed_candidate = False,
                      vi_candidate_count = 0, vi_trace = default_for_action ManualApplyPatch\<rparr>
      | Some s \<Rightarrow> (case validate_apply_patch s patch of Inl violation \<Rightarrow> Some violation | Inr _ \<Rightarrow> None))"

definition strict_delegation_trace_for_turn ::
    "string option \<Rightarrow> StrictDelegationState option \<Rightarrow> StrictDelegationManualAction \<Rightarrow> StrictDelegationTrace option" where
  "strict_delegation_trace_for_turn instructions active action =
     (if \<not> strict_delegation_enabled instructions then None
      else case active of
        None \<Rightarrow> Some (default_for_action action)
      | Some s \<Rightarrow> Some (trace_for_manual_action s action))"

definition enforce_strict_delegation_patch ::
    "string option \<Rightarrow> StrictDelegationState option \<Rightarrow> string \<Rightarrow> (string + unit) \<times> StrictDelegationTrace list" where
  "enforce_strict_delegation_patch instructions active patch =
     (case strict_delegation_violation_for_patch instructions active patch of
        Some violation \<Rightarrow> (Err STRICT_DELEGATION_APPLY_PATCH_BLOCK_MESSAGE, [vi_trace violation])
      | None \<Rightarrow> (Ok (), []))"

text \<open>The check of \<open>run_exec_like\<close> before a command is run, and that of \<open>write_stdin\<close>.\<close>

definition refuse_decision ::
    "string option \<Rightarrow> StrictDelegationState option \<Rightarrow> StrictCommandDecision \<Rightarrow> (string + unit) \<times> StrictDelegationTrace list" where
  "refuse_decision instructions active decision =
     (case decision of
        AllowCommand \<Rightarrow> (Ok (), [])
      | BlockCommand reason _ \<Rightarrow>
          (Err reason, case strict_delegation_trace_for_turn instructions active ShellWrite of
                         Some trace \<Rightarrow> [trace] | None \<Rightarrow> []))"

definition shell_command_gate ::
    "strict_env \<Rightarrow> string option \<Rightarrow> StrictDelegationState option \<Rightarrow> string list \<Rightarrow> (string + unit) \<times> StrictDelegationTrace list" where
  "shell_command_gate env instructions active command =
     (if strict_delegation_enabled instructions
      then refuse_decision instructions active (check_shell_command_allowed_in_strict_delegation env command)
      else (Ok (), []))"

definition write_stdin_gate ::
    "strict_env \<Rightarrow> scrub_env \<Rightarrow> string option \<Rightarrow> StrictDelegationState option \<Rightarrow> string
       \<Rightarrow> (string + unit) \<times> StrictDelegationTrace list" where
  "write_stdin_gate env scrub instructions active chars =
     (let (r, traces) =
        (if strict_delegation_enabled instructions
         then refuse_decision instructions active (check_shell_text_allowed_in_strict_delegation env chars)
         else (Ok (), []))
      in (rbind r (\<lambda>_. case sensitive_command_block_from_text scrub chars of
                         Some blocked \<Rightarrow> Err (block_message blocked)
                       | None \<Rightarrow> Ok ()), traces))"

section \<open>The handlers of apply\_patch\<close>

text \<open>
  Up to the action that is handed to \<open>apply_patch::apply_patch\<close>; \<open>None\<close> is a panic. First the
  matches on the verdict of the verification.
\<close>

fun handler_verdict :: "MaybeApplyPatchVerified \<Rightarrow> string + ApplyPatchAction" where
  "handler_verdict (VBody action) = Ok action"
| "handler_verdict (CorrectnessError e) = Err (''apply_patch verification failed: '' @ apply_error_to_string e)"
| "handler_verdict (VShellParseError _) = Err ''apply_patch handler received invalid patch input''"
| "handler_verdict VNotApplyPatch = Err ''apply_patch handler received non-apply_patch input''"

fun intercept_verdict :: "MaybeApplyPatchVerified \<Rightarrow> string + ApplyPatchAction option" where
  "intercept_verdict (VBody action) = Ok (Some action)"
| "intercept_verdict (CorrectnessError e) = Err (''apply_patch verification failed: '' @ apply_error_to_string e)"
| "intercept_verdict (VShellParseError _) = Ok None"
| "intercept_verdict VNotApplyPatch = Ok None"

definition handle_apply_patch ::
    "inv_env \<Rightarrow> 'f patch_fs \<Rightarrow> string option \<Rightarrow> StrictDelegationState option \<Rightarrow> string \<Rightarrow> path \<Rightarrow> 'f
       \<Rightarrow> ((string + ApplyPatchAction) \<times> StrictDelegationTrace list \<times> 'f) option" where
  "handle_apply_patch ienv fs instructions active patch cwd f =
     (case enforce_strict_delegation_patch instructions active patch of
        (Inl m, traces) \<Rightarrow> Some (Err m, traces, f)
      | (Inr _, traces) \<Rightarrow>
          map_option (\<lambda>(verified, f1). (handler_verdict verified, traces, f1))
            (maybe_parse_apply_patch_verified ienv fs [''apply_patch'', patch] cwd f))"

definition intercept_apply_patch ::
    "inv_env \<Rightarrow> 'f patch_fs \<Rightarrow> string option \<Rightarrow> StrictDelegationState option \<Rightarrow> string list \<Rightarrow> path \<Rightarrow> 'f
       \<Rightarrow> ((string + ApplyPatchAction option) \<times> StrictDelegationTrace list \<times> 'f) option" where
  "intercept_apply_patch ienv fs instructions active command cwd f =
     (let (r, traces) =
        (case command of
           tool # patch # _ \<Rightarrow>
             if tool = ''apply_patch'' then enforce_strict_delegation_patch instructions active patch else (Ok (), [])
         | _ \<Rightarrow> (Ok (), []))
      in case r of
           Inl m \<Rightarrow> Some (Err m, traces, f)
         | Inr _ \<Rightarrow>
             map_option (\<lambda>(verified, f1). (intercept_verdict verified, traces, f1))
               (maybe_parse_apply_patch_verified ienv fs command cwd f))"

section \<open>dynamic\_tools.rs\<close>

text \<open>
  JSON in and out, and the text of an error of the delegation. \<open>to_fallback\<close> is the text of the
  JSON object that stands in for a response that cannot be serialised.
\<close>

record 'e tool_env =
  to_from_value :: "json \<Rightarrow> string + DelegateToMinimaxRequest"
  to_string :: "MiniMaxDelegationResult \<Rightarrow> string + string"
  to_fallback :: "string \<Rightarrow> string"
  to_err_str :: "'e \<Rightarrow> string"

definition dynamic_tool_failure_response :: "string \<Rightarrow> DynamicToolResponse" where
  "dynamic_tool_failure_response message = \<lparr>content_items = [ToolText message], dt_success = False\<rparr>"

definition dynamic_tool_content_items ::
    "'e tool_env \<Rightarrow> MiniMaxDelegationResult \<Rightarrow> DynamicToolCallOutputContentItem list" where
  "dynamic_tool_content_items env response =
     [ToolText (case to_string env response of
                  Inr t \<Rightarrow> t
                | Inl err \<Rightarrow> to_fallback env (''failed to serialize delegate_to_minimax response: '' @ err))]"

definition delegate_dynamic_tool_response :: "'e tool_env \<Rightarrow> MiniMaxDelegationResult \<Rightarrow> DynamicToolResponse" where
  "delegate_dynamic_tool_response env response =
     \<lparr>content_items = dynamic_tool_content_items env response, dt_success = True\<rparr>"

fun answer_of_delegation :: "'e tool_env \<Rightarrow> 'e + MiniMaxDelegationResult \<Rightarrow> DynamicToolResponse" where
  "answer_of_delegation env (Inr response) = delegate_dynamic_tool_response env response"
| "answer_of_delegation env (Inl err) =
     dynamic_tool_failure_response (''MiniMax delegation failed: '' @ to_err_str env err)"

definition execute_dynamic_tool_call ::
    "'e tool_env \<Rightarrow> deleg_env \<Rightarrow> 'f patch_fs \<Rightarrow> (string \<Rightarrow> 'e + ('e + BridgeEvent) list)
       \<Rightarrow> string \<Rightarrow> string \<Rightarrow> json \<Rightarrow> string option \<Rightarrow> 'f \<Rightarrow> (DynamicToolResponse \<times> 'f) option" where
  "execute_dynamic_tool_call env deleg fs stream thread_id tool arguments cwd f =
     (if tool \<noteq> DELEGATE_TO_MINIMAX_TOOL_NAME
      then Some (dynamic_tool_failure_response (''Unsupported dynamic tool `'' @ tool @ ''`.''), f)
      else case to_from_value env arguments of
        Inl err \<Rightarrow>
          Some (dynamic_tool_failure_response (''delegate_to_minimax received invalid arguments: '' @ err), f)
      | Inr request \<Rightarrow>
          (case cwd of
             None \<Rightarrow>
               Some (dynamic_tool_failure_response
                 (''delegate_to_minimax could not resolve a working directory for thread '' @ thread_id), f)
           | Some dir \<Rightarrow>
               map_option (\<lambda>(r, f1). (answer_of_delegation env r, f1))
                 (delegate_to_minimax deleg fs stream request dir f)))"

section \<open>Turns\<close>

text \<open>What happens in a turn: a dynamic tool answers, a patch is let through or refused.\<close>

datatype turn_event = Answered string DynamicToolResponse | PatchAccepted string | PatchRefused string

inductive turn_step :: "strict_env \<Rightarrow> string option \<Rightarrow> StrictDelegationState option \<Rightarrow> turn_event \<Rightarrow> StrictDelegationState option \<Rightarrow> bool"
  for env instructions where
  answered: "turn_step env instructions s (Answered tool response)
               (record_strict_delegation_response_for_turn env instructions tool response s)"
| accepted: "fst (enforce_strict_delegation_patch instructions s patch) = Ok () \<Longrightarrow>
             turn_step env instructions s (PatchAccepted patch) s"
| refused: "fst (enforce_strict_delegation_patch instructions s patch) = Err m \<Longrightarrow>
            turn_step env instructions s (PatchRefused patch) s"

inductive turn_run :: "strict_env \<Rightarrow> string option \<Rightarrow> turn_event list \<Rightarrow> StrictDelegationState option \<Rightarrow> bool"
  for env instructions where
  start: "turn_run env instructions [] (Some StrictDelegationState_default)"
| step: "turn_run env instructions es s \<Longrightarrow> turn_step env instructions s e s' \<Longrightarrow>
         turn_run env instructions (es @ [e]) s'"

inductive_cases turn_stepE: "turn_step env instructions s e s'"

section \<open>Lemmas\<close>

subsection \<open>Candidates\<close>

text \<open>The patch that an answer of a tool offers, and those offered by a sequence of events.\<close>

definition offered_patch :: "strict_env \<Rightarrow> string \<Rightarrow> DynamicToolResponse \<Rightarrow> string option" where
  "offered_patch env tool response =
     (if tool \<noteq> DELEGATE_TO_MINIMAX_TOOL_NAME \<or> \<not> dt_success response then None
      else Option.bind (first_text_output response)
        (\<lambda>t. Option.bind (sd_from_str env t)
          (\<lambda>result. if dr_status result = StCompleted \<and> dr_format result = Some FmtApplyPatch
                    then dr_patch result else None)))"

definition offered :: "strict_env \<Rightarrow> turn_event list \<Rightarrow> string set" where
  "offered env es = {q. \<exists>tool response. Answered tool response \<in> set es \<and> offered_patch env tool response = Some q}"

lemma offered_snoc:
  "offered env (es @ [Answered tool response]) = offered env es \<union> set_option (offered_patch env tool response)"
  "offered env (es @ [PatchAccepted p]) = offered env es" "offered env (es @ [PatchRefused p]) = offered env es"
  "offered env [] = {}"
  by (auto simp: offered_def)

definition add_candidate :: "strict_env \<Rightarrow> string \<Rightarrow> StrictDelegationCandidate list \<Rightarrow> StrictDelegationCandidate list" where
  "add_candidate env n cs =
     (if list_ex (\<lambda>c. cand_hash c = sd_sha1 env n) cs then cs
      else cs @ [\<lparr>cand_hash = sd_sha1 env n, cand_normalized_patch = n\<rparr>])"

lemma candidates_record:
  "candidates (record_delegate_response env tool response s) =
     (case offered_patch env tool response of
        None \<Rightarrow> candidates s
      | Some q \<Rightarrow> add_candidate env (normalize_patch_candidate q) (candidates s))"
  by (auto simp: record_delegate_response_def offered_patch_def add_candidate_def Let_def split: option.splits)

text \<open>
  The candidates carry the hash of their patch, come from offers, and no offer is without a
  candidate of its hash.
\<close>

definition candidates_inv :: "strict_env \<Rightarrow> string set \<Rightarrow> StrictDelegationCandidate list \<Rightarrow> bool" where
  "candidates_inv env qs cs =
     ((\<forall>c \<in> set cs. cand_hash c = sd_sha1 env (cand_normalized_patch c)) \<and>
      cand_normalized_patch ` set cs \<subseteq> normalize_patch_candidate ` qs \<and>
      sd_sha1 env ` normalize_patch_candidate ` qs = cand_hash ` set cs \<and> distinct (map cand_hash cs))"

lemma add_candidate_inv:
  assumes "candidates_inv env qs cs"
  shows "candidates_inv env (insert q qs) (add_candidate env (normalize_patch_candidate q) cs)"
  using assms unfolding candidates_inv_def add_candidate_def list_ex_iff by (auto intro: rev_image_eqI)

lemma turn_run_inv:
  assumes "turn_run env instructions es s" "strict_delegation_enabled instructions"
  shows "\<exists>st. s = Some st \<and> candidates_inv env (offered env es) (candidates st)"
  using assms(1)
proof (induction rule: turn_run.induct)
  case start
  show ?case by (simp add: StrictDelegationState_default_def candidates_inv_def offered_snoc)
next
  case (step es s e s')
  then obtain st where st: "s = Some st" "candidates_inv env (offered env es) (candidates st)" by auto
  from step.hyps(2) show ?case
  proof (cases rule: turn_step.cases)
    case (answered tool response)
    have "candidates_inv env (offered env (es @ [e])) (candidates (record_delegate_response env tool response st))"
      using st(2) add_candidate_inv [OF st(2)]
      by (auto simp: answered offered_snoc candidates_record split: option.split)
    with answered st assms(2) show ?thesis
      by (simp add: record_strict_delegation_response_for_turn_def)
  qed (use st in \<open>simp_all add: offered_snoc\<close>)
qed

lemma validate_apply_patch_Ok:
  "validate_apply_patch s patch = Ok () \<longleftrightarrow>
     normalize_patch_candidate patch \<in> cand_normalized_patch ` set (candidates s)"
  by (auto simp: validate_apply_patch_def list_ex_iff intro: rev_image_eqI)

lemma enforce_Ok:
  assumes "strict_delegation_enabled instructions"
  shows "fst (enforce_strict_delegation_patch instructions (Some s) patch) = Ok () \<longleftrightarrow>
     normalize_patch_candidate patch \<in> cand_normalized_patch ` set (candidates s)"
  using assms validate_apply_patch_Ok [of s patch]
  by (auto simp: enforce_strict_delegation_patch_def strict_delegation_violation_for_patch_def split: sum.split)

subsection \<open>Shell commands\<close>

lemma git_scan_agrees: "git_positionals skip idx args = git_scan skip idx args"
proof (induction skip idx args rule: git_positionals.induct)
  case (2 skip idx arg args)
  have "git_global_option_with_value arg = is_git_global_option_with_value arg"
    "git_global_option_with_inline_value arg = is_git_global_option_with_inline_value arg"
    by (auto simp: git_global_option_with_value_def is_git_global_option_with_value_def GIT_VALUE_OPTIONS_def
        git_global_option_with_inline_value_def is_git_global_option_with_inline_value_def)
  with 2 show ?case by auto
qed simp

text \<open>The commands that one level of wrapping hides.\<close>

definition strict_inner_commands :: "strict_env \<Rightarrow> string list \<Rightarrow> string list list" where
  "strict_inner_commands env command =
     (case parse_shell_lc_plain_commands (sd_bash env) command of Some cs \<Rightarrow> cs | None \<Rightarrow> [])
     @ (case parse_shell_lc_single_command_prefix (sd_bash env) command of Some c \<Rightarrow> [c] | None \<Rightarrow> [])
     @ (case extract_shell_command command of
          Some (_, script) \<Rightarrow>
            (case tokenize_shell_script (sd_shlex_split env) script of Some ts \<Rightarrow> [ts] | None \<Rightarrow> [])
        | None \<Rightarrow> [])"

fun decision_kind :: "StrictCommandDecision \<Rightarrow> string option" where
  "decision_kind AllowCommand = None"
| "decision_kind (BlockCommand _ kind) = Some kind"

lemma decision_kind_None: "decision_kind d = None \<longleftrightarrow> d = AllowCommand"
  by (cases d) auto

lemma decision_kind_first_block: "decision_kind (first_block (map f cs)) = find_map (\<lambda>c. decision_kind (f c)) cs"
proof (induction cs)
  case (Cons c cs)
  then show ?case by (cases "f c") auto
qed simp

lemma decision_kind_or:
  "decision_kind (if d \<noteq> AllowCommand then d else e) =
     (case decision_kind d of Some k \<Rightarrow> Some k | None \<Rightarrow> decision_kind e)"
  by (cases d) auto

interpretation strict_scan: bounded_scan "strict_inner_commands env" "detect_mutating_shell_command env"
  "\<lambda>n c. decision_kind (check_shell_command_allowed_with_depth env n c)" for env
proof
  show "decision_kind (check_shell_command_allowed_with_depth env 0 c) = detect_mutating_shell_command env c" for c
    by (subst check_shell_command_allowed_with_depth.simps) (simp split: option.split)
  show "decision_kind (check_shell_command_allowed_with_depth env (Suc n) c) =
      (case detect_mutating_shell_command env c of
         Some r \<Rightarrow> Some r
       | None \<Rightarrow> find_map (\<lambda>c. decision_kind (check_shell_command_allowed_with_depth env n c)) (strict_inner_commands env c))"
    for n c
    by (subst check_shell_command_allowed_with_depth.simps)
      (simp add: strict_inner_commands_def Let_def decision_kind_or decision_kind_first_block find_map_append
        del: not_None_eq split: option.split prod.split)
qed

subsection \<open>Equal candidates are equal patches\<close>

lemma normalize_patch_candidate_split:
  "\<exists>v. replace_crlf patch = normalize_patch_candidate patch @ v \<and> set v \<subseteq> {cr, lf}"
proof -
  let ?stop = "\<lambda>c. c = CHR 0x0A \<or> c = CHR 0x0D"
  let ?r = "rev (replace_crlf patch)"
  have "replace_crlf patch = rev (dropWhile ?stop ?r) @ rev (takeWhile ?stop ?r)"
    by (metis rev_append rev_rev_ident takeWhile_dropWhile_id)
  moreover have "set (rev (takeWhile ?stop ?r)) \<subseteq> {cr, lf}"
    by (auto simp: cr_def lf_def dest: set_takeWhileD)
  ultimately show ?thesis unfolding normalize_patch_candidate_def by blast
qed

lemma str_lines_trim_candidate: "str_lines (trim patch) = line_pieces (trim (normalize_patch_candidate patch))"
  using normalize_patch_candidate_split [of patch]
  by (metis str_lines_replace_crlf trim_line_ends trim_replace_crlf)

lemma parse_patch_candidate:
  assumes "normalize_patch_candidate p = normalize_patch_candidate q" shows "parse_patch p = parse_patch q"
  using assms by (simp add: parse_patch_def parse_patch_text_def str_lines_trim_candidate)

text \<open>
  What is relied on of JSON: a response that is written is read back as it was, and the text
  that stands in for one that cannot be written is read, if at all, as an invalid result.
\<close>

definition json_ok :: "'e tool_env \<Rightarrow> strict_env \<Rightarrow> bool" where
  "json_ok tools env =
     ((\<forall>r t. to_string tools r = Ok t \<longrightarrow> sd_from_str env t = Some r) \<and>
      (\<forall>m r. sd_from_str env (to_fallback tools m) = Some r \<longrightarrow> dr_status r = StInvalid))"

text \<open>The answers of the delegation tool among the events come from its execution.\<close>

definition answers_executed :: "'e tool_env \<Rightarrow> deleg_env \<Rightarrow> 'f patch_fs \<Rightarrow> turn_event list \<Rightarrow> bool" where
  "answers_executed tools deleg fs es =
     (\<forall>tool response. Answered tool response \<in> set es \<longrightarrow>
        (\<exists>stream thread_id arguments dir f f'.
           execute_dynamic_tool_call tools deleg fs stream thread_id tool arguments dir f = Some (response, f')))"

lemma offered_from_tool:
  assumes json: "json_ok tools env"
    and call: "execute_dynamic_tool_call tools deleg fs stream thread_id tool arguments dir f = Some (response, f')"
    and offer: "offered_patch env tool response = Some q"
  shows "\<exists>request cwd result. dir = Some cwd \<and>
    delegate_to_minimax deleg fs stream request cwd f = Some (Ok result, f') \<and>
    dr_status result = StCompleted \<and> dr_format result = Some FmtApplyPatch \<and> dr_patch result = Some q"
proof -
  have tool: "tool = DELEGATE_TO_MINIMAX_TOOL_NAME" and success: "dt_success response"
    using offer by (auto simp: offered_patch_def split: if_splits)
  obtain request cwd r where d: "dir = Some cwd" "delegate_to_minimax deleg fs stream request cwd f = Some (r, f')"
    and r: "response = answer_of_delegation tools r"
  proof (cases "to_from_value tools arguments")
    case (Inr request)
    with call tool success that show ?thesis
      by (cases dir) (auto simp: execute_dynamic_tool_call_def dynamic_tool_failure_response_def)
  qed (use call tool success in \<open>auto simp: execute_dynamic_tool_call_def dynamic_tool_failure_response_def\<close>)
  then obtain result where result: "r = Ok result" "response = delegate_dynamic_tool_response tools result"
    using success by (cases r) (auto simp: dynamic_tool_failure_response_def)
  obtain t where t: "to_string tools result = Ok t"
  proof (cases "to_string tools result")
    case (Inl err)
    then show ?thesis using offer result tool json unfolding json_ok_def
      by (auto simp: offered_patch_def delegate_dynamic_tool_response_def dynamic_tool_content_items_def
          first_text_output_def bind_eq_Some_conv split: if_splits)
  qed (use that in blast)
  then have "first_text_output response = Some t"
    using result(2) by (simp add: delegate_dynamic_tool_response_def dynamic_tool_content_items_def first_text_output_def)
  with offer json t have "dr_status result = StCompleted" "dr_format result = Some FmtApplyPatch" "dr_patch result = Some q"
    by (auto simp: offered_patch_def json_ok_def split: if_splits)
  with d result show ?thesis by blast
qed

lemma handler_verdict_Ok [simp]: "handler_verdict v = Ok action \<longleftrightarrow> v = VBody action"
  by (cases v) auto

lemma handle_apply_patch_Ok:
  assumes "handle_apply_patch ienv fs instructions active patch cwd f = Some (Ok action, traces, f')"
  shows "fst (enforce_strict_delegation_patch instructions active patch) = Ok ()"
    and "maybe_parse_apply_patch_verified ienv fs [''apply_patch'', patch] cwd f = Some (VBody action, f')"
  using assms by (auto simp: handle_apply_patch_def split: prod.splits sum.splits)

section \<open>Properties\<close>

text \<open>
  C22. In strict mode the gate of a patch is exact: when the hash tells the offered patches
  apart, a patch is let through exactly when a completed answer of the delegation tool, earlier
  in the same turn, offered a patch with the same normal form; and a patch with the same normal
  form parses to the same hunks.
\<close>

theorem strict_patch_gate_exact:
  assumes "turn_run env instructions es (Some s)" and "strict_delegation_enabled instructions"
    and "inj_on (sd_sha1 env) (normalize_patch_candidate ` offered env es)"
  shows "(fst (enforce_strict_delegation_patch instructions (Some s) patch) = Ok () \<longleftrightarrow>
      (\<exists>q \<in> offered env es. normalize_patch_candidate q = normalize_patch_candidate patch)) \<and>
    (fst (enforce_strict_delegation_patch instructions (Some s) patch) = Ok () \<longrightarrow>
      (\<exists>q \<in> offered env es. parse_patch patch = parse_patch q))"
proof -
  let ?offers = "normalize_patch_candidate ` offered env es"
  have inv: "candidates_inv env (offered env es) (candidates s)"
    using turn_run_inv [OF assms(1,2)] by simp
  then have sub: "cand_normalized_patch ` set (candidates s) \<subseteq> ?offers"
    and hash: "sd_sha1 env ` ?offers = sd_sha1 env ` cand_normalized_patch ` set (candidates s)"
    unfolding candidates_inv_def image_image by (auto intro!: image_cong)
  then have "?offers = cand_normalized_patch ` set (candidates s)"
    using inj_on_image_eq_iff [OF assms(3) order_refl sub] by simp
  then have "fst (enforce_strict_delegation_patch instructions (Some s) patch) = Ok () \<longleftrightarrow>
      (\<exists>q \<in> offered env es. normalize_patch_candidate q = normalize_patch_candidate patch)"
    unfolding enforce_Ok [OF assms(2)] by (metis (no_types, lifting) imageE image_eqI)
  then show ?thesis using parse_patch_candidate by metis
qed

text \<open>
  C25. In strict mode a shell command is refused exactly when it, or a command at most four
  shell wrappers inside it, is one of the mutating commands; the reason is always the same.
\<close>

theorem strict_shell_gate_iff:
  assumes "strict_delegation_enabled instructions"
  shows "(\<exists>m. fst (shell_command_gate env instructions active command) = Err m) \<longleftrightarrow>
      (\<exists>d. unwraps (strict_inner_commands env) 4 command d \<and> detect_mutating_shell_command env d \<noteq> None)"
proof -
  have "(\<exists>m. fst (shell_command_gate env instructions active command) = Err m) \<longleftrightarrow>
      check_shell_command_allowed_with_depth env 4 command \<noteq> AllowCommand"
    using assms by (auto simp: shell_command_gate_def refuse_decision_def MAX_SHELL_WRAPPER_DEPTH_def
        check_shell_command_allowed_in_strict_delegation_def split: StrictCommandDecision.split)
  also have "\<dots> \<longleftrightarrow> decision_kind (check_shell_command_allowed_with_depth env 4 command) \<noteq> None"
    by (simp add: decision_kind_None)
  also have "\<dots> \<longleftrightarrow> (\<exists>d. unwraps (strict_inner_commands env) 4 command d \<and> detect_mutating_shell_command env d \<noteq> None)"
    unfolding strict_scan.scan_None by auto
  finally show ?thesis .
qed

text \<open>An environment in which nothing is parsed, and the instructions that switch the mode on.\<close>

definition still_env :: "(string \<Rightarrow> MiniMaxDelegationResult option) \<Rightarrow> strict_env" where
  "still_env decode = \<lparr>sd_sha1 = (\<lambda>s. s), sd_from_str = decode, sd_is_match = (\<lambda>_ _. False),
                       sd_shlex_split = (\<lambda>_. None), sd_bash = (\<lambda>_. None)\<rparr>"

definition strict_instructions :: "string option" where
  "strict_instructions = Some STRICT_DELEGATION_MARKER"

lemma strict_instructions_enabled: "strict_delegation_enabled strict_instructions"
  by code_simp

theorem strict_shell_gate_iff_witness:
  "\<exists>m. fst (shell_command_gate (still_env (\<lambda>_. None)) strict_instructions None [''rm'', ''x'']) = Err m"
proof -
  have "detect_mutating_shell_command (still_env (\<lambda>_. None)) [''rm'', ''x''] \<noteq> None" by code_simp
  then show ?thesis
    using strict_shell_gate_iff [OF strict_instructions_enabled, of "still_env (\<lambda>_. None)" None "[''rm'', ''x'']"]
    by (auto intro: unwraps.here)
qed

text \<open>A turn in which the delegation tool has answered with one patch.\<close>

definition offer :: MiniMaxDelegationResult where
  "offer = result_completed FmtApplyPatch ''ok'' add_patch [] None"

definition decode_offer :: "string \<Rightarrow> MiniMaxDelegationResult option" where
  "decode_offer t = (if t = ''R'' then Some offer else None)"

definition offer_response :: DynamicToolResponse where
  "offer_response = \<lparr>content_items = [ToolText ''R''], dt_success = True\<rparr>"

definition offer_events :: "turn_event list" where
  "offer_events = [Answered DELEGATE_TO_MINIMAX_TOOL_NAME offer_response]"

definition offer_state :: StrictDelegationState where
  "offer_state = record_delegate_response (still_env decode_offer) DELEGATE_TO_MINIMAX_TOOL_NAME offer_response
                   StrictDelegationState_default"

lemma offer_run: "turn_run (still_env decode_offer) strict_instructions offer_events (Some offer_state)"
proof -
  have "turn_step (still_env decode_offer) strict_instructions (Some StrictDelegationState_default)
      (Answered DELEGATE_TO_MINIMAX_TOOL_NAME offer_response) (Some offer_state)"
    using turn_step.answered [of "still_env decode_offer" strict_instructions "Some StrictDelegationState_default"
        DELEGATE_TO_MINIMAX_TOOL_NAME offer_response]
    by (simp add: record_strict_delegation_response_for_turn_def strict_instructions_enabled offer_state_def)
  from turn_run.step [OF turn_run.start this] show ?thesis by (simp add: offer_events_def)
qed

lemma offer_offered: "offered (still_env decode_offer) offer_events = {add_patch}"
  by (auto simp: offered_def offer_events_def offered_patch_def offer_response_def first_text_output_def
      still_env_def decode_offer_def offer_def result_completed_def)

theorem strict_patch_gate_exact_witness:
  "fst (enforce_strict_delegation_patch strict_instructions (Some offer_state) add_patch) = Ok ()"
proof -
  have "inj_on (sd_sha1 (still_env decode_offer))
      (normalize_patch_candidate ` offered (still_env decode_offer) offer_events)"
    by (simp add: offer_offered)
  from strict_patch_gate_exact [OF offer_run strict_instructions_enabled this, of add_patch] show ?thesis
    by (simp add: offer_offered)
qed

text \<open>
  C3. Strict mode from end to end. Suppose JSON gives back what was written, the text that
  stands in for an unserialisable response decodes at most to an invalid result, and every
  answer of the delegation tool in the turn came from \<open>execute_dynamic_tool_call\<close>. Then the
  action that the handler of apply_patch lets through has the same hunks as a patch which that
  tool verified against the working tree: at least one hunk, and none that names a sensitive
  path.
\<close>

theorem strict_mode_end_to_end:
  fixes tools :: "'e tool_env"
  assumes "json_ok tools env" and "strict_delegation_enabled instructions"
    and "turn_run env instructions es (Some s)" and "answers_executed tools deleg fs es"
    and "handle_apply_patch ienv fs instructions (Some s) patch cwd f = Some (Ok action, traces, f')"
  shows "\<exists>parsed q (stream :: string \<Rightarrow> 'e + ('e + BridgeEvent) list) request dir g g' result.
    parse_patch patch = Ok parsed \<and> act_patch action = ap_patch parsed \<and> ap_hunks parsed \<noteq> [] \<and>
    (\<forall>p \<in> set (paths_from_hunks (ap_hunks parsed)). \<not> is_sensitive_path (lower_of (dg_pack deleg)) p) \<and>
    delegate_to_minimax deleg fs stream request dir g = Some (Ok result, g') \<and>
    dr_patch result = Some q \<and> parse_patch q = Ok parsed \<and> patch_applicable deleg fs dir q g g'"
proof -
  have gate: "fst (enforce_strict_delegation_patch instructions (Some s) patch) = Ok ()"
    by (rule handle_apply_patch_Ok [OF assms(5)])
  have "candidates_inv env (offered env es) (candidates s)"
    using turn_run_inv [OF assms(3,2)] by simp
  with gate obtain q where q: "q \<in> offered env es" "normalize_patch_candidate patch = normalize_patch_candidate q"
    unfolding enforce_Ok [OF assms(2)] candidates_inv_def by blast
  then obtain tool response where "Answered tool response \<in> set es" and o: "offered_patch env tool response = Some q"
    by (auto simp: offered_def)
  then obtain stream thread_id arguments dir g g'
    where "execute_dynamic_tool_call tools deleg fs stream thread_id tool arguments dir g = Some (response, g')"
    using assms(4) unfolding answers_executed_def by blast
  from offered_from_tool [OF assms(1) this o] obtain request d result
    where d: "delegate_to_minimax deleg fs stream request d g = Some (Ok result, g')"
      and r: "dr_status result = StCompleted" "dr_format result = Some FmtApplyPatch" "dr_patch result = Some q"
    by blast
  have app: "patch_applicable deleg fs d q g g'" using delegate_result [OF d] r by simp
  then obtain parsed where p: "parse_patch q = Ok parsed" "ap_hunks parsed \<noteq> []"
    "\<forall>p \<in> set (paths_from_hunks (ap_hunks parsed)). \<not> is_sensitive_path (lower_of (dg_pack deleg)) p"
    unfolding patch_applicable_def by blast
  have same: "parse_patch patch = Ok parsed" using parse_patch_candidate [OF q(2)] p(1) by simp
  have "act_patch action = ap_patch parsed"
    using verified_direct [OF handle_apply_patch_Ok(2) [OF assms(5)]] same by auto
  with same p d r app show ?thesis by blast
qed

text \<open>The tool of the example turn: it can serialise its one answer.\<close>

definition offer_tools :: "MiniMaxDelegationResult \<Rightarrow> unit tool_env" where
  "offer_tools result = \<lparr>to_from_value = (\<lambda>_. Ok some_request),
     to_string = (\<lambda>r. if r = result then Ok ''R'' else Err []), to_fallback = (\<lambda>_. []), to_err_str = (\<lambda>_. [])\<rparr>"

lemma add_patch_delegated:
  "delegate_to_minimax (answering add_patch) mem_fs json_stream some_request ''/w'' [] = Some (Ok offer, [])"
proof -
  have "mentioned_task_paths quiet_pack ''x'' = []" by code_simp
  then have "delegate_context (answering add_patch) some_request ''/w'' = ContextPack_default"
    by (simp add: delegate_context_def some_request_def answering_def pack_context_def pack_with_request_def Let_def)
  then have c: "cp_messages (delegate_context (answering add_patch) some_request ''/w'') = []"
    "build_context_summary (delegate_context (answering add_patch) some_request ''/w'') = None"
    by (simp_all add: ContextPack_default_def build_context_summary_def)
  have "completed_response (answering add_patch) (patch_answer add_patch) [] None = Some offer"
    by (simp add: answering_completed add_patch_normalized offer_def)
  then show ?thesis
    unfolding delegate_to_minimax_def Let_def json_stream_text c
    by (simp add: answering_parse sanitize_diagnostics_def add_patch_valid offer_def result_completed_def)
qed

lemma offer_executed: "answers_executed (offer_tools offer) (answering add_patch) mem_fs offer_events"
proof -
  have "execute_dynamic_tool_call (offer_tools offer) (answering add_patch) mem_fs json_stream [] DELEGATE_TO_MINIMAX_TOOL_NAME
      JNull (Some ''/w'') [] = Some (offer_response, [])"
    by (simp add: execute_dynamic_tool_call_def offer_tools_def add_patch_delegated delegate_dynamic_tool_response_def
        dynamic_tool_content_items_def offer_response_def)
  then show ?thesis unfolding answers_executed_def offer_events_def by (simp, blast)
qed

lemma offer_json: "json_ok (offer_tools offer) (still_env decode_offer)"
  by (auto simp: json_ok_def offer_tools_def still_env_def decode_offer_def split: if_splits)

theorem strict_mode_end_to_end_witness:
  "\<exists>action parsed. handle_apply_patch plain_inv mem_fs strict_instructions (Some offer_state) add_patch work_dir [] =
       Some (Ok action, [], []) \<and>
     parse_patch add_patch = Ok parsed \<and> act_patch action = ap_patch parsed \<and> ap_hunks parsed \<noteq> []"
proof -
  have "enforce_strict_delegation_patch strict_instructions (Some offer_state) add_patch = (Ok (), [])" by code_simp
  moreover obtain act where
    "maybe_parse_apply_patch_verified plain_inv mem_fs [''apply_patch'', add_patch] work_dir [] = Some (VBody act, [])"
    using add_patch_verified by blast
  ultimately have h: "handle_apply_patch plain_inv mem_fs strict_instructions (Some offer_state) add_patch work_dir [] =
      Some (Ok act, [], [])" by (simp add: handle_apply_patch_def)
  from strict_mode_end_to_end [OF offer_json strict_instructions_enabled offer_run offer_executed h] h
  show ?thesis by blast
qed

section \<open>The alias\<close>

text \<open>
  C36. The gate knows one of the two names of the tool only. A command vector that starts with
  the alias \<open>applypatch\<close> is intercepted as it would be outside strict mode, whatever the state
  of the turn; and the shell gate lets it pass.
\<close>

theorem alias_escapes_strict_mode:
  "intercept_apply_patch ienv fs instructions active [''applypatch'', patch] cwd f =
     intercept_apply_patch ienv fs None None [''applypatch'', patch] cwd f \<and>
   (\<exists>action. fst (shell_command_gate (still_env (\<lambda>_. None)) strict_instructions
                 (Some StrictDelegationState_default) [''applypatch'', add_patch]) = Ok () \<and>
      intercept_apply_patch plain_inv mem_fs strict_instructions (Some StrictDelegationState_default)
        [''applypatch'', add_patch] work_dir [] = Some (Ok (Some action), [], []) \<and>
      act_patch action = add_patch)"
proof
  show "intercept_apply_patch ienv fs instructions active [''applypatch'', patch] cwd f =
     intercept_apply_patch ienv fs None None [''applypatch'', patch] cwd f"
    by (simp add: intercept_apply_patch_def)
  have gate: "fst (shell_command_gate (still_env (\<lambda>_. None)) strict_instructions
      (Some StrictDelegationState_default) [''applypatch'', add_patch]) = Ok ()"
    by code_simp
  have p: "parse_patch add_patch = Ok \<lparr>ap_patch = add_patch, ap_hunks = [AddFile ''a'' (''x'' @ nl)], ap_workdir = None\<rparr>"
    by code_simp
  then have "\<exists>action. intercept_apply_patch plain_inv mem_fs strict_instructions (Some StrictDelegationState_default)
        [''applypatch'', add_patch] work_dir [] = Some (Ok (Some action), [], []) \<and> act_patch action = add_patch"
    by (simp add: intercept_apply_patch_def maybe_parse_apply_patch_verified_def maybe_parse_apply_patch_def
        parse_shell_script_def APPLY_PATCH_COMMANDS_def verify_hunk_def Let_def)
  with gate show "\<exists>action. fst (shell_command_gate (still_env (\<lambda>_. None)) strict_instructions
                 (Some StrictDelegationState_default) [''applypatch'', add_patch]) = Ok () \<and>
      intercept_apply_patch plain_inv mem_fs strict_instructions (Some StrictDelegationState_default)
        [''applypatch'', add_patch] work_dir [] = Some (Ok (Some action), [], []) \<and>
      act_patch action = add_patch" by blast
qed

end
