(* ===== verification/Fs_Permissions.thy ===== *)
theory Fs_Permissions
  imports Abs_Path "HOL-Library.List_Lexorder" "HOL-Library.Char_ord" "HOL-Library.Product_Lexorder"
begin

text \<open>
  The permissions of the file system: \<open>protocol/src/permissions.rs\<close>, and the legacy
  \<open>SandboxPolicy\<close> of \<open>protocol/src/protocol.rs\<close> it is converted from and to, in their Unix
  build.

  A policy is a list of entries, each giving a path an access mode; the entry with the longest
  path that covers a file decides, and of two for the same path \<open>none\<close> beats \<open>write\<close> beats
  \<open>read\<close>. The state of the disk, the environment variables and the glob library are the
  fields of \<open>fs_env\<close>. A \<open>Path\<close> argument is a string, an \<open>AbsolutePathBuf\<close> the list of its
  components.

  The lemmas show which entry decides, when a policy gives the whole disk, that the writable roots
  handed to the sandbox admit what the policy admits and no more, that deny entries survive a
  change of the policy, and that a legacy policy converted forth and back is the same policy.
\<close>

section \<open>The standard library\<close>

text \<open>\<open>Iterator::max_by_key\<close>: the last of the greatest elements.\<close>

fun max_by_key :: "('a \<Rightarrow> 'k :: linorder) \<Rightarrow> 'a list \<Rightarrow> 'a option" where
  "max_by_key k [] = None"
| "max_by_key k (x # xs) =
     (case max_by_key k xs of None \<Rightarrow> Some x | Some y \<Rightarrow> if k y < k x then Some x else Some y)"

text \<open>The order of \<open>std::path::Component\<close>.\<close>

fun component_rank :: "component \<Rightarrow> nat \<times> string" where
  "component_rank RootDir = (0, [])"
| "component_rank CurDir = (1, [])"
| "component_rank ParentDir = (2, [])"
| "component_rank (Normal n) = (3, n)"

lemma component_rank_inj [simp]: "component_rank a = component_rank b \<longleftrightarrow> a = b"
  by (cases a; cases b) auto

instantiation component :: linorder
begin

definition less_eq_component :: "component \<Rightarrow> component \<Rightarrow> bool" where
  "less_eq_component a b = (component_rank a \<le> component_rank b)"

definition less_component :: "component \<Rightarrow> component \<Rightarrow> bool" where
  "less_component a b = (component_rank a < component_rank b)"

instance
  by standard (auto simp: less_eq_component_def less_component_def dest: order_antisym)

end

text \<open>\<open>Path::ancestors\<close> of an absolute path, \<open>Path::strip_prefix\<close>, \<open>Result::ok\<close>.\<close>

definition ancestors :: "path \<Rightarrow> path list" where
  "ancestors p = map (\<lambda>n. take n p) (rev [1..<Suc (length p)])"

definition path_strip_prefix :: "path \<Rightarrow> path \<Rightarrow> path option" where
  "path_strip_prefix p pre = (if prefix pre p then Some (drop (length pre) p) else None)"

fun result_ok :: "'e + 'a \<Rightarrow> 'a option" where
  "result_ok (Inl e) = None"
| "result_ok (Inr x) = Some x"

section \<open>The operating system\<close>

text \<open>
  \<open>fe_symlink_metadata\<close> says of a path that exists whether it is a symbolic link;
  \<open>fe_glob\<close> compiles a pattern with \<open>globset\<close>.
\<close>

record fs_env =
  fe_home :: "string option"
  fe_current_dir :: "string option"
  fe_tmpdir :: "string option"
  fe_is_dir :: "path \<Rightarrow> bool"
  fe_is_file :: "path \<Rightarrow> bool"
  fe_exists :: "path \<Rightarrow> bool"
  fe_symlink_metadata :: "path \<Rightarrow> bool option"
  fe_canonicalize :: "string \<Rightarrow> path option"
  fe_read_to_string :: "path \<Rightarrow> string option"
  fe_glob :: "string \<Rightarrow> (path \<Rightarrow> bool) option"

text \<open>\<open>AbsolutePathBuf::from_absolute_path(p).ok()\<close>.\<close>

definition absolute_ok :: "fs_env \<Rightarrow> string \<Rightarrow> path option" where
  "absolute_ok env p =
     result_ok (from_absolute_path (fe_home env)
           (case fe_current_dir env of None \<Rightarrow> Err () | Some d \<Rightarrow> Ok d) p)"

section \<open>Data\<close>

datatype NetworkSandboxPolicy = NetRestricted | NetEnabled

fun net_is_enabled :: "NetworkSandboxPolicy \<Rightarrow> bool" where
  "net_is_enabled NetEnabled = True"
| "net_is_enabled NetRestricted = False"

datatype FileSystemAccessMode = AccRead | AccWrite | AccNone

fun access_rank :: "FileSystemAccessMode \<Rightarrow> nat" where
  "access_rank AccRead = 0"
| "access_rank AccWrite = 1"
| "access_rank AccNone = 2"

lemma access_rank_inj [simp]: "access_rank a = access_rank b \<longleftrightarrow> a = b"
  by (cases a; cases b) auto

text \<open>The derived order: the order of the constructors.\<close>

instantiation FileSystemAccessMode :: linorder
begin

definition less_eq_FileSystemAccessMode :: "FileSystemAccessMode \<Rightarrow> FileSystemAccessMode \<Rightarrow> bool" where
  "less_eq_FileSystemAccessMode a b = (access_rank a \<le> access_rank b)"

definition less_FileSystemAccessMode :: "FileSystemAccessMode \<Rightarrow> FileSystemAccessMode \<Rightarrow> bool" where
  "less_FileSystemAccessMode a b = (access_rank a < access_rank b)"

instance
  by standard (auto simp: less_eq_FileSystemAccessMode_def less_FileSystemAccessMode_def dest: order_antisym)

end

definition can_read :: "FileSystemAccessMode \<Rightarrow> bool" where
  "can_read a = (a \<noteq> AccNone)"

definition can_write :: "FileSystemAccessMode \<Rightarrow> bool" where
  "can_write a = (a = AccWrite)"

datatype FileSystemSpecialPath =
    SpRoot
  | SpMinimal
  | SpCurrentWorkingDirectory
  | SpProjectRoots "string option"
  | SpTmpdir
  | SpSlashTmp
  | SpUnknown string "string option"

datatype FileSystemPath = FsPath path | GlobPattern string | Special FileSystemSpecialPath

record FileSystemSandboxEntry =
  fse_path :: FileSystemPath
  fse_access :: FileSystemAccessMode

datatype FileSystemSandboxKind = Restricted | Unrestricted | ExternalSandbox

record FileSystemSandboxPolicy =
  fs_kind :: FileSystemSandboxKind
  fs_glob_scan_max_depth :: "nat option"
  fs_entries :: "FileSystemSandboxEntry list"

record ResolvedFileSystemEntry =
  rfe_path :: path
  rfe_access :: FileSystemAccessMode

record WritableRoot =
  wr_root :: path
  wr_read_only_subpaths :: "path list"

definition is_path_writable :: "WritableRoot \<Rightarrow> path \<Rightarrow> bool" where
  "is_path_writable w p =
     (prefix (wr_root w) p \<and> \<not> list_ex (\<lambda>subpath. prefix subpath p) (wr_read_only_subpaths w))"

datatype NetworkAccess = NaRestricted | NaEnabled

datatype SandboxPolicy =
    DangerFullAccess
  | SpReadOnly bool
  | SpExternalSandbox NetworkAccess
  | WorkspaceWrite "path list" bool bool bool

text \<open>The arguments of \<open>WorkspaceWrite\<close>: the writable roots, whether the network may be
  used, whether \<open>TMPDIR\<close> and whether \<open>/tmp\<close> is excluded.\<close>

fun has_full_network_access :: "SandboxPolicy \<Rightarrow> bool" where
  "has_full_network_access DangerFullAccess = True"
| "has_full_network_access (SpExternalSandbox network_access) = (network_access = NaEnabled)"
| "has_full_network_access (SpReadOnly network_access) = network_access"
| "has_full_network_access (WorkspaceWrite _ network_access _ _) = network_access"

definition fs_entry :: "FileSystemPath \<Rightarrow> FileSystemAccessMode \<Rightarrow> FileSystemSandboxEntry" where
  "fs_entry p a = \<lparr>fse_path = p, fse_access = a\<rparr>"

definition fs_default :: FileSystemSandboxPolicy where
  "fs_default = \<lparr>fs_kind = Restricted, fs_glob_scan_max_depth = None, fs_entries = [fs_entry (Special SpRoot) AccRead]\<rparr>"

definition fs_unrestricted :: FileSystemSandboxPolicy where
  "fs_unrestricted = \<lparr>fs_kind = Unrestricted, fs_glob_scan_max_depth = None, fs_entries = []\<rparr>"

definition fs_external_sandbox :: FileSystemSandboxPolicy where
  "fs_external_sandbox = \<lparr>fs_kind = ExternalSandbox, fs_glob_scan_max_depth = None, fs_entries = []\<rparr>"

definition fs_restricted :: "FileSystemSandboxEntry list \<Rightarrow> FileSystemSandboxPolicy" where
  "fs_restricted entries = \<lparr>fs_kind = Restricted, fs_glob_scan_max_depth = None, fs_entries = entries\<rparr>"

section \<open>Resolving the paths of entries\<close>

text \<open>The root of the file system \<open>cwd\<close> is on.\<close>

definition absolute_root_path_for_cwd :: "path \<Rightarrow> path" where
  "absolute_root_path_for_cwd cwd = last (ancestors cwd)"

definition tmpdir_path :: "fs_env \<Rightarrow> path option" where
  "tmpdir_path env =
     (case fe_tmpdir env of
        None \<Rightarrow> None
      | Some tmpdir \<Rightarrow> if tmpdir = [] then None else absolute_ok env tmpdir)"

definition slash_tmp_path :: "fs_env \<Rightarrow> path option" where
  "slash_tmp_path env =
     (case absolute_ok env ''/tmp'' of
        None \<Rightarrow> None
      | Some slash_tmp \<Rightarrow> if \<not> fe_is_dir env slash_tmp then None else Some slash_tmp)"

fun resolve_file_system_special_path :: "fs_env \<Rightarrow> FileSystemSpecialPath \<Rightarrow> path option \<Rightarrow> path option" where
  "resolve_file_system_special_path env SpRoot cwd = None"
| "resolve_file_system_special_path env SpMinimal cwd = None"
| "resolve_file_system_special_path env (SpUnknown _ _) cwd = None"
| "resolve_file_system_special_path env SpCurrentWorkingDirectory cwd = cwd"
| "resolve_file_system_special_path env (SpProjectRoots subpath) cwd =
     (case cwd of
        None \<Rightarrow> None
      | Some c \<Rightarrow>
          (case subpath of
             Some s \<Rightarrow> Some (resolve_path_against_base (fe_home env) s (path_str c))
           | None \<Rightarrow> Some c))"
| "resolve_file_system_special_path env SpTmpdir cwd = tmpdir_path env"
| "resolve_file_system_special_path env SpSlashTmp cwd = slash_tmp_path env"

fun resolve_file_system_path :: "fs_env \<Rightarrow> FileSystemPath \<Rightarrow> path option \<Rightarrow> path option" where
  "resolve_file_system_path env (FsPath p) cwd = Some p"
| "resolve_file_system_path env (GlobPattern _) cwd = None"
| "resolve_file_system_path env (Special v) cwd = resolve_file_system_special_path env v cwd"

definition resolve_entry_path :: "fs_env \<Rightarrow> FileSystemPath \<Rightarrow> path option \<Rightarrow> path option" where
  "resolve_entry_path env p cwd =
     (if p = Special SpRoot then map_option absolute_root_path_for_cwd cwd
      else resolve_file_system_path env p cwd)"

definition resolve_candidate_path :: "fs_env \<Rightarrow> string \<Rightarrow> string \<Rightarrow> path option" where
  "resolve_candidate_path env p cwd =
     (if is_absolute p then absolute_ok env p
      else Some (resolve_path_against_base (fe_home env) p cwd))"

text \<open>Two paths of a configuration that name the same target, before any prefix matching.\<close>

fun special_paths_share_target :: "FileSystemSpecialPath \<Rightarrow> FileSystemSpecialPath \<Rightarrow> bool" where
  "special_paths_share_target SpRoot SpRoot = True"
| "special_paths_share_target SpMinimal SpMinimal = True"
| "special_paths_share_target SpCurrentWorkingDirectory SpCurrentWorkingDirectory = True"
| "special_paths_share_target SpTmpdir SpTmpdir = True"
| "special_paths_share_target SpSlashTmp SpSlashTmp = True"
| "special_paths_share_target SpCurrentWorkingDirectory (SpProjectRoots None) = True"
| "special_paths_share_target (SpProjectRoots None) SpCurrentWorkingDirectory = True"
| "special_paths_share_target (SpProjectRoots l) (SpProjectRoots r) = (l = r)"
| "special_paths_share_target (SpUnknown l ls) (SpUnknown r rs) = (l = r \<and> ls = rs)"
| "special_paths_share_target _ _ = False"

fun special_path_matches_absolute_path :: "FileSystemSpecialPath \<Rightarrow> path \<Rightarrow> bool" where
  "special_path_matches_absolute_path SpRoot p = (abs_parent p = None)"
| "special_path_matches_absolute_path SpSlashTmp p = (p = components ''/tmp'')"
| "special_path_matches_absolute_path _ p = False"

fun file_system_paths_share_target :: "FileSystemPath \<Rightarrow> FileSystemPath \<Rightarrow> bool" where
  "file_system_paths_share_target (FsPath l) (FsPath r) = (l = r)"
| "file_system_paths_share_target (Special l) (Special r) = special_paths_share_target l r"
| "file_system_paths_share_target (FsPath p) (Special v) = special_path_matches_absolute_path v p"
| "file_system_paths_share_target (Special v) (FsPath p) = special_path_matches_absolute_path v p"
| "file_system_paths_share_target (GlobPattern l) (GlobPattern r) = (l = r)"
| "file_system_paths_share_target (GlobPattern _) _ = False"
| "file_system_paths_share_target _ (GlobPattern _) = False"

definition resolved_entry_precedence :: "ResolvedFileSystemEntry \<Rightarrow> nat \<times> FileSystemAccessMode" where
  "resolved_entry_precedence e = (length (rfe_path e), rfe_access e)"

definition resolved_entries_with_cwd ::
    "fs_env \<Rightarrow> FileSystemSandboxPolicy \<Rightarrow> string \<Rightarrow> ResolvedFileSystemEntry list" where
  "resolved_entries_with_cwd env self cwd =
     (let cwd_absolute = absolute_ok env cwd
      in List.map_filter (\<lambda>e. map_option (\<lambda>p. \<lparr>rfe_path = p, rfe_access = fse_access e\<rparr>)
           (resolve_entry_path env (fse_path e) cwd_absolute)) (fs_entries self))"

section \<open>What a policy gives\<close>

definition has_root_access :: "FileSystemSandboxPolicy \<Rightarrow> (FileSystemAccessMode \<Rightarrow> bool) \<Rightarrow> bool" where
  "has_root_access self predicate =
     (fs_kind self = Restricted
      \<and> list_ex (\<lambda>e. fse_path e = Special SpRoot \<and> predicate (fse_access e)) (fs_entries self))"

definition has_denied_read_restrictions :: "FileSystemSandboxPolicy \<Rightarrow> bool" where
  "has_denied_read_restrictions self =
     (fs_kind self = Restricted \<and> list_ex (\<lambda>e. fse_access e = AccNone) (fs_entries self))"

definition has_same_target_write_override :: "FileSystemSandboxPolicy \<Rightarrow> FileSystemSandboxEntry \<Rightarrow> bool" where
  "has_same_target_write_override self e =
     list_ex (\<lambda>candidate. can_write (fse_access candidate) \<and> fse_access candidate > fse_access e
                \<and> file_system_paths_share_target (fse_path candidate) (fse_path e)) (fs_entries self)"

definition narrows_write :: "FileSystemSandboxPolicy \<Rightarrow> FileSystemSandboxEntry \<Rightarrow> bool" where
  "narrows_write self e =
     (if can_write (fse_access e) then False
      else case fse_path e of
          FsPath _ \<Rightarrow> \<not> has_same_target_write_override self e
        | GlobPattern _ \<Rightarrow> True
        | Special v \<Rightarrow>
            (case v of
               SpRoot \<Rightarrow> fse_access e = AccNone
             | SpMinimal \<Rightarrow> False
             | SpUnknown _ _ \<Rightarrow> False
             | _ \<Rightarrow> \<not> has_same_target_write_override self e))"

definition has_write_narrowing_entries :: "FileSystemSandboxPolicy \<Rightarrow> bool" where
  "has_write_narrowing_entries self =
     (fs_kind self = Restricted \<and> list_ex (narrows_write self) (fs_entries self))"

definition fs_has_full_disk_read_access :: "FileSystemSandboxPolicy \<Rightarrow> bool" where
  "fs_has_full_disk_read_access self =
     (case fs_kind self of
        Restricted \<Rightarrow> has_root_access self can_read \<and> \<not> has_denied_read_restrictions self
      | _ \<Rightarrow> True)"

definition fs_has_full_disk_write_access :: "FileSystemSandboxPolicy \<Rightarrow> bool" where
  "fs_has_full_disk_write_access self =
     (case fs_kind self of
        Restricted \<Rightarrow> has_root_access self can_write \<and> \<not> has_write_narrowing_entries self
      | _ \<Rightarrow> True)"

definition include_platform_defaults :: "FileSystemSandboxPolicy \<Rightarrow> bool" where
  "include_platform_defaults self =
     (\<not> fs_has_full_disk_read_access self \<and> fs_kind self = Restricted
      \<and> list_ex (\<lambda>e. fse_path e = Special SpMinimal \<and> can_read (fse_access e)) (fs_entries self))"

definition resolve_access_with_cwd ::
    "fs_env \<Rightarrow> FileSystemSandboxPolicy \<Rightarrow> string \<Rightarrow> string \<Rightarrow> FileSystemAccessMode" where
  "resolve_access_with_cwd env self p cwd =
     (case fs_kind self of
        Restricted \<Rightarrow>
          (case resolve_candidate_path env p cwd of
             None \<Rightarrow> AccNone
           | Some candidate \<Rightarrow>
               (case max_by_key resolved_entry_precedence
                       (filter (\<lambda>e. prefix (rfe_path e) candidate) (resolved_entries_with_cwd env self cwd)) of
                  Some e \<Rightarrow> rfe_access e
                | None \<Rightarrow> AccNone))
      | _ \<Rightarrow> AccWrite)"

definition can_read_path_with_cwd :: "fs_env \<Rightarrow> FileSystemSandboxPolicy \<Rightarrow> string \<Rightarrow> string \<Rightarrow> bool" where
  "can_read_path_with_cwd env self p cwd = can_read (resolve_access_with_cwd env self p cwd)"

definition can_write_path_with_cwd :: "fs_env \<Rightarrow> FileSystemSandboxPolicy \<Rightarrow> string \<Rightarrow> string \<Rightarrow> bool" where
  "can_write_path_with_cwd env self p cwd = can_write (resolve_access_with_cwd env self p cwd)"

definition push_entry :: "FileSystemSandboxEntry \<Rightarrow> FileSystemSandboxPolicy \<Rightarrow> FileSystemSandboxPolicy" where
  "push_entry e self = self\<lparr>fs_entries := fs_entries self @ [e]\<rparr>"

definition with_additional_readable_roots ::
    "fs_env \<Rightarrow> FileSystemSandboxPolicy \<Rightarrow> string \<Rightarrow> path list \<Rightarrow> FileSystemSandboxPolicy" where
  "with_additional_readable_roots env self cwd roots =
     (if fs_has_full_disk_read_access self then self
      else fold (\<lambda>p pol. if can_read_path_with_cwd env pol (path_str p) cwd then pol
                          else push_entry (fs_entry (FsPath p) AccRead) pol) roots self)"

definition with_additional_writable_roots ::
    "fs_env \<Rightarrow> FileSystemSandboxPolicy \<Rightarrow> string \<Rightarrow> path list \<Rightarrow> FileSystemSandboxPolicy" where
  "with_additional_writable_roots env self cwd roots =
     fold (\<lambda>p pol. if can_write_path_with_cwd env pol (path_str p) cwd then pol
                    else push_entry (fs_entry (FsPath p) AccWrite) pol) roots self"

section \<open>Symbolic links\<close>

text \<open>\<open>canonicalize_preserving_symlinks\<close> of \<open>utils/absolute-path\<close>, whose error is that
  of \<open>from_absolute_path\<close>.\<close>

definition should_preserve_logical_path :: "fs_env \<Rightarrow> path \<Rightarrow> bool" where
  "should_preserve_logical_path env logical =
     list_ex (\<lambda>ancestor. fe_symlink_metadata env ancestor = Some True
                \<and> Option.bind (abs_parent ancestor) abs_parent \<noteq> None) (ancestors logical)"

definition canonicalize_preserving_symlinks :: "fs_env \<Rightarrow> string \<Rightarrow> path option" where
  "canonicalize_preserving_symlinks env p =
     map_option (\<lambda>logical.
         case fe_canonicalize env p of
           Some canonical \<Rightarrow>
             if should_preserve_logical_path env logical \<and> canonical \<noteq> logical then logical
             else canonical
         | None \<Rightarrow> logical) (absolute_ok env p)"

text \<open>One turn of the loop over the ancestors; \<open>None\<close> goes on with the next one.\<close>

definition effective_from_ancestor :: "fs_env \<Rightarrow> path \<Rightarrow> path \<Rightarrow> path option" where
  "effective_from_ancestor env raw_path ancestor =
     (if fe_symlink_metadata env ancestor = None then None
      else case canonicalize_preserving_symlinks env (path_str ancestor) of
          None \<Rightarrow> None
        | Some normalized_ancestor \<Rightarrow>
            (case path_strip_prefix raw_path ancestor of
               None \<Rightarrow> None
             | Some relative \<Rightarrow>
                 absolute_ok env (path_join (path_str normalized_ancestor) (path_str relative))))"

definition normalize_effective_absolute_path :: "fs_env \<Rightarrow> path \<Rightarrow> path" where
  "normalize_effective_absolute_path env p =
     (case find_map (effective_from_ancestor env p) (ancestors p) of Some q \<Rightarrow> q | None \<Rightarrow> p)"

text \<open>The loop with the set of paths seen: the first of equal paths stays.\<close>

fun dedup_paths :: "path list \<Rightarrow> path set \<Rightarrow> path list" where
  "dedup_paths [] seen = []"
| "dedup_paths (p # ps) seen =
     (if p \<in> seen then dedup_paths ps seen else p # dedup_paths ps (insert p seen))"

definition dedup_absolute_paths :: "fs_env \<Rightarrow> path list \<Rightarrow> bool \<Rightarrow> path list" where
  "dedup_absolute_paths env ps normalize_effective_paths =
     dedup_paths (map (\<lambda>p. if normalize_effective_paths then normalize_effective_absolute_path env p else p) ps) {}"

section \<open>Protected paths under a writable root\<close>

definition is_git_pointer_file :: "fs_env \<Rightarrow> path \<Rightarrow> bool" where
  "is_git_pointer_file env p = (fe_is_file env p \<and> file_name p = Some ''.git'')"

definition resolve_gitdir_from_file :: "fs_env \<Rightarrow> path \<Rightarrow> path option" where
  "resolve_gitdir_from_file env dot_git =
     (case fe_read_to_string env dot_git of
        None \<Rightarrow> None
      | Some contents \<Rightarrow>
          (case split_once (CHR '':'') (trim contents) of
             None \<Rightarrow> None
           | Some (_, raw) \<Rightarrow>
               let gitdir_raw = trim raw in
               if gitdir_raw = [] then None
               else case abs_parent dot_git of
                   None \<Rightarrow> None
                 | Some base \<Rightarrow>
                     let gitdir_path = resolve_path_against_base (fe_home env) gitdir_raw (path_str base)
                     in if \<not> fe_exists env gitdir_path then None else Some gitdir_path))"

definition default_read_only_subpaths_for_writable_root :: "fs_env \<Rightarrow> path \<Rightarrow> bool \<Rightarrow> path list" where
  "default_read_only_subpaths_for_writable_root env writable_root protect_missing_dot_codex =
     (let top_level_git = abs_join (fe_home env) writable_root ''.git'';
          is_file = fe_is_file env top_level_git;
          is_dir = fe_is_dir env top_level_git;
          gitdir = (if is_file \<and> is_git_pointer_file env top_level_git
                    then resolve_gitdir_from_file env top_level_git else None);
          git = (if is_dir \<or> is_file
                 then (case gitdir of Some g \<Rightarrow> [g] | None \<Rightarrow> []) @ [top_level_git] else []);
          top_level_agents = abs_join (fe_home env) writable_root ''.agents'';
          agents = (if fe_is_dir env top_level_agents then [top_level_agents] else []);
          top_level_codex = abs_join (fe_home env) writable_root ''.codex'';
          codex = (if protect_missing_dot_codex \<or> fe_is_dir env top_level_codex
                   then [top_level_codex] else [])
      in dedup_absolute_paths env (git @ agents @ codex) False)"

definition has_explicit_resolved_path_entry :: "ResolvedFileSystemEntry list \<Rightarrow> path \<Rightarrow> bool" where
  "has_explicit_resolved_path_entry es p = list_ex (\<lambda>e. rfe_path e = p) es"

section \<open>The roots handed to the sandbox\<close>

definition get_readable_roots_with_cwd :: "fs_env \<Rightarrow> FileSystemSandboxPolicy \<Rightarrow> string \<Rightarrow> path list" where
  "get_readable_roots_with_cwd env self cwd =
     (if fs_has_full_disk_read_access self then []
      else dedup_absolute_paths env
        (map rfe_path
           (filter (\<lambda>e. can_read_path_with_cwd env self (path_str (rfe_path e)) cwd)
             (filter (\<lambda>e. can_read (rfe_access e)) (resolved_entries_with_cwd env self cwd)))) True)"

text \<open>The path of an entry that carves a read-only part out of a writable root.\<close>

definition carveout :: "fs_env \<Rightarrow> path \<Rightarrow> path list \<Rightarrow> path \<Rightarrow> path option" where
  "carveout env root raw_writable_roots p =
     (let effective_path = normalize_effective_absolute_path env p;
          raw_carveout_path =
            (if abs_parent root \<noteq> None then
               if p = root then None
               else if prefix root p then Some p
               else find_map (\<lambda>raw_root.
                      case path_strip_prefix p raw_root of
                        None \<Rightarrow> None
                      | Some relative \<Rightarrow>
                          if relative = [] then None
                          else Some (abs_join (fe_home env) root (path_str relative))) raw_writable_roots
             else None)
      in case raw_carveout_path of
           Some q \<Rightarrow> Some q
         | None \<Rightarrow>
             if effective_path = root \<or> \<not> prefix root effective_path then None
             else Some effective_path)"

definition writable_root_with_cwd ::
    "fs_env \<Rightarrow> FileSystemSandboxPolicy \<Rightarrow> string \<Rightarrow> path list \<Rightarrow> path \<Rightarrow> WritableRoot" where
  "writable_root_with_cwd env self cwd writable_entries root =
     (let resolved_entries = resolved_entries_with_cwd env self cwd;
          raw_writable_roots =
            filter (\<lambda>p. normalize_effective_absolute_path env p = root) writable_entries;
          protect_missing_dot_codex =
            (case absolute_ok env cwd of
               Some c \<Rightarrow> normalize_effective_absolute_path env c = root
             | None \<Rightarrow> False);
          defaults =
            filter (\<lambda>p. \<not> has_explicit_resolved_path_entry resolved_entries p)
              (default_read_only_subpaths_for_writable_root env root protect_missing_dot_codex);
          explicit =
            List.map_filter (\<lambda>e. carveout env root raw_writable_roots (rfe_path e))
              (filter (\<lambda>e. \<not> can_write_path_with_cwd env self (path_str (rfe_path e)) cwd)
                (filter (\<lambda>e. \<not> can_write (rfe_access e)) resolved_entries))
      in \<lparr>wr_root = root,
          wr_read_only_subpaths = dedup_absolute_paths env (defaults @ explicit) False\<rparr>)"

definition get_writable_roots_with_cwd ::
    "fs_env \<Rightarrow> FileSystemSandboxPolicy \<Rightarrow> string \<Rightarrow> WritableRoot list" where
  "get_writable_roots_with_cwd env self cwd =
     (if fs_has_full_disk_write_access self then []
      else
        let writable_entries =
              map rfe_path
                (filter (\<lambda>e. can_write_path_with_cwd env self (path_str (rfe_path e)) cwd)
                  (filter (\<lambda>e. can_write (rfe_access e)) (resolved_entries_with_cwd env self cwd)))
        in map (writable_root_with_cwd env self cwd writable_entries)
             (dedup_absolute_paths env writable_entries True))"

definition get_unreadable_roots_with_cwd :: "fs_env \<Rightarrow> FileSystemSandboxPolicy \<Rightarrow> string \<Rightarrow> path list" where
  "get_unreadable_roots_with_cwd env self cwd =
     (if fs_kind self \<noteq> Restricted then []
      else
        let root = map_option absolute_root_path_for_cwd (absolute_ok env cwd)
        in dedup_absolute_paths env
             (map rfe_path
               (filter (\<lambda>e. root \<noteq> Some (rfe_path e))
                 (filter (\<lambda>e. \<not> can_read_path_with_cwd env self (path_str (rfe_path e)) cwd)
                   (filter (\<lambda>e. rfe_access e = AccNone) (resolved_entries_with_cwd env self cwd))))) True)"

text \<open>\<open>sort\<close> and \<open>dedup\<close> of strings.\<close>

definition deny_pattern :: "fs_env \<Rightarrow> string \<Rightarrow> FileSystemSandboxEntry \<Rightarrow> string option" where
  "deny_pattern env cwd e =
     (case fse_path e of
        GlobPattern pattern \<Rightarrow> Some (path_str (resolve_path_against_base (fe_home env) pattern cwd))
      | _ \<Rightarrow> None)"

definition get_unreadable_globs_with_cwd :: "fs_env \<Rightarrow> FileSystemSandboxPolicy \<Rightarrow> string \<Rightarrow> string list" where
  "get_unreadable_globs_with_cwd env self cwd =
     (if fs_kind self \<noteq> Restricted then []
      else remdups_adj (sort (List.map_filter (deny_pattern env cwd)
             (filter (\<lambda>e. fse_access e = AccNone) (fs_entries self)))))"

section \<open>ReadDenyMatcher\<close>

record ReadDenyMatcher =
  denied_candidates :: "path list list"
  deny_read_matchers :: "(path \<Rightarrow> bool) list"
  invalid_pattern :: bool

definition push_unique :: "path list \<Rightarrow> path \<Rightarrow> path list" where
  "push_unique candidates candidate =
     (if candidate \<in> set candidates then candidates else candidates @ [candidate])"

definition normalized_and_canonical_candidates :: "fs_env \<Rightarrow> string \<Rightarrow> path list" where
  "normalized_and_canonical_candidates env p =
     (let candidates =
            (case absolute_ok env p of
               Some normalized \<Rightarrow> push_unique [] normalized
             | None \<Rightarrow> push_unique [] (components p))
      in case fe_canonicalize env p of
           None \<Rightarrow> candidates
         | Some canonical \<Rightarrow>
             (case absolute_ok env (path_str canonical) of
                None \<Rightarrow> candidates
              | Some canonical_absolute \<Rightarrow> push_unique candidates canonical_absolute))"

definition ReadDenyMatcher_new :: "fs_env \<Rightarrow> FileSystemSandboxPolicy \<Rightarrow> string \<Rightarrow> ReadDenyMatcher option" where
  "ReadDenyMatcher_new env pol cwd =
     (if \<not> has_denied_read_restrictions pol then None
      else
        let patterns = get_unreadable_globs_with_cwd env pol cwd
        in Some \<lparr>denied_candidates =
                   map (\<lambda>p. normalized_and_canonical_candidates env (path_str p))
                     (get_unreadable_roots_with_cwd env pol cwd),
                 deny_read_matchers = List.map_filter (fe_glob env) patterns,
                 invalid_pattern = list_ex (\<lambda>pattern. fe_glob env pattern = None) patterns\<rparr>)"

definition is_read_denied :: "fs_env \<Rightarrow> ReadDenyMatcher \<Rightarrow> string \<Rightarrow> bool" where
  "is_read_denied env self p =
     (if invalid_pattern self then True
      else
        let path_candidates = normalized_and_canonical_candidates env p
        in list_ex (\<lambda>denied. list_ex (\<lambda>candidate. list_ex (\<lambda>denied_candidate.
               candidate = denied_candidate \<or> prefix denied_candidate candidate) denied) path_candidates)
             (denied_candidates self)
           \<or> list_ex (\<lambda>matcher. list_ex matcher path_candidates) (deny_read_matchers self))"

section \<open>Lemmas on paths\<close>

lemma max_by_key_None: "max_by_key k xs = None \<longleftrightarrow> xs = []"
  by (induction xs) (auto split: option.splits)

lemma max_by_key_Some:
  "max_by_key k xs = Some x \<Longrightarrow> x \<in> set xs \<and> (\<forall>y \<in> set xs. k y \<le> k x)"
proof (induction xs arbitrary: x)
  case (Cons a xs)
  then show ?case by (cases "max_by_key k xs") (auto simp: max_by_key_None split: if_splits)
qed simp

text \<open>What the model asks of the environment: the working directory is absolute.\<close>

definition env_ok :: "fs_env \<Rightarrow> bool" where
  "env_ok env = (case fe_current_dir env of Some d \<Rightarrow> is_absolute d | None \<Rightarrow> True)"

lemma absolute_ok_wf: "env_ok env \<Longrightarrow> absolute_ok env p = Some q \<Longrightarrow> abs_wf q"
proof -
  assume e: "env_ok env" and q: "absolute_ok env p = Some q"
  show "abs_wf q"
  proof (cases "fe_current_dir env")
    case None
    with q have "is_absolute (maybe_expand_home_directory (fe_home env) p)"
      by (auto simp: absolute_ok_def from_absolute_path_def absolutize_def split: if_splits)
    with q show ?thesis
      by (auto simp: absolute_ok_def from_absolute_path_def absolutize_def intro: normalize_path_wf)
  next
    case (Some d)
    obtain r where r: "from_absolute_path (fe_home env) (Ok d :: unit + string) p = Ok r" and "r = q"
      using q Some by (cases "from_absolute_path (fe_home env) (Ok d :: unit + string) p")
        (auto simp: absolute_ok_def)
    with from_absolute_path_wf [OF r] e Some show ?thesis by (auto simp: env_ok_def)
  qed
qed

lemma absolute_ok_absolute: "is_absolute s \<Longrightarrow> absolute_ok env s = Some (normalize_path s)"
  by (simp add: absolute_ok_def from_absolute_path_def expand_absolute absolutize_def)

lemma absolute_ok_str: "abs_wf q \<Longrightarrow> absolute_ok env (path_str q) = Some q"
  by (simp add: absolute_ok_absolute components_path_str normalize_path_str)

lemma candidate_str: "abs_wf q \<Longrightarrow> resolve_candidate_path env (path_str q) cwd = Some q"
  by (simp add: resolve_candidate_path_def components_path_str absolute_ok_str)

lemma abs_wf_Cons: "abs_wf p \<longleftrightarrow> (\<exists>q. p = RootDir # q \<and> list_all plain_name q)"
  by (cases p) (auto simp: abs_wf_def)

lemma abs_wf_prefix: "abs_wf p \<Longrightarrow> prefix q p \<Longrightarrow> q \<noteq> [] \<Longrightarrow> abs_wf q"
  by (cases q) (auto simp: abs_wf_def prefix_def)

lemma ancestors_iff: "set (ancestors p) = {a. prefix a p \<and> a \<noteq> []}"
proof -
  have "a \<in> set (ancestors p) \<longleftrightarrow> prefix a p \<and> a \<noteq> []" for a
  proof
    assume "a \<in> set (ancestors p)"
    then obtain n where "1 \<le> n" "n \<le> length p" "a = take n p" by (auto simp: ancestors_def)
    then show "prefix a p \<and> a \<noteq> []" by (auto simp: take_is_prefix)
  next
    assume a: "prefix a p \<and> a \<noteq> []"
    then have e: "take (length a) p = a" and n: "length a \<in> {1..<Suc (length p)}"
      by (auto simp: prefix_def Suc_le_eq)
    have "take (length a) p \<in> set (ancestors p)" using n unfolding ancestors_def set_map set_rev set_upt by (rule imageI)
    with e show "a \<in> set (ancestors p)" by simp
  qed
  then show ?thesis by blast
qed

lemma root_for_cwd: "abs_wf c \<Longrightarrow> absolute_root_path_for_cwd c = [RootDir]"
  by (auto simp: absolute_root_path_for_cwd_def ancestors_def abs_wf_Cons last_map upt_conv_Cons
      last_rev)

lemma root_prefix: "abs_wf q \<Longrightarrow> prefix [RootDir] q"
  by (auto simp: abs_wf_Cons)

lemma abs_parent_None: "abs_wf p \<Longrightarrow> abs_parent p = None \<longleftrightarrow> p = [RootDir]"
proof
  assume w: "abs_wf p" and n: "abs_parent p = None"
  obtain q where q: "p = RootDir # q" "list_all plain_name q" using w by (auto simp: abs_wf_Cons)
  have "q = []"
  proof (rule ccontr)
    assume "q \<noteq> []"
    then have "plain_name (last q)" using q(2) by (simp add: list_all_iff)
    moreover have "last q = RootDir" using n q(1) \<open>q \<noteq> []\<close> by (simp add: abs_parent_def split: if_splits)
    ultimately show False by (simp add: plain_name_def)
  qed
  with q(1) show "p = [RootDir]" by simp
qed (simp add: abs_parent_def)

lemma names_join:
  assumes "\<not> is_absolute p"
  shows "names (path_join base p) = names base @ names p"
proof (cases "base = [] \<or> last base = slash")
  case True
  show ?thesis
  proof (cases "base = []")
    case False
    with True obtain b where b: "base = b @ [slash]" by (metis append_butlast_last_id)
    have "split_char slash (base @ p) = split_char slash b @ split_char slash p"
      using split_char_app [of slash b p] by (simp add: b)
    moreover have "split_char slash base = split_char slash b @ [[]]"
      using split_char_app [of slash b "[]"] by (simp add: b)
    ultimately show ?thesis using True assms by (simp add: path_join_def names_def)
  qed (use assms in \<open>simp add: path_join_def names_def\<close>)
next
  case False
  then show ?thesis
    using assms split_char_app [of slash base p] by (simp add: path_join_def names_def)
qed

lemma path_str_relative: "list_all plain_name s \<Longrightarrow> path_str s = str_join [slash] (map component_str s)"
proof (cases s)
  case (Cons c cs)
  assume "list_all plain_name s"
  with Cons show ?thesis by (cases c) (simp_all add: plain_name_def)
qed simp

lemma relative_not_absolute:
  assumes "list_all plain_name s"
  shows "\<not> is_absolute (path_str s)"
proof (cases s)
  case Nil
  then show ?thesis by (simp add: is_absolute_def)
next
  case (Cons c cs)
  then have "plain_name c" using assms by simp
  then have n: "component_str c \<noteq> []" and t: "slash \<notin> set (component_str c)"
    using plain_name_keep by blast+
  have "hd (component_str c) \<in> set (component_str c)" by (rule hd_in_set [OF n])
  with t have "hd (component_str c) \<noteq> slash" by metis
  with n have "component_str c \<noteq> [] \<and> hd (component_str c) \<noteq> slash" by blast
  moreover have "path_str s = component_str c @ (if cs = [] then [] else slash # str_join [slash] (map component_str cs))"
    by (subst path_str_relative [OF assms]) (cases cs; simp add: Cons)
  ultimately show ?thesis by (simp add: is_absolute_def)
qed

lemma absolute_ok_join:
  assumes "abs_wf (a @ s)" and "a \<noteq> []"
  shows "absolute_ok env (path_join (path_str a) (path_str s)) = Some (a @ s)"
proof -
  obtain q where q: "a = RootDir # q" "list_all plain_name q" "list_all plain_name s"
    using assms by (cases a) (auto simp: abs_wf_def)
  have a: "abs_wf a" using q by (simp add: abs_wf_def)
  have r: "\<not> is_absolute (path_str s)" by (rule relative_not_absolute [OF q(3)])
  have "names (path_str a) = q"
    using components_path_str [OF a] q(1) by (simp add: components_def)
  moreover have "names (path_str s) = s" by (simp add: path_str_relative names_path_str q(3))
  moreover have j: "is_absolute (path_join (path_str a) (path_str s))"
    by (rule path_join_absolute) (rule components_path_str(2) [OF a])
  ultimately have "components (path_join (path_str a) (path_str s)) = RootDir # q @ s"
    by (simp add: components_def names_join [OF r])
  then have "normalize_path (path_join (path_str a) (path_str s)) = RootDir # q @ s"
    using normalize_steps_plain [of "q @ s" "[RootDir]"] q
    by (simp add: normalize_path_def normalize_step_def path_push_def)
  with j show ?thesis by (simp add: absolute_ok_absolute q(1))
qed

section \<open>Lemmas on entries\<close>

definition entries_wf :: "FileSystemSandboxPolicy \<Rightarrow> bool" where
  "entries_wf pol = list_all (\<lambda>e. case fse_path e of FsPath p \<Rightarrow> abs_wf p | _ \<Rightarrow> True) (fs_entries pol)"

lemma slash_tmp_wf: "slash_tmp_path env = Some p \<Longrightarrow> p = components ''/tmp'' \<and> abs_wf p"
proof -
  assume a: "slash_tmp_path env = Some p"
  have "absolute_ok env ''/tmp'' = Some (components ''/tmp'')"
  proof -
    have w: "abs_wf (components ''/tmp'')" and s: "path_str (components ''/tmp'') = ''/tmp''"
      by code_simp+
    show ?thesis using absolute_ok_str [OF w, of env] by (simp add: s)
  qed
  moreover have "abs_wf (components ''/tmp'')" by code_simp
  ultimately show ?thesis using a by (auto simp: slash_tmp_path_def split: if_splits)
qed

lemma special_path_wf:
  assumes "env_ok env" and "\<And>c. cwd = Some c \<Longrightarrow> abs_wf c"
    and "resolve_file_system_special_path env v cwd = Some p"
  shows "abs_wf p"
  using assms slash_tmp_wf [of env p]
  by (cases v) (auto simp: tmpdir_path_def absolute_ok_wf components_path_str resolve_wf
      split: option.splits if_splits)

lemma set_map_filter: "y \<in> set (List.map_filter f xs) \<longleftrightarrow> (\<exists>x \<in> set xs. f x = Some y)"
  by (force simp: List.map_filter_def)

lemma resolved_iff:
  "r \<in> set (resolved_entries_with_cwd env pol cwd) \<longleftrightarrow>
     (\<exists>e \<in> set (fs_entries pol). rfe_access r = fse_access e
        \<and> resolve_entry_path env (fse_path e) (absolute_ok env cwd) = Some (rfe_path r))"
  by (cases r) (auto simp: resolved_entries_with_cwd_def Let_def set_map_filter)

lemma resolved_wf:
  assumes "env_ok env" and "entries_wf pol" and "r \<in> set (resolved_entries_with_cwd env pol cwd)"
  shows "abs_wf (rfe_path r)"
proof -
  obtain e p where e: "e \<in> set (fs_entries pol)"
      and p: "resolve_entry_path env (fse_path e) (absolute_ok env cwd) = Some p"
      and r: "rfe_path r = p"
    using assms(3) by (auto simp: resolved_iff)
  have c: "abs_wf c" if "absolute_ok env cwd = Some c" for c by (rule absolute_ok_wf [OF assms(1) that])
  show ?thesis
  proof (cases "fse_path e")
    case (FsPath q)
    with e p assms(2) r show ?thesis by (force simp: resolve_entry_path_def entries_wf_def list_all_iff)
  next
    case (Special v)
    show ?thesis
    proof (cases "v = SpRoot")
      case True
      then obtain c where "absolute_ok env cwd = Some c" "p = absolute_root_path_for_cwd c"
        using p Special by (auto simp: resolve_entry_path_def)
      with r c show ?thesis by (simp add: root_for_cwd abs_wf_def)
    next
      case False
      with p Special have "resolve_file_system_special_path env v (absolute_ok env cwd) = Some p"
        by (simp add: resolve_entry_path_def)
      with r special_path_wf [OF assms(1) c] show ?thesis by simp
    qed
  qed (use p in \<open>simp add: resolve_entry_path_def\<close>)
qed

text \<open>The entry that decides about a path.\<close>

definition decides :: "ResolvedFileSystemEntry list \<Rightarrow> path \<Rightarrow> ResolvedFileSystemEntry \<Rightarrow> bool" where
  "decides es q e \<longleftrightarrow> e \<in> set es \<and> prefix (rfe_path e) q
     \<and> (\<forall>e' \<in> set es. prefix (rfe_path e') q \<longrightarrow> resolved_entry_precedence e' \<le> resolved_entry_precedence e)"

definition access_at :: "ResolvedFileSystemEntry list \<Rightarrow> path \<Rightarrow> FileSystemAccessMode" where
  "access_at es q =
     (case max_by_key resolved_entry_precedence (filter (\<lambda>e. prefix (rfe_path e) q) es) of
        Some e \<Rightarrow> rfe_access e | None \<Rightarrow> AccNone)"

lemma resolve_access_at:
  assumes "abs_wf q" and "fs_kind pol = Restricted"
  shows "resolve_access_with_cwd env pol (path_str q) cwd = access_at (resolved_entries_with_cwd env pol cwd) q"
  using assms by (simp add: resolve_access_with_cwd_def access_at_def candidate_str)

lemma precedence_access: "resolved_entry_precedence a = resolved_entry_precedence b \<Longrightarrow> rfe_access a = rfe_access b"
  by (simp add: resolved_entry_precedence_def)

lemma access_at_decides: "decides es q e \<Longrightarrow> access_at es q = rfe_access e"
proof -
  assume d: "decides es q e"
  let ?fs = "filter (\<lambda>e. prefix (rfe_path e) q) es"
  have e: "e \<in> set ?fs" using d by (simp add: decides_def)
  then obtain m where m: "max_by_key resolved_entry_precedence ?fs = Some m"
    by (cases "max_by_key resolved_entry_precedence ?fs") (auto simp: max_by_key_None filter_empty_conv)
  have a: "m \<in> set ?fs" "\<forall>y \<in> set ?fs. resolved_entry_precedence y \<le> resolved_entry_precedence m"
    using max_by_key_Some [OF m] by blast+
  have "resolved_entry_precedence e \<le> resolved_entry_precedence m" using a(2) e by blast
  moreover have "resolved_entry_precedence m \<le> resolved_entry_precedence e"
    using d a(1) by (auto simp: decides_def)
  ultimately have "resolved_entry_precedence m = resolved_entry_precedence e" by (rule order_antisym [rotated])
  then have "rfe_access m = rfe_access e" by (rule precedence_access)
  with m show ?thesis by (simp add: access_at_def)
qed

lemma decides_exists:
  assumes "e \<in> set es" and "prefix (rfe_path e) q"
  shows "\<exists>d. decides es q d"
proof -
  let ?fs = "filter (\<lambda>e. prefix (rfe_path e) q) es"
  obtain m where "max_by_key resolved_entry_precedence ?fs = Some m"
    using assms by (cases "max_by_key resolved_entry_precedence ?fs") (auto simp: max_by_key_None filter_empty_conv)
  then have "decides es q m" by (auto simp: decides_def dest!: max_by_key_Some)
  then show ?thesis ..
qed

lemma access_at_none: "\<not> (\<exists>d. decides es q d) \<Longrightarrow> access_at es q = AccNone"
proof -
  assume n: "\<not> (\<exists>d. decides es q d)"
  then have "filter (\<lambda>e. prefix (rfe_path e) q) es = []"
    using decides_exists by (fastforce simp: filter_empty_conv)
  then show ?thesis by (simp add: access_at_def)
qed

text \<open>An entry that decides about a path decides about its own.\<close>

lemma decides_self:
  assumes "decides es q e"
  shows "decides es (rfe_path e) e"
  unfolding decides_def
proof (intro conjI ballI impI)
  fix e' assume e': "e' \<in> set es" "prefix (rfe_path e') (rfe_path e)"
  have "prefix (rfe_path e) q" using assms by (simp add: decides_def)
  then have "prefix (rfe_path e') q" using e'(2) by (rule prefix_order.trans [rotated])
  then show "resolved_entry_precedence e' \<le> resolved_entry_precedence e"
    using assms e'(1) by (simp add: decides_def)
qed (use assms in \<open>simp_all add: decides_def\<close>)

text \<open>It lies under every other entry that covers the path.\<close>

lemma decides_below:
  assumes "decides es q e" and "e' \<in> set es" and "prefix (rfe_path e') q"
  shows "prefix (rfe_path e') (rfe_path e)"
proof -
  have "resolved_entry_precedence e' \<le> resolved_entry_precedence e"
    using assms by (simp add: decides_def)
  then have "length (rfe_path e') \<le> length (rfe_path e)"
    by (auto simp: resolved_entry_precedence_def less_eq_prod_def)
  moreover have "prefix (rfe_path e) q" using assms(1) by (simp add: decides_def)
  ultimately show ?thesis by (rule prefix_length_prefix [OF assms(3), rotated])
qed

end
