(* ===== verification/Fs_Roots.thy ===== *)
theory Fs_Roots
  imports Fs_Permissions
begin

text \<open>
  What the permissions of \<open>protocol/src/permissions.rs\<close> come down to: the roots handed to the
  sandbox against the access the policy gives, the two full-disk shortcuts, and the matcher that
  refuses reads.
\<close>

section \<open>A file system without symbolic links\<close>

definition plain_fs :: "fs_env \<Rightarrow> bool" where
  "plain_fs env \<longleftrightarrow> (\<forall>p. fe_symlink_metadata env p \<noteq> Some True)
     \<and> (\<forall>p q. abs_wf p \<longrightarrow> fe_canonicalize env (path_str p) = Some q \<longrightarrow> q = p)"

lemma canonicalize_plain:
  assumes "plain_fs env" and "abs_wf a"
  shows "canonicalize_preserving_symlinks env (path_str a) = Some a"
  using assms by (auto simp: canonicalize_preserving_symlinks_def absolute_ok_str plain_fs_def split: option.splits)

lemma effective_plain:
  assumes "plain_fs env" and "abs_wf p"
  shows "normalize_effective_absolute_path env p = p"
proof (cases "find_map (effective_from_ancestor env p) (ancestors p)")
  case (Some q)
  then obtain a where a: "a \<in> set (ancestors p)" and e: "effective_from_ancestor env p a = Some q"
    using find_map_Some by fast
  then obtain s where s: "p = a @ s" "a \<noteq> []" by (auto simp: ancestors_iff prefix_def)
  have w: "abs_wf a" using abs_wf_prefix [OF assms(2)] s by simp
  have "effective_from_ancestor env p a = None \<or> effective_from_ancestor env p a = Some p"
    using absolute_ok_join [of a s env] assms(2) s
    by (simp add: effective_from_ancestor_def canonicalize_plain [OF assms(1) w] path_strip_prefix_def)
  with e Some show ?thesis by (simp add: normalize_effective_absolute_path_def)
qed (simp add: normalize_effective_absolute_path_def)

lemma set_dedup_paths: "set (dedup_paths ps seen) = set ps - seen"
  by (induction ps seen rule: dedup_paths.induct) auto

lemma set_dedup_raw [simp]: "set (dedup_absolute_paths env ps False) = set ps"
  by (simp add: dedup_absolute_paths_def set_dedup_paths)

lemma set_dedup_effective:
  assumes "plain_fs env" and "\<And>p. p \<in> set ps \<Longrightarrow> abs_wf p"
  shows "set (dedup_absolute_paths env ps True) = set ps"
  using assms by (auto simp: dedup_absolute_paths_def set_dedup_paths effective_plain)

lemma carveout_plain:
  assumes "plain_fs env" and "abs_wf p" and "\<And>r. r \<in> set raws \<Longrightarrow> abs_wf r"
    and "\<And>r. r \<in> set raws \<Longrightarrow> normalize_effective_absolute_path env r = root"
  shows "carveout env root raws p = (if prefix root p \<and> p \<noteq> root then Some p else None)"
proof -
  have r: "r = root" if "r \<in> set raws" for r
    using that assms effective_plain by metis
  have "find_map (\<lambda>raw_root. case path_strip_prefix p raw_root of None \<Rightarrow> None
          | Some relative \<Rightarrow> if relative = [] then None
              else Some (abs_join (fe_home env) root (path_str relative))) raws = None"
    if "\<not> prefix root p"
    using that r by (auto simp: find_map_None path_strip_prefix_def)
  then show ?thesis
    by (auto simp: carveout_def effective_plain [OF assms(1,2)] Let_def)
qed

section \<open>Writable roots\<close>

definition writable_paths :: "fs_env \<Rightarrow> FileSystemSandboxPolicy \<Rightarrow> string \<Rightarrow> path list" where
  "writable_paths env pol cwd =
     map rfe_path
       (filter (\<lambda>e. can_write_path_with_cwd env pol (path_str (rfe_path e)) cwd)
         (filter (\<lambda>e. can_write (rfe_access e)) (resolved_entries_with_cwd env pol cwd)))"

lemma not_full_restricted: "\<not> fs_has_full_disk_write_access pol \<Longrightarrow> fs_kind pol = Restricted"
  by (cases "fs_kind pol") (auto simp: fs_has_full_disk_write_access_def)

lemma can_write_at:
  assumes "abs_wf q" and "fs_kind pol = Restricted"
  shows "can_write_path_with_cwd env pol (path_str q) cwd \<longleftrightarrow>
           access_at (resolved_entries_with_cwd env pol cwd) q = AccWrite"
  using assms by (simp add: can_write_path_with_cwd_def can_write_def resolve_access_at)

lemma can_read_at:
  assumes "abs_wf q" and "fs_kind pol = Restricted"
  shows "can_read_path_with_cwd env pol (path_str q) cwd \<longleftrightarrow>
           access_at (resolved_entries_with_cwd env pol cwd) q \<noteq> AccNone"
  using assms by (simp add: can_read_path_with_cwd_def can_read_def resolve_access_at)

lemma writable_paths_iff:
  assumes "env_ok env" and "entries_wf pol" and "fs_kind pol = Restricted"
  shows "r \<in> set (writable_paths env pol cwd) \<longleftrightarrow>
     (\<exists>e \<in> set (resolved_entries_with_cwd env pol cwd). rfe_path e = r \<and> rfe_access e = AccWrite
        \<and> access_at (resolved_entries_with_cwd env pol cwd) r = AccWrite)"
  using resolved_wf [OF assms(1,2)] assms(3)
  by (auto simp: writable_paths_def can_write_def can_write_at)

lemma get_writable_roots_eq:
  "get_writable_roots_with_cwd env pol cwd =
     (if fs_has_full_disk_write_access pol then []
      else map (writable_root_with_cwd env pol cwd (writable_paths env pol cwd))
             (dedup_absolute_paths env (writable_paths env pol cwd) True))"
  unfolding get_writable_roots_with_cwd_def writable_paths_def Let_def by (rule refl)

lemma writable_roots_eq:
  assumes "env_ok env" and "entries_wf pol" and "plain_fs env" and "\<not> fs_has_full_disk_write_access pol"
  shows "set (get_writable_roots_with_cwd env pol cwd) =
           writable_root_with_cwd env pol cwd (writable_paths env pol cwd) ` set (writable_paths env pol cwd)"
proof -
  have "abs_wf p" if "p \<in> set (writable_paths env pol cwd)" for p
    using that resolved_wf [OF assms(1,2)] by (auto simp: writable_paths_def)
  then show ?thesis
    using assms(4) set_dedup_effective [OF assms(3), of "writable_paths env pol cwd"]
    by (simp add: get_writable_roots_eq)
qed

text \<open>The read-only parts of a root: the protected ones that no entry names, and the entries
  under it that do not give write access.\<close>

lemma subpaths_iff:
  assumes "env_ok env" and "entries_wf pol" and "plain_fs env" and "fs_kind pol = Restricted"
  shows "s \<in> set (wr_read_only_subpaths (writable_root_with_cwd env pol cwd (writable_paths env pol cwd) root)) \<longleftrightarrow>
     (s \<in> set (default_read_only_subpaths_for_writable_root env root
           (case absolute_ok env cwd of Some c \<Rightarrow> normalize_effective_absolute_path env c = root | None \<Rightarrow> False))
      \<and> \<not> has_explicit_resolved_path_entry (resolved_entries_with_cwd env pol cwd) s)
   \<or> (\<exists>e \<in> set (resolved_entries_with_cwd env pol cwd). rfe_access e \<noteq> AccWrite
        \<and> access_at (resolved_entries_with_cwd env pol cwd) (rfe_path e) \<noteq> AccWrite
        \<and> rfe_path e = s \<and> prefix root s \<and> s \<noteq> root)"
proof -
  let ?es = "resolved_entries_with_cwd env pol cwd"
  let ?raws = "filter (\<lambda>p. normalize_effective_absolute_path env p = root) (writable_paths env pol cwd)"
  have w: "abs_wf (rfe_path e)" if "e \<in> set ?es" for e by (rule resolved_wf [OF assms(1,2) that])
  have r: "abs_wf x" if "x \<in> set ?raws" for x using that w by (auto simp: writable_paths_def)
  have c: "carveout env root ?raws (rfe_path e) = (if prefix root (rfe_path e) \<and> rfe_path e \<noteq> root then Some (rfe_path e) else None)"
    if "e \<in> set ?es" for e
    by (rule carveout_plain [OF assms(3) w [OF that] r]) simp_all
  have "(\<exists>e \<in> set ?es. \<not> can_write (rfe_access e) \<and> \<not> can_write_path_with_cwd env pol (path_str (rfe_path e)) cwd
           \<and> carveout env root ?raws (rfe_path e) = Some s) \<longleftrightarrow>
        (\<exists>e \<in> set ?es. rfe_access e \<noteq> AccWrite \<and> access_at ?es (rfe_path e) \<noteq> AccWrite
           \<and> rfe_path e = s \<and> prefix root s \<and> s \<noteq> root)"
    by (rule bex_cong [OF refl]) (auto simp: c can_write_def can_write_at [OF w assms(4)])
  then show ?thesis
    by (auto simp: writable_root_with_cwd_def Let_def set_map_filter)
qed

lemma root_of_writable_root [simp]: "wr_root (writable_root_with_cwd env pol cwd ws root) = root"
  by (simp add: writable_root_with_cwd_def Let_def)

text \<open>No more than the policy gives.\<close>

lemma writable_root_sound:
  assumes "env_ok env" and "entries_wf pol" and "plain_fs env" and "fs_kind pol = Restricted"
    and r: "r \<in> set (writable_paths env pol cwd)"
    and q: "is_path_writable (writable_root_with_cwd env pol cwd (writable_paths env pol cwd) r) q"
  shows "access_at (resolved_entries_with_cwd env pol cwd) q = AccWrite"
proof -
  let ?es = "resolved_entries_with_cwd env pol cwd"
  obtain e where e: "e \<in> set ?es" "rfe_path e = r" and a: "access_at ?es r = AccWrite"
    using r writable_paths_iff [OF assms(1,2,4)] by blast
  have p: "prefix r q" using q by (simp add: is_path_writable_def)
  obtain d where d: "decides ?es q d" using decides_exists e p by blast
  have b: "prefix r (rfe_path d)" using decides_below [OF d e(1)] e(2) p by simp
  have o: "access_at ?es (rfe_path d) = rfe_access d" by (rule access_at_decides [OF decides_self [OF d]])
  have "rfe_access d = AccWrite"
  proof (rule ccontr)
    assume n: "rfe_access d \<noteq> AccWrite"
    have "rfe_path d \<noteq> r" using o a n by metis
    moreover have "d \<in> set ?es" using d by (simp add: decides_def)
    moreover have "access_at ?es (rfe_path d) \<noteq> AccWrite" using o n by simp
    ultimately have "rfe_path d \<in> set (wr_read_only_subpaths
        (writable_root_with_cwd env pol cwd (writable_paths env pol cwd) r))"
      using n b by (subst subpaths_iff [OF assms(1-4)]) blast
    moreover have "prefix (rfe_path d) q" using d by (simp add: decides_def)
    ultimately show False using q by (auto simp: is_path_writable_def list_ex_iff)
  qed
  with access_at_decides [OF d] show ?thesis by simp
qed

text \<open>No less, up to the protected paths.\<close>

lemma default_subpaths_mono:
  "set (default_read_only_subpaths_for_writable_root env root b) \<subseteq>
     set (default_read_only_subpaths_for_writable_root env root True)"
  by (auto simp: default_read_only_subpaths_for_writable_root_def Let_def)

lemma writable_root_complete:
  assumes "env_ok env" and "entries_wf pol" and "plain_fs env" and "fs_kind pol = Restricted"
    and a: "access_at (resolved_entries_with_cwd env pol cwd) q = AccWrite"
  shows "\<exists>r \<in> set (writable_paths env pol cwd). prefix r q
     \<and> (\<forall>s \<in> set (wr_read_only_subpaths (writable_root_with_cwd env pol cwd (writable_paths env pol cwd) r)).
          prefix s q \<longrightarrow> s \<in> set (default_read_only_subpaths_for_writable_root env r True))"
proof -
  let ?es = "resolved_entries_with_cwd env pol cwd"
  obtain d where d: "decides ?es q d" using access_at_none a by fastforce
  let ?r = "rfe_path d"
  have w: "rfe_access d = AccWrite" using access_at_decides [OF d] a by simp
  have m: "d \<in> set ?es" "prefix ?r q" using d by (simp_all add: decides_def)
  have "?r \<in> set (writable_paths env pol cwd)"
    using writable_paths_iff [OF assms(1,2,4)] m w access_at_decides [OF decides_self [OF d]] by auto
  moreover have "s \<in> set (default_read_only_subpaths_for_writable_root env ?r True)"
    if s: "s \<in> set (wr_read_only_subpaths (writable_root_with_cwd env pol cwd (writable_paths env pol cwd) ?r))"
      and p: "prefix s q" for s
  proof (rule ccontr)
    assume "s \<notin> set (default_read_only_subpaths_for_writable_root env ?r True)"
    then obtain e where e: "e \<in> set ?es" "rfe_path e = s" "prefix ?r s" "s \<noteq> ?r"
      using s subpaths_iff [OF assms(1-4)] default_subpaths_mono by blast
    have "prefix s ?r" using decides_below [OF d e(1)] e(2) p by simp
    with e(3,4) show False by (simp add: prefix_order.antisym)
  qed
  ultimately show ?thesis using m(2) by blast
qed

section \<open>The whole disk\<close>

text \<open>Paths that share a target resolve alike, once \<open>/tmp\<close> is there.\<close>

lemma share_target_resolves:
  assumes "file_system_paths_share_target a b" and "resolve_entry_path env b (Some c) = Some p"
    and "abs_wf c" and "abs_wf p" and "fe_is_dir env (components ''/tmp'')"
    and "\<And>l. a = FsPath l \<Longrightarrow> abs_wf l"
  shows "resolve_entry_path env a (Some c) = Some p"
proof -
  have t: "slash_tmp_path env = Some (components ''/tmp'')"
  proof -
    have w: "abs_wf (components ''/tmp'')" and s: "path_str (components ''/tmp'') = ''/tmp''"
      by code_simp+
    show ?thesis using absolute_ok_str [OF w, of env] assms(5) by (simp add: s slash_tmp_path_def)
  qed
  have r: "absolute_root_path_for_cwd c = [RootDir]" by (rule root_for_cwd [OF assms(3)])
  show ?thesis
  proof (cases a; cases b)
    fix l v assume ab: "a = FsPath l" "b = Special v"
    then show ?thesis using assms(1,2,6) t r
      by (cases v) (auto simp: resolve_entry_path_def abs_parent_None)
  next
    fix v l assume ab: "a = Special v" "b = FsPath l"
    with assms(2) have "l = p" by (simp add: resolve_entry_path_def)
    with ab show ?thesis using assms(1,4) t r
      by (cases v) (auto simp: resolve_entry_path_def abs_parent_None)
  next
    fix v w assume ab: "a = Special v" "b = Special w"
    then show ?thesis using assms(1,2)
      by (cases "(v, w)" rule: special_paths_share_target.cases) (auto simp: resolve_entry_path_def)
  qed (use assms in \<open>auto simp: resolve_entry_path_def\<close>)
qed

lemma root_entry_resolves:
  assumes "e \<in> set (fs_entries pol)" and "fse_path e = Special SpRoot"
    and "absolute_ok env cwd = Some c" and "abs_wf c"
  shows "\<lparr>rfe_path = [RootDir], rfe_access = fse_access e\<rparr> \<in> set (resolved_entries_with_cwd env pol cwd)"
  using assms by (auto simp: resolved_iff resolve_entry_path_def root_for_cwd intro!: bexI [of _ e])

text \<open>A write entry on the path that decides leaves no weaker decision.\<close>

lemma decides_not_beaten:
  assumes "decides es q d" and "e \<in> set es" and "rfe_path e = rfe_path d"
  shows "rfe_access e \<le> rfe_access d"
proof -
  have "prefix (rfe_path e) q" using assms by (simp add: decides_def)
  then have "resolved_entry_precedence e \<le> resolved_entry_precedence d"
    using assms(1,2) by (simp add: decides_def)
  then show ?thesis by (simp add: resolved_entry_precedence_def assms(3))
qed

lemma full_disk_write_decides:
  assumes "env_ok env" and "entries_wf pol" and c: "absolute_ok env cwd = Some c"
    and t: "fe_is_dir env (components ''/tmp'')" and k: "fs_kind pol = Restricted"
    and f: "fs_has_full_disk_write_access pol" and d: "decides (resolved_entries_with_cwd env pol cwd) q d"
  shows "rfe_access d = AccWrite"
proof (rule ccontr)
  let ?es = "resolved_entries_with_cwd env pol cwd"
  assume n: "rfe_access d \<noteq> AccWrite"
  have cw: "abs_wf c" by (rule absolute_ok_wf [OF assms(1) c])
  have m: "d \<in> set ?es" using d by (simp add: decides_def)
  then obtain e where e: "e \<in> set (fs_entries pol)" "rfe_access d = fse_access e"
      and r: "resolve_entry_path env (fse_path e) (Some c) = Some (rfe_path d)"
    using c by (auto simp: resolved_iff)
  have w: "abs_wf (rfe_path d)" by (rule resolved_wf [OF assms(1,2) m])
  obtain e0 where e0: "e0 \<in> set (fs_entries pol)" "fse_path e0 = Special SpRoot" "fse_access e0 = AccWrite"
    using f k by (auto simp: fs_has_full_disk_write_access_def has_root_access_def can_write_def list_ex_iff)
  have "\<not> narrows_write pol e"
    using f k e(1) by (auto simp: fs_has_full_disk_write_access_def has_write_narrowing_entries_def list_ex_iff)
  then consider (override) "has_same_target_write_override pol e"
    | (root) "fse_path e = Special SpRoot" "fse_access e \<noteq> AccNone"
    using n r e(2)
    by (auto simp: narrows_write_def can_write_def resolve_entry_path_def
        split: FileSystemPath.splits FileSystemSpecialPath.splits)
  then obtain x where x: "x \<in> set (fs_entries pol)" "fse_access x = AccWrite" "fse_access e < fse_access x"
      "resolve_entry_path env (fse_path x) (Some c) = Some (rfe_path d)"
  proof cases
    case override
    then obtain x where x: "x \<in> set (fs_entries pol)" "fse_access x = AccWrite" "fse_access e < fse_access x"
        and s: "file_system_paths_share_target (fse_path x) (fse_path e)"
      by (auto simp: has_same_target_write_override_def list_ex_iff can_write_def)
    have "abs_wf l" if "fse_path x = FsPath l" for l
      using assms(2) x(1) that by (auto simp: entries_wf_def list_all_iff dest!: bspec)
    then have "resolve_entry_path env (fse_path x) (Some c) = Some (rfe_path d)"
      using share_target_resolves [OF s r cw w t] by blast
    with x show thesis using that by blast
  next
    case root
    have "fse_access e = AccRead" using root(2) n e(2) by (cases "fse_access e") auto
    with e0 root(1) r show thesis
      using that [of e0] by (simp add: less_FileSystemAccessMode_def)
  qed
  have "\<lparr>rfe_path = rfe_path d, rfe_access = AccWrite\<rparr> \<in> set ?es"
    using x c by (auto simp: resolved_iff intro!: bexI [of _ x])
  from decides_not_beaten [OF d this] have "AccWrite \<le> rfe_access d" by simp
  moreover have "rfe_access d < AccWrite" using x(2,3) e(2) by simp
  ultimately show False by simp
qed

section \<open>Denied reads\<close>

text \<open>A deny entry decides about its own path.\<close>

lemma deny_decides:
  assumes "e \<in> set es" and "rfe_access e = AccNone"
  shows "access_at es (rfe_path e) = AccNone"
proof -
  obtain d where d: "decides es (rfe_path e) d" using decides_exists assms(1) by blast
  have "prefix (rfe_path e) (rfe_path d)" using decides_below [OF d assms(1)] by simp
  moreover have "prefix (rfe_path d) (rfe_path e)" using d by (simp add: decides_def)
  ultimately have "rfe_path e = rfe_path d" by (rule prefix_order.antisym)
  then have "AccNone \<le> rfe_access d" using decides_not_beaten [OF d assms(1)] assms(2) by simp
  then have "rfe_access d = AccNone" by (cases "rfe_access d") (auto simp: less_eq_FileSystemAccessMode_def)
  with access_at_decides [OF d] show ?thesis by simp
qed

lemma unreadable_roots_iff:
  assumes "env_ok env" and "entries_wf pol" and "plain_fs env" and "fs_kind pol = Restricted"
    and c: "absolute_ok env cwd = Some c"
  shows "p \<in> set (get_unreadable_roots_with_cwd env pol cwd) \<longleftrightarrow> p \<noteq> [RootDir]
     \<and> (\<exists>e \<in> set (resolved_entries_with_cwd env pol cwd). rfe_path e = p \<and> rfe_access e = AccNone)"
proof -
  let ?es = "resolved_entries_with_cwd env pol cwd"
  let ?ps = "map rfe_path
     (filter (\<lambda>e. map_option absolute_root_path_for_cwd (absolute_ok env cwd) \<noteq> Some (rfe_path e))
       (filter (\<lambda>e. \<not> can_read_path_with_cwd env pol (path_str (rfe_path e)) cwd)
         (filter (\<lambda>e. rfe_access e = AccNone) ?es)))"
  have w: "abs_wf (rfe_path e)" if "e \<in> set ?es" for e by (rule resolved_wf [OF assms(1,2) that])
  have u: "\<not> can_read_path_with_cwd env pol (path_str (rfe_path e)) cwd"
    if "e \<in> set ?es" "rfe_access e = AccNone" for e
    using that can_read_at [OF w assms(4)] deny_decides by simp
  have "set (get_unreadable_roots_with_cwd env pol cwd) = set ?ps"
  proof -
    have "get_unreadable_roots_with_cwd env pol cwd = dedup_absolute_paths env ?ps True"
      using assms(4) unfolding get_unreadable_roots_with_cwd_def Let_def by simp
    moreover have "set (dedup_absolute_paths env ?ps True) = set ?ps"
      by (rule set_dedup_effective [OF assms(3)]) (use w in auto)
    ultimately show ?thesis by simp
  qed
  moreover have "absolute_root_path_for_cwd c = [RootDir]"
    by (rule root_for_cwd [OF absolute_ok_wf [OF assms(1) c]])
  ultimately show ?thesis using u by (auto simp: c)
qed

lemma candidates_plain:
  assumes "plain_fs env" and "abs_wf q"
  shows "normalized_and_canonical_candidates env (path_str q) = [q]"
proof -
  have "fe_canonicalize env (path_str q) = None \<or> fe_canonicalize env (path_str q) = Some q"
    using assms by (cases "fe_canonicalize env (path_str q)") (auto simp: plain_fs_def)
  then show ?thesis
    using absolute_ok_str [OF assms(2), of env]
    by (auto simp: normalized_and_canonical_candidates_def push_unique_def Let_def)
qed

section \<open>Properties\<close>


definition demo_fs :: fs_env where
  "demo_fs = \<lparr>fe_home = Some ''/h'', fe_current_dir = Some ''/'', fe_tmpdir = None,
     fe_is_dir = (\<lambda>p. p \<in> {[RootDir, Normal ''tmp''], [RootDir, Normal ''w'', Normal ''.git'']}),
     fe_is_file = (\<lambda>p. False), fe_exists = (\<lambda>p. True), fe_symlink_metadata = (\<lambda>p. None),
     fe_canonicalize = (\<lambda>p. None), fe_read_to_string = (\<lambda>p. None),
     fe_glob = (\<lambda>p. Some (\<lambda>q. False))\<rparr>"

text \<open>The whole disk may be read, \<open>/w\<close> written, \<open>/w/s\<close> not even read.\<close>

definition demo_pol :: FileSystemSandboxPolicy where
  "demo_pol = fs_restricted [fs_entry (Special SpRoot) AccRead,
     fs_entry (Special SpCurrentWorkingDirectory) AccWrite,
     fs_entry (FsPath [RootDir, Normal ''w'', Normal ''s'']) AccNone]"

lemma demo_plain: "plain_fs demo_fs"
  by (simp add: plain_fs_def demo_fs_def)

lemma demo_wf: "env_ok demo_fs" "entries_wf demo_pol" "\<not> fs_has_full_disk_write_access demo_pol"
  by code_simp+

lemmas demo_facts = demo_wf(1,2) demo_plain demo_wf(3)


text \<open>
  The shortcuts are right: a policy that claims access to the whole disk, for reading or for
  writing, gives that access to every absolute path, whatever other entries it has; the working
  directory must be known and, for writing, \<open>/tmp\<close> must be a directory, since an entry for it is
  taken to be the entry for the path \<open>/tmp\<close>.
\<close>

theorem full_disk_access_is_full:
  assumes "env_ok env" and "entries_wf pol" and "absolute_ok env cwd = Some c" and "abs_wf q"
  shows "(fs_has_full_disk_read_access pol \<longrightarrow> can_read_path_with_cwd env pol (path_str q) cwd)
       \<and> (fs_has_full_disk_write_access pol \<longrightarrow> fe_is_dir env (components ''/tmp'') \<longrightarrow>
            can_write_path_with_cwd env pol (path_str q) cwd)"
proof (cases "fs_kind pol = Restricted")
  case k: True
  let ?es = "resolved_entries_with_cwd env pol cwd"
  note cw = absolute_ok_wf [OF assms(1,3)]
  have ex: "\<exists>d. decides ?es q d" if r: "has_root_access pol P" for P
  proof -
    obtain e where "e \<in> set (fs_entries pol)" "fse_path e = Special SpRoot"
      using r by (auto simp: has_root_access_def list_ex_iff)
    from root_entry_resolves [OF this assms(3) cw] show ?thesis
      by (rule decides_exists) (simp add: root_prefix [OF assms(4)])
  qed
  have "access_at ?es q \<noteq> AccNone" if f: "fs_has_full_disk_read_access pol"
  proof -
    have r: "has_root_access pol can_read" "\<not> has_denied_read_restrictions pol"
      using f k by (simp_all add: fs_has_full_disk_read_access_def)
    obtain d where d: "decides ?es q d" using ex [OF r(1)] by blast
    then have "rfe_access d \<noteq> AccNone"
      using r(2) k by (auto simp: decides_def resolved_iff has_denied_read_restrictions_def list_ex_iff)
    with access_at_decides [OF d] show ?thesis by simp
  qed
  moreover have "access_at ?es q = AccWrite"
    if f: "fs_has_full_disk_write_access pol" and t: "fe_is_dir env (components ''/tmp'')"
  proof -
    have "has_root_access pol can_write" using f k by (simp add: fs_has_full_disk_write_access_def)
    then obtain d where d: "decides ?es q d" using ex by blast
    with access_at_decides [OF d] full_disk_write_decides [OF assms(1-3) t k f d] show ?thesis by simp
  qed
  ultimately show ?thesis using can_read_at [OF assms(4) k] can_write_at [OF assms(4) k] by blast
next
  case False
  then show ?thesis
    by (cases "fs_kind pol") (simp_all add: can_read_path_with_cwd_def can_write_path_with_cwd_def
        can_read_def can_write_def resolve_access_with_cwd_def)
qed

definition demo_full :: FileSystemSandboxPolicy where
  "demo_full = fs_restricted [fs_entry (Special SpRoot) AccWrite, fs_entry (Special SpSlashTmp) AccWrite,
     fs_entry (FsPath [RootDir, Normal ''tmp'']) AccRead]"

theorem full_disk_access_is_full_witness:
  "can_write_path_with_cwd demo_fs demo_full (path_str [RootDir, Normal ''tmp'', Normal ''x'']) ''/w''"
proof -
  have "entries_wf demo_full" "absolute_ok demo_fs ''/w'' = Some [RootDir, Normal ''w'']"
    "abs_wf [RootDir, Normal ''tmp'', Normal ''x'']" "fs_has_full_disk_write_access demo_full"
    "fe_is_dir demo_fs (components ''/tmp'')" by code_simp+
  with full_disk_access_is_full [OF demo_facts(1), of demo_full "''/w''" "[RootDir, Normal ''w'']"
      "[RootDir, Normal ''tmp'', Normal ''x'']"]
  show ?thesis by simp
qed

text \<open>
  Reads are refused exactly where the policy says \<open>none\<close>: the matcher of a policy with deny
  entries refuses a path if a deny entry other than the root covers it, even where a longer entry
  would give access, or if one of the deny patterns matches it; and it refuses every path when a
  pattern does not compile.
\<close>

theorem read_denied_iff:
  assumes "env_ok env" and "entries_wf pol" and "plain_fs env" and "absolute_ok env cwd = Some c"
    and "abs_wf q" and "ReadDenyMatcher_new env pol cwd = Some m"
  shows "is_read_denied env m (path_str q) \<longleftrightarrow>
     (\<exists>pattern \<in> set (get_unreadable_globs_with_cwd env pol cwd). fe_glob env pattern = None)
   \<or> (\<exists>e \<in> set (resolved_entries_with_cwd env pol cwd).
        rfe_access e = AccNone \<and> rfe_path e \<noteq> [RootDir] \<and> prefix (rfe_path e) q)
   \<or> (\<exists>pattern \<in> set (get_unreadable_globs_with_cwd env pol cwd).
        \<exists>matcher. fe_glob env pattern = Some matcher \<and> matcher q)"
proof -
  have k: "fs_kind pol = Restricted"
    using assms(6) by (auto simp: ReadDenyMatcher_new_def has_denied_read_restrictions_def split: if_splits)
  note u = unreadable_roots_iff [OF assms(1-3) k assms(4)]
  have w: "abs_wf p" if i: "p \<in> set (get_unreadable_roots_with_cwd env pol cwd)" for p
  proof -
    obtain e where "e \<in> set (resolved_entries_with_cwd env pol cwd)" "rfe_path e = p"
      using u [of p] i by blast
    with resolved_wf [OF assms(1,2)] show ?thesis by blast
  qed
  have m: "invalid_pattern m = list_ex (\<lambda>pattern. fe_glob env pattern = None) (get_unreadable_globs_with_cwd env pol cwd)"
      "deny_read_matchers m = List.map_filter (fe_glob env) (get_unreadable_globs_with_cwd env pol cwd)"
      "denied_candidates m = map (\<lambda>p. [p]) (get_unreadable_roots_with_cwd env pol cwd)"
    using assms(6) candidates_plain [OF assms(3) w]
    by (auto simp: ReadDenyMatcher_new_def Let_def split: if_splits)
  have roots: "(\<exists>p \<in> set (get_unreadable_roots_with_cwd env pol cwd). q = p \<or> prefix p q) \<longleftrightarrow>
      (\<exists>e \<in> set (resolved_entries_with_cwd env pol cwd).
        rfe_access e = AccNone \<and> rfe_path e \<noteq> [RootDir] \<and> prefix (rfe_path e) q)"
    unfolding Bex_def u by blast
  have globs: "(\<exists>f \<in> set (List.map_filter (fe_glob env) (get_unreadable_globs_with_cwd env pol cwd)). f q) \<longleftrightarrow>
      (\<exists>pattern \<in> set (get_unreadable_globs_with_cwd env pol cwd).
        \<exists>matcher. fe_glob env pattern = Some matcher \<and> matcher q)"
    unfolding Bex_def set_map_filter by blast
  have "is_read_denied env m (path_str q) \<longleftrightarrow> invalid_pattern m
      \<or> (\<exists>p \<in> set (get_unreadable_roots_with_cwd env pol cwd). q = p \<or> prefix p q)
      \<or> (\<exists>f \<in> set (List.map_filter (fe_glob env) (get_unreadable_globs_with_cwd env pol cwd)). f q)"
    by (simp add: is_read_denied_def candidates_plain [OF assms(3,5)] m(2,3) list_ex_iff)
  then show ?thesis unfolding roots globs m(1) list_ex_iff .
qed

theorem read_denied_iff_witness:
  "\<exists>m. ReadDenyMatcher_new demo_fs demo_pol ''/w'' = Some m
     \<and> is_read_denied demo_fs m (path_str [RootDir, Normal ''w'', Normal ''s'', Normal ''b''])
     \<and> \<not> is_read_denied demo_fs m (path_str [RootDir, Normal ''w'', Normal ''a''])"
proof -
  let ?b = "[RootDir, Normal ''w'', Normal ''s'', Normal ''b'']" and ?a = "[RootDir, Normal ''w'', Normal ''a'']"
  have c: "absolute_ok demo_fs ''/w'' = Some [RootDir, Normal ''w'']" by code_simp
  have ab: "abs_wf ?b" "abs_wf ?a" by code_simp+
  have g: "get_unreadable_globs_with_cwd demo_fs demo_pol ''/w'' = []" by code_simp
  have r: "resolved_entries_with_cwd demo_fs demo_pol ''/w'' =
     [\<lparr>rfe_path = [RootDir], rfe_access = AccRead\<rparr>, \<lparr>rfe_path = [RootDir, Normal ''w''], rfe_access = AccWrite\<rparr>,
      \<lparr>rfe_path = [RootDir, Normal ''w'', Normal ''s''], rfe_access = AccNone\<rparr>]" by code_simp
  obtain m where m: "ReadDenyMatcher_new demo_fs demo_pol ''/w'' = Some m"
  proof -
    have "has_denied_read_restrictions demo_pol" by code_simp
    then show thesis using that by (simp add: ReadDenyMatcher_new_def Let_def)
  qed
  have "is_read_denied demo_fs m (path_str ?b)" "\<not> is_read_denied demo_fs m (path_str ?a)"
    using read_denied_iff [OF demo_facts(1-3) c ab(1) m] read_denied_iff [OF demo_facts(1-3) c ab(2) m]
    by (simp_all add: g r)
  with m show ?thesis by blast
qed

end
