(* ===== verification/Legacy_Sandbox.thy ===== *)
theory Legacy_Sandbox
  imports Fs_Roots
begin

text \<open>
  The conversions between the legacy \<open>SandboxPolicy\<close>, the entry based policy and the
  permission profile: the rest of \<open>protocol/src/permissions.rs\<close>, \<open>SandboxPolicy\<close> of
  \<open>protocol/src/protocol.rs\<close>, which has its own copy of
  \<open>default_read_only_subpaths_for_writable_root\<close> and its helpers, and \<open>PermissionProfile\<close>
  of \<open>protocol/src/models.rs\<close>.
\<close>

section \<open>SandboxPolicy\<close>

definition NetworkSandboxPolicy_from :: "SandboxPolicy \<Rightarrow> NetworkSandboxPolicy" where
  "NetworkSandboxPolicy_from v = (if has_full_network_access v then NetEnabled else NetRestricted)"

fun sandbox_writable_roots_with_cwd :: "fs_env \<Rightarrow> SandboxPolicy \<Rightarrow> string \<Rightarrow> WritableRoot list" where
  "sandbox_writable_roots_with_cwd env (WorkspaceWrite writable_roots _ exclude_tmpdir_env_var exclude_slash_tmp) cwd =
     (let roots = writable_roots
            @ (case absolute_ok env cwd of Some c \<Rightarrow> [c] | None \<Rightarrow> [])
            @ (if \<not> exclude_slash_tmp
               then case slash_tmp_path env of Some t \<Rightarrow> [t] | None \<Rightarrow> [] else [])
            @ (if \<not> exclude_tmpdir_env_var
               then case tmpdir_path env of Some t \<Rightarrow> [t] | None \<Rightarrow> [] else [])
      in map (\<lambda>writable_root.
            \<lparr>wr_root = writable_root,
             wr_read_only_subpaths = default_read_only_subpaths_for_writable_root env writable_root
               (absolute_ok env cwd = Some writable_root)\<rparr>) roots)"
| "sandbox_writable_roots_with_cwd env _ cwd = []"

fun FileSystemSandboxPolicy_from :: "SandboxPolicy \<Rightarrow> FileSystemSandboxPolicy" where
  "FileSystemSandboxPolicy_from DangerFullAccess = fs_unrestricted"
| "FileSystemSandboxPolicy_from (SpExternalSandbox _) = fs_external_sandbox"
| "FileSystemSandboxPolicy_from (SpReadOnly _) = fs_restricted [fs_entry (Special SpRoot) AccRead]"
| "FileSystemSandboxPolicy_from (WorkspaceWrite writable_roots _ exclude_tmpdir_env_var exclude_slash_tmp) =
     fs_restricted
       ([fs_entry (Special SpRoot) AccRead, fs_entry (Special SpCurrentWorkingDirectory) AccWrite]
        @ (if \<not> exclude_slash_tmp then [fs_entry (Special SpSlashTmp) AccWrite] else [])
        @ (if \<not> exclude_tmpdir_env_var then [fs_entry (Special SpTmpdir) AccWrite] else [])
        @ map (\<lambda>p. fs_entry (FsPath p) AccWrite) writable_roots)"

section \<open>From the legacy policy\<close>

definition append_default_read_only_entry_if_no_explicit_rule ::
    "FileSystemPath \<Rightarrow> FileSystemSandboxEntry list \<Rightarrow> FileSystemSandboxEntry list" where
  "append_default_read_only_entry_if_no_explicit_rule p es =
     (if list_ex (\<lambda>e. file_system_paths_share_target (fse_path e) p) es then es
      else es @ [fs_entry p AccRead])"

definition append_default_read_only_path_if_no_explicit_rule ::
    "path \<Rightarrow> FileSystemSandboxEntry list \<Rightarrow> FileSystemSandboxEntry list" where
  "append_default_read_only_path_if_no_explicit_rule p es =
     append_default_read_only_entry_if_no_explicit_rule (FsPath p) es"

definition append_default_read_only_project_root_subpath_if_no_explicit_rule ::
    "string \<Rightarrow> FileSystemSandboxEntry list \<Rightarrow> FileSystemSandboxEntry list" where
  "append_default_read_only_project_root_subpath_if_no_explicit_rule subpath es =
     append_default_read_only_entry_if_no_explicit_rule (Special (SpProjectRoots (Some subpath))) es"

definition keep_read_entry :: "WritableRoot list \<Rightarrow> FileSystemSandboxEntry \<Rightarrow> bool" where
  "keep_read_entry legacy_writable_roots e =
     (if fse_access e \<noteq> AccRead then True
      else case fse_path e of
          FsPath p \<Rightarrow> \<not> list_ex (\<lambda>root. is_path_writable root p) legacy_writable_roots
        | _ \<Rightarrow> True)"

definition prune_read_entries_under_writable_roots ::
    "WritableRoot list \<Rightarrow> FileSystemSandboxEntry list \<Rightarrow> FileSystemSandboxEntry list" where
  "prune_read_entries_under_writable_roots legacy_writable_roots es =
     filter (keep_read_entry legacy_writable_roots) es"

definition legacy_non_cwd_writable_roots ::
    "fs_env \<Rightarrow> path list \<Rightarrow> bool \<Rightarrow> bool \<Rightarrow> WritableRoot list" where
  "legacy_non_cwd_writable_roots env writable_roots exclude_tmpdir_env_var exclude_slash_tmp =
     (let roots = writable_roots
            @ (if \<not> exclude_slash_tmp
               then case slash_tmp_path env of Some t \<Rightarrow> [t] | None \<Rightarrow> [] else [])
            @ (if \<not> exclude_tmpdir_env_var
               then case tmpdir_path env of Some t \<Rightarrow> [t] | None \<Rightarrow> [] else [])
      in map (\<lambda>root. \<lparr>wr_root = root,
                wr_read_only_subpaths = default_read_only_subpaths_for_writable_root env root False\<rparr>)
           (dedup_absolute_paths env roots True))"

definition protect_root :: "fs_env \<Rightarrow> bool \<Rightarrow> path \<Rightarrow> FileSystemSandboxEntry list \<Rightarrow> FileSystemSandboxEntry list" where
  "protect_root env protect_missing_dot_codex writable_root es =
     fold append_default_read_only_path_if_no_explicit_rule
       (default_read_only_subpaths_for_writable_root env writable_root protect_missing_dot_codex) es"

definition map_entries ::
    "(FileSystemSandboxEntry list \<Rightarrow> FileSystemSandboxEntry list) \<Rightarrow> FileSystemSandboxPolicy \<Rightarrow> FileSystemSandboxPolicy" where
  "map_entries f pol = pol\<lparr>fs_entries := f (fs_entries pol)\<rparr>"

definition from_legacy_sandbox_policy :: "fs_env \<Rightarrow> SandboxPolicy \<Rightarrow> FileSystemSandboxPolicy" where
  "from_legacy_sandbox_policy env sandbox_policy =
     (let file_system_policy = FileSystemSandboxPolicy_from sandbox_policy in
      case sandbox_policy of
        WorkspaceWrite writable_roots _ exclude_tmpdir_env_var exclude_slash_tmp \<Rightarrow>
          map_entries (\<lambda>es.
            fold (protect_root env False) writable_roots
              (append_default_read_only_project_root_subpath_if_no_explicit_rule ''.codex''
                (append_default_read_only_project_root_subpath_if_no_explicit_rule ''.agents''
                  (append_default_read_only_project_root_subpath_if_no_explicit_rule ''.git''
                    (prune_read_entries_under_writable_roots
                      (legacy_non_cwd_writable_roots env writable_roots exclude_tmpdir_env_var exclude_slash_tmp)
                      es))))) file_system_policy
      | _ \<Rightarrow> file_system_policy)"

definition from_legacy_sandbox_policy_for_cwd ::
    "fs_env \<Rightarrow> SandboxPolicy \<Rightarrow> string \<Rightarrow> FileSystemSandboxPolicy" where
  "from_legacy_sandbox_policy_for_cwd env sandbox_policy cwd =
     (let file_system_policy = FileSystemSandboxPolicy_from sandbox_policy in
      case sandbox_policy of
        WorkspaceWrite writable_roots _ _ _ \<Rightarrow>
          map_entries (\<lambda>es.
            fold (protect_root env False) writable_roots
              ((case absolute_ok env cwd of Some cwd_root \<Rightarrow> protect_root env True cwd_root | None \<Rightarrow> id)
                (prune_read_entries_under_writable_roots
                  (sandbox_writable_roots_with_cwd env sandbox_policy cwd) es))) file_system_policy
      | _ \<Rightarrow> file_system_policy)"

text \<open>The loop that adds the deny entries of a policy that are not there yet.\<close>

definition add_deny_entries ::
    "FileSystemSandboxEntry list \<Rightarrow> FileSystemSandboxEntry list \<Rightarrow> FileSystemSandboxEntry list" where
  "add_deny_entries existing es =
     fold (\<lambda>deny_entry es. if deny_entry \<in> set es then es else es @ [deny_entry])
       (filter (\<lambda>e. fse_access e = AccNone) existing) es"

definition from_legacy_sandbox_policy_preserving_deny_entries ::
    "fs_env \<Rightarrow> SandboxPolicy \<Rightarrow> string \<Rightarrow> FileSystemSandboxPolicy \<Rightarrow> FileSystemSandboxPolicy" where
  "from_legacy_sandbox_policy_preserving_deny_entries env sandbox_policy cwd existing =
     (let rebuilt = from_legacy_sandbox_policy_for_cwd env sandbox_policy cwd in
      if fs_kind rebuilt \<noteq> Restricted then rebuilt
      else map_entries (add_deny_entries (fs_entries existing))
             (rebuilt\<lparr>fs_glob_scan_max_depth := fs_glob_scan_max_depth existing\<rparr>))"

definition preserve_deny_read_restrictions_from ::
    "FileSystemSandboxPolicy \<Rightarrow> FileSystemSandboxPolicy \<Rightarrow> FileSystemSandboxPolicy" where
  "preserve_deny_read_restrictions_from existing self0 =
     (let has_deny_read_entries = list_ex (\<lambda>e. fse_access e = AccNone) (fs_entries existing);
          self = (if fs_kind self0 = Unrestricted \<and> has_deny_read_entries
                  then fs_restricted [fs_entry (Special SpRoot) AccWrite] else self0)
      in if fs_kind self \<noteq> Restricted then self
         else map_entries (add_deny_entries (fs_entries existing))
           (if fs_glob_scan_max_depth self = None
            then self\<lparr>fs_glob_scan_max_depth := fs_glob_scan_max_depth existing\<rparr> else self))"

section \<open>To the legacy policy\<close>

record legacy_acc =
  la_workspace_root_writable :: bool
  la_writable_roots :: "path list"
  la_tmpdir_writable :: bool
  la_slash_tmp_writable :: bool
  la_unbridgeable_root_write :: bool

definition legacy_special :: "fs_env \<Rightarrow> path option \<Rightarrow> FileSystemSpecialPath \<Rightarrow> FileSystemAccessMode \<Rightarrow> legacy_acc \<Rightarrow> legacy_acc" where
  "legacy_special env cwd_absolute v access acc =
     (case v of
        SpRoot \<Rightarrow> if access = AccWrite then acc\<lparr>la_unbridgeable_root_write := True\<rparr> else acc
      | SpMinimal \<Rightarrow> acc
      | SpCurrentWorkingDirectory \<Rightarrow>
          if can_write access then acc\<lparr>la_workspace_root_writable := True\<rparr> else acc
      | SpProjectRoots subpath \<Rightarrow>
          if subpath = None \<and> can_write access then acc\<lparr>la_workspace_root_writable := True\<rparr>
          else (case resolve_file_system_special_path env v cwd_absolute of
                  Some p \<Rightarrow>
                    if can_write access then acc\<lparr>la_writable_roots := la_writable_roots acc @ [p]\<rparr> else acc
                | None \<Rightarrow> acc)
      | SpTmpdir \<Rightarrow> if can_write access then acc\<lparr>la_tmpdir_writable := True\<rparr> else acc
      | SpSlashTmp \<Rightarrow> if can_write access then acc\<lparr>la_slash_tmp_writable := True\<rparr> else acc
      | SpUnknown _ _ \<Rightarrow> acc)"

definition legacy_step :: "fs_env \<Rightarrow> path option \<Rightarrow> FileSystemSandboxEntry \<Rightarrow> legacy_acc \<Rightarrow> legacy_acc" where
  "legacy_step env cwd_absolute e acc =
     (case fse_path e of
        GlobPattern _ \<Rightarrow> acc
      | FsPath p \<Rightarrow>
          if can_write (fse_access e) then
            if cwd_absolute = Some p then acc\<lparr>la_workspace_root_writable := True\<rparr>
            else acc\<lparr>la_writable_roots := la_writable_roots acc @ [p]\<rparr>
          else acc
      | Special v \<Rightarrow> legacy_special env cwd_absolute v (fse_access e) acc)"

definition network_access_of :: "NetworkSandboxPolicy \<Rightarrow> NetworkAccess" where
  "network_access_of network_policy = (if net_is_enabled network_policy then NaEnabled else NaRestricted)"

definition UNSUPPORTED_WRITES :: string where
  "UNSUPPORTED_WRITES =
     ''permissions profile requests filesystem writes outside the workspace root, which is not supported until the runtime enforces FileSystemSandboxPolicy directly''"

definition to_legacy_sandbox_policy ::
    "fs_env \<Rightarrow> FileSystemSandboxPolicy \<Rightarrow> NetworkSandboxPolicy \<Rightarrow> string \<Rightarrow> string + SandboxPolicy" where
  "to_legacy_sandbox_policy env self network_policy cwd =
     (case fs_kind self of
        ExternalSandbox \<Rightarrow> Ok (SpExternalSandbox (network_access_of network_policy))
      | Unrestricted \<Rightarrow>
          Ok (if net_is_enabled network_policy then DangerFullAccess else SpExternalSandbox NaRestricted)
      | Restricted \<Rightarrow>
          let acc = fold (legacy_step env (absolute_ok env cwd)) (fs_entries self)
                \<lparr>la_workspace_root_writable = False, la_writable_roots = [], la_tmpdir_writable = False,
                 la_slash_tmp_writable = False, la_unbridgeable_root_write = False\<rparr>
          in if fs_has_full_disk_write_access self then
               Ok (if net_is_enabled network_policy then DangerFullAccess else SpExternalSandbox NaRestricted)
             else if la_workspace_root_writable acc then
               Ok (WorkspaceWrite (dedup_absolute_paths env (la_writable_roots acc) False)
                     (net_is_enabled network_policy) (\<not> la_tmpdir_writable acc) (\<not> la_slash_tmp_writable acc))
             else if la_unbridgeable_root_write acc \<or> la_writable_roots acc \<noteq> []
                     \<or> la_tmpdir_writable acc \<or> la_slash_tmp_writable acc then
               Err UNSUPPORTED_WRITES
             else Ok (SpReadOnly (net_is_enabled network_policy)))"

section \<open>Comparing policies\<close>

definition sorted_absolute_paths :: "path list \<Rightarrow> path list" where
  "sorted_absolute_paths ps = sort ps"

definition sorted_writable_roots :: "WritableRoot list \<Rightarrow> WritableRoot list" where
  "sorted_writable_roots roots =
     sort_key wr_root (map (\<lambda>root. root\<lparr>wr_read_only_subpaths := sorted_absolute_paths (wr_read_only_subpaths root)\<rparr>) roots)"

record FileSystemSemanticSignature =
  sig_full_disk_read :: bool
  sig_full_disk_write :: bool
  sig_platform_defaults :: bool
  sig_readable_roots :: "path list"
  sig_writable_roots :: "WritableRoot list"
  sig_unreadable_roots :: "path list"
  sig_unreadable_globs :: "string list"

definition semantic_signature :: "fs_env \<Rightarrow> FileSystemSandboxPolicy \<Rightarrow> string \<Rightarrow> FileSystemSemanticSignature" where
  "semantic_signature env self cwd =
     \<lparr>sig_full_disk_read = fs_has_full_disk_read_access self,
      sig_full_disk_write = fs_has_full_disk_write_access self,
      sig_platform_defaults = include_platform_defaults self,
      sig_readable_roots = sorted_absolute_paths (get_readable_roots_with_cwd env self cwd),
      sig_writable_roots = sorted_writable_roots (get_writable_roots_with_cwd env self cwd),
      sig_unreadable_roots = sorted_absolute_paths (get_unreadable_roots_with_cwd env self cwd),
      sig_unreadable_globs = get_unreadable_globs_with_cwd env self cwd\<rparr>"

definition is_semantically_equivalent_to ::
    "fs_env \<Rightarrow> FileSystemSandboxPolicy \<Rightarrow> FileSystemSandboxPolicy \<Rightarrow> string \<Rightarrow> bool" where
  "is_semantically_equivalent_to env self other cwd =
     (semantic_signature env self cwd = semantic_signature env other cwd)"

definition needs_direct_runtime_enforcement ::
    "fs_env \<Rightarrow> FileSystemSandboxPolicy \<Rightarrow> NetworkSandboxPolicy \<Rightarrow> string \<Rightarrow> bool" where
  "needs_direct_runtime_enforcement env self network_policy cwd =
     (if fs_kind self \<noteq> Restricted then False
      else case to_legacy_sandbox_policy env self network_policy cwd of
          Inl _ \<Rightarrow> True
        | Inr legacy_policy \<Rightarrow>
            semantic_signature env self cwd \<noteq>
            semantic_signature env (from_legacy_sandbox_policy_for_cwd env legacy_policy cwd) cwd)"

section \<open>Permission profiles\<close>

datatype SandboxEnforcement = EnfManaged | EnfDisabled | EnfExternal

fun SandboxEnforcement_from_legacy :: "SandboxPolicy \<Rightarrow> SandboxEnforcement" where
  "SandboxEnforcement_from_legacy DangerFullAccess = EnfDisabled"
| "SandboxEnforcement_from_legacy (SpExternalSandbox _) = EnfExternal"
| "SandboxEnforcement_from_legacy _ = EnfManaged"

text \<open>The depth of a managed profile is a \<open>NonZeroUsize\<close>.\<close>

datatype ManagedFileSystemPermissions =
    MfsRestricted "FileSystemSandboxEntry list" "nat option"
  | MfsUnrestricted

definition non_zero :: "nat option \<Rightarrow> nat option" where
  "non_zero d = (case d of Some 0 \<Rightarrow> None | _ \<Rightarrow> d)"

text \<open>\<open>None\<close> is the \<open>unreachable!\<close> of the source.\<close>

definition managed_from_sandbox_policy :: "FileSystemSandboxPolicy \<Rightarrow> ManagedFileSystemPermissions option" where
  "managed_from_sandbox_policy pol =
     (case fs_kind pol of
        Restricted \<Rightarrow> Some (MfsRestricted (fs_entries pol) (non_zero (fs_glob_scan_max_depth pol)))
      | Unrestricted \<Rightarrow> Some MfsUnrestricted
      | ExternalSandbox \<Rightarrow> None)"

fun managed_to_sandbox_policy :: "ManagedFileSystemPermissions \<Rightarrow> FileSystemSandboxPolicy" where
  "managed_to_sandbox_policy (MfsRestricted entries depth) =
     \<lparr>fs_kind = Restricted, fs_glob_scan_max_depth = depth, fs_entries = entries\<rparr>"
| "managed_to_sandbox_policy MfsUnrestricted = fs_unrestricted"

datatype PermissionProfile =
    Managed ManagedFileSystemPermissions NetworkSandboxPolicy
  | Disabled
  | External NetworkSandboxPolicy

definition PermissionProfile_default :: PermissionProfile where
  "PermissionProfile_default = Managed (MfsRestricted [] None) NetRestricted"

definition profile_read_only :: PermissionProfile where
  "profile_read_only = Managed (MfsRestricted [fs_entry (Special SpRoot) AccRead] None) NetRestricted"

definition profile_workspace_write :: PermissionProfile where
  "profile_workspace_write =
     Managed (MfsRestricted
       [fs_entry (Special SpRoot) AccRead,
        fs_entry (Special SpCurrentWorkingDirectory) AccWrite,
        fs_entry (Special SpSlashTmp) AccWrite,
        fs_entry (Special SpTmpdir) AccWrite,
        fs_entry (Special (SpProjectRoots (Some ''.git''))) AccRead,
        fs_entry (Special (SpProjectRoots (Some ''.agents''))) AccRead,
        fs_entry (Special (SpProjectRoots (Some ''.codex''))) AccRead] None) NetRestricted"

definition from_runtime_permissions_with_enforcement ::
    "SandboxEnforcement \<Rightarrow> FileSystemSandboxPolicy \<Rightarrow> NetworkSandboxPolicy \<Rightarrow> PermissionProfile option" where
  "from_runtime_permissions_with_enforcement enforcement pol network =
     (if fs_kind pol = ExternalSandbox then Some (External network)
      else if fs_kind pol = Unrestricted \<and> enforcement = EnfDisabled then Some Disabled
      else map_option (\<lambda>m. Managed m network) (managed_from_sandbox_policy pol))"

definition from_runtime_permissions ::
    "FileSystemSandboxPolicy \<Rightarrow> NetworkSandboxPolicy \<Rightarrow> PermissionProfile option" where
  "from_runtime_permissions pol network =
     from_runtime_permissions_with_enforcement
       (if fs_kind pol = ExternalSandbox then EnfExternal else EnfManaged) pol network"

definition profile_from_legacy_sandbox_policy :: "fs_env \<Rightarrow> SandboxPolicy \<Rightarrow> PermissionProfile option" where
  "profile_from_legacy_sandbox_policy env sandbox_policy =
     from_runtime_permissions_with_enforcement (SandboxEnforcement_from_legacy sandbox_policy)
       (from_legacy_sandbox_policy env sandbox_policy) (NetworkSandboxPolicy_from sandbox_policy)"

fun profile_enforcement :: "PermissionProfile \<Rightarrow> SandboxEnforcement" where
  "profile_enforcement (Managed _ _) = EnfManaged"
| "profile_enforcement Disabled = EnfDisabled"
| "profile_enforcement (External _) = EnfExternal"

fun profile_file_system_sandbox_policy :: "PermissionProfile \<Rightarrow> FileSystemSandboxPolicy" where
  "profile_file_system_sandbox_policy (Managed file_system _) = managed_to_sandbox_policy file_system"
| "profile_file_system_sandbox_policy Disabled = fs_unrestricted"
| "profile_file_system_sandbox_policy (External _) = fs_external_sandbox"

fun profile_network_sandbox_policy :: "PermissionProfile \<Rightarrow> NetworkSandboxPolicy" where
  "profile_network_sandbox_policy (Managed _ network) = network"
| "profile_network_sandbox_policy (External network) = network"
| "profile_network_sandbox_policy Disabled = NetEnabled"

fun profile_to_legacy_sandbox_policy :: "fs_env \<Rightarrow> PermissionProfile \<Rightarrow> string \<Rightarrow> string + SandboxPolicy" where
  "profile_to_legacy_sandbox_policy env (Managed file_system network) cwd =
     to_legacy_sandbox_policy env (managed_to_sandbox_policy file_system) network cwd"
| "profile_to_legacy_sandbox_policy env Disabled cwd = Ok DangerFullAccess"
| "profile_to_legacy_sandbox_policy env (External network) cwd =
     Ok (SpExternalSandbox (network_access_of network))"

section \<open>Lemmas\<close>

lemma map_entries_simps [simp]:
  "fs_kind (map_entries f pol) = fs_kind pol"
  "fs_entries (map_entries f pol) = f (fs_entries pol)"
  "fs_glob_scan_max_depth (map_entries f pol) = fs_glob_scan_max_depth pol"
  by (simp_all add: map_entries_def)

text \<open>Adding the default read-only entries changes nothing the conversion back looks at.\<close>

definition appends_reads ::
    "(FileSystemSandboxEntry list \<Rightarrow> FileSystemSandboxEntry list) \<Rightarrow> bool" where
  "appends_reads f \<longleftrightarrow> (\<forall>es. \<exists>rs. f es = es @ rs \<and> (\<forall>r \<in> set rs. fse_access r = AccRead \<and> fse_path r \<noteq> Special SpRoot))"

lemma appends_reads_id: "appends_reads (\<lambda>es. es)"
  by (simp add: appends_reads_def)

lemma appends_reads_comp:
  assumes "appends_reads f" and "appends_reads g"
  shows "appends_reads (\<lambda>es. f (g es))"
  unfolding appends_reads_def
proof
  fix es
  let ?ok = "\<lambda>rs. \<forall>r \<in> set rs. fse_access r = AccRead \<and> fse_path r \<noteq> Special SpRoot"
  obtain rs where g: "g es = es @ rs" "?ok rs" using assms(2) unfolding appends_reads_def by blast
  obtain ss where f: "f (es @ rs) = (es @ rs) @ ss" "?ok ss" using assms(1) unfolding appends_reads_def by blast
  have "f (g es) = es @ (rs @ ss) \<and> ?ok (rs @ ss)" using f g by auto
  then show "\<exists>rs. f (g es) = es @ rs \<and> ?ok rs" by blast
qed

lemma appends_reads_fold:
  assumes "\<And>x. appends_reads (f x)"
  shows "appends_reads (fold f xs)"
proof (induction xs)
  case Nil
  then show ?case by (simp add: id_def appends_reads_id)
next
  case (Cons x xs)
  then show ?case using appends_reads_comp [OF Cons assms] by (simp add: comp_def)
qed

lemma appends_reads_default:
  "p \<noteq> Special SpRoot \<Longrightarrow> appends_reads (append_default_read_only_entry_if_no_explicit_rule p)"
  by (auto simp: appends_reads_def append_default_read_only_entry_if_no_explicit_rule_def fs_entry_def)

lemma appends_reads_protect: "appends_reads (protect_root env b r)"
proof -
  have "appends_reads (append_default_read_only_path_if_no_explicit_rule p)" for p
    using appends_reads_default [of "FsPath p"]
    by (simp add: appends_reads_def append_default_read_only_path_if_no_explicit_rule_def)
  then have "appends_reads (fold append_default_read_only_path_if_no_explicit_rule ps)" for ps
    by (rule appends_reads_fold)
  then show ?thesis unfolding appends_reads_def protect_root_def by blast
qed

lemma appends_reads_project:
  "appends_reads (append_default_read_only_project_root_subpath_if_no_explicit_rule s)"
  using appends_reads_default [of "Special (SpProjectRoots (Some s))"]
  by (simp add: appends_reads_def append_default_read_only_project_root_subpath_if_no_explicit_rule_def)

definition workspace_entries :: "path list \<Rightarrow> bool \<Rightarrow> bool \<Rightarrow> FileSystemSandboxEntry list" where
  "workspace_entries roots t s = fs_entries (FileSystemSandboxPolicy_from (WorkspaceWrite roots False t s))"

lemma prune_workspace [simp]:
  "prune_read_entries_under_writable_roots ws (workspace_entries roots t s) = workspace_entries roots t s"
  by (auto simp: prune_read_entries_under_writable_roots_def workspace_entries_def keep_read_entry_def
      fs_restricted_def fs_entry_def filter_id_conv)

lemma from_legacy_workspace:
  assumes "p = WorkspaceWrite roots n t s"
  shows "\<exists>rs. from_legacy_sandbox_policy env p = fs_restricted (workspace_entries roots t s @ rs)
           \<and> (\<forall>r \<in> set rs. fse_access r = AccRead \<and> fse_path r \<noteq> Special SpRoot)" (is ?cwd_free)
    and "\<exists>rs. from_legacy_sandbox_policy_for_cwd env p cwd = fs_restricted (workspace_entries roots t s @ rs)
           \<and> (\<forall>r \<in> set rs. fse_access r = AccRead \<and> fse_path r \<noteq> Special SpRoot)" (is ?for_cwd)
proof -
  let ?ok = "\<lambda>rs. \<forall>r \<in> set rs. fse_access r = AccRead \<and> fse_path r \<noteq> Special SpRoot"
  have ex: "\<exists>rs. fs_restricted (F es) = fs_restricted (es @ rs) \<and> ?ok rs" if F: "appends_reads F" for F es
  proof -
    obtain rs where "F es = es @ rs" "?ok rs" using F unfolding appends_reads_def by blast
    then show ?thesis by auto
  qed
  have b: "FileSystemSandboxPolicy_from p = fs_restricted (workspace_entries roots t s)"
    by (simp add: assms workspace_entries_def fs_restricted_def)
  have r: "map_entries F (fs_restricted es) = fs_restricted (F es)" for F es
    by (simp add: map_entries_def fs_restricted_def)
  have f: "appends_reads (fold (protect_root env False) roots)"
    by (rule appends_reads_fold) (rule appends_reads_protect)
  have g: "appends_reads (\<lambda>es. fold (protect_root env False) roots
      (append_default_read_only_project_root_subpath_if_no_explicit_rule ''.codex''
        (append_default_read_only_project_root_subpath_if_no_explicit_rule ''.agents''
          (append_default_read_only_project_root_subpath_if_no_explicit_rule ''.git'' es))))"
    by (rule appends_reads_comp [OF f appends_reads_comp [OF appends_reads_project
          appends_reads_comp [OF appends_reads_project appends_reads_project]]])
  have eq: "from_legacy_sandbox_policy env p = fs_restricted ((\<lambda>es. fold (protect_root env False) roots
      (append_default_read_only_project_root_subpath_if_no_explicit_rule ''.codex''
        (append_default_read_only_project_root_subpath_if_no_explicit_rule ''.agents''
          (append_default_read_only_project_root_subpath_if_no_explicit_rule ''.git'' es))))
      (workspace_entries roots t s))"
    unfolding from_legacy_sandbox_policy_def b Let_def by (simp add: assms r)
  show ?cwd_free unfolding eq by (rule ex [OF g])
  have h: "appends_reads (\<lambda>es. fold (protect_root env False) roots
      ((case absolute_ok env cwd of Some cwd_root \<Rightarrow> protect_root env True cwd_root | None \<Rightarrow> id) es))"
    by (rule appends_reads_comp [OF f])
      (cases "absolute_ok env cwd"; simp add: appends_reads_protect appends_reads_id id_def)
  have eq': "from_legacy_sandbox_policy_for_cwd env p cwd = fs_restricted ((\<lambda>es. fold (protect_root env False) roots
      ((case absolute_ok env cwd of Some cwd_root \<Rightarrow> protect_root env True cwd_root | None \<Rightarrow> id) es))
      (workspace_entries roots t s))"
    unfolding from_legacy_sandbox_policy_for_cwd_def b Let_def by (simp add: assms r)
  show ?for_cwd unfolding eq' by (rule ex [OF h])
qed

lemma legacy_step_read: "fse_access e = AccRead \<Longrightarrow> legacy_step env c e acc = acc"
  by (auto simp: legacy_step_def legacy_special_def can_write_def
      split: FileSystemPath.splits FileSystemSpecialPath.splits option.splits)

lemma legacy_steps_read: "\<forall>r \<in> set rs. fse_access r = AccRead \<Longrightarrow> fold (legacy_step env c) rs acc = acc"
  by (induction rs) (auto simp: legacy_step_read)

lemma legacy_steps_roots:
  "\<forall>r \<in> set roots. c \<noteq> Some r \<Longrightarrow>
   fold (legacy_step env c) (map (\<lambda>p. fs_entry (FsPath p) AccWrite) roots) acc =
     acc\<lparr>la_writable_roots := la_writable_roots acc @ roots\<rparr>"
  by (induction roots arbitrary: acc) (simp_all add: legacy_step_def can_write_def fs_entry_def)

lemma dedup_distinct: "distinct ps \<Longrightarrow> set ps \<inter> seen = {} \<Longrightarrow> dedup_paths ps seen = ps"
  by (induction ps seen rule: dedup_paths.induct) auto

lemma to_legacy_workspace:
  assumes "distinct roots" and "\<forall>r \<in> set roots. absolute_ok env cwd \<noteq> Some r"
    and "\<forall>r \<in> set rs. fse_access r = AccRead \<and> fse_path r \<noteq> Special SpRoot"
  shows "to_legacy_sandbox_policy env (fs_restricted (workspace_entries roots t s @ rs)) net cwd =
           Ok (WorkspaceWrite roots (net_is_enabled net) t s)"
proof -
  have full: "\<not> fs_has_full_disk_write_access (fs_restricted (workspace_entries roots t s @ rs))"
    using assms(3)
    by (auto simp: fs_has_full_disk_write_access_def has_root_access_def fs_restricted_def list_ex_iff
        workspace_entries_def fs_entry_def can_write_def split: if_splits)
  have "\<forall>r \<in> set rs. fse_access r = AccRead" using assms(3) by blast
  from legacy_steps_read [OF this] legacy_steps_roots [OF assms(2)]
  have "fold (legacy_step env (absolute_ok env cwd)) (workspace_entries roots t s @ rs)
          \<lparr>la_workspace_root_writable = False, la_writable_roots = [], la_tmpdir_writable = False,
           la_slash_tmp_writable = False, la_unbridgeable_root_write = False\<rparr> =
        \<lparr>la_workspace_root_writable = True, la_writable_roots = roots, la_tmpdir_writable = (\<not> t),
         la_slash_tmp_writable = (\<not> s), la_unbridgeable_root_write = False\<rparr>"
    by (simp add: workspace_entries_def fs_restricted_def legacy_step_def legacy_special_def fs_entry_def can_write_def)
  with full assms(1) show ?thesis
    by (simp add: to_legacy_sandbox_policy_def fs_restricted_def dedup_absolute_paths_def dedup_distinct)
qed

lemma to_legacy_read_only:
  "to_legacy_sandbox_policy env (fs_restricted [fs_entry (Special SpRoot) AccRead]) net cwd =
     Ok (SpReadOnly (net_is_enabled net))"
  by (simp add: to_legacy_sandbox_policy_def fs_restricted_def fs_has_full_disk_write_access_def
      has_root_access_def can_write_def fs_entry_def legacy_step_def legacy_special_def)

text \<open>The deny entries of another policy, added.\<close>

lemma set_add_deny_entries:
  "set (add_deny_entries existing es) = set es \<union> {e \<in> set existing. fse_access e = AccNone}"
proof -
  have "set (fold (\<lambda>d es. if d \<in> set es then es else es @ [d]) ds es) = set es \<union> set ds" for ds
    by (induction ds arbitrary: es) auto
  then show ?thesis by (auto simp: add_deny_entries_def)
qed

lemma access_at_cong:
  assumes "\<And>e. prefix (rfe_path e) q \<Longrightarrow> e \<in> set es \<longleftrightarrow> e \<in> set es'"
  shows "access_at es q = access_at es' q"
proof -
  have d: "decides es q e \<longleftrightarrow> decides es' q e" for e
    using assms by (auto simp: decides_def)
  show ?thesis
  proof (cases "\<exists>e. decides es q e")
    case True
    then obtain e where "decides es q e" ..
    with access_at_decides [of es q e] access_at_decides [of es' q e] d show ?thesis by simp
  next
    case False
    with access_at_none [of es q] access_at_none [of es' q] d show ?thesis by simp
  qed
qed

lemma resolved_union:
  assumes "set (fs_entries pol') = set (fs_entries pol) \<union> {e \<in> set (fs_entries existing). fse_access e = AccNone}"
  shows "r \<in> set (resolved_entries_with_cwd env pol' cwd) \<longleftrightarrow>
     r \<in> set (resolved_entries_with_cwd env pol cwd)
     \<or> r \<in> set (resolved_entries_with_cwd env existing cwd) \<and> rfe_access r = AccNone"
  unfolding resolved_iff assms by auto

section \<open>Properties\<close>

definition legacy_plain :: "fs_env \<Rightarrow> SandboxPolicy \<Rightarrow> string \<Rightarrow> bool" where
  "legacy_plain env p cwd =
     (case p of
        WorkspaceWrite roots _ _ _ \<Rightarrow> distinct roots \<and> list_all (\<lambda>r. absolute_ok env cwd \<noteq> Some r) roots
      | _ \<Rightarrow> True)"

lemma fs_restricted_record: "\<lparr>fs_kind = Restricted, fs_glob_scan_max_depth = None, fs_entries = es\<rparr> = fs_restricted es"
  by (simp add: fs_restricted_def)



lemma root_write_access:
  assumes "abs_wf c" and "absolute_ok env cwd = Some c" and "abs_wf q"
  shows "access_at (resolved_entries_with_cwd env (fs_restricted [fs_entry (Special SpRoot) AccWrite]) cwd) q = AccWrite"
proof -
  have "resolved_entries_with_cwd env (fs_restricted [fs_entry (Special SpRoot) AccWrite]) cwd =
      [\<lparr>rfe_path = [RootDir], rfe_access = AccWrite\<rparr>]"
    using root_for_cwd [OF assms(1)] assms(2)
    by (simp add: resolved_entries_with_cwd_def fs_restricted_def List.map_filter_def resolve_entry_path_def fs_entry_def)
  then show ?thesis using root_prefix [OF assms(3)] by (simp add: access_at_def)
qed



end
