(* ===== verification/Exec_Approval.thy ===== *)
theory Exec_Approval
  imports Exec_Parser Command_Safety Legacy_Sandbox
begin

text \<open>
  Whether a command runs, runs after asking, or does not run: \<open>core/src/exec_policy.rs\<close>.

  The manager holds the policy of \<open>execpolicy\<close> (\<open>Exec_Policy\<close>), splits a shell
  script into its commands with \<open>shell-command\<close> (\<open>Shell_Bash\<close>), falls back on the lists of
  safe and dangerous commands (\<open>Command_Safety\<close>) where no rule matches, and knows the approval
  policy and the permission profile of the turn (\<open>Legacy_Sandbox\<close>). The components meet here;
  the lemmas say what has to be true of every command of a script for it to run without asking,
  and what an amendment accepted by the user changes.
\<close>

section \<open>Data\<close>

record GranularApprovalConfig =
  sandbox_approval :: bool
  rules_approval :: bool
  skill_approval :: bool
  request_permissions :: bool
  mcp_elicitations :: bool

datatype AskForApproval = UnlessTrusted | OnFailure | OnRequest | Granular GranularApprovalConfig | Never

datatype SandboxPermissions = UseDefault | RequireEscalated | WithAdditionalPermissions

definition requires_escalated_permissions :: "SandboxPermissions \<Rightarrow> bool" where
  "requires_escalated_permissions p = (p = RequireEscalated)"

definition requests_sandbox_override :: "SandboxPermissions \<Rightarrow> bool" where
  "requests_sandbox_override p = (p \<noteq> UseDefault)"

text \<open>An amendment is the command prefix it allows.\<close>

type_synonym ExecPolicyAmendment = "string list"

datatype ExecApprovalRequirement =
    ReqSkip bool "ExecPolicyAmendment option"
  | ReqNeedsApproval "string option" "ExecPolicyAmendment option"
  | ReqForbidden string

fun proposed_execpolicy_amendment :: "ExecApprovalRequirement \<Rightarrow> ExecPolicyAmendment option" where
  "proposed_execpolicy_amendment (ReqNeedsApproval _ amendment) = amendment"
| "proposed_execpolicy_amendment (ReqSkip _ amendment) = amendment"
| "proposed_execpolicy_amendment (ReqForbidden _) = None"

record approval_env =
  ap_exec :: exec_env
  ap_safety :: safety_env
  ap_fs :: fs_env

record ExecApprovalRequest =
  req_command :: "string list"
  req_approval_policy :: AskForApproval
  req_permission_profile :: PermissionProfile
  req_file_system_sandbox_policy :: FileSystemSandboxPolicy
  req_sandbox_cwd :: string
  req_sandbox_permissions :: SandboxPermissions
  req_prefix_rule :: "string list option"

text \<open>The condition \<open>cfg!(windows)\<close> of the Unix build.\<close>

definition cfg_windows :: bool where
  "cfg_windows = False"

section \<open>Reasons\<close>

definition PROMPT_CONFLICT_REASON :: string where
  "PROMPT_CONFLICT_REASON = ''approval required by policy, but AskForApproval is set to Never''"

definition REJECT_SANDBOX_APPROVAL_REASON :: string where
  "REJECT_SANDBOX_APPROVAL_REASON =
     ''approval required by policy, but AskForApproval::Granular.sandbox_approval is false''"

definition REJECT_RULES_APPROVAL_REASON :: string where
  "REJECT_RULES_APPROVAL_REASON =
     ''approval required by policy rule, but AskForApproval::Granular.rules is false''"

definition BANNED_PREFIX_SUGGESTIONS :: "string list list" where
  "BANNED_PREFIX_SUGGESTIONS =
     [[''python3''], [''python3'', ''-''], [''python3'', ''-c''], [''python''], [''python'', ''-''], [''python'', ''-c''],
      [''py''], [''py'', ''-3''], [''pythonw''], [''pyw''], [''pypy''], [''pypy3''], [''git''], [''bash''],
      [''bash'', ''-lc''], [''sh''], [''sh'', ''-c''], [''sh'', ''-lc''], [''zsh''], [''zsh'', ''-lc''], [''/bin/zsh''],
      [''/bin/zsh'', ''-lc''], [''/bin/bash''], [''/bin/bash'', ''-lc''], [''pwsh''], [''pwsh'', ''-Command''],
      [''pwsh'', ''-c''], [''powershell''], [''powershell'', ''-Command''], [''powershell'', ''-c''], [''powershell.exe''],
      [''powershell.exe'', ''-Command''], [''powershell.exe'', ''-c''], [''env''], [''sudo''], [''node''],
      [''node'', ''-e''], [''perl''], [''perl'', ''-e''], [''ruby''], [''ruby'', ''-e''], [''php''], [''php'', ''-r''],
      [''lua''], [''lua'', ''-e''], [''osascript'']]"

definition is_policy_match :: "RuleMatch \<Rightarrow> bool" where
  "is_policy_match m = (\<not> is_heuristics m)"

definition prompt_is_rejected_by_policy :: "AskForApproval \<Rightarrow> bool \<Rightarrow> string option" where
  "prompt_is_rejected_by_policy approval_policy prompt_is_rule =
     (case approval_policy of
        Never \<Rightarrow> Some PROMPT_CONFLICT_REASON
      | Granular granular_config \<Rightarrow>
          if prompt_is_rule then
            if \<not> rules_approval granular_config then Some REJECT_RULES_APPROVAL_REASON else None
          else if \<not> sandbox_approval granular_config then Some REJECT_SANDBOX_APPROVAL_REASON
          else None
      | _ \<Rightarrow> None)"

definition render_shlex_command :: "exec_env \<Rightarrow> string list \<Rightarrow> string" where
  "render_shlex_command env args =
     (case ee_shlex_join env args of Some s \<Rightarrow> s | None \<Rightarrow> str_join '' '' args)"

definition prefix_match_with :: "Decision \<Rightarrow> RuleMatch \<Rightarrow> (string list \<times> string option) option" where
  "prefix_match_with d m =
     (case m of
        PrefixRuleMatch mp dec _ just \<Rightarrow> if dec = d then Some (mp, just) else None
      | HeuristicsRuleMatch _ _ \<Rightarrow> None)"

definition most_specific :: "Decision \<Rightarrow> Evaluation \<Rightarrow> (string list \<times> string option) option" where
  "most_specific d ev =
     max_by_key (\<lambda>(mp, _). length mp)
       (List.map_filter (prefix_match_with d) (matched_rules ev))"

definition derive_prompt_reason :: "exec_env \<Rightarrow> string list \<Rightarrow> Evaluation \<Rightarrow> string option" where
  "derive_prompt_reason env command_args ev =
     (let cmd = render_shlex_command env command_args in
      case most_specific Prompt ev of
        Some (_, Some just) \<Rightarrow> Some (''`'' @ cmd @ ''` requires approval: '' @ just)
      | Some (_, None) \<Rightarrow> Some (''`'' @ cmd @ ''` requires approval by policy'')
      | None \<Rightarrow> None)"

definition derive_forbidden_reason :: "exec_env \<Rightarrow> string list \<Rightarrow> Evaluation \<Rightarrow> string" where
  "derive_forbidden_reason env command_args ev =
     (let cmd = render_shlex_command env command_args in
      case most_specific Forbidden ev of
        Some (_, Some just) \<Rightarrow> ''`'' @ cmd @ ''` rejected: '' @ just
      | Some (mp, None) \<Rightarrow>
          ''`'' @ cmd @ ''` rejected: policy forbids commands starting with `''
          @ render_shlex_command env mp @ ''`''
      | None \<Rightarrow> ''`'' @ cmd @ ''` rejected: blocked by policy'')"

section \<open>Commands no rule matches\<close>

definition profile_is_managed_read_only ::
    "fs_env \<Rightarrow> PermissionProfile \<Rightarrow> FileSystemSandboxPolicy \<Rightarrow> string \<Rightarrow> bool" where
  "profile_is_managed_read_only fs profile pol cwd =
     ((case profile of Managed _ _ \<Rightarrow> True | _ \<Rightarrow> False)
      \<and> fs_kind pol = Restricted
      \<and> \<not> fs_has_full_disk_write_access pol
      \<and> get_writable_roots_with_cwd fs pol cwd = [])"

definition render_decision_for_unmatched_command ::
    "approval_env \<Rightarrow> AskForApproval \<Rightarrow> PermissionProfile \<Rightarrow> FileSystemSandboxPolicy \<Rightarrow> string
       \<Rightarrow> SandboxPermissions \<Rightarrow> bool \<Rightarrow> string list \<Rightarrow> Decision" where
  "render_decision_for_unmatched_command env approval_policy profile pol cwd perms used_complex_parsing cmd =
     (if is_known_safe_command (ap_safety env) cmd \<and> \<not> used_complex_parsing then Allow
      else
        let environment_lacks_sandbox_protections =
              (cfg_windows \<and> profile_is_managed_read_only (ap_fs env) profile pol cwd)
        in if command_might_be_dangerous (env_bash (ap_safety env)) cmd \<or> environment_lacks_sandbox_protections
           then (case approval_policy of
                   Never \<Rightarrow> (case profile of Managed _ _ \<Rightarrow> Forbidden | _ \<Rightarrow> Allow)
                 | _ \<Rightarrow> Prompt)
           else (case approval_policy of
                   Never \<Rightarrow> Allow
                 | OnFailure \<Rightarrow> Allow
                 | UnlessTrusted \<Rightarrow> Prompt
                 | _ \<Rightarrow>
                     (case fs_kind pol of
                        Restricted \<Rightarrow> if requests_sandbox_override perms then Prompt else Allow
                      | _ \<Rightarrow> Allow)))"

definition commands_for_exec_policy :: "bash_parser \<Rightarrow> string list \<Rightarrow> string list list \<times> bool" where
  "commands_for_exec_policy parse cmd =
     (case parse_shell_lc_plain_commands parse cmd of
        Some (c # cs) \<Rightarrow> (c # cs, False)
      | _ \<Rightarrow>
          (case parse_shell_lc_single_command_prefix parse cmd of
             Some single_command \<Rightarrow> ([single_command], True)
           | None \<Rightarrow> ([cmd], False)))"

section \<open>Amendments\<close>

definition heuristics_command :: "Decision \<Rightarrow> RuleMatch \<Rightarrow> ExecPolicyAmendment option" where
  "heuristics_command d m =
     (case m of
        HeuristicsRuleMatch cmd dec \<Rightarrow> if dec = d then Some cmd else None
      | _ \<Rightarrow> None)"

definition try_derive_execpolicy_amendment_for_prompt_rules :: "RuleMatch list \<Rightarrow> ExecPolicyAmendment option" where
  "try_derive_execpolicy_amendment_for_prompt_rules ms =
     (if list_ex (\<lambda>m. is_policy_match m \<and> match_decision m = Prompt) ms then None
      else find_map (heuristics_command Prompt) ms)"

definition try_derive_execpolicy_amendment_for_allow_rules :: "RuleMatch list \<Rightarrow> ExecPolicyAmendment option" where
  "try_derive_execpolicy_amendment_for_allow_rules ms =
     (if list_ex is_policy_match ms then None else find_map (heuristics_command Allow) ms)"

definition decides_allow :: "Evaluation option \<Rightarrow> bool" where
  "decides_allow ev = (case ev of Some e \<Rightarrow> decision e = Allow | None \<Rightarrow> False)"

definition prefix_rule_would_approve_all_commands ::
    "exec_env \<Rightarrow> Policy \<Rightarrow> string list \<Rightarrow> string list list \<Rightarrow> (string list \<Rightarrow> Decision) \<Rightarrow> MatchOptions \<Rightarrow> bool" where
  "prefix_rule_would_approve_all_commands env exec_policy pre commands exec_policy_fallback options =
     (case add_prefix_rule exec_policy pre Allow of
        Inl _ \<Rightarrow> False
      | Inr policy_with_prefix_rule \<Rightarrow>
          list_all (\<lambda>cmd. decides_allow
            (check_with_options env policy_with_prefix_rule cmd exec_policy_fallback options)) commands)"

definition derive_requested_execpolicy_amendment_from_prefix_rule ::
    "exec_env \<Rightarrow> string list option \<Rightarrow> RuleMatch list \<Rightarrow> Policy \<Rightarrow> string list list
       \<Rightarrow> (string list \<Rightarrow> Decision) \<Rightarrow> MatchOptions \<Rightarrow> ExecPolicyAmendment option" where
  "derive_requested_execpolicy_amendment_from_prefix_rule env requested ms exec_policy commands fallback options =
     (case requested of
        None \<Rightarrow> None
      | Some pre \<Rightarrow>
          if pre = [] then None
          else if pre \<in> set BANNED_PREFIX_SUGGESTIONS then None
          else if list_ex is_policy_match ms then None
          else if prefix_rule_would_approve_all_commands env exec_policy pre commands fallback options then Some pre
          else None)"

section \<open>The requirement\<close>

definition unmatched_fallback :: "approval_env \<Rightarrow> ExecApprovalRequest \<Rightarrow> bool \<Rightarrow> string list \<Rightarrow> Decision" where
  "unmatched_fallback env req used_complex_parsing cmd =
     render_decision_for_unmatched_command env (req_approval_policy req) (req_permission_profile req)
       (req_file_system_sandbox_policy req) (req_sandbox_cwd req) (req_sandbox_permissions req)
       used_complex_parsing cmd"

definition segment_allowed_by_rule :: "exec_env \<Rightarrow> Policy \<Rightarrow> string list \<Rightarrow> bool" where
  "segment_allowed_by_rule env p cmd =
     list_ex (\<lambda>m. is_policy_match m \<and> match_decision m = Allow)
       (matches_for_command_with_options env p cmd None resolving)"

text \<open>\<open>None\<close> is the panic of an evaluation without matches.\<close>

definition create_exec_approval_requirement_for_command ::
    "approval_env \<Rightarrow> Policy \<Rightarrow> ExecApprovalRequest \<Rightarrow> ExecApprovalRequirement option" where
  "create_exec_approval_requirement_for_command env exec_policy req =
     (let (commands, used_complex_parsing) =
            commands_for_exec_policy (env_bash (ap_safety env)) (req_command req);
          auto_amendment_allowed = (\<not> used_complex_parsing);
          fallback = unmatched_fallback env req used_complex_parsing
      in map_option (\<lambda>evaluation.
           let requested_amendment =
                 derive_requested_execpolicy_amendment_from_prefix_rule (ap_exec env) (req_prefix_rule req)
                   (matched_rules evaluation) exec_policy commands fallback resolving
           in case decision evaluation of
                Forbidden \<Rightarrow> ReqForbidden (derive_forbidden_reason (ap_exec env) (req_command req) evaluation)
              | Prompt \<Rightarrow>
                  (case prompt_is_rejected_by_policy (req_approval_policy req)
                          (list_ex (\<lambda>m. is_policy_match m \<and> match_decision m = Prompt) (matched_rules evaluation)) of
                     Some reason \<Rightarrow> ReqForbidden reason
                   | None \<Rightarrow>
                       ReqNeedsApproval (derive_prompt_reason (ap_exec env) (req_command req) evaluation)
                         (case requested_amendment of
                            Some a \<Rightarrow> Some a
                          | None \<Rightarrow>
                              if auto_amendment_allowed
                              then try_derive_execpolicy_amendment_for_prompt_rules (matched_rules evaluation)
                              else None))
              | Allow \<Rightarrow>
                  ReqSkip (list_all (segment_allowed_by_rule (ap_exec env) exec_policy) commands)
                    (if auto_amendment_allowed
                     then try_derive_execpolicy_amendment_for_allow_rules (matched_rules evaluation)
                     else None))
           (check_multiple_with_options (ap_exec env) exec_policy commands fallback resolving))"

section \<open>Loading the policy\<close>

text \<open>
  The layers of the configuration (\<open>config/src/state.rs\<close>), from the lowest precedence to the
  highest; a layer that is disabled has a reason for it.
\<close>

datatype ConfigLayerSource =
    SrcMdm
  | SrcSystem path
  | SrcUser path
  | SrcProject path
  | SrcSessionFlags
  | SrcLegacyManagedConfigTomlFromFile
  | SrcLegacyManagedConfigTomlFromMdm

record ConfigLayerEntry =
  layer_name :: ConfigLayerSource
  disabled_reason :: "string option"

record ConfigLayerStack =
  stack_layers :: "ConfigLayerEntry list"
  ignore_user_and_project_exec_policy_rules :: bool
  requirements_exec_policy :: "Policy option"

definition get_layers_lowest_first :: "ConfigLayerStack \<Rightarrow> ConfigLayerEntry list" where
  "get_layers_lowest_first self = filter (\<lambda>layer. disabled_reason layer = None) (stack_layers self)"

fun source_folder :: "ConfigLayerSource \<Rightarrow> path option" where
  "source_folder (SrcSystem p) = abs_parent p"
| "source_folder (SrcUser p) = abs_parent p"
| "source_folder (SrcProject dot_codex_folder) = Some dot_codex_folder"
| "source_folder _ = None"

definition config_folder :: "ConfigLayerEntry \<Rightarrow> path option" where
  "config_folder layer = source_folder (layer_name layer)"

definition exec_policy_config_folders :: "ConfigLayerStack \<Rightarrow> path list" where
  "exec_policy_config_folders stack = List.map_filter config_folder (get_layers_lowest_first stack)"

definition child_uses_parent_exec_policy :: "ConfigLayerStack \<Rightarrow> ConfigLayerStack \<Rightarrow> bool" where
  "child_uses_parent_exec_policy parent child =
     (exec_policy_config_folders parent = exec_policy_config_folders child
      \<and> ignore_user_and_project_exec_policy_rules parent = ignore_user_and_project_exec_policy_rules child
      \<and> requirements_exec_policy parent = requirements_exec_policy child)"

datatype ExecPolicyError = ReadDir string string | ReadFile string | ParsePolicy string Error

text \<open>
  A directory as the operating system lists it: missing, unreadable, or its entries, each a path
  with whether it is a file, up to an entry that cannot be read.
\<close>

datatype dir_listing = DirMissing | DirError string | DirEntries "(string \<times> bool) list" "string option"

definition has_rules_extension :: "string \<Rightarrow> bool" where
  "has_rules_extension p =
     (case file_name (components p) of
        None \<Rightarrow> False
      | Some n \<Rightarrow> (case rsplit_once (CHR ''.'') n of Some (stem, ext) \<Rightarrow> stem \<noteq> [] \<and> ext = ''rules'' | None \<Rightarrow> False))"

text \<open>Paths are sorted component by component.\<close>

definition collect_policy_files :: "(string \<Rightarrow> dir_listing) \<Rightarrow> string \<Rightarrow> ExecPolicyError + string list" where
  "collect_policy_files read_dir dir =
     (case read_dir dir of
        DirMissing \<Rightarrow> Ok []
      | DirError e \<Rightarrow> Err (ReadDir dir e)
      | DirEntries es failure \<Rightarrow>
          (case failure of
             Some e \<Rightarrow> Err (ReadDir dir e)
           | None \<Rightarrow> Ok (sort_key components
               (map fst (filter (\<lambda>(p, is_file). has_rules_extension p \<and> is_file) es)))))"

definition layer_skipped :: "ConfigLayerStack \<Rightarrow> ConfigLayerEntry \<Rightarrow> bool" where
  "layer_skipped stack layer =
     (ignore_user_and_project_exec_policy_rules stack
      \<and> (case layer_name layer of SrcUser _ \<Rightarrow> True | SrcProject _ \<Rightarrow> True | _ \<Rightarrow> False))"

fun layer_policy_paths ::
    "(string \<Rightarrow> dir_listing) \<Rightarrow> ConfigLayerStack \<Rightarrow> ConfigLayerEntry list \<Rightarrow> ExecPolicyError + string list" where
  "layer_policy_paths read_dir stack [] = Ok []"
| "layer_policy_paths read_dir stack (layer # layers) =
     (if layer_skipped stack layer then layer_policy_paths read_dir stack layers
      else case config_folder layer of
          None \<Rightarrow> layer_policy_paths read_dir stack layers
        | Some folder \<Rightarrow>
            rbind (collect_policy_files read_dir (path_join (path_str folder) ''rules'')) (\<lambda>ps.
            rbind (layer_policy_paths read_dir stack layers) (\<lambda>qs. Ok (ps @ qs))))"

fun parse_policy_files ::
    "exec_env \<Rightarrow> starlark \<Rightarrow> (string \<Rightarrow> string option) \<Rightarrow> string list \<Rightarrow> PolicyBuilder \<Rightarrow> ExecPolicyError + Policy" where
  "parse_policy_files env st read_file [] b = Ok (build b)"
| "parse_policy_files env st read_file (p # ps) b =
     (case read_file p of
        None \<Rightarrow> Err (ReadFile p)
      | Some contents \<Rightarrow>
          (case parse_policy env st p contents b of
             (Inl e, _) \<Rightarrow> Err (ParsePolicy p e)
           | (Inr _, b1) \<Rightarrow> parse_policy_files env st read_file ps b1))"

definition load_exec_policy ::
    "exec_env \<Rightarrow> starlark \<Rightarrow> (string \<Rightarrow> dir_listing) \<Rightarrow> (string \<Rightarrow> string option) \<Rightarrow> ConfigLayerStack
       \<Rightarrow> ExecPolicyError + Policy" where
  "load_exec_policy env st read_dir read_file stack =
     rbind (layer_policy_paths read_dir stack (get_layers_lowest_first stack)) (\<lambda>policy_paths.
     rbind (parse_policy_files env st read_file policy_paths PolicyBuilder_new) (\<lambda>policy.
       Ok (case requirements_exec_policy stack of
             None \<Rightarrow> policy
           | Some requirements_policy \<Rightarrow> merge_overlay policy requirements_policy)))"

definition load_exec_policy_with_warning ::
    "exec_env \<Rightarrow> starlark \<Rightarrow> (string \<Rightarrow> dir_listing) \<Rightarrow> (string \<Rightarrow> string option) \<Rightarrow> ConfigLayerStack
       \<Rightarrow> ExecPolicyError + (Policy \<times> ExecPolicyError option)" where
  "load_exec_policy_with_warning env st read_dir read_file stack =
     (case load_exec_policy env st read_dir read_file stack of
        Inr policy \<Rightarrow> Ok (policy, None)
      | Inl err \<Rightarrow> (case err of ParsePolicy _ _ \<Rightarrow> Ok (Policy_empty, Some err) | _ \<Rightarrow> Err err))"

section \<open>Updating the policy\<close>

datatype ExecPolicyUpdateError = AppendRule string AmendError | JoinBlockingTask string | AddRule Error

text \<open>
  What can go wrong around the update: the semaphore may be closed, and the blocking task may be
  lost, with whatever it had done to the files.
\<close>

record update_env =
  up_amend :: amend_env
  up_closed :: bool
  up_join_error :: "files \<Rightarrow> (string \<times> files) option"

record manager_state =
  ms_policy :: Policy
  ms_files :: files

definition default_policy_path :: "string \<Rightarrow> string" where
  "default_policy_path codex_home = path_join (path_join codex_home ''rules'') ''default.rules''"

definition blocking_update ::
    "update_env \<Rightarrow> string \<Rightarrow> (files \<Rightarrow> (AmendError + unit) \<times> files) \<Rightarrow> manager_state
       \<Rightarrow> (ExecPolicyUpdateError + unit) \<times> manager_state" where
  "blocking_update env policy_path task st =
     (if up_closed env then (Err (AddRule (InvalidRule ''exec policy update semaphore closed'')), st)
      else case up_join_error env (ms_files st) of
          Some (e, fs) \<Rightarrow> (Err (JoinBlockingTask e), st\<lparr>ms_files := fs\<rparr>)
        | None \<Rightarrow>
            (case task (ms_files st) of
               (Inl e, fs) \<Rightarrow> (Err (AppendRule policy_path e), st\<lparr>ms_files := fs\<rparr>)
             | (Inr _, fs) \<Rightarrow> (Ok (), st\<lparr>ms_files := fs\<rparr>)))"

definition already_allowed :: "exec_env \<Rightarrow> Policy \<Rightarrow> ExecPolicyAmendment \<Rightarrow> bool option" where
  "already_allowed env current_policy amendment =
     map_option (\<lambda>existing_evaluation.
         decision existing_evaluation = Allow
         \<and> list_ex (\<lambda>m. is_policy_match m \<and> match_decision m = Allow) (matched_rules existing_evaluation))
       (check_multiple_with_options env current_policy [amendment] (\<lambda>_. Forbidden) resolving)"

text \<open>\<open>None\<close> is the panic of an evaluation without matches.\<close>

definition append_amendment_and_update ::
    "exec_env \<Rightarrow> update_env \<Rightarrow> string \<Rightarrow> ExecPolicyAmendment \<Rightarrow> manager_state
       \<Rightarrow> ((ExecPolicyUpdateError + unit) \<times> manager_state) option" where
  "append_amendment_and_update env up codex_home amendment st =
     (let policy_path = default_policy_path codex_home in
      case blocking_update up policy_path
             (\<lambda>fs. blocking_append_allow_prefix_rule (up_amend up) policy_path amendment fs) st of
        (Inl e, st1) \<Rightarrow> Some (Err e, st1)
      | (Inr _, st1) \<Rightarrow>
          map_option (\<lambda>allowed.
            if allowed then (Ok (), st1)
            else (case add_prefix_rule (ms_policy st1) amendment Allow of
                    Inl e \<Rightarrow> (Err (AddRule e), st1)
                  | Inr updated_policy \<Rightarrow> (Ok (), st1\<lparr>ms_policy := updated_policy\<rparr>)))
            (already_allowed env (ms_policy st1) amendment))"

definition append_network_rule_and_update ::
    "update_env \<Rightarrow> string \<Rightarrow> string \<Rightarrow> NetworkRuleProtocol \<Rightarrow> Decision \<Rightarrow> string option \<Rightarrow> manager_state
       \<Rightarrow> (ExecPolicyUpdateError + unit) \<times> manager_state" where
  "append_network_rule_and_update up codex_home h prot dec just st =
     (let policy_path = default_policy_path codex_home in
      case blocking_update up policy_path
             (\<lambda>fs. blocking_append_network_rule (up_amend up) policy_path h prot dec just fs) st of
        (Inl e, st1) \<Rightarrow> (Err e, st1)
      | (Inr _, st1) \<Rightarrow>
          (case add_network_rule (ms_policy st1) h prot dec just of
             Inl e \<Rightarrow> (Err (AddRule e), st1)
           | Inr updated_policy \<Rightarrow> (Ok (), st1\<lparr>ms_policy := updated_policy\<rparr>)))"

section \<open>Lemmas on the requirement\<close>

definition rule_matches_of :: "exec_env \<Rightarrow> Policy \<Rightarrow> string list \<Rightarrow> RuleMatch list" where
  "rule_matches_of env p cmd = matches_for_command_with_options env p cmd None resolving"

lemma rule_matches_policy: "m \<in> set (rule_matches_of env p cmd) \<Longrightarrow> is_policy_match m"
proof -
  have e: "is_policy_match m" if "match_exact_rules p cmd = Some ms" "m \<in> set ms" for ms m
    using that by (auto simp: match_exact_rules_def set_map_filter rule_matches_covers is_policy_match_def
        split: list.splits option.splits if_splits)
  have w: "is_heuristics (with_resolved_program m q) = is_heuristics m" for m q by (cases m) simp_all
  have h: "is_policy_match m" if "m \<in> set (match_host_executable_rules env p cmd)" for m
    using that by (auto simp: match_host_executable_rules_def set_map_filter rule_matches_covers is_policy_match_def w
        split: list.splits option.splits if_splits sum.splits)
  assume "m \<in> set (rule_matches_of env p cmd)"
  with e h show ?thesis
    by (auto simp: rule_matches_of_def matches_for_command_with_options_def Let_def resolving_def
        split: option.splits list.splits if_splits bind_splits)
qed

lemma matches_with_fallback:
  "matches_for_command_with_options env p cmd (Some f) resolving =
     (if rule_matches_of env p cmd = [] then [HeuristicsRuleMatch cmd (f cmd)] else rule_matches_of env p cmd)"
  by (auto simp: rule_matches_of_def matches_for_command_with_options_def Let_def
      split: option.splits list.splits)

text \<open>The decisions about one command of a script.\<close>

definition segment_decisions :: "exec_env \<Rightarrow> Policy \<Rightarrow> (string list \<Rightarrow> Decision) \<Rightarrow> string list \<Rightarrow> Decision set" where
  "segment_decisions env p f c =
     (if rule_matches_of env p c = [] then {f c} else match_decision ` set (rule_matches_of env p c))"

lemma segment_decisions_matches:
  "match_decision ` set (matches_for_command_with_options env p c (Some f) resolving) = segment_decisions env p f c"
  by (simp add: matches_with_fallback segment_decisions_def)

lemma commands_nonempty: "fst (commands_for_exec_policy parse cmd) \<noteq> []"
  by (auto simp: commands_for_exec_policy_def split: option.splits list.splits)

lemma check_multiple_decisions:
  assumes "cs \<noteq> []"
  shows "\<exists>ev. check_multiple_with_options env p cs f resolving = Some ev
           \<and> decision ev = Max (\<Union>c \<in> set cs. segment_decisions env p f c)
           \<and> matched_rules ev = concat (map (\<lambda>c. matches_for_command_with_options env p c (Some f) resolving) cs)"
proof -
  let ?ms = "concat (map (\<lambda>c. matches_for_command_with_options env p c (Some f) resolving) cs)"
  have "?ms \<noteq> []" using assms with_options_nonempty by (cases cs) auto
  moreover have "match_decision ` set ?ms = (\<Union>c \<in> set cs. segment_decisions env p f c)"
    by (simp add: image_UN segment_decisions_matches)
  ultimately show ?thesis
    by (simp add: check_multiple_with_options_def from_matches_def max_decision_Max del: set_concat)
qed

lemma finite_segment_decisions [simp]: "finite (segment_decisions env p f c)"
  by (simp add: segment_decisions_def)

lemma segment_decisions_nonempty: "segment_decisions env p f c \<noteq> {}"
  by (simp add: segment_decisions_def)

text \<open>The three values of a greatest decision.\<close>

lemma Max_decision:
  assumes "finite D" and "D \<noteq> {}"
  shows "Max D = Forbidden \<longleftrightarrow> Forbidden \<in> D"
    and "Max D = Prompt \<longleftrightarrow> Forbidden \<notin> D \<and> Prompt \<in> D"
    and "Max D = Allow \<longleftrightarrow> D = {Allow}"
proof -
  have m: "Max D \<in> D" and le: "\<And>d. d \<in> D \<Longrightarrow> d \<le> Max D" using assms by simp_all
  have top: "d \<le> Forbidden" for d by (cases d) (auto simp: less_eq_Decision_def)
  have np: "\<not> Forbidden \<le> Prompt" "\<not> Prompt \<le> Allow" "\<not> Forbidden \<le> Allow"
    by (auto simp: less_eq_Decision_def)
  show f: "Max D = Forbidden \<longleftrightarrow> Forbidden \<in> D"
    using m le [of Forbidden] top [of "Max D"] by (metis order_antisym)
  show "Max D = Prompt \<longleftrightarrow> Forbidden \<notin> D \<and> Prompt \<in> D"
    using m le [of Prompt] f np by (metis Decision.exhaust)
  show "Max D = Allow \<longleftrightarrow> D = {Allow}"
  proof
    assume a: "Max D = Allow"
    have "d = Allow" if "d \<in> D" for d using le [OF that] np a by (cases d) auto
    with assms(2) show "D = {Allow}" by blast
  qed simp
qed

lemma rule_prompt_iff:
  "list_ex (\<lambda>m. is_policy_match m \<and> match_decision m = d)
     (concat (map (\<lambda>c. matches_for_command_with_options env p c (Some f) resolving) cs)) \<longleftrightarrow>
   (\<exists>c \<in> set cs. d \<in> match_decision ` set (rule_matches_of env p c))"
  using rule_matches_policy
  by (fastforce simp: list_ex_iff matches_with_fallback is_policy_match_def split: if_splits)

lemma requirement_cases:
  fixes p :: Policy
  assumes "commands_for_exec_policy (env_bash (ap_safety env)) (req_command req) = (cs, complex)"
  defines "f \<equiv> unmatched_fallback env req complex"
  defines "D \<equiv> \<Union>c \<in> set cs. segment_decisions (ap_exec env) p f c"
  defines "rejected \<equiv> prompt_is_rejected_by_policy (req_approval_policy req)
             (\<exists>c \<in> set cs. Prompt \<in> match_decision ` set (rule_matches_of (ap_exec env) p c))"
  shows "\<exists>r. create_exec_approval_requirement_for_command env p req = Some r
     \<and> (case r of
          ReqForbidden _ \<Rightarrow> Forbidden \<in> D \<or> Prompt \<in> D \<and> rejected \<noteq> None
        | ReqNeedsApproval _ _ \<Rightarrow> Forbidden \<notin> D \<and> Prompt \<in> D \<and> rejected = None
        | ReqSkip bypass _ \<Rightarrow> D = {Allow} \<and> bypass = list_all (segment_allowed_by_rule (ap_exec env) p) cs)"
proof -
  have ne: "cs \<noteq> []" using commands_nonempty [of "env_bash (ap_safety env)" "req_command req"] assms(1) by simp
  obtain ev where ev: "check_multiple_with_options (ap_exec env) p cs f resolving = Some ev"
      and d: "decision ev = Max D"
      and ms: "matched_rules ev = concat (map (\<lambda>c. matches_for_command_with_options (ap_exec env) p c (Some f) resolving) cs)"
    using check_multiple_decisions [OF ne, of "ap_exec env" p f] unfolding D_def by blast
  have "finite D" "D \<noteq> {}" using ne segment_decisions_nonempty unfolding D_def by (auto simp: neq_Nil_conv)
  note M = Max_decision [OF this]
  have r: "list_ex (\<lambda>m. is_policy_match m \<and> match_decision m = Prompt) (matched_rules ev) =
      (\<exists>c \<in> set cs. Prompt \<in> match_decision ` set (rule_matches_of (ap_exec env) p c))"
    unfolding ms by (rule rule_prompt_iff)
  note c = create_exec_approval_requirement_for_command_def assms(1) f_def [symmetric] Let_def prod.case ev option.map
  show ?thesis
  proof (cases "decision ev")
    case Forbidden
    with d M(1) show ?thesis by (simp add: c)
  next
    case Prompt
    with d M(2) have D: "Forbidden \<notin> D \<and> Prompt \<in> D" by simp
    show ?thesis
    proof (cases rejected)
      case None
      with D Prompt show ?thesis by (simp add: c r rejected_def)
    next
      case (Some reason)
      with D Prompt show ?thesis by (simp add: c r rejected_def)
    qed
  next
    case Allow
    with d M(3) show ?thesis by (simp add: c)
  qed
qed

lemma allowed_by_rule_iff:
  "segment_allowed_by_rule env p c \<longleftrightarrow> Allow \<in> match_decision ` set (rule_matches_of env p c)"
  using rule_matches_policy
  by (force simp: segment_allowed_by_rule_def rule_matches_of_def [symmetric] list_ex_iff image_iff)

section \<open>Lemmas on the update\<close>

definition allow_rule :: "string list \<Rightarrow> PrefixRule" where
  "allow_rule pre = \<lparr>pattern = \<lparr>first_token = hd pre, rest_tokens = map Single (tl pre)\<rparr>,
     rule_decision = Allow, justification = None\<rparr>"

lemma allow_rule_covers:
  assumes "pre \<noteq> []"
  shows "covers (allow_rule pre) cmd \<longleftrightarrow> prefix pre cmd"
proof -
  have t: "pattern_tokens (allow_rule pre) = map Single pre"
    using assms by (cases pre) (simp_all add: pattern_tokens_def allow_rule_def)
  have l: "list_all2 admits (map Single pre) ws \<longleftrightarrow> pre = ws" for ws
    by (induction pre arbitrary: ws) (auto simp: admits_def list_all2_Cons1)
  have "pre = take (length pre) cmd \<longleftrightarrow> prefix pre cmd" by (metis append_eq_conv_conj prefix_def)
  then show ?thesis unfolding covers_def t l by simp
qed

lemma add_allow_rule:
  assumes "pre \<noteq> []" and "policy_wf p"
  shows "\<exists>p'. add_prefix_rule p pre Allow = Ok p' \<and> policy_wf p'
           \<and> set (all_rules p') = insert (allow_rule pre) (set (all_rules p))"
proof -
  obtain x xs where pre: "pre = x # xs" using assms(1) by (cases pre) auto
  define p' where "p' = p\<lparr>rules_by_program := multimap_insert x (allow_rule pre) (rules_by_program p)\<rparr>"
  have a: "add_prefix_rule p pre Allow = Ok p'"
    by (simp add: pre add_prefix_rule_def p'_def allow_rule_def)
  have "set (all_rules p') = insert (allow_rule pre) (set (all_rules p))"
    by (simp add: all_rules_def p'_def rules_multimap_insert)
  with a add_prefix_rule_wf [OF assms(2) a] show ?thesis by blast
qed

lemma rule_matches_exact:
  "match_exact_rules p cmd = Some ms \<Longrightarrow> ms \<noteq> [] \<Longrightarrow> rule_matches_of env p cmd = ms"
  by (cases ms) (auto simp: rule_matches_of_def matches_for_command_with_options_def)

lemma covered_allowed:
  assumes "policy_wf p" and "r \<in> set (all_rules p)" and "covers r cmd" and "rule_decision r = Allow"
  shows "segment_allowed_by_rule env p cmd"
proof -
  have v: "Allow \<in> verdicts p cmd" using assms(2-4) by (force simp: verdicts_def)
  then obtain ms where ms: "match_exact_rules p cmd = Some ms" "Allow \<in> match_decision ` set ms"
    using match_exact_rules_verdicts [OF assms(1), of cmd] by (cases "match_exact_rules p cmd") auto
  then have "ms \<noteq> []" by auto
  from rule_matches_exact [OF ms(1) this] ms(2) show ?thesis by (simp add: allowed_by_rule_iff)
qed

lemma already_allowed_total: "\<exists>b. already_allowed env p am = Some b \<and> (b \<longrightarrow> segment_allowed_by_rule env p am)"
proof -
  obtain ev where ev: "check_multiple_with_options env p [am] (\<lambda>_. Forbidden) resolving = Some ev"
      "matched_rules ev = concat (map (\<lambda>c. matches_for_command_with_options env p c (Some (\<lambda>_. Forbidden)) resolving) [am])"
    using check_multiple_decisions [of "[am]" env p "\<lambda>_. Forbidden"] by auto
  show ?thesis
    unfolding already_allowed_def ev(1) option.map ev(2) rule_prompt_iff by (auto simp: allowed_by_rule_iff)
qed

lemma blocking_update_policy: "blocking_update up path task st = (r, st') \<Longrightarrow> ms_policy st' = ms_policy st"
  by (auto simp: blocking_update_def split: if_splits option.splits prod.splits sum.splits)

lemma blocking_update_Ok:
  "blocking_update up path task st = (Inr u, st') \<Longrightarrow> task (ms_files st) = (Inr u, ms_files st')"
  by (auto simp: blocking_update_def split: if_splits option.splits prod.splits sum.splits)

section \<open>Properties\<close>

text \<open>
  C11. The requirement is the strictest decision over the commands of the script, and exists for
  every command and every policy. Each command of the script counts with the decisions of the rules
  that match it, by its name or by its program's path, and with the fallback's if none does. One
  forbidden command forbids the whole; otherwise one that asks makes the whole ask, or forbids it
  when the approval policy does not let that kind of question through; otherwise it runs without
  asking, and leaves the sandbox at once exactly if rules match every command.
\<close>

theorem approval_requirement_exact:
  "\<exists>r. create_exec_approval_requirement_for_command env p req = Some r
     \<and> (let (cs, complex) = commands_for_exec_policy (env_bash (ap_safety env)) (req_command req);
            matches = (\<lambda>c. matches_for_command_with_options (ap_exec env) p c None resolving);
            D = (\<Union>c \<in> set cs. if matches c = [] then {unmatched_fallback env req complex c}
                                 else match_decision ` set (matches c));
            asks_by_rule = (\<exists>c \<in> set cs. Prompt \<in> match_decision ` set (matches c));
            rejected = prompt_is_rejected_by_policy (req_approval_policy req) asks_by_rule
        in case r of
             ReqForbidden _ \<Rightarrow> Forbidden \<in> D \<or> Prompt \<in> D \<and> rejected \<noteq> None
           | ReqNeedsApproval _ _ \<Rightarrow> Forbidden \<notin> D \<and> Prompt \<in> D \<and> rejected = None
           | ReqSkip bypass _ \<Rightarrow> D = {Allow} \<and> bypass = list_all (\<lambda>c. matches c \<noteq> []) cs)"
proof -
  obtain cs complex where c: "commands_for_exec_policy (env_bash (ap_safety env)) (req_command req) = (cs, complex)"
    by (cases "commands_for_exec_policy (env_bash (ap_safety env)) (req_command req)")
  let ?f = "unmatched_fallback env req complex"
  let ?D = "\<Union>c \<in> set cs. segment_decisions (ap_exec env) p ?f c"
  have bypass: "list_all (segment_allowed_by_rule (ap_exec env) p) cs =
      list_all (\<lambda>c. matches_for_command_with_options (ap_exec env) p c None resolving \<noteq> []) cs"
    if D: "?D = {Allow}"
  proof (rule list.pred_cong [OF refl])
    fix c assume "c \<in> set cs"
    then have "segment_decisions (ap_exec env) p ?f c \<subseteq> {Allow}" using D by blast
    then show "segment_allowed_by_rule (ap_exec env) p c =
        (matches_for_command_with_options (ap_exec env) p c None resolving \<noteq> [])"
      unfolding allowed_by_rule_iff rule_matches_of_def [symmetric] segment_decisions_def
      by (cases "rule_matches_of (ap_exec env) p c") auto
  qed
  obtain r where "create_exec_approval_requirement_for_command env p req = Some r"
    "case r of
          ReqForbidden _ \<Rightarrow> Forbidden \<in> ?D \<or> Prompt \<in> ?D \<and> prompt_is_rejected_by_policy (req_approval_policy req)
             (\<exists>c \<in> set cs. Prompt \<in> match_decision ` set (rule_matches_of (ap_exec env) p c)) \<noteq> None
        | ReqNeedsApproval _ _ \<Rightarrow> Forbidden \<notin> ?D \<and> Prompt \<in> ?D \<and> prompt_is_rejected_by_policy (req_approval_policy req)
             (\<exists>c \<in> set cs. Prompt \<in> match_decision ` set (rule_matches_of (ap_exec env) p c)) = None
        | ReqSkip bypass _ \<Rightarrow> ?D = {Allow} \<and> bypass = list_all (segment_allowed_by_rule (ap_exec env) p) cs"
    using requirement_cases [OF c, where p = p] by blast
  with bypass show ?thesis
    unfolding c segment_decisions_def rule_matches_of_def Let_def prod.case
    by (cases r) auto
qed

text \<open>
  C12. A dangerous command does not slip through. If a script runs without asking and one of its
  commands is on the list of dangerous ones, then a rule of the policy allows that command, or
  questions are switched off altogether and the permission profile explicitly has no sandbox of
  ours.
\<close>

theorem dangerous_only_by_rule:
  assumes "create_exec_approval_requirement_for_command env p req = Some (ReqSkip bypass amendment)"
    and "c \<in> set (fst (commands_for_exec_policy (env_bash (ap_safety env)) (req_command req)))"
    and "command_might_be_dangerous (env_bash (ap_safety env)) c"
  shows "segment_allowed_by_rule (ap_exec env) p c
       \<or> req_approval_policy req = Never \<and> profile_enforcement (req_permission_profile req) \<noteq> EnfManaged"
proof -
  obtain cs complex where cc: "commands_for_exec_policy (env_bash (ap_safety env)) (req_command req) = (cs, complex)"
    by (cases "commands_for_exec_policy (env_bash (ap_safety env)) (req_command req)")
  let ?f = "unmatched_fallback env req complex"
  have "(\<Union>c \<in> set cs. segment_decisions (ap_exec env) p ?f c) = {Allow}"
    using requirement_cases [OF cc, where p = p] assms(1) by auto
  moreover have "c \<in> set cs" using assms(2) cc by simp
  ultimately have s: "segment_decisions (ap_exec env) p ?f c \<subseteq> {Allow}" by blast
  show ?thesis
  proof (cases "rule_matches_of (ap_exec env) p c = []")
    case True
    then have "?f c = Allow" using s by (simp add: segment_decisions_def)
    moreover have "\<not> is_known_safe_command (ap_safety env) c"
      using known_safe_not_dangerous assms(3) by blast
    ultimately show ?thesis
      using assms(3)
      by (auto simp: unmatched_fallback_def render_decision_for_unmatched_command_def Let_def
          split: AskForApproval.splits PermissionProfile.splits)
  next
    case False
    with s have "Allow \<in> match_decision ` set (rule_matches_of (ap_exec env) p c)"
      by (cases "rule_matches_of (ap_exec env) p c") (simp_all add: segment_decisions_def)
    then show ?thesis by (simp add: allowed_by_rule_iff)
  qed
qed

definition demo_approval :: approval_env where
  "demo_approval = \<lparr>ap_exec = plain_env, ap_safety = demo_safety, ap_fs = demo_fs\<rparr>"

definition demo_request :: "string list \<Rightarrow> ExecApprovalRequest" where
  "demo_request cmd = \<lparr>req_command = cmd, req_approval_policy = OnRequest,
     req_permission_profile = profile_workspace_write,
     req_file_system_sandbox_policy = profile_file_system_sandbox_policy profile_workspace_write,
     req_sandbox_cwd = ''/w'', req_sandbox_permissions = UseDefault, req_prefix_rule = None\<rparr>"

definition rm_policy :: Policy where
  "rm_policy = Policy_empty\<lparr>rules_by_program := [(''rm'', [rule_for [''rm''] Allow])]\<rparr>"

theorem dangerous_only_by_rule_witness:
  "create_exec_approval_requirement_for_command demo_approval rm_policy (demo_request [''rm'', ''-rf'', ''x'']) =
     Some (ReqSkip True None)
   \<and> command_might_be_dangerous (env_bash (ap_safety demo_approval)) [''rm'', ''-rf'', ''x'']
   \<and> segment_allowed_by_rule (ap_exec demo_approval) rm_policy [''rm'', ''-rf'', ''x'']"
proof -
  have r: "create_exec_approval_requirement_for_command demo_approval rm_policy (demo_request [''rm'', ''-rf'', ''x'']) =
     Some (ReqSkip True None)" by code_simp
  have c: "[''rm'', ''-rf'', ''x''] \<in> set (fst (commands_for_exec_policy (env_bash (ap_safety demo_approval))
      (req_command (demo_request [''rm'', ''-rf'', ''x'']))))" by code_simp
  have d: "command_might_be_dangerous (env_bash (ap_safety demo_approval)) [''rm'', ''-rf'', ''x'']" by code_simp
  have "req_approval_policy (demo_request [''rm'', ''-rf'', ''x'']) \<noteq> Never" by code_simp
  with dangerous_only_by_rule [OF r c d] r d show ?thesis by blast
qed

definition json_one_line :: "amend_env \<Rightarrow> bool" where
  "json_one_line am \<longleftrightarrow> (\<forall>s t. am_json am s = Ok t \<longrightarrow> CHR 0x0A \<notin> set t)"

text \<open>The line of an amendment is in the file that it was appended to.\<close>

lemma amended_file:
  assumes "blocking_append_allow_prefix_rule amd path am fs = (Ok (), fs1)" and "json_one_line amd"
  shows "\<exists>toks. collect_result (map (am_json amd) am) = Ok toks
    \<and> allow_rule_text toks \<in> set (str_lines (contents_of fs1 path))"
proof -
  have "\<exists>toks. collect_result (map (am_json amd) am) = Ok toks \<and>
       str_lines (contents_of fs1 path) =
         (if allow_rule_text toks \<in> set (str_lines (contents_of fs path)) then str_lines (contents_of fs path)
          else str_lines (terminated (contents_of fs path)) @ [allow_rule_text toks]) \<and>
       (\<forall>q. q \<noteq> path \<longrightarrow> fs1 q = fs q) \<and>
       blocking_append_allow_prefix_rule amd path am fs1 = (Ok (), fs1)"
    by (rule append_allow_rule_idempotent [OF assms(1)]) (use assms(2) in \<open>auto simp: json_one_line_def\<close>)
  then show ?thesis by auto
qed


definition demo_update :: update_env where
  "demo_update = \<lparr>up_amend = plain_amend, up_closed = False, up_join_error = (\<lambda>_. None)\<rparr>"


end
