(* ===== verification/Permission_Grants.thy ===== *)
theory Permission_Grants
  imports Legacy_Sandbox Exec_Approval
begin

text \<open>
  Permissions granted on top of a profile: \<open>FileSystemPermissions\<close> and
  \<open>AdditionalPermissionProfile\<close> of \<open>protocol/src/models.rs\<close>, their merging and intersection in
  \<open>sandboxing/src/policy_transforms.rs\<close>, their validation in
  \<open>core/src/tools/handlers/mod.rs\<close>, and the grants a session records when the user answers a
  request (\<open>core/src/session/mod.rs\<close>, \<open>core/src/state/\<close>). Every caller's \<open>cwd\<close> is an
  \<open>AbsolutePathBuf\<close>, and so it is here.

  The property: what a user grants reaches the session only as far as it was asked for and granted.
\<close>

section \<open>Data\<close>

record FileSystemPermissions =
  fp_entries :: "FileSystemSandboxEntry list"
  fp_glob_scan_max_depth :: "nat option"

definition fp_default :: FileSystemPermissions where
  "fp_default = \<lparr>fp_entries = [], fp_glob_scan_max_depth = None\<rparr>"

definition fp_is_empty :: "FileSystemPermissions \<Rightarrow> bool" where
  "fp_is_empty self = (fp_entries self = [])"

definition from_read_write_roots :: "path list option \<Rightarrow> path list option \<Rightarrow> FileSystemPermissions" where
  "from_read_write_roots read write =
     \<lparr>fp_entries =
        (case read of None \<Rightarrow> [] | Some ps \<Rightarrow> map (\<lambda>p. fs_entry (FsPath p) AccRead) ps)
        @ (case write of None \<Rightarrow> [] | Some ps \<Rightarrow> map (\<lambda>p. fs_entry (FsPath p) AccWrite) ps),
      fp_glob_scan_max_depth = None\<rparr>"

fun entry_path_access :: "FileSystemSandboxEntry \<Rightarrow> (path \<times> FileSystemAccessMode) option" where
  "entry_path_access e = (case fse_path e of FsPath p \<Rightarrow> Some (p, fse_access e) | _ \<Rightarrow> None)"

definition explicit_path_entries :: "FileSystemPermissions \<Rightarrow> (path \<times> FileSystemAccessMode) list" where
  "explicit_path_entries self = List.map_filter entry_path_access (fp_entries self)"

fun legacy_roots :: "FileSystemSandboxEntry list \<Rightarrow> path list \<Rightarrow> path list \<Rightarrow> (path list \<times> path list) option" where
  "legacy_roots [] read write = Some (read, write)"
| "legacy_roots (e # es) read write =
     (case fse_path e of
        FsPath p \<Rightarrow>
          (case fse_access e of
             AccRead \<Rightarrow> legacy_roots es (read @ [p]) write
           | AccWrite \<Rightarrow> legacy_roots es read (write @ [p])
           | AccNone \<Rightarrow> None)
      | _ \<Rightarrow> None)"

definition non_empty :: "'a list \<Rightarrow> 'a list option" where
  "non_empty xs = (if xs = [] then None else Some xs)"

definition legacy_read_write_roots :: "FileSystemPermissions \<Rightarrow> (path list option \<times> path list option) option" where
  "legacy_read_write_roots self =
     (if fp_glob_scan_max_depth self \<noteq> None then None
      else map_option (\<lambda>(read, write). (non_empty read, non_empty write)) (legacy_roots (fp_entries self) [] []))"

record NetworkPermissions =
  np_enabled :: "bool option"

definition np_is_empty :: "NetworkPermissions \<Rightarrow> bool" where
  "np_is_empty self = (np_enabled self = None)"

record AdditionalPermissionProfile =
  app_network :: "NetworkPermissions option"
  app_file_system :: "FileSystemPermissions option"

definition app_default :: AdditionalPermissionProfile where
  "app_default = \<lparr>app_network = None, app_file_system = None\<rparr>"

definition app_is_empty :: "AdditionalPermissionProfile \<Rightarrow> bool" where
  "app_is_empty self = (app_network self = None \<and> app_file_system self = None)"

definition option_filter :: "('a \<Rightarrow> bool) \<Rightarrow> 'a option \<Rightarrow> 'a option" where
  "option_filter P x = (case x of Some a \<Rightarrow> if P a then Some a else None | None \<Rightarrow> None)"

text \<open>A push that keeps a list free of duplicates.\<close>

definition push_absent :: "'a \<Rightarrow> 'a list \<Rightarrow> 'a list" where
  "push_absent x xs = (if x \<in> set xs then xs else xs @ [x])"

section \<open>policy_transforms.rs\<close>

definition is_glob :: "FileSystemPath \<Rightarrow> bool" where
  "is_glob p = (case p of GlobPattern _ \<Rightarrow> True | _ \<Rightarrow> False)"

definition normalize_permission_path :: "fs_env \<Rightarrow> FileSystemPath \<Rightarrow> FileSystemPath" where
  "normalize_permission_path env p =
     (case p of
        FsPath q \<Rightarrow>
          FsPath (case Option.bind (canonicalize_preserving_symlinks env (path_str q))
                         (\<lambda>c. absolute_ok env (path_str c)) of
                    Some r \<Rightarrow> r | None \<Rightarrow> q)
      | _ \<Rightarrow> p)"

fun normalize_entries :: "fs_env \<Rightarrow> FileSystemSandboxEntry list \<Rightarrow> FileSystemSandboxEntry list
       \<Rightarrow> string + FileSystemSandboxEntry list" where
  "normalize_entries env [] acc = Ok acc"
| "normalize_entries env (e # es) acc =
     (if is_glob (fse_path e) \<and> fse_access e \<noteq> AccNone
      then Err ''glob file system permissions only support deny-read entries''
      else normalize_entries env es
             (push_absent (fs_entry (normalize_permission_path env (fse_path e)) (fse_access e)) acc))"

definition normalize_additional_permissions ::
    "fs_env \<Rightarrow> AdditionalPermissionProfile \<Rightarrow> string + AdditionalPermissionProfile" where
  "normalize_additional_permissions env perms =
     (let network = option_filter (\<lambda>n. \<not> np_is_empty n) (app_network perms) in
      case app_file_system perms of
        None \<Rightarrow> Ok \<lparr>app_network = network, app_file_system = None\<rparr>
      | Some fs \<Rightarrow>
          rbind (normalize_entries env (fp_entries fs) [])
            (\<lambda>entries. Ok \<lparr>app_network = network,
               app_file_system = option_filter (\<lambda>f. \<not> fp_is_empty f)
                 (Some \<lparr>fp_entries = entries, fp_glob_scan_max_depth = fp_glob_scan_max_depth fs\<rparr>)\<rparr>))"

datatype GlobScanDepth = Bounded nat | Unbounded

definition effective_glob_scan_depth :: "FileSystemSandboxEntry list \<Rightarrow> nat option \<Rightarrow> GlobScanDepth option" where
  "effective_glob_scan_depth entries depth =
     (if list_ex (\<lambda>e. fse_access e = AccNone \<and> is_glob (fse_path e)) entries
      then Some (case depth of Some d \<Rightarrow> Bounded d | None \<Rightarrow> Unbounded)
      else None)"

definition merge_glob_scan_max_depth ::
    "FileSystemSandboxEntry list \<Rightarrow> nat option \<Rightarrow> FileSystemSandboxEntry list \<Rightarrow> nat option \<Rightarrow> nat option" where
  "merge_glob_scan_max_depth left_entries left_depth right_entries right_depth =
     (case (effective_glob_scan_depth left_entries left_depth, effective_glob_scan_depth right_entries right_depth) of
        (Some Unbounded, _) \<Rightarrow> None
      | (_, Some Unbounded) \<Rightarrow> None
      | (Some (Bounded l), Some (Bounded r)) \<Rightarrow> Some (max l r)
      | (Some (Bounded d), None) \<Rightarrow> Some d
      | (None, Some (Bounded d)) \<Rightarrow> Some d
      | (None, None) \<Rightarrow> None)"

definition merge_permission_entries ::
    "FileSystemSandboxEntry list \<Rightarrow> FileSystemSandboxEntry list \<Rightarrow> FileSystemSandboxEntry list" where
  "merge_permission_entries base permissions = fold push_absent (base @ permissions) []"

definition network_enabled :: "AdditionalPermissionProfile \<Rightarrow> bool" where
  "network_enabled p = (app_network p = Some \<lparr>np_enabled = Some True\<rparr>)"

definition merge_permission_profiles ::
    "AdditionalPermissionProfile option \<Rightarrow> AdditionalPermissionProfile option \<Rightarrow> AdditionalPermissionProfile option" where
  "merge_permission_profiles base permissions =
     (case permissions of
        None \<Rightarrow> base
      | Some p \<Rightarrow>
          (case base of
             None \<Rightarrow> option_filter (\<lambda>x. \<not> app_is_empty x) (Some p)
           | Some b \<Rightarrow>
               option_filter (\<lambda>x. \<not> app_is_empty x)
                 (Some \<lparr>app_network =
                          (if network_enabled b \<or> network_enabled p then Some \<lparr>np_enabled = Some True\<rparr> else None),
                        app_file_system =
                          (case (app_file_system b, app_file_system p) of
                             (Some fb, Some fp) \<Rightarrow>
                               option_filter (\<lambda>f. \<not> fp_is_empty f)
                                 (Some \<lparr>fp_entries = merge_permission_entries (fp_entries fb) (fp_entries fp),
                                        fp_glob_scan_max_depth =
                                          non_zero (merge_glob_scan_max_depth (fp_entries fb) (fp_glob_scan_max_depth fb)
                                            (fp_entries fp) (fp_glob_scan_max_depth fp))\<rparr>)
                           | (Some fb, None) \<Rightarrow> Some fb
                           | (None, Some fp) \<Rightarrow> Some fp
                           | (None, None) \<Rightarrow> None)\<rparr>)))"

fun resolve_permission_path :: "fs_env \<Rightarrow> FileSystemPath \<Rightarrow> path \<Rightarrow> path option" where
  "resolve_permission_path env (FsPath p) cwd = Some p"
| "resolve_permission_path env (GlobPattern _) cwd = None"
| "resolve_permission_path env (Special value) cwd =
     (case value of
        SpRoot \<Rightarrow> absolute_ok env (path_str (last (ancestors cwd)))
      | SpCurrentWorkingDirectory \<Rightarrow> absolute_ok env (path_str cwd)
      | SpProjectRoots subpath \<Rightarrow>
          map_option (\<lambda>c. case subpath of
                 Some s \<Rightarrow> resolve_path_against_base (fe_home env) s (path_str c)
               | None \<Rightarrow> c) (absolute_ok env (path_str cwd))
      | SpTmpdir \<Rightarrow>
          (case fe_tmpdir env of
             None \<Rightarrow> None
           | Some tmpdir \<Rightarrow> if tmpdir = [] then None else absolute_ok env tmpdir)
      | SpSlashTmp \<Rightarrow> option_filter (fe_is_dir env) (absolute_ok env ''/tmp'')
      | SpMinimal \<Rightarrow> None
      | SpUnknown _ _ \<Rightarrow> None)"

definition materialize_cwd_dependent_entry :: "fs_env \<Rightarrow> path \<Rightarrow> FileSystemSandboxEntry \<Rightarrow> FileSystemSandboxEntry" where
  "materialize_cwd_dependent_entry env cwd entry =
     (let materialized = (case resolve_permission_path env (fse_path entry) cwd of
                            Some p \<Rightarrow> fs_entry (FsPath p) (fse_access entry) | None \<Rightarrow> entry)
      in case fse_path entry of
           Special SpCurrentWorkingDirectory \<Rightarrow> materialized
         | Special (SpProjectRoots _) \<Rightarrow> materialized
         | GlobPattern glob \<Rightarrow>
             fs_entry (GlobPattern (path_str (resolve_path_against_base (fe_home env) glob (path_str cwd)))) (fse_access entry)
         | _ \<Rightarrow> entry)"

fun access_covers :: "FileSystemAccessMode \<Rightarrow> FileSystemAccessMode \<Rightarrow> bool" where
  "access_covers requested AccRead = can_read requested"
| "access_covers requested AccWrite = can_write requested"
| "access_covers requested AccNone = False"

definition paths_overlap :: "path \<Rightarrow> path \<Rightarrow> bool" where
  "paths_overlap left right = (prefix right left \<or> prefix left right)"

definition glob_char :: "char \<Rightarrow> bool" where
  "glob_char c = (c \<in> set ''*?[]'')"

definition glob_static_prefix_path :: "fs_env \<Rightarrow> string \<Rightarrow> path \<Rightarrow> path option" where
  "glob_static_prefix_path env glob cwd =
     (let resolved = path_str (resolve_path_against_base (fe_home env) glob (path_str cwd));
          pre = takeWhile (\<lambda>c. \<not> glob_char c) resolved
      in if pre = resolved then absolute_ok env resolved
         else if pre = [] then None
         else if last pre = slash \<or> last pre = CHR 0x5C then absolute_ok env pre
         else Option.bind (abs_parent (components pre)) (\<lambda>p. absolute_ok env (path_str p)))"

definition deny_overlaps :: "fs_env \<Rightarrow> path \<Rightarrow> FileSystemPath \<Rightarrow> path \<Rightarrow> bool" where
  "deny_overlaps env cwd deny_path grant_path =
     (case (case deny_path of
              GlobPattern glob \<Rightarrow> glob_static_prefix_path env glob cwd
            | _ \<Rightarrow> resolve_permission_path env deny_path cwd) of
        None \<Rightarrow> False
      | Some p \<Rightarrow> paths_overlap p grant_path)"

definition deny_entry_constrains_accepted_grant ::
    "fs_env \<Rightarrow> path \<Rightarrow> FileSystemSandboxEntry \<Rightarrow> FileSystemSandboxEntry list \<Rightarrow> bool" where
  "deny_entry_constrains_accepted_grant env cwd deny_entry accepted =
     list_ex (\<lambda>e. case resolve_permission_path env (fse_path e) cwd of
                None \<Rightarrow> False
              | Some grant_path \<Rightarrow> deny_overlaps env cwd (fse_path deny_entry) grant_path)
       (filter (\<lambda>e. can_read (fse_access e)) accepted)"

text \<open>The entries of the output, and the list of those retained.\<close>

definition retain_constraining_deny_entries ::
    "fs_env \<Rightarrow> path \<Rightarrow> FileSystemSandboxEntry list \<Rightarrow> FileSystemSandboxEntry list \<Rightarrow> FileSystemSandboxEntry list
       \<Rightarrow> FileSystemSandboxEntry list \<times> FileSystemSandboxEntry list" where
  "retain_constraining_deny_entries env cwd source_entries accepted output_entries =
     (let retained = map (materialize_cwd_dependent_entry env cwd)
            (filter (\<lambda>e. deny_entry_constrains_accepted_grant env cwd e accepted)
              (filter (\<lambda>e. fse_access e = AccNone) source_entries))
      in (fold push_absent retained output_entries, retained))"

definition granted_file_system_entry_within_request ::
    "fs_env \<Rightarrow> FileSystemPermissions \<Rightarrow> path \<Rightarrow> FileSystemSandboxEntry \<Rightarrow> bool" where
  "granted_file_system_entry_within_request env requested cwd granted_entry =
     (let requested_policy = fs_restricted (fp_entries requested) in
      if \<not> can_read (fse_access granted_entry) then False
      else case resolve_permission_path env (fse_path granted_entry) cwd of
          Some p \<Rightarrow>
            if (case ReadDenyMatcher_new env requested_policy (path_str cwd) of
                  Some matcher \<Rightarrow> is_read_denied env matcher (path_str p) | None \<Rightarrow> False) then False
            else access_covers (resolve_access_with_cwd env requested_policy (path_str p) (path_str cwd))
                   (fse_access granted_entry)
        | None \<Rightarrow>
            list_ex (\<lambda>e. access_covers (fse_access e) (fse_access granted_entry)
                       \<and> fse_path e = fse_path granted_entry) (fp_entries requested))"

definition intersect_file_system ::
    "fs_env \<Rightarrow> path \<Rightarrow> FileSystemPermissions \<Rightarrow> FileSystemPermissions \<Rightarrow> FileSystemPermissions" where
  "intersect_file_system env cwd requested granted =
     (let accepted = fold push_absent
            (map (materialize_cwd_dependent_entry env cwd)
              (filter (granted_file_system_entry_within_request env requested cwd) (fp_entries granted))) [];
          (entries1, requested_retained) =
            retain_constraining_deny_entries env cwd (fp_entries requested) accepted accepted;
          (entries2, granted_retained) =
            retain_constraining_deny_entries env cwd (fp_entries granted) accepted entries1
      in \<lparr>fp_entries = entries2,
          fp_glob_scan_max_depth =
            non_zero (merge_glob_scan_max_depth requested_retained (fp_glob_scan_max_depth requested)
              granted_retained (fp_glob_scan_max_depth granted))\<rparr>)"

definition intersect_permission_profiles ::
    "fs_env \<Rightarrow> AdditionalPermissionProfile \<Rightarrow> AdditionalPermissionProfile \<Rightarrow> path \<Rightarrow> AdditionalPermissionProfile" where
  "intersect_permission_profiles env requested granted cwd =
     \<lparr>app_network = (if network_enabled requested \<and> network_enabled granted then Some \<lparr>np_enabled = Some True\<rparr> else None),
      app_file_system =
        option_filter (\<lambda>f. \<not> fp_is_empty f)
          (map_option (\<lambda>r. intersect_file_system env cwd r
               (case app_file_system granted of Some g \<Rightarrow> g | None \<Rightarrow> fp_default)) (app_file_system requested))\<rparr>"

definition merge_file_system_policy_with_additional_permissions ::
    "FileSystemSandboxPolicy \<Rightarrow> FileSystemPermissions \<Rightarrow> FileSystemSandboxPolicy" where
  "merge_file_system_policy_with_additional_permissions pol additional =
     (case fs_kind pol of
        Restricted \<Rightarrow>
          pol\<lparr>fs_entries := fold push_absent (fp_entries additional) (fs_entries pol),
              fs_glob_scan_max_depth :=
                merge_glob_scan_max_depth (fs_entries pol) (fs_glob_scan_max_depth pol)
                  (fp_entries additional) (fp_glob_scan_max_depth additional)\<rparr>
      | _ \<Rightarrow> pol)"

definition effective_file_system_sandbox_policy ::
    "FileSystemSandboxPolicy \<Rightarrow> AdditionalPermissionProfile option \<Rightarrow> FileSystemSandboxPolicy" where
  "effective_file_system_sandbox_policy pol additional =
     (case Option.bind additional app_file_system of
        None \<Rightarrow> pol
      | Some f \<Rightarrow>
          if fp_is_empty f then pol else merge_file_system_policy_with_additional_permissions pol f)"

definition merge_network_access :: "bool \<Rightarrow> AdditionalPermissionProfile \<Rightarrow> bool" where
  "merge_network_access base additional =
     (base \<or> (case Option.bind (app_network additional) np_enabled of Some b \<Rightarrow> b | None \<Rightarrow> False))"

definition effective_network_sandbox_policy ::
    "NetworkSandboxPolicy \<Rightarrow> AdditionalPermissionProfile option \<Rightarrow> NetworkSandboxPolicy" where
  "effective_network_sandbox_policy network_policy additional =
     (case additional of
        None \<Rightarrow> network_policy
      | Some a \<Rightarrow> if merge_network_access (net_is_enabled network_policy) a then NetEnabled else NetRestricted)"

definition effective_permission_profile ::
    "PermissionProfile \<Rightarrow> AdditionalPermissionProfile option \<Rightarrow> PermissionProfile option" where
  "effective_permission_profile profile additional =
     from_runtime_permissions_with_enforcement (profile_enforcement profile)
       (effective_file_system_sandbox_policy (profile_file_system_sandbox_policy profile) additional)
       (effective_network_sandbox_policy (profile_network_sandbox_policy profile) additional)"

section \<open>Validation\<close>

fun bool_str :: "bool \<Rightarrow> string" where
  "bool_str True = ''true''"
| "bool_str False = ''false''"

fun AskForApproval_debug :: "AskForApproval \<Rightarrow> string" where
  "AskForApproval_debug UnlessTrusted = ''UnlessTrusted''"
| "AskForApproval_debug OnFailure = ''OnFailure''"
| "AskForApproval_debug OnRequest = ''OnRequest''"
| "AskForApproval_debug Never = ''Never''"
| "AskForApproval_debug (Granular c) =
     ''Granular(GranularApprovalConfig { sandbox_approval: '' @ bool_str (sandbox_approval c)
     @ '', rules: '' @ bool_str (rules_approval c) @ '', skill_approval: '' @ bool_str (skill_approval c)
     @ '', request_permissions: '' @ bool_str (request_permissions c)
     @ '', mcp_elicitations: '' @ bool_str (mcp_elicitations c) @ '' })''"

definition uses_additional_permissions :: "SandboxPermissions \<Rightarrow> bool" where
  "uses_additional_permissions p = (p = WithAdditionalPermissions)"

definition normalize_and_validate_additional_permissions ::
    "fs_env \<Rightarrow> bool \<Rightarrow> AskForApproval \<Rightarrow> SandboxPermissions \<Rightarrow> AdditionalPermissionProfile option \<Rightarrow> bool
       \<Rightarrow> string + AdditionalPermissionProfile option" where
  "normalize_and_validate_additional_permissions env allowed policy perms additional preapproved =
     (if \<not> preapproved \<and> \<not> allowed \<and> (uses_additional_permissions perms \<or> additional \<noteq> None)
      then Err ''additional permissions are disabled; enable `features.exec_permission_approvals` before using `with_additional_permissions`''
      else if uses_additional_permissions perms then
        if \<not> preapproved \<and> policy \<noteq> OnRequest
        then Err (''approval policy is '' @ AskForApproval_debug policy @ ''; reject command '' @ emdash
               @ '' you cannot request additional permissions unless the approval policy is OnRequest'')
        else (case additional of
            None \<Rightarrow> Err ''missing `additional_permissions`; provide at least one of `network` or `file_system` when using `with_additional_permissions`''
          | Some a \<Rightarrow>
              rbind (normalize_additional_permissions env a)
                (\<lambda>normalized.
                   if app_is_empty normalized
                   then Err ''`additional_permissions` must include at least one requested permission in `network` or `file_system`''
                   else Ok (Some normalized)))
      else if additional \<noteq> None
      then Err ''`additional_permissions` requires `sandbox_permissions` set to `with_additional_permissions`''
      else Ok None)"

record EffectiveAdditionalPermissions =
  eff_sandbox_permissions :: SandboxPermissions
  eff_additional_permissions :: "AdditionalPermissionProfile option"
  eff_permissions_preapproved :: bool

definition implicit_granted_permissions ::
    "SandboxPermissions \<Rightarrow> AdditionalPermissionProfile option \<Rightarrow> EffectiveAdditionalPermissions
       \<Rightarrow> AdditionalPermissionProfile option" where
  "implicit_granted_permissions perms additional effective =
     (if \<not> uses_additional_permissions perms \<and> perms \<noteq> RequireEscalated \<and> additional = None
      then eff_additional_permissions effective else None)"

definition permissions_are_preapproved ::
    "fs_env \<Rightarrow> AdditionalPermissionProfile \<Rightarrow> AdditionalPermissionProfile \<Rightarrow> path \<Rightarrow> bool" where
  "permissions_are_preapproved env effective granted cwd =
     (intersect_permission_profiles env effective granted cwd = intersect_permission_profiles env effective effective cwd)"

definition apply_granted_turn_permissions ::
    "fs_env \<Rightarrow> AdditionalPermissionProfile option \<Rightarrow> AdditionalPermissionProfile option \<Rightarrow> path
       \<Rightarrow> SandboxPermissions \<Rightarrow> AdditionalPermissionProfile option \<Rightarrow> EffectiveAdditionalPermissions" where
  "apply_granted_turn_permissions env granted_session granted_turn cwd perms additional =
     (if perms = RequireEscalated
      then \<lparr>eff_sandbox_permissions = perms, eff_additional_permissions = additional,
            eff_permissions_preapproved = False\<rparr>
      else
        let granted = merge_permission_profiles granted_session granted_turn;
            effective = merge_permission_profiles additional granted;
            preapproved =
              (case (effective, granted) of
                 (Some e, Some g) \<Rightarrow> permissions_are_preapproved env e g cwd | _ \<Rightarrow> False)
        in \<lparr>eff_sandbox_permissions =
              (if effective \<noteq> None \<and> \<not> uses_additional_permissions perms then WithAdditionalPermissions else perms),
            eff_additional_permissions = effective,
            eff_permissions_preapproved = preapproved\<rparr>)"

section \<open>The grants of a session\<close>

datatype PermissionGrantScope = ScopeTurn | ScopeSession

record RequestPermissionsResponse =
  rp_permissions :: AdditionalPermissionProfile
  rp_scope :: PermissionGrantScope
  rp_strict_auto_review :: bool

record PendingRequestPermissions =
  pr_requested_permissions :: AdditionalPermissionProfile
  pr_cwd :: path

record TurnState =
  ts_pending_request_permissions :: "string \<rightharpoonup> PendingRequestPermissions"
  ts_granted_permissions :: "AdditionalPermissionProfile option"
  ts_strict_auto_review_enabled :: bool

text \<open>The session with the state of its active turn, and what it has sent to who asked.\<close>

record grant_state =
  gs_granted_permissions :: "AdditionalPermissionProfile option"
  gs_active_turn :: "TurnState option"
  gs_sent :: "(string \<times> RequestPermissionsResponse) list"

definition normalize_request_permissions_response ::
    "fs_env \<Rightarrow> AdditionalPermissionProfile \<Rightarrow> RequestPermissionsResponse \<Rightarrow> path \<Rightarrow> RequestPermissionsResponse" where
  "normalize_request_permissions_response env requested response cwd =
     (if rp_strict_auto_review response \<and> rp_scope response = ScopeSession
      then \<lparr>rp_permissions = app_default, rp_scope = ScopeTurn, rp_strict_auto_review = False\<rparr>
      else if app_is_empty (rp_permissions response) then response
      else \<lparr>rp_permissions = intersect_permission_profiles env requested (rp_permissions response) cwd,
            rp_scope = rp_scope response, rp_strict_auto_review = rp_strict_auto_review response\<rparr>)"

definition ts_record_granted_permissions :: "AdditionalPermissionProfile \<Rightarrow> TurnState \<Rightarrow> TurnState" where
  "ts_record_granted_permissions permissions ts =
     ts\<lparr>ts_granted_permissions := merge_permission_profiles (ts_granted_permissions ts) (Some permissions)\<rparr>"

definition enable_strict_auto_review :: "TurnState \<Rightarrow> TurnState" where
  "enable_strict_auto_review ts = ts\<lparr>ts_strict_auto_review_enabled := True\<rparr>"

definition record_granted_permissions :: "AdditionalPermissionProfile \<Rightarrow> grant_state \<Rightarrow> grant_state" where
  "record_granted_permissions permissions gs =
     gs\<lparr>gs_granted_permissions := merge_permission_profiles (gs_granted_permissions gs) (Some permissions)\<rparr>"

definition record_granted_request_permissions_for_turn :: "RequestPermissionsResponse \<Rightarrow> grant_state \<Rightarrow> grant_state" where
  "record_granted_request_permissions_for_turn response gs =
     (if app_is_empty (rp_permissions response) then gs
      else case rp_scope response of
          ScopeTurn \<Rightarrow>
            gs\<lparr>gs_active_turn := map_option (\<lambda>ts.
                 let ts1 = ts_record_granted_permissions (rp_permissions response) ts
                 in if rp_strict_auto_review response then enable_strict_auto_review ts1 else ts1) (gs_active_turn gs)\<rparr>
        | ScopeSession \<Rightarrow> record_granted_permissions (rp_permissions response) gs)"

definition remove_pending_request_permissions :: "string \<Rightarrow> TurnState \<Rightarrow> PendingRequestPermissions option \<times> TurnState" where
  "remove_pending_request_permissions key ts =
     (ts_pending_request_permissions ts key,
      ts\<lparr>ts_pending_request_permissions := (ts_pending_request_permissions ts)(key := None)\<rparr>)"

definition insert_pending_request_permissions :: "string \<Rightarrow> PendingRequestPermissions \<Rightarrow> TurnState \<Rightarrow> TurnState" where
  "insert_pending_request_permissions key entry ts =
     ts\<lparr>ts_pending_request_permissions := (ts_pending_request_permissions ts)(key \<mapsto> entry)\<rparr>"

definition notify_request_permissions_response ::
    "fs_env \<Rightarrow> string \<Rightarrow> RequestPermissionsResponse \<Rightarrow> grant_state \<Rightarrow> grant_state" where
  "notify_request_permissions_response env call_id response gs =
     (case gs_active_turn gs of
        None \<Rightarrow> gs
      | Some ts \<Rightarrow>
          let (entry, ts1) = remove_pending_request_permissions call_id ts;
              gs1 = gs\<lparr>gs_active_turn := Some ts1\<rparr>
          in case entry of
               None \<Rightarrow> gs1
             | Some e \<Rightarrow>
                 let response1 = normalize_request_permissions_response env (pr_requested_permissions e) response (pr_cwd e);
                     gs2 = record_granted_request_permissions_for_turn response1 gs1
                 in gs2\<lparr>gs_sent := gs_sent gs2 @ [(call_id, response1)]\<rparr>)"

definition granted_turn_permissions :: "grant_state \<Rightarrow> AdditionalPermissionProfile option" where
  "granted_turn_permissions gs = Option.bind (gs_active_turn gs) ts_granted_permissions"

definition strict_auto_review_enabled_for_turn :: "grant_state \<Rightarrow> bool" where
  "strict_auto_review_enabled_for_turn gs =
     (case gs_active_turn gs of None \<Rightarrow> False | Some ts \<Rightarrow> ts_strict_auto_review_enabled ts)"

end
