(* ===== verification/Grant_Safety.thy ===== *)
theory Grant_Safety
  imports Permission_Grants
begin

text \<open>
  What the grants of \<open>Permission_Grants\<close> let a tool read. The intersection of a request and
  an answer is compared with both through the entry that decides about a path; \<open>grant_run\<close> is
  the step relation of a session in which turns begin and end, requests are made and answered.
\<close>

section \<open>Lists of entries\<close>

lemma set_push_absent [simp]: "set (fold push_absent xs ys) = set xs \<union> set ys"
  by (induction xs arbitrary: ys) (auto simp: push_absent_def)

lemma set_merge_entries [simp]: "set (merge_permission_entries b p) = set b \<union> set p"
  by (auto simp: merge_permission_entries_def)

lemma merge_entries_empty [simp]: "merge_permission_entries b p = [] \<longleftrightarrow> b = [] \<and> p = []"
  using set_merge_entries [of b p] by (metis Un_empty set_empty)

definition entries_of :: "AdditionalPermissionProfile \<Rightarrow> FileSystemSandboxEntry list" where
  "entries_of p = (case app_file_system p of Some f \<Rightarrow> fp_entries f | None \<Rightarrow> [])"

text \<open>The entries with the paths they stand for, as the policy they form resolves them.\<close>

definition resolved_list :: "fs_env \<Rightarrow> path \<Rightarrow> FileSystemSandboxEntry list \<Rightarrow> ResolvedFileSystemEntry list" where
  "resolved_list env cwd es = resolved_entries_with_cwd env (fs_restricted es) (path_str cwd)"

definition path_entries_wf :: "FileSystemSandboxEntry list \<Rightarrow> bool" where
  "path_entries_wf es = entries_wf (fs_restricted es)"

lemma fs_restricted_simps [simp]: "fs_kind (fs_restricted es) = Restricted" "fs_entries (fs_restricted es) = es"
  by (simp_all add: fs_restricted_def)

lemma resolve_permission:
  assumes "abs_wf cwd"
  shows "resolve_permission_path env p cwd = resolve_entry_path env p (absolute_ok env (path_str cwd))"
proof (cases p)
  case (Special v)
  have root: "last (ancestors cwd) = [RootDir]"
    using root_for_cwd [OF assms] by (simp add: absolute_root_path_for_cwd_def)
  have "abs_wf [RootDir]" by code_simp
  from absolute_ok_str [OF this, of env] have "absolute_ok env [slash] = Some [RootDir]" by simp
  note r = this absolute_ok_str [OF assms]
  show ?thesis
    by (cases v) (auto simp: Special resolve_entry_path_def r root root_for_cwd [OF assms] tmpdir_path_def
        slash_tmp_path_def option_filter_def split: option.splits)
qed (simp_all add: resolve_entry_path_def)

lemma resolved_list_iff:
  assumes "abs_wf cwd"
  shows "r \<in> set (resolved_list env cwd es) \<longleftrightarrow>
     (\<exists>e \<in> set es. rfe_access r = fse_access e \<and> resolve_permission_path env (fse_path e) cwd = Some (rfe_path r))"
  by (simp add: resolved_list_def resolved_iff resolve_permission [OF assms])

lemma resolved_list_wf:
  assumes "env_ok env" and "path_entries_wf es" and "r \<in> set (resolved_list env cwd es)"
  shows "abs_wf (rfe_path r)"
  using resolved_wf [of env "fs_restricted es"] assms unfolding resolved_list_def path_entries_wf_def by blast

lemma resolve_access_list:
  assumes "abs_wf q"
  shows "resolve_access_with_cwd env (fs_restricted es) (path_str q) (path_str cwd) =
    access_at (resolved_list env cwd es) q"
  by (simp add: resolved_list_def resolve_access_at [OF assms])

text \<open>Materialising an entry keeps its access and its path, and makes it independent of the directory.\<close>

lemma materialize_access [simp]: "fse_access (materialize_cwd_dependent_entry env cwd e) = fse_access e"
  by (auto simp: materialize_cwd_dependent_entry_def fs_entry_def Let_def
      split: FileSystemPath.splits FileSystemSpecialPath.splits option.splits)

lemma materialize_resolves:
  assumes "abs_wf cwd" and "abs_wf c"
  shows "resolve_permission_path env (fse_path (materialize_cwd_dependent_entry env cwd e)) c =
    resolve_permission_path env (fse_path e) cwd"
proof -
  have root: "last (ancestors p) = [RootDir]" if "abs_wf p" for p
    using root_for_cwd [OF that] by (simp add: absolute_root_path_for_cwd_def)
  note r = absolute_ok_str [OF assms(1)] absolute_ok_str [OF assms(2)] root [OF assms(1)] root [OF assms(2)]
  show ?thesis
    by (cases "fse_path e")
      (auto simp: materialize_cwd_dependent_entry_def fs_entry_def Let_def r
        split: FileSystemSpecialPath.splits option.splits)
qed

section \<open>The intersection\<close>

definition accepted_entries :: "fs_env \<Rightarrow> path \<Rightarrow> FileSystemPermissions \<Rightarrow> FileSystemPermissions \<Rightarrow> FileSystemSandboxEntry set" where
  "accepted_entries env cwd requested granted =
     {e \<in> set (fp_entries granted). granted_file_system_entry_within_request env requested cwd e}"

lemma intersect_entries:
  defines "acc \<equiv> \<lambda>env cwd requested granted. fold push_absent (map (materialize_cwd_dependent_entry env cwd)
              (filter (granted_file_system_entry_within_request env requested cwd) (fp_entries granted))) []"
  shows "set (fp_entries (intersect_file_system env cwd requested granted)) =
    materialize_cwd_dependent_entry env cwd ` (accepted_entries env cwd requested granted
      \<union> {e \<in> set (fp_entries requested) \<union> set (fp_entries granted). fse_access e = AccNone
          \<and> deny_entry_constrains_accepted_grant env cwd e (acc env cwd requested granted)})"
  unfolding acc_def intersect_file_system_def Let_def
  by (auto simp: retain_constraining_deny_entries_def Let_def accepted_entries_def)

lemma accepted_set:
  "set (fold push_absent (map (materialize_cwd_dependent_entry env cwd)
              (filter (granted_file_system_entry_within_request env requested cwd) (fp_entries granted))) []) =
   materialize_cwd_dependent_entry env cwd ` accepted_entries env cwd requested granted"
  by (auto simp: accepted_entries_def)

lemma within_readable: "granted_file_system_entry_within_request env requested cwd e \<Longrightarrow> can_read (fse_access e)"
  by (auto simp: granted_file_system_entry_within_request_def Let_def split: if_splits)

lemma access_covers_read: "access_covers a b \<Longrightarrow> can_read a"
  by (cases b; cases a) (auto simp: can_read_def can_write_def)


text \<open>
  When the entry that decides is readable and the entries of another list that deny what it covers
  are there too, the other list lets the path be read as well.
\<close>

lemma readable_transfer:
  assumes "can_read (access_at es q)"
    and "\<And>e. e \<in> set es \<Longrightarrow> can_read (rfe_access e) \<Longrightarrow> prefix (rfe_path e) q \<Longrightarrow> \<exists>d. decides rs q d"
    and "\<And>e d. e \<in> set es \<Longrightarrow> can_read (rfe_access e) \<Longrightarrow> prefix (rfe_path e) q \<Longrightarrow> decides rs q d \<Longrightarrow>
           rfe_access d = AccNone \<Longrightarrow> d \<in> set es \<and> length (rfe_path e) \<le> length (rfe_path d)"
  shows "can_read (access_at rs q)"
proof -
  obtain e where e: "decides es q e"
    using assms(1) access_at_none [of es q] by (auto simp: can_read_def)
  then have r: "can_read (rfe_access e)" using assms(1) access_at_decides by fastforce
  have m: "e \<in> set es" "prefix (rfe_path e) q" using e by (simp_all add: decides_def)
  obtain d where d: "decides rs q d" using assms(2) [OF m(1) r m(2)] by blast
  show ?thesis
  proof (cases "rfe_access d = AccNone")
    case True
    from assms(3) [OF m(1) r m(2) d True] have "d \<in> set es" and len: "length (rfe_path e) \<le> length (rfe_path d)" by blast+
    moreover have "prefix (rfe_path d) q" using d by (simp add: decides_def)
    ultimately have "resolved_entry_precedence d \<le> resolved_entry_precedence e" using e by (simp add: decides_def)
    then have "AccNone \<le> rfe_access e" using len True by (auto simp: resolved_entry_precedence_def)
    then have "rfe_access e = AccNone" by (cases "rfe_access e") (auto simp: less_eq_FileSystemAccessMode_def)
    with r show ?thesis by (simp add: can_read_def)
  next
    case False
    with access_at_decides [OF d] show ?thesis by (simp add: can_read_def)
  qed
qed

lemma deny_retained:
  assumes "abs_wf cwd" and "abs_wf c" and "e \<in> accepted_entries env cwd requested granted"
    and "resolve_permission_path env (fse_path e) cwd = Some p"
    and "s \<in> set (fp_entries requested) \<union> set (fp_entries granted)" and "fse_access s = AccNone"
    and "resolve_permission_path env (fse_path s) cwd = Some d" and "prefix p q" and "prefix d q"
  shows "\<lparr>rfe_path = d, rfe_access = AccNone\<rparr> \<in> set (resolved_list env c (fp_entries (intersect_file_system env cwd requested granted)))"
proof -
  let ?m = "materialize_cwd_dependent_entry env cwd"
  let ?acc = "fold push_absent (map ?m (filter (granted_file_system_entry_within_request env requested cwd) (fp_entries granted))) []"
  have "paths_overlap d p" using prefix_same_cases [OF assms(8,9)] by (auto simp: paths_overlap_def)
  then have "deny_overlaps env cwd (fse_path s) p"
    using assms(7) by (cases "fse_path s") (auto simp: deny_overlaps_def)
  moreover have "?m e \<in> set ?acc" using assms(3) unfolding accepted_set by blast
  moreover have "can_read (fse_access e)" using assms(3) by (auto simp: accepted_entries_def intro: within_readable)
  ultimately have "deny_entry_constrains_accepted_grant env cwd s ?acc"
    using materialize_resolves [OF assms(1,1), of env e] assms(4)
    unfolding deny_entry_constrains_accepted_grant_def list_ex_iff by (fastforce simp del: set_push_absent)
  then have "?m s \<in> set (fp_entries (intersect_file_system env cwd requested granted))"
    using assms(5,6) unfolding intersect_entries by blast
  then show ?thesis
    using materialize_resolves [OF assms(1,2), of env s] assms(6,7) unfolding resolved_list_iff [OF assms(2)] by force
qed

lemma intersect_readable_entry:
  assumes "abs_wf cwd" and "abs_wf c" and "can_read (rfe_access r)"
    and "r \<in> set (resolved_list env c (fp_entries (intersect_file_system env cwd requested granted)))"
  shows "\<exists>e \<in> accepted_entries env cwd requested granted.
    fse_access e = rfe_access r \<and> resolve_permission_path env (fse_path e) cwd = Some (rfe_path r)"
  using assms(3,4) materialize_resolves [OF assms(1,2), of env]
  unfolding resolved_list_iff [OF assms(2)] intersect_entries by (auto simp: can_read_def)

lemma accepted_requested:
  assumes "abs_wf p" and "e \<in> accepted_entries env cwd requested granted"
    and "resolve_permission_path env (fse_path e) cwd = Some p"
  shows "access_covers (access_at (resolved_list env cwd (fp_entries requested)) p) (fse_access e)"
  using assms(2,3) by (auto simp: accepted_entries_def granted_file_system_entry_within_request_def Let_def
      resolve_access_list [OF assms(1)] split: if_splits)


lemma decides_shorter: "decides es q d \<Longrightarrow> prefix (rfe_path d) p \<Longrightarrow> prefix p q \<Longrightarrow> decides es p d"
  unfolding decides_def by (meson prefix_order.trans)

lemma readable_decider: "can_read (access_at es q) \<Longrightarrow> \<exists>d. decides es q d \<and> rfe_access d \<noteq> AccNone"
  using access_at_none [of es q] access_at_decides [of es q] by (force simp: can_read_def)

lemma deny_entry_of:
  assumes "abs_wf cwd" and "decides (resolved_list env cwd es) q d" and "rfe_access d = AccNone"
  shows "\<exists>s \<in> set es. fse_access s = AccNone \<and> resolve_permission_path env (fse_path s) cwd = Some (rfe_path d)"
    and "prefix (rfe_path d) q"
  using assms(2,3) resolved_list_iff [OF assms(1), of d env es] by (force simp: decides_def)+

lemma resolved_eqI: "rfe_path d = p \<Longrightarrow> rfe_access d = a \<Longrightarrow> d = \<lparr>rfe_path = p, rfe_access = a\<rparr>"
  by (cases d) simp

lemma intersect_readable_granted:
  assumes "abs_wf cwd" and "abs_wf c"
    and "can_read (access_at (resolved_list env c (fp_entries (intersect_file_system env cwd requested granted))) q)"
  shows "can_read (access_at (resolved_list env cwd (fp_entries granted)) q)"
proof (rule readable_transfer [OF assms(3)])
  let ?es = "resolved_list env c (fp_entries (intersect_file_system env cwd requested granted))"
    and ?rs = "resolved_list env cwd (fp_entries granted)"
  fix r assume r: "r \<in> set ?es" "can_read (rfe_access r)" "prefix (rfe_path r) q"
  obtain e where e: "e \<in> accepted_entries env cwd requested granted" "fse_access e = rfe_access r"
      "resolve_permission_path env (fse_path e) cwd = Some (rfe_path r)"
    using intersect_readable_entry [OF assms(1,2) r(2,1)] by blast
  then have m: "r \<in> set ?rs" by (force simp: resolved_list_iff [OF assms(1)] accepted_entries_def)
  then show "\<exists>d. decides ?rs q d" using decides_exists r(3) by blast
  fix d assume d: "decides ?rs q d" "rfe_access d = AccNone"
  obtain s where s: "s \<in> set (fp_entries granted)" "fse_access s = AccNone"
      "resolve_permission_path env (fse_path s) cwd = Some (rfe_path d)"
    using deny_entry_of(1) [OF assms(1) d] by blast
  have "d \<in> set ?es"
    using deny_retained [OF assms(1,2) e(1,3) _ s(2,3) r(3) deny_entry_of(2) [OF assms(1) d]] s(1)
      resolved_eqI [OF refl d(2)] by simp
  then show "d \<in> set ?es \<and> length (rfe_path r) \<le> length (rfe_path d)"
    using decides_below [OF d(1) m r(3)] by (simp add: prefix_length_le)
qed

lemma intersect_readable_requested:
  assumes "abs_wf cwd" and "abs_wf c" and "env_ok env" and "path_entries_wf (fp_entries granted)"
    and "can_read (access_at (resolved_list env c (fp_entries (intersect_file_system env cwd requested granted))) q)"
  shows "can_read (access_at (resolved_list env cwd (fp_entries requested)) q)"
proof (rule readable_transfer [OF assms(5)])
  let ?es = "resolved_list env c (fp_entries (intersect_file_system env cwd requested granted))"
    and ?rs = "resolved_list env cwd (fp_entries requested)"
  fix r assume r: "r \<in> set ?es" "can_read (rfe_access r)" "prefix (rfe_path r) q"
  obtain e where e: "e \<in> accepted_entries env cwd requested granted" "fse_access e = rfe_access r"
      "resolve_permission_path env (fse_path e) cwd = Some (rfe_path r)"
    using intersect_readable_entry [OF assms(1,2) r(2,1)] by blast
  have "r \<in> set (resolved_list env cwd (fp_entries granted))"
    using e by (force simp: resolved_list_iff [OF assms(1)] accepted_entries_def)
  then have w: "abs_wf (rfe_path r)" by (rule resolved_list_wf [OF assms(3,4)])
  have a: "can_read (access_at ?rs (rfe_path r))"
    using accepted_requested [OF w e(1,3)] by (rule access_covers_read)
  obtain d0 where d0: "decides ?rs (rfe_path r) d0" using readable_decider [OF a] by blast
  then have "d0 \<in> set ?rs" "prefix (rfe_path d0) q" using r(3) by (auto simp: decides_def)
  then show "\<exists>d. decides ?rs q d" using decides_exists by blast
  fix d assume d: "decides ?rs q d" "rfe_access d = AccNone"
  obtain s where s: "s \<in> set (fp_entries requested)" "fse_access s = AccNone"
      "resolve_permission_path env (fse_path s) cwd = Some (rfe_path d)"
    using deny_entry_of(1) [OF assms(1) d] by blast
  note q = deny_entry_of(2) [OF assms(1) d]
  have "d \<in> set ?es"
    using deny_retained [OF assms(1,2) e(1,3) _ s(2,3) r(3) q] s(1) resolved_eqI [OF refl d(2)] by simp
  moreover have "\<not> prefix (rfe_path d) (rfe_path r)"
    using a access_at_decides [OF decides_shorter [OF d(1) _ r(3)]] d(2) by (auto simp: can_read_def)
  then have "prefix (rfe_path r) (rfe_path d)" using prefix_same_cases [OF r(3) q] by blast
  ultimately show "d \<in> set ?es \<and> length (rfe_path r) \<le> length (rfe_path d)" by (simp add: prefix_length_le)
qed

text \<open>What may be written is, at the entry that allows it, within the request.\<close>

lemma intersect_writable_entry:
  assumes "abs_wf cwd" and "abs_wf c" and "env_ok env" and "path_entries_wf (fp_entries granted)"
    and "access_at (resolved_list env c (fp_entries (intersect_file_system env cwd requested granted))) q = AccWrite"
  shows "\<exists>p. prefix p q \<and> \<lparr>rfe_path = p, rfe_access = AccWrite\<rparr> \<in> set (resolved_list env cwd (fp_entries granted))
    \<and> access_at (resolved_list env cwd (fp_entries requested)) p = AccWrite"
proof -
  let ?es = "resolved_list env c (fp_entries (intersect_file_system env cwd requested granted))"
  obtain r where r: "decides ?es q r" using assms(5) access_at_none [of ?es q] by fastforce
  then have m: "r \<in> set ?es" "prefix (rfe_path r) q" "rfe_access r = AccWrite"
    using access_at_decides [OF r] assms(5) by (auto simp: decides_def)
  then have "can_read (rfe_access r)" by (simp add: can_read_def)
  from intersect_readable_entry [OF assms(1,2) this m(1)] obtain e where
    e: "e \<in> accepted_entries env cwd requested granted" "fse_access e = AccWrite"
      "resolve_permission_path env (fse_path e) cwd = Some (rfe_path r)" using m(3) by auto
  have g: "r \<in> set (resolved_list env cwd (fp_entries granted))"
    using e m(3) by (force simp: resolved_list_iff [OF assms(1)] accepted_entries_def)
  have "access_at (resolved_list env cwd (fp_entries requested)) (rfe_path r) = AccWrite"
    using accepted_requested [OF resolved_list_wf [OF assms(3,4) g] e(1,3)] e(2) by (simp add: can_write_def)
  with g m(2) show ?thesis using resolved_eqI [OF refl m(3)] by metis
qed

section \<open>Profiles\<close>

definition opt_entries :: "AdditionalPermissionProfile option \<Rightarrow> FileSystemSandboxEntry list" where
  "opt_entries g = (case g of Some p \<Rightarrow> entries_of p | None \<Rightarrow> [])"

definition opt_network :: "AdditionalPermissionProfile option \<Rightarrow> bool" where
  "opt_network g = (case g of Some p \<Rightarrow> network_enabled p | None \<Rightarrow> False)"

text \<open>The access a profile gives to a path, by the policy its entries form.\<close>

definition profile_access :: "fs_env \<Rightarrow> path \<Rightarrow> AdditionalPermissionProfile option \<Rightarrow> path \<Rightarrow> FileSystemAccessMode" where
  "profile_access env cwd g q =
     resolve_access_with_cwd env (fs_restricted (opt_entries g)) (path_str q) (path_str cwd)"

lemma profile_access_at:
  "abs_wf q \<Longrightarrow> profile_access env cwd g q = access_at (resolved_list env cwd (opt_entries g)) q"
  by (simp add: profile_access_def resolve_access_list)

lemma merge_entries: "set (opt_entries (merge_permission_profiles b p)) = set (opt_entries b) \<union> set (opt_entries p)"
  by (auto simp: merge_permission_profiles_def opt_entries_def entries_of_def option_filter_def app_is_empty_def
      fp_is_empty_def split: option.splits)

lemma merge_network: "opt_network (merge_permission_profiles b p) \<Longrightarrow> opt_network b \<or> opt_network p"
  by (auto simp: merge_permission_profiles_def opt_network_def option_filter_def network_enabled_def
      split: option.splits if_splits)

lemma decides_in_part: "decides es q d \<Longrightarrow> set bs \<subseteq> set es \<Longrightarrow> d \<in> set bs \<Longrightarrow> decides bs q d"
  by (auto simp: decides_def)

lemma access_at_union:
  assumes "set es = set bs \<union> set ps"
  shows "access_at es q = access_at bs q \<or> access_at es q = access_at ps q"
proof (cases "\<exists>d. decides es q d")
  case True
  then obtain d where d: "decides es q d" by blast
  then have "d \<in> set bs \<or> d \<in> set ps" using assms by (simp add: decides_def)
  then have "decides bs q d \<or> decides ps q d" using assms decides_in_part [OF d] by blast
  then show ?thesis using access_at_decides [OF d] access_at_decides by metis
next
  case False
  have "\<not> decides bs q d" for d
  proof
    assume "decides bs q d"
    then have "d \<in> set es" "prefix (rfe_path d) q" using assms by (auto simp: decides_def)
    with False show False using decides_exists by blast
  qed
  then show ?thesis using False access_at_none [of bs q] access_at_none [of es q] by simp
qed

lemma merge_access:
  assumes "abs_wf q" and "abs_wf c"
  shows "profile_access env c (merge_permission_profiles b p) q \<in> {profile_access env c b q, profile_access env c p q}"
proof -
  have "set (resolved_list env c (opt_entries (merge_permission_profiles b p))) =
      set (resolved_list env c (opt_entries b)) \<union> set (resolved_list env c (opt_entries p))"
    by (auto simp: resolved_list_iff [OF assms(2)] merge_entries set_eq_iff)
  from access_at_union [OF this] show ?thesis by (simp add: profile_access_at [OF assms(1)])
qed

lemma profile_access_none [simp]: "opt_entries g = [] \<Longrightarrow> abs_wf q \<Longrightarrow> profile_access env c g q = AccNone"
  by (simp add: profile_access_at resolved_list_def resolved_entries_with_cwd_def access_at_def map_filter_simps)

lemma entries_of_intersection:
  "entries_of (intersect_permission_profiles env requested granted cwd) =
     (case app_file_system requested of
        None \<Rightarrow> []
      | Some r \<Rightarrow> fp_entries (intersect_file_system env cwd r
           (case app_file_system granted of Some g \<Rightarrow> g | None \<Rightarrow> fp_default)))"
  by (auto simp: entries_of_def intersect_permission_profiles_def option_filter_def fp_is_empty_def split: option.splits)

section \<open>A session\<close>

text \<open>
  The requests of a session that were answered, each with its answer. A step begins or ends a turn,
  asks for permissions or answers; the paths of a request and of an answer are absolute ones
  (\<open>AbsolutePathBuf\<close>).
\<close>

type_synonym grant_history = "(PendingRequestPermissions \<times> RequestPermissionsResponse) list"

definition empty_turn :: TurnState where
  "empty_turn = \<lparr>ts_pending_request_permissions = Map.empty, ts_granted_permissions = None,
     ts_strict_auto_review_enabled = False\<rparr>"

definition new_session :: grant_state where
  "new_session = \<lparr>gs_granted_permissions = None, gs_active_turn = None, gs_sent = []\<rparr>"

definition answered :: "string \<Rightarrow> RequestPermissionsResponse \<Rightarrow> grant_state \<Rightarrow> grant_history" where
  "answered call_id response gs =
     (case gs_active_turn gs of
        None \<Rightarrow> []
      | Some ts \<Rightarrow> (case ts_pending_request_permissions ts call_id of
            None \<Rightarrow> [] | Some e \<Rightarrow> [(e, response)]))"

inductive grant_run :: "fs_env \<Rightarrow> grant_state \<Rightarrow> grant_history \<Rightarrow> bool" for env where
  session_starts: "grant_run env new_session []"
| turn_begins: "grant_run env gs hist \<Longrightarrow> grant_run env (gs\<lparr>gs_active_turn := Some empty_turn\<rparr>) hist"
| turn_ends: "grant_run env gs hist \<Longrightarrow> grant_run env (gs\<lparr>gs_active_turn := None\<rparr>) hist"
| permissions_requested: "grant_run env gs hist \<Longrightarrow> gs_active_turn gs = Some ts \<Longrightarrow> abs_wf (pr_cwd pending)
    \<Longrightarrow> grant_run env (gs\<lparr>gs_active_turn := Some (insert_pending_request_permissions call_id pending ts)\<rparr>) hist"
| permissions_answered: "grant_run env gs hist \<Longrightarrow> path_entries_wf (entries_of (rp_permissions response))
    \<Longrightarrow> grant_run env (notify_request_permissions_response env call_id response gs) (hist @ answered call_id response gs)"

text \<open>A path that a profile opens is opened by a request and by the answer to it.\<close>

definition asked_and_granted :: "fs_env \<Rightarrow> path \<Rightarrow> PendingRequestPermissions \<times> RequestPermissionsResponse \<Rightarrow> bool" where
  "asked_and_granted env q h =
     (can_read (profile_access env (pr_cwd (fst h)) (Some (pr_requested_permissions (fst h))) q)
      \<and> can_read (profile_access env (pr_cwd (fst h)) (Some (rp_permissions (snd h))) q))"

definition write_asked :: "fs_env \<Rightarrow> path \<Rightarrow> PendingRequestPermissions \<times> RequestPermissionsResponse \<Rightarrow> bool" where
  "write_asked env q h =
     (\<exists>p. prefix p q
       \<and> profile_access env (pr_cwd (fst h)) (Some (pr_requested_permissions (fst h))) p = AccWrite
       \<and> list_ex (\<lambda>e. fse_access e = AccWrite \<and> resolve_permission_path env (fse_path e) (pr_cwd (fst h)) = Some p)
           (entries_of (rp_permissions (snd h))))"

definition within_history :: "fs_env \<Rightarrow> grant_history \<Rightarrow> AdditionalPermissionProfile option \<Rightarrow> bool" where
  "within_history env hist g \<longleftrightarrow>
     (\<forall>c q. abs_wf c \<longrightarrow> abs_wf q \<longrightarrow>
        (can_read (profile_access env c g q) \<longrightarrow> (\<exists>h \<in> set hist. asked_and_granted env q h))
        \<and> (profile_access env c g q = AccWrite \<longrightarrow> (\<exists>h \<in> set hist. write_asked env q h)))
     \<and> (opt_network g \<longrightarrow> (\<exists>h \<in> set hist. network_enabled (pr_requested_permissions (fst h))
           \<and> network_enabled (rp_permissions (snd h))))"

lemma within_none [simp]: "within_history env hist None"
  by (simp add: within_history_def opt_entries_def opt_network_def can_read_def)

lemma within_mono: "within_history env hist g \<Longrightarrow> set hist \<subseteq> set hist' \<Longrightarrow> within_history env hist' g"
  unfolding within_history_def by (meson subsetD)

lemma within_merge:
  assumes "within_history env hist b" and "within_history env hist p"
  shows "within_history env hist (merge_permission_profiles b p)"
proof -
  have "profile_access env c (merge_permission_profiles b p) q = profile_access env c b q
      \<or> profile_access env c (merge_permission_profiles b p) q = profile_access env c p q"
    if "abs_wf c" and "abs_wf q" for c q using merge_access [OF that(2,1)] by auto
  then show ?thesis using assms merge_network [of b p] unfolding within_history_def by metis
qed

lemma empty_profile:
  assumes "app_is_empty p"
  shows "within_history env hist (Some p)"
proof -
  from assms have "opt_entries (Some p) = []" and n: "\<not> opt_network (Some p)"
    by (simp_all add: app_is_empty_def opt_entries_def entries_of_def opt_network_def network_enabled_def)
  from profile_access_none [OF this(1)] n show ?thesis by (simp add: within_history_def can_read_def)
qed

lemma intersect_within:
  assumes "env_ok env" and "abs_wf (pr_cwd e)" and "path_entries_wf (entries_of (rp_permissions r))"
  shows "within_history env [(e, r)]
    (Some (intersect_permission_profiles env (pr_requested_permissions e) (rp_permissions r) (pr_cwd e)))"
proof -
  let ?cwd = "pr_cwd e" and ?q = "pr_requested_permissions e" and ?g = "rp_permissions r"
  let ?i = "intersect_permission_profiles env ?q ?g ?cwd"
  have n: "opt_network (Some ?i) \<longrightarrow> network_enabled ?q \<and> network_enabled ?g"
    by (auto simp: opt_network_def intersect_permission_profiles_def network_enabled_def)
  show ?thesis
  proof (cases "app_file_system ?q")
    case None
    then have "opt_entries (Some ?i) = []" by (simp add: opt_entries_def entries_of_intersection)
    from profile_access_none [OF this] n show ?thesis by (simp add: within_history_def can_read_def)
  next
    case (Some rq)
    define gp where "gp = (case app_file_system ?g of Some g \<Rightarrow> g | None \<Rightarrow> fp_default)"
    have es: "opt_entries (Some ?i) = fp_entries (intersect_file_system env ?cwd rq gp)"
      "opt_entries (Some ?q) = fp_entries rq" "opt_entries (Some ?g) = fp_entries gp" "entries_of ?g = fp_entries gp"
      by (simp_all add: opt_entries_def entries_of_intersection Some gp_def)
        (simp_all add: entries_of_def Some fp_default_def split: option.splits)
    have w: "path_entries_wf (fp_entries gp)" using assms(3) es(4) by simp
    have "asked_and_granted env q (e, r)" if "abs_wf c" "abs_wf q" "can_read (profile_access env c (Some ?i) q)" for c q
      using intersect_readable_granted [OF assms(2) that(1), of env rq gp q]
        intersect_readable_requested [OF assms(2) that(1) assms(1) w, of rq q] that(3)
      by (simp add: asked_and_granted_def profile_access_at [OF that(2)] es)
    moreover have "write_asked env q (e, r)" if a: "abs_wf c" "abs_wf q" "profile_access env c (Some ?i) q = AccWrite" for c q
    proof -
      obtain p where p: "prefix p q" "\<lparr>rfe_path = p, rfe_access = AccWrite\<rparr> \<in> set (resolved_list env ?cwd (fp_entries gp))"
          "access_at (resolved_list env ?cwd (fp_entries rq)) p = AccWrite"
        using intersect_writable_entry [OF assms(2) a(1) assms(1) w, of rq q] a(3)
        by (auto simp: profile_access_at [OF a(2)] es)
      have "abs_wf p" using resolved_list_wf [OF assms(1) w p(2)] by simp
      then have "profile_access env ?cwd (Some ?q) p = AccWrite" using p(3) by (simp add: profile_access_at es)
      moreover have "\<exists>x \<in> set (fp_entries gp). fse_access x = AccWrite \<and> resolve_permission_path env (fse_path x) ?cwd = Some p"
        using p(2) by (auto simp: resolved_list_iff [OF assms(2)] intro: sym)
      ultimately show ?thesis using p(1) unfolding write_asked_def list_ex_iff by (auto simp: es(4))
    qed
    ultimately show ?thesis using n unfolding within_history_def by auto
  qed
qed

lemma normalized_within:
  assumes "env_ok env" and "abs_wf (pr_cwd e)" and "path_entries_wf (entries_of (rp_permissions r))"
  shows "within_history env [(e, r)]
    (Some (rp_permissions (normalize_request_permissions_response env (pr_requested_permissions e) r (pr_cwd e))))"
proof -
  have "app_is_empty app_default" by (simp add: app_is_empty_def app_default_def)
  then show ?thesis
    using intersect_within [OF assms] empty_profile
    by (simp add: normalize_request_permissions_response_def)
qed

definition session_within :: "fs_env \<Rightarrow> grant_state \<Rightarrow> grant_history \<Rightarrow> bool" where
  "session_within env gs hist \<longleftrightarrow>
     within_history env hist (gs_granted_permissions gs) \<and> within_history env hist (granted_turn_permissions gs)
     \<and> (\<forall>ts i e. gs_active_turn gs = Some ts \<longrightarrow> ts_pending_request_permissions ts i = Some e \<longrightarrow> abs_wf (pr_cwd e))"

lemma record_within:
  assumes "within_history env hist (Some (rp_permissions r))"
    and "within_history env hist (gs_granted_permissions gs)" and "within_history env hist (granted_turn_permissions gs)"
  shows "within_history env hist (gs_granted_permissions (record_granted_request_permissions_for_turn r gs))
    \<and> within_history env hist (granted_turn_permissions (record_granted_request_permissions_for_turn r gs))"
  using assms
  by (cases "gs_active_turn gs")
    (auto simp: record_granted_request_permissions_for_turn_def record_granted_permissions_def
      granted_turn_permissions_def ts_record_granted_permissions_def enable_strict_auto_review_def Let_def
      intro: within_merge split: PermissionGrantScope.splits)

lemma record_pending:
  "map_option ts_pending_request_permissions (gs_active_turn (record_granted_request_permissions_for_turn r gs)) =
   map_option ts_pending_request_permissions (gs_active_turn gs)"
  by (auto simp: record_granted_request_permissions_for_turn_def record_granted_permissions_def
      ts_record_granted_permissions_def enable_strict_auto_review_def Let_def option.map_comp o_def
      split: PermissionGrantScope.splits intro: option.map_cong)

lemma answer_within:
  assumes "session_within env gs hist" and "env_ok env" and "path_entries_wf (entries_of (rp_permissions r))"
  shows "session_within env (notify_request_permissions_response env call_id r gs) (hist @ answered call_id r gs)"
proof (cases "gs_active_turn gs")
  case None
  with assms(1) show ?thesis by (simp add: notify_request_permissions_response_def answered_def)
next
  case (Some ts)
  define ts1 where "ts1 = ts\<lparr>ts_pending_request_permissions := (ts_pending_request_permissions ts)(call_id := None)\<rparr>"
  let ?gs1 = "gs\<lparr>gs_active_turn := Some ts1\<rparr>"
  have t: "granted_turn_permissions ?gs1 = granted_turn_permissions gs"
    by (simp add: granted_turn_permissions_def Some ts1_def)
  have one: "session_within env ?gs1 hist"
    using assms(1) t by (auto simp: session_within_def Some ts1_def split: if_splits)
  show ?thesis
  proof (cases "ts_pending_request_permissions ts call_id")
    case None
    with Some one show ?thesis
      by (simp add: notify_request_permissions_response_def answered_def remove_pending_request_permissions_def ts1_def)
  next
    case (Some e)
    define r1 where "r1 = normalize_request_permissions_response env (pr_requested_permissions e) r (pr_cwd e)"
    define gs2 where "gs2 = record_granted_request_permissions_for_turn r1 ?gs1"
    let ?h = "hist @ [(e, r)]"
    have n: "notify_request_permissions_response env call_id r gs = gs2\<lparr>gs_sent := gs_sent gs2 @ [(call_id, r1)]\<rparr>"
        "answered call_id r gs = [(e, r)]"
      using Some \<open>gs_active_turn gs = Some ts\<close>
      by (simp_all add: notify_request_permissions_response_def answered_def remove_pending_request_permissions_def
          ts1_def r1_def gs2_def Let_def)
    have "abs_wf (pr_cwd e)" using assms(1) Some \<open>gs_active_turn gs = Some ts\<close> by (auto simp: session_within_def)
    then have "within_history env [(e, r)] (Some (rp_permissions r1))"
      using normalized_within assms(2,3) by (simp add: r1_def)
    then have w: "within_history env ?h (Some (rp_permissions r1))" by (rule within_mono) simp
    have "within_history env ?h (gs_granted_permissions ?gs1)" "within_history env ?h (granted_turn_permissions ?gs1)"
      using one within_mono [of env hist _ ?h] by (auto simp: session_within_def)
    from record_within [OF w this]
    have "within_history env ?h (gs_granted_permissions gs2) \<and> within_history env ?h (granted_turn_permissions gs2)"
      by (simp add: gs2_def)
    moreover have "abs_wf (pr_cwd p)" if "gs_active_turn gs2 = Some ts2" "ts_pending_request_permissions ts2 i = Some p" for ts2 i p
      using record_pending [of r1 ?gs1] that one by (auto simp: gs2_def [symmetric] session_within_def)
    ultimately show ?thesis by (auto simp: session_within_def n granted_turn_permissions_def)
  qed
qed

lemma grant_run_within:
  assumes "grant_run env gs hist" and "env_ok env"
  shows "session_within env gs hist"
  using assms
proof (induction rule: grant_run.induct)
  case session_starts
  show ?case by (simp add: session_within_def new_session_def granted_turn_permissions_def)
next
  case (turn_begins gs hist)
  then show ?case by (simp add: session_within_def granted_turn_permissions_def empty_turn_def)
next
  case (turn_ends gs hist)
  then show ?case by (simp add: session_within_def granted_turn_permissions_def)
next
  case (permissions_requested gs hist ts pending call_id)
  then show ?case by (auto simp: session_within_def granted_turn_permissions_def insert_pending_request_permissions_def split: if_splits)
next
  case (permissions_answered gs hist response call_id)
  then show ?case using answer_within by blast
qed

lemma effective_within:
  assumes "session_within env gs hist"
  shows "within_history env hist (eff_additional_permissions (apply_granted_turn_permissions env
    (gs_granted_permissions gs) (granted_turn_permissions gs) cwd perms None))"
  using assms by (auto simp: apply_granted_turn_permissions_def Let_def session_within_def intro!: within_merge)


definition demo_ask :: PendingRequestPermissions where
  "demo_ask = \<lparr>pr_requested_permissions = \<lparr>app_network = None, app_file_system = Some
      \<lparr>fp_entries = [fs_entry (Special SpCurrentWorkingDirectory) AccWrite, fs_entry (FsPath (components ''/w/k'')) AccNone],
       fp_glob_scan_max_depth = None\<rparr>\<rparr>, pr_cwd = components ''/w''\<rparr>"

definition demo_grant :: RequestPermissionsResponse where
  "demo_grant = \<lparr>rp_permissions = \<lparr>app_network = None, app_file_system = Some
      \<lparr>fp_entries = [fs_entry (FsPath (components ''/w'')) AccWrite], fp_glob_scan_max_depth = None\<rparr>\<rparr>,
     rp_scope = ScopeTurn, rp_strict_auto_review = False\<rparr>"

definition demo_granted :: grant_state where
  "demo_granted = notify_request_permissions_response demo_fs ''c1'' demo_grant
     (new_session\<lparr>gs_active_turn := Some (insert_pending_request_permissions ''c1'' demo_ask empty_turn)\<rparr>)"

lemma demo_grant_run: "grant_run demo_fs demo_granted [(demo_ask, demo_grant)]"
proof -
  let ?gs = "new_session\<lparr>gs_active_turn := Some (insert_pending_request_permissions ''c1'' demo_ask empty_turn)\<rparr>"
  have "abs_wf (pr_cwd demo_ask)" by code_simp
  then have "grant_run demo_fs (new_session\<lparr>gs_active_turn := Some empty_turn, gs_active_turn :=
      Some (insert_pending_request_permissions ''c1'' demo_ask empty_turn)\<rparr>) []"
    by (intro grant_run.permissions_requested grant_run.turn_begins grant_run.session_starts) simp_all
  then have "grant_run demo_fs ?gs []" by simp
  moreover have "path_entries_wf (entries_of (rp_permissions demo_grant))" by code_simp
  ultimately have "grant_run demo_fs demo_granted ([] @ answered ''c1'' demo_grant ?gs)"
    unfolding demo_granted_def by (rule grant_run.permissions_answered)
  then show ?thesis by (simp add: answered_def insert_pending_request_permissions_def)
qed


end
