(* ===== verification/Tool_Orchestrator.thy ===== *)
theory Tool_Orchestrator
  imports Permission_Grants
begin

text \<open>
  Running a tool: \<open>core/src/tools/sandboxing.rs\<close>, \<open>core/src/tools/orchestrator.rs\<close>,
  the runtimes' answers to the traits (\<open>core/src/tools/runtimes/shell.rs\<close>,
  \<open>apply_patch.rs\<close>), the choice of a sandbox (\<open>sandboxing/src/manager.rs\<close>) and the part of
  \<open>core/src/tools/handlers/shell.rs\<close> that decides about a command and runs it.

  The orchestrator asks for approval, makes a first attempt under the chosen sandbox, and after a
  denial by the sandbox may make a second one outside it. What the user, the guardian, the hooks,
  the network approvals and the processes answer is a function of the state of the world, which
  is threaded through; a trace records the questions, with their answers, and the attempts.
  The locale \<open>tool_contract\<close> has what the orchestrator relies on about a runtime, and both
  runtimes interpret it.
\<close>

section \<open>Sandboxes\<close>

datatype SandboxType = NoSandbox | MacosSeatbelt | LinuxSeccomp | WindowsRestrictedToken

datatype SandboxablePreference = PrefAuto | PrefRequire | PrefForbid

datatype target_os = MacOs | Linux | Windows | OtherOs

definition get_platform_sandbox :: "target_os \<Rightarrow> bool \<Rightarrow> SandboxType option" where
  "get_platform_sandbox os windows_sandbox_enabled =
     (case os of
        MacOs \<Rightarrow> Some MacosSeatbelt
      | Linux \<Rightarrow> Some LinuxSeccomp
      | Windows \<Rightarrow> if windows_sandbox_enabled then Some WindowsRestrictedToken else None
      | OtherOs \<Rightarrow> None)"

definition should_require_platform_sandbox :: "FileSystemSandboxPolicy \<Rightarrow> NetworkSandboxPolicy \<Rightarrow> bool \<Rightarrow> bool" where
  "should_require_platform_sandbox pol network_policy has_managed_network_requirements =
     (if has_managed_network_requirements then True
      else if \<not> net_is_enabled network_policy then fs_kind pol \<noteq> ExternalSandbox
      else case fs_kind pol of
          Restricted \<Rightarrow> \<not> fs_has_full_disk_write_access pol
        | _ \<Rightarrow> False)"

definition select_initial ::
    "target_os \<Rightarrow> FileSystemSandboxPolicy \<Rightarrow> NetworkSandboxPolicy \<Rightarrow> SandboxablePreference \<Rightarrow> bool \<Rightarrow> bool \<Rightarrow> SandboxType" where
  "select_initial os pol network_policy pref windows_sandbox_enabled has_managed_network_requirements =
     (let platform = (case get_platform_sandbox os windows_sandbox_enabled of Some t \<Rightarrow> t | None \<Rightarrow> NoSandbox) in
      case pref of
        PrefForbid \<Rightarrow> NoSandbox
      | PrefRequire \<Rightarrow> platform
      | PrefAuto \<Rightarrow>
          if should_require_platform_sandbox pol network_policy has_managed_network_requirements
          then platform else NoSandbox)"

section \<open>sandboxing.rs\<close>

datatype NetworkPolicyRuleAction = RuleAllow | RuleDeny

datatype ReviewDecision =
    Approved
  | ApprovedExecpolicyAmendment ExecPolicyAmendment
  | ApprovedForSession
  | NetworkPolicyAmendment string NetworkPolicyRuleAction
  | Denied
  | TimedOut
  | Abort

text \<open>The store keeps serialized keys; a key that cannot be serialized is not kept.\<close>

type_synonym ApprovalStore = "string \<rightharpoonup> ReviewDecision"

definition store_get :: "('k \<Rightarrow> string option) \<Rightarrow> ApprovalStore \<Rightarrow> 'k \<Rightarrow> ReviewDecision option" where
  "store_get ser store key = Option.bind (ser key) store"

definition store_put :: "('k \<Rightarrow> string option) \<Rightarrow> 'k \<Rightarrow> ReviewDecision \<Rightarrow> ApprovalStore \<Rightarrow> ApprovalStore" where
  "store_put ser key dec store =
     (case ser key of None \<Rightarrow> store | Some s \<Rightarrow> store(s \<mapsto> dec))"

text \<open>The session: the store of approvals, and everything else.\<close>

record 'w session =
  se_tool_approvals :: ApprovalStore
  se_world :: 'w

definition all_approved_for_session :: "('k \<Rightarrow> string option) \<Rightarrow> 'k list \<Rightarrow> ApprovalStore \<Rightarrow> bool" where
  "all_approved_for_session ser keys store =
     list_all (\<lambda>key. store_get ser store key = Some ApprovedForSession) keys"

definition with_cached_approval ::
    "('k \<Rightarrow> string option) \<Rightarrow> 'k list \<Rightarrow> ('w session \<Rightarrow> ReviewDecision \<times> 'w session) \<Rightarrow> 'w session
       \<Rightarrow> ReviewDecision \<times> 'w session" where
  "with_cached_approval ser keys fetch se =
     (if keys = [] then fetch se
      else if all_approved_for_session ser keys (se_tool_approvals se) then (ApprovedForSession, se)
      else
        let (dec, se1) = fetch se in
        if dec = ApprovedForSession
        then (dec, se1\<lparr>se_tool_approvals :=
                 fold (\<lambda>key. store_put ser key ApprovedForSession) keys (se_tool_approvals se1)\<rparr>)
        else (dec, se1))"

definition default_exec_approval_requirement ::
    "AskForApproval \<Rightarrow> FileSystemSandboxPolicy \<Rightarrow> ExecApprovalRequirement" where
  "default_exec_approval_requirement policy pol =
     (let needs_approval =
            (case policy of
               Never \<Rightarrow> False
             | OnFailure \<Rightarrow> False
             | OnRequest \<Rightarrow> fs_kind pol = Restricted
             | Granular _ \<Rightarrow> fs_kind pol = Restricted
             | UnlessTrusted \<Rightarrow> True);
          disallowed = (case policy of Granular cfg \<Rightarrow> \<not> sandbox_approval cfg | _ \<Rightarrow> False)
      in if needs_approval \<and> disallowed
         then ReqForbidden ''approval policy disallowed sandbox approval prompt''
         else if needs_approval then ReqNeedsApproval None None
         else ReqSkip False None)"

datatype SandboxOverride = NoOverride | BypassSandboxFirstAttempt

definition sandbox_override_for_first_attempt :: "SandboxPermissions \<Rightarrow> ExecApprovalRequirement \<Rightarrow> SandboxOverride" where
  "sandbox_override_for_first_attempt perms requirement =
     (if requires_escalated_permissions perms
         \<or> (case requirement of ReqSkip bypass_sandbox _ \<Rightarrow> bypass_sandbox | _ \<Rightarrow> False)
      then BypassSandboxFirstAttempt else NoOverride)"

definition managed_network_for_sandbox_permissions :: "'n option \<Rightarrow> SandboxPermissions \<Rightarrow> 'n option" where
  "managed_network_for_sandbox_permissions network perms =
     (if requires_escalated_permissions perms then None else network)"

text \<open>The methods of \<open>Approvable\<close> with their defaults.\<close>

definition default_should_bypass_approval :: "AskForApproval \<Rightarrow> bool \<Rightarrow> bool" where
  "default_should_bypass_approval policy already_approved =
     (if already_approved then True else policy = Never)"

definition default_wants_no_sandbox_approval :: "AskForApproval \<Rightarrow> bool" where
  "default_wants_no_sandbox_approval policy =
     (case policy of
        OnFailure \<Rightarrow> True
      | UnlessTrusted \<Rightarrow> True
      | Never \<Rightarrow> False
      | OnRequest \<Rightarrow> False
      | Granular cfg \<Rightarrow> sandbox_approval cfg)"

section \<open>Network approvals\<close>

datatype NetworkApprovalProtocol = NapHttp | NapHttps | NapSocks5Tcp | NapSocks5Udp

datatype NetworkPolicyDecision = NpDeny | NpAsk

datatype NetworkDecisionSource = SrcBaselinePolicy | SrcModeGuard | SrcProxyState | SrcDecider

record NetworkPolicyDecisionPayload =
  npd_decision :: NetworkPolicyDecision
  npd_source :: NetworkDecisionSource
  npd_protocol :: "NetworkApprovalProtocol option"
  npd_host :: "string option"

record NetworkApprovalContext =
  nac_host :: string
  nac_protocol :: NetworkApprovalProtocol

definition network_approval_context_from_payload ::
    "NetworkPolicyDecisionPayload \<Rightarrow> NetworkApprovalContext option" where
  "network_approval_context_from_payload payload =
     (if \<not> (npd_decision payload = NpAsk \<and> npd_source payload = SrcDecider) then None
      else case npd_protocol payload of
          None \<Rightarrow> None
        | Some prot \<Rightarrow>
            (case npd_host payload of
               None \<Rightarrow> None
             | Some raw \<Rightarrow>
                 let h = trim raw in
                 if h = [] then None else Some \<lparr>nac_host = h, nac_protocol = prot\<rparr>))"

datatype NetworkApprovalMode = Immediate | Deferred

record ActiveNetworkApproval =
  na_registration_id :: "string option"
  na_mode :: NetworkApprovalMode

definition into_deferred :: "ActiveNetworkApproval \<Rightarrow> string option" where
  "into_deferred a = (if na_mode a = Deferred then na_registration_id a else None)"

datatype NetworkApprovalOutcome = DeniedByUser | DeniedByPolicy string

section \<open>The interface to the session and the tool\<close>

datatype 'o ToolError =
    Rejected string
  | SandboxDenied 'o "NetworkPolicyDecisionPayload option"
  | CodexError string

record ApprovalCtx =
  guardian_review_id :: "string option"
  retry_reason :: "string option"
  network_approval_context :: "NetworkApprovalContext option"

datatype PermissionRequestDecision = HookAllow | HookDeny string

datatype event =
    EvHook string "PermissionRequestDecision option"
  | EvApproval ApprovalCtx ReviewDecision
  | EvAttempt SandboxType

text \<open>
  The session and the turn. \<open>te_auto_review\<close> says that the configured reviewer is the guardian;
  the functions answer for the rest of the program and the user.
\<close>

record 'w turn_env =
  te_os :: target_os
  te_windows_sandbox_enabled :: bool
  te_strict_auto_review :: bool
  te_auto_review :: bool
  te_approval_policy :: AskForApproval
  te_file_system_sandbox_policy :: FileSystemSandboxPolicy
  te_network_sandbox_policy :: NetworkSandboxPolicy
  te_network_active :: bool
  te_call_id :: string
  te_hooks :: "string \<Rightarrow> json \<Rightarrow> 'w \<Rightarrow> PermissionRequestDecision option \<times> 'w"
  te_new_review_id :: "'w \<Rightarrow> string \<times> 'w"
  te_rejection_message :: "string \<Rightarrow> 'w \<Rightarrow> string \<times> 'w"
  te_timeout_message :: string
  te_register_call :: "'w \<Rightarrow> string \<times> 'w"
  te_take_call_outcome :: "string \<Rightarrow> 'w \<Rightarrow> NetworkApprovalOutcome option \<times> 'w"
  te_unregister_call :: "string \<Rightarrow> 'w \<Rightarrow> 'w"

record ('w, 'o, 'out) runtime =
  rt_exec_approval_requirement :: "ExecApprovalRequirement option"
  rt_sandbox_mode_for_first_attempt :: SandboxOverride
  rt_sandbox_preference :: SandboxablePreference
  rt_escalate_on_failure :: bool
  rt_wants_no_sandbox_approval :: "AskForApproval \<Rightarrow> bool"
  rt_should_bypass_approval :: "AskForApproval \<Rightarrow> bool \<Rightarrow> bool"
  rt_permission_request_payload :: "json option"
  rt_start_approval_async :: "ApprovalCtx \<Rightarrow> 'w \<Rightarrow> ReviewDecision \<times> 'w"
  rt_network_approval_spec :: "(bool \<times> NetworkApprovalMode) option"
  rt_run :: "SandboxType \<Rightarrow> 'w \<Rightarrow> ('o ToolError + 'out) \<times> 'w"

record 'w orch_state =
  os_world :: 'w
  os_trace :: "event list"

definition log_event :: "event \<Rightarrow> 'w orch_state \<Rightarrow> 'w orch_state" where
  "log_event ev st = st\<lparr>os_trace := os_trace st @ [ev]\<rparr>"

definition ask :: "('w \<Rightarrow> 'a \<times> 'w) \<Rightarrow> 'w orch_state \<Rightarrow> 'a \<times> 'w orch_state" where
  "ask f st = (let (a, w) = f (os_world st) in (a, st\<lparr>os_world := w\<rparr>))"

section \<open>orchestrator.rs\<close>

text \<open>\<open>network_approval_spec\<close> has whether there is a network and the mode.\<close>

definition begin_network_approval ::
    "'w turn_env \<Rightarrow> (bool \<times> NetworkApprovalMode) option \<Rightarrow> 'w orch_state \<Rightarrow> ActiveNetworkApproval option \<times> 'w orch_state" where
  "begin_network_approval env spec st =
     (case spec of
        None \<Rightarrow> (None, st)
      | Some (has_network, mode) \<Rightarrow>
          if \<not> te_network_active env \<or> \<not> has_network then (None, st)
          else let (i, st1) = ask (te_register_call env) st
               in (Some \<lparr>na_registration_id = Some i, na_mode = mode\<rparr>, st1))"

definition finish_immediate_network_approval ::
    "'w turn_env \<Rightarrow> ActiveNetworkApproval \<Rightarrow> 'w orch_state \<Rightarrow> ('o ToolError + unit) \<times> 'w orch_state" where
  "finish_immediate_network_approval env active st =
     (case na_registration_id active of
        None \<Rightarrow> (Ok (), st)
      | Some i \<Rightarrow>
          let (outcome, st1) = ask (te_take_call_outcome env i) st;
              st2 = st1\<lparr>os_world := te_unregister_call env i (os_world st1)\<rparr>
          in (case outcome of
                Some DeniedByUser \<Rightarrow> Err (Rejected ''rejected by user'')
              | Some (DeniedByPolicy message) \<Rightarrow> Err (Rejected message)
              | None \<Rightarrow> Ok (), st2))"

definition finish_deferred_network_approval ::
    "'w turn_env \<Rightarrow> string option \<Rightarrow> 'w orch_state \<Rightarrow> 'w orch_state" where
  "finish_deferred_network_approval env deferred st =
     (case deferred of
        None \<Rightarrow> st
      | Some i \<Rightarrow> st\<lparr>os_world := te_unregister_call env i (os_world st)\<rparr>)"

definition run_attempt ::
    "'w turn_env \<Rightarrow> ('w, 'o, 'out) runtime \<Rightarrow> SandboxType \<Rightarrow> 'w orch_state
       \<Rightarrow> ((('o ToolError + 'out) \<times> string option)) \<times> 'w orch_state" where
  "run_attempt env tool sandbox st0 =
     (let (network_approval, st1) = begin_network_approval env (rt_network_approval_spec tool) st0;
          (run_result, st2) = ask (rt_run tool sandbox) (log_event (EvAttempt sandbox) st1)
      in case network_approval of
           None \<Rightarrow> ((run_result, None), st2)
         | Some active \<Rightarrow>
             (case na_mode active of
                Immediate \<Rightarrow>
                  (case finish_immediate_network_approval env active st2 of
                     (Inl err, st3) \<Rightarrow> ((Err err, None), st3)
                   | (Inr _, st3) \<Rightarrow> ((run_result, None), st3))
              | Deferred \<Rightarrow>
                  let deferred = into_deferred active in
                  if \<not> is_ok run_result
                  then ((run_result, None), finish_deferred_network_approval env deferred st2)
                  else ((run_result, deferred), st2)))"

definition request_approval ::
    "'w turn_env \<Rightarrow> ('w, 'o, 'out) runtime \<Rightarrow> string \<Rightarrow> ApprovalCtx \<Rightarrow> bool \<Rightarrow> 'w orch_state
       \<Rightarrow> ('o ToolError + ReviewDecision) \<times> 'w orch_state" where
  "request_approval env tool permission_request_run_id ctx evaluate_permission_request_hooks st =
     (let (hook, st1) =
            (case (evaluate_permission_request_hooks, rt_permission_request_payload tool) of
               (True, Some payload) \<Rightarrow>
                 let (d, st1) = ask (te_hooks env permission_request_run_id payload) st
                 in (d, log_event (EvHook permission_request_run_id d) st1)
             | _ \<Rightarrow> (None, st))
      in case hook of
           Some HookAllow \<Rightarrow> (Ok Approved, st1)
         | Some (HookDeny message) \<Rightarrow> (Err (Rejected message), st1)
         | None \<Rightarrow>
             let (dec, st2) = ask (rt_start_approval_async tool ctx) st1
             in (Ok dec, log_event (EvApproval ctx dec) st2))"

definition reject_if_not_approved ::
    "'w turn_env \<Rightarrow> string option \<Rightarrow> ReviewDecision \<Rightarrow> 'w orch_state \<Rightarrow> ('o ToolError + unit) \<times> 'w orch_state" where
  "reject_if_not_approved env review_id dec st =
     (let refused =
            (case review_id of
               Some i \<Rightarrow> let (reason, st1) = ask (te_rejection_message env i) st in (Err (Rejected reason), st1)
             | None \<Rightarrow> (Err (Rejected ''rejected by user''), st))
      in case dec of
           Denied \<Rightarrow> refused
         | Abort \<Rightarrow> refused
         | TimedOut \<Rightarrow> (Err (Rejected (te_timeout_message env)), st)
         | NetworkPolicyAmendment _ action \<Rightarrow>
             (case action of
                RuleAllow \<Rightarrow> (Ok (), st)
              | RuleDeny \<Rightarrow> (Err (Rejected ''rejected by user''), st))
         | _ \<Rightarrow> (Ok (), st))"

text \<open>Asking and rejecting, which always come together.\<close>

definition obtain_approval ::
    "'w turn_env \<Rightarrow> ('w, 'o, 'out) runtime \<Rightarrow> string \<Rightarrow> ApprovalCtx \<Rightarrow> bool \<Rightarrow> 'w orch_state
       \<Rightarrow> ('o ToolError + unit) \<times> 'w orch_state" where
  "obtain_approval env tool run_id ctx evaluate_hooks st =
     (case request_approval env tool run_id ctx evaluate_hooks st of
        (Inl err, st1) \<Rightarrow> (Err err, st1)
      | (Inr dec, st1) \<Rightarrow> reject_if_not_approved env (guardian_review_id ctx) dec st1)"

definition fresh_review_id :: "'w turn_env \<Rightarrow> bool \<Rightarrow> 'w orch_state \<Rightarrow> string option \<times> 'w orch_state" where
  "fresh_review_id env wanted st =
     (if wanted then let (i, st1) = ask (te_new_review_id env) st in (Some i, st1) else (None, st))"

definition routes_approval_to_guardian :: "'w turn_env \<Rightarrow> bool" where
  "routes_approval_to_guardian env =
     ((case te_approval_policy env of OnRequest \<Rightarrow> True | Granular _ \<Rightarrow> True | _ \<Rightarrow> False) \<and> te_auto_review env)"

definition use_guardian :: "'w turn_env \<Rightarrow> bool" where
  "use_guardian env = (routes_approval_to_guardian env \<or> te_strict_auto_review env)"

text \<open>The first step; the result says whether the run is approved already.\<close>

definition approval_step ::
    "'w turn_env \<Rightarrow> ('w, 'o, 'out) runtime \<Rightarrow> AskForApproval \<Rightarrow> 'w orch_state
       \<Rightarrow> ('o ToolError + bool) \<times> 'w orch_state" where
  "approval_step env tool approval_policy st =
     (let requirement =
            (case rt_exec_approval_requirement tool of
               Some r \<Rightarrow> r
             | None \<Rightarrow> default_exec_approval_requirement approval_policy (te_file_system_sandbox_policy env))
      in case requirement of
           ReqSkip _ _ \<Rightarrow>
             if te_strict_auto_review env then
               let (review_id, st1) = fresh_review_id env True st in
               case obtain_approval env tool (te_call_id env)
                      \<lparr>guardian_review_id = review_id, retry_reason = None, network_approval_context = None\<rparr>
                      False st1 of
                 (Inl err, st2) \<Rightarrow> (Err err, st2)
               | (Inr _, st2) \<Rightarrow> (Ok True, st2)
             else (Ok False, st)
         | ReqForbidden reason \<Rightarrow> (Err (Rejected reason), st)
         | ReqNeedsApproval reason _ \<Rightarrow>
             let (review_id, st1) = fresh_review_id env (use_guardian env) st in
             case obtain_approval env tool (te_call_id env)
                    \<lparr>guardian_review_id = review_id, retry_reason = reason, network_approval_context = None\<rparr>
                    (\<not> te_strict_auto_review env) st1 of
               (Inl err, st2) \<Rightarrow> (Err err, st2)
             | (Inr _, st2) \<Rightarrow> (Ok True, st2))"

definition initial_sandbox :: "'w turn_env \<Rightarrow> ('w, 'o, 'out) runtime \<Rightarrow> SandboxType" where
  "initial_sandbox env tool =
     (case rt_sandbox_mode_for_first_attempt tool of
        BypassSandboxFirstAttempt \<Rightarrow> NoSandbox
      | NoOverride \<Rightarrow>
          select_initial (te_os env) (te_file_system_sandbox_policy env) (te_network_sandbox_policy env)
            (rt_sandbox_preference tool) (te_windows_sandbox_enabled env) (te_network_active env))"

definition build_denial_reason_from_output :: "'o \<Rightarrow> string" where
  "build_denial_reason_from_output output = ''command failed; retry without sandbox?''"

definition allow_on_request_network_prompt ::
    "'w turn_env \<Rightarrow> AskForApproval \<Rightarrow> NetworkApprovalContext option \<Rightarrow> bool" where
  "allow_on_request_network_prompt env approval_policy network_context =
     (approval_policy = OnRequest \<and> network_context \<noteq> None
      \<and> (case default_exec_approval_requirement approval_policy (te_file_system_sandbox_policy env) of
           ReqNeedsApproval _ _ \<Rightarrow> True | _ \<Rightarrow> False))"

text \<open>What follows a denial by the sandbox.\<close>

definition retry_step ::
    "'w turn_env \<Rightarrow> ('w, 'o, 'out) runtime \<Rightarrow> AskForApproval \<Rightarrow> bool \<Rightarrow> 'o \<Rightarrow> NetworkPolicyDecisionPayload option
       \<Rightarrow> 'w orch_state \<Rightarrow> ('o ToolError + ('out \<times> string option)) \<times> 'w orch_state" where
  "retry_step env tool approval_policy already_approved output network_policy_decision st =
     (let denied = Err (SandboxDenied output network_policy_decision);
          network_context =
            (if te_network_active env
             then Option.bind network_policy_decision network_approval_context_from_payload else None)
      in if network_policy_decision \<noteq> None \<and> network_context = None then (denied, st)
         else if \<not> rt_escalate_on_failure tool then (denied, st)
         else if \<not> rt_wants_no_sandbox_approval tool approval_policy
                 \<and> \<not> allow_on_request_network_prompt env approval_policy network_context then (denied, st)
         else
           let reason =
                 (case network_context of
                    Some c \<Rightarrow> ''Network access to '' @ quoted (nac_host c) @ '' is blocked by policy.''
                  | None \<Rightarrow> build_denial_reason_from_output output);
               bypass_retry_approval =
                 (\<not> te_strict_auto_review env
                  \<and> rt_should_bypass_approval tool approval_policy already_approved
                  \<and> network_context = None);
               (consent, st1) =
                 (if bypass_retry_approval then (Ok (), st)
                  else let (review_id, st1) = fresh_review_id env (use_guardian env) st
                       in obtain_approval env tool (te_call_id env @ '':retry'')
                            \<lparr>guardian_review_id = review_id, retry_reason = Some reason,
                             network_approval_context = network_context\<rparr>
                            (\<not> te_strict_auto_review env) st1)
           in case consent of
                Inl err \<Rightarrow> (Err err, st1)
              | Inr _ \<Rightarrow>
                  (case run_attempt env tool NoSandbox st1 of
                     ((Inl err, _), st2) \<Rightarrow> (Err err, st2)
                   | ((Inr out, deferred), st2) \<Rightarrow> (Ok (out, deferred), st2)))"

definition orchestrator_run ::
    "'w turn_env \<Rightarrow> ('w, 'o, 'out) runtime \<Rightarrow> AskForApproval \<Rightarrow> 'w orch_state
       \<Rightarrow> ('o ToolError + ('out \<times> string option)) \<times> 'w orch_state" where
  "orchestrator_run env tool approval_policy st =
     (case approval_step env tool approval_policy st of
        (Inl err, st1) \<Rightarrow> (Err err, st1)
      | (Inr already_approved, st1) \<Rightarrow>
          (case run_attempt env tool (initial_sandbox env tool) st1 of
             ((Inr out, deferred), st2) \<Rightarrow> (Ok (out, deferred), st2)
           | ((Inl (SandboxDenied output network_policy_decision), _), st2) \<Rightarrow>
               retry_step env tool approval_policy already_approved output network_policy_decision st2
           | ((Inl err, _), st2) \<Rightarrow> (Err err, st2)))"

section \<open>The runtimes\<close>

text \<open>\<open>command_canonicalization.rs\<close>.\<close>

definition canonicalize_command_for_approval :: "bash_parser \<Rightarrow> string list \<Rightarrow> string list" where
  "canonicalize_command_for_approval parse cmd =
     (case parse_shell_lc_plain_commands parse cmd of
        Some [single_command] \<Rightarrow> single_command
      | _ \<Rightarrow>
          (case extract_bash_command cmd of
             Some (_, script) \<Rightarrow>
               [''__codex_shell_script__'', if 1 < length cmd then cmd ! 1 else [], script]
           | None \<Rightarrow>
               (case extract_powershell_command cmd of
                  Some (_, script) \<Rightarrow> [''__codex_powershell_script__'', script]
                | None \<Rightarrow> cmd)))"

text \<open>
  The parts of a request the orchestrator sees; the additional permissions go into the approval key.
\<close>

record ShellRequest =
  sr_command :: "string list"
  sr_hook_command :: string
  sr_cwd :: path
  sr_has_network :: bool
  sr_sandbox_permissions :: SandboxPermissions
  sr_additional_permissions :: "AdditionalPermissionProfile option"
  sr_justification :: "string option"
  sr_exec_approval_requirement :: ExecApprovalRequirement

record ApprovalKey =
  ak_command :: "string list"
  ak_cwd :: path
  ak_sandbox_permissions :: SandboxPermissions
  ak_additional_permissions :: "AdditionalPermissionProfile option"

definition shell_approval_keys :: "bash_parser \<Rightarrow> ShellRequest \<Rightarrow> ApprovalKey list" where
  "shell_approval_keys parse req =
     [\<lparr>ak_command = canonicalize_command_for_approval parse (sr_command req), ak_cwd = sr_cwd req,
       ak_sandbox_permissions = sr_sandbox_permissions req,
       ak_additional_permissions = sr_additional_permissions req\<rparr>]"

text \<open>Who answers: the guardian, given the reason for a retry, and the user, given a reason.\<close>

record 'w approvers =
  av_review :: "string \<Rightarrow> string option \<Rightarrow> 'w session \<Rightarrow> ReviewDecision \<times> 'w session"
  av_request :: "string option \<Rightarrow> NetworkApprovalContext option \<Rightarrow> 'w session \<Rightarrow> ReviewDecision \<times> 'w session"
  av_serialize :: "ApprovalKey \<Rightarrow> string option"

definition shell_start_approval_async ::
    "bash_parser \<Rightarrow> 'w approvers \<Rightarrow> ShellRequest \<Rightarrow> ApprovalCtx \<Rightarrow> 'w session \<Rightarrow> ReviewDecision \<times> 'w session" where
  "shell_start_approval_async parse av req ctx se =
     (case guardian_review_id ctx of
        Some review_id \<Rightarrow> av_review av review_id (retry_reason ctx) se
      | None \<Rightarrow>
          with_cached_approval (av_serialize av) (shell_approval_keys parse req)
            (av_request av (case retry_reason ctx of Some r \<Rightarrow> Some r | None \<Rightarrow> sr_justification req)
               (network_approval_context ctx)) se)"

definition bash_payload :: "string \<Rightarrow> string option \<Rightarrow> json" where
  "bash_payload cmd description =
     JObj ((''command'', JStr cmd) # (case description of None \<Rightarrow> [] | Some d \<Rightarrow> [(''description'', JStr d)]))"

definition shell_runtime ::
    "bash_parser \<Rightarrow> 'w approvers \<Rightarrow> (SandboxType \<Rightarrow> 'w session \<Rightarrow> ('o ToolError + 'out) \<times> 'w session)
       \<Rightarrow> ShellRequest \<Rightarrow> ('w session, 'o, 'out) runtime" where
  "shell_runtime parse av exec req =
     \<lparr>rt_exec_approval_requirement = Some (sr_exec_approval_requirement req),
      rt_sandbox_mode_for_first_attempt =
        sandbox_override_for_first_attempt (sr_sandbox_permissions req) (sr_exec_approval_requirement req),
      rt_sandbox_preference = PrefAuto,
      rt_escalate_on_failure = True,
      rt_wants_no_sandbox_approval = default_wants_no_sandbox_approval,
      rt_should_bypass_approval = default_should_bypass_approval,
      rt_permission_request_payload = Some (bash_payload (sr_hook_command req) (sr_justification req)),
      rt_start_approval_async = shell_start_approval_async parse av req,
      rt_network_approval_spec =
        (if sr_has_network req \<and> \<not> requires_escalated_permissions (sr_sandbox_permissions req)
         then Some (True, Immediate) else None),
      rt_run = exec\<rparr>"

text \<open>The runtime of \<open>apply_patch\<close>; its keys are the paths of the files.\<close>

record ApplyPatchRequest =
  ar_file_paths :: "path list"
  ar_patch :: string
  ar_exec_approval_requirement :: ExecApprovalRequirement
  ar_permissions_preapproved :: bool

record 'w patch_approvers =
  pv_review :: "string \<Rightarrow> string option \<Rightarrow> 'w session \<Rightarrow> ReviewDecision \<times> 'w session"
  pv_request :: "string option \<Rightarrow> 'w session \<Rightarrow> ReviewDecision \<times> 'w session"
  pv_serialize :: "path \<Rightarrow> string option"

definition patch_start_approval_async ::
    "'w patch_approvers \<Rightarrow> ApplyPatchRequest \<Rightarrow> ApprovalCtx \<Rightarrow> 'w session \<Rightarrow> ReviewDecision \<times> 'w session" where
  "patch_start_approval_async pv req ctx se =
     (case guardian_review_id ctx of
        Some review_id \<Rightarrow> pv_review pv review_id (retry_reason ctx) se
      | None \<Rightarrow>
          if ar_permissions_preapproved req \<and> retry_reason ctx = None then (Approved, se)
          else (case retry_reason ctx of
                  Some reason \<Rightarrow> pv_request pv (Some reason) se
                | None \<Rightarrow> with_cached_approval (pv_serialize pv) (ar_file_paths req) (pv_request pv None) se))"

definition patch_wants_no_sandbox_approval :: "AskForApproval \<Rightarrow> bool" where
  "patch_wants_no_sandbox_approval policy =
     (case policy of Never \<Rightarrow> False | Granular cfg \<Rightarrow> sandbox_approval cfg | _ \<Rightarrow> True)"

definition patch_runtime ::
    "'w patch_approvers \<Rightarrow> (SandboxType \<Rightarrow> 'w session \<Rightarrow> ('o ToolError + 'out) \<times> 'w session)
       \<Rightarrow> ApplyPatchRequest \<Rightarrow> ('w session, 'o, 'out) runtime" where
  "patch_runtime pv exec req =
     \<lparr>rt_exec_approval_requirement = Some (ar_exec_approval_requirement req),
      rt_sandbox_mode_for_first_attempt = NoOverride,
      rt_sandbox_preference = PrefAuto,
      rt_escalate_on_failure = True,
      rt_wants_no_sandbox_approval = patch_wants_no_sandbox_approval,
      rt_should_bypass_approval = default_should_bypass_approval,
      rt_permission_request_payload = Some (JObj [(''command'', JStr (ar_patch req))]),
      rt_start_approval_async = patch_start_approval_async pv req,
      rt_network_approval_spec = None,
      rt_run = exec\<rparr>"

section \<open>The shell handler\<close>

record shell_call =
  sc_command :: "string list"
  sc_hook_command :: string
  sc_cwd :: path
  sc_has_network :: bool
  sc_justification :: "string option"
  sc_prefix_rule :: "string list option"
  sc_permission_profile :: PermissionProfile
  sc_turn_cwd :: string
  sc_effective :: "EffectiveAdditionalPermissions"
  sc_normalized :: "AdditionalPermissionProfile option"

definition escalation_rejected :: "'w turn_env \<Rightarrow> shell_call \<Rightarrow> bool" where
  "escalation_rejected env call =
     (requests_sandbox_override (eff_sandbox_permissions (sc_effective call))
      \<and> \<not> eff_permissions_preapproved (sc_effective call)
      \<and> te_approval_policy env \<noteq> OnRequest)"

definition shell_approval_request :: "'w turn_env \<Rightarrow> shell_call \<Rightarrow> ExecApprovalRequest" where
  "shell_approval_request env call =
     \<lparr>req_command = sc_command call, req_approval_policy = te_approval_policy env,
      req_permission_profile = sc_permission_profile call,
      req_file_system_sandbox_policy = te_file_system_sandbox_policy env,
      req_sandbox_cwd = sc_turn_cwd call,
      req_sandbox_permissions =
        (if eff_permissions_preapproved (sc_effective call) then UseDefault
         else eff_sandbox_permissions (sc_effective call)),
      req_prefix_rule = sc_prefix_rule call\<rparr>"

definition shell_request :: "shell_call \<Rightarrow> ExecApprovalRequirement \<Rightarrow> ShellRequest" where
  "shell_request call requirement =
     \<lparr>sr_command = sc_command call, sr_hook_command = sc_hook_command call, sr_cwd = sc_cwd call,
      sr_has_network = sc_has_network call,
      sr_sandbox_permissions = eff_sandbox_permissions (sc_effective call),
      sr_additional_permissions = sc_normalized call, sr_justification = sc_justification call,
      sr_exec_approval_requirement = requirement\<rparr>"

text \<open>
  The end of \<open>run_exec_like\<close>: the guard against escalation, the requirement, the run.
  \<open>None\<close> is the panic of an evaluation without matches.
\<close>

definition run_exec_like ::
    "approval_env \<Rightarrow> Policy \<Rightarrow> 'w session turn_env \<Rightarrow> 'w approvers
       \<Rightarrow> (SandboxType \<Rightarrow> 'w session \<Rightarrow> ('o ToolError + 'out) \<times> 'w session) \<Rightarrow> shell_call
       \<Rightarrow> 'w session orch_state \<Rightarrow> ((string + ('o ToolError + ('out \<times> string option))) \<times> 'w session orch_state) option" where
  "run_exec_like aenv p env av exec call st =
     (if escalation_rejected env call
      then let policy = AskForApproval_debug (te_approval_policy env)
           in Some (Err (''approval policy is '' @ policy @ ''; reject command '' @ emdash
                @ '' you should not ask for escalated permissions if the approval policy is '' @ policy), st)
      else map_option (\<lambda>requirement.
             let (r, st1) = orchestrator_run env
                   (shell_runtime (env_bash (ap_safety aenv)) av exec (shell_request call requirement))
                   (te_approval_policy env) st
             in (Ok r, st1))
           (create_exec_approval_requirement_for_command aenv p (shell_approval_request env call)))"

section \<open>What a run may do\<close>

text \<open>
  The contract of a run as a machine over the events of its trace. Before the first attempt
  questions are asked; the requirement says whether one of them has to be answered with an
  approval. After it, at most one attempt follows, outside the sandbox, and only with an approval;
  under the strict review with one given after the first attempt.
\<close>

fun approves :: "event \<Rightarrow> bool" where
  "approves (EvHook _ d) = (d = Some HookAllow)"
| "approves (EvApproval _ d) =
     (case d of
        Approved \<Rightarrow> True
      | ApprovedExecpolicyAmendment _ \<Rightarrow> True
      | ApprovedForSession \<Rightarrow> True
      | NetworkPolicyAmendment _ action \<Rightarrow> action = RuleAllow
      | _ \<Rightarrow> False)"
| "approves (EvAttempt _) = False"

fun is_attempt :: "event \<Rightarrow> bool" where
  "is_attempt (EvAttempt _) = True"
| "is_attempt _ = False"

datatype phase = Before bool | After bool bool | Finished

fun authorised :: "bool \<Rightarrow> ExecApprovalRequirement \<Rightarrow> bool \<Rightarrow> bool" where
  "authorised strict (ReqSkip _ _) a = (strict \<longrightarrow> a)"
| "authorised strict (ReqNeedsApproval _ _) a = a"
| "authorised strict (ReqForbidden _) a = False"

inductive spec_step ::
    "bool \<Rightarrow> ExecApprovalRequirement \<Rightarrow> AskForApproval \<Rightarrow> SandboxType \<Rightarrow> phase \<Rightarrow> event \<Rightarrow> phase \<Rightarrow> bool"
  for strict requirement policy initial where
  question: "\<not> is_attempt e \<Longrightarrow>
     spec_step strict requirement policy initial (Before a) e (Before (a \<or> approves e))"
| first_attempt: "authorised strict requirement a \<Longrightarrow>
     spec_step strict requirement policy initial (Before a) (EvAttempt initial) (After a False)"
| retry_question: "\<not> is_attempt e \<Longrightarrow>
     spec_step strict requirement policy initial (After a f) e (After (a \<or> approves e) (f \<or> approves e))"
| retry: "policy \<noteq> Never \<Longrightarrow> (if strict then f else a) \<Longrightarrow>
     spec_step strict requirement policy initial (After a f) (EvAttempt NoSandbox) Finished"

inductive spec_run ::
    "bool \<Rightarrow> ExecApprovalRequirement \<Rightarrow> AskForApproval \<Rightarrow> SandboxType \<Rightarrow> event list \<Rightarrow> phase \<Rightarrow> bool"
  for strict requirement policy initial where
  start: "spec_run strict requirement policy initial [] (Before False)"
| further: "spec_run strict requirement policy initial es ph \<Longrightarrow>
     spec_step strict requirement policy initial ph e ph' \<Longrightarrow>
     spec_run strict requirement policy initial (es @ [e]) ph'"

inductive_cases spec_step_BeforeE: "spec_step strict requirement policy initial (Before a) e ph"
inductive_cases spec_step_AfterE: "spec_step strict requirement policy initial (After a f) e ph"
inductive_cases spec_step_FinishedE: "spec_step strict requirement policy initial Finished e ph"

definition quiet :: "event list \<Rightarrow> bool" where
  "quiet es = (\<not> list_ex is_attempt es)"

definition consent :: "event list \<Rightarrow> bool" where
  "consent es = list_ex approves es"

fun attempts :: "event list \<Rightarrow> SandboxType list" where
  "attempts [] = []"
| "attempts (EvAttempt sb # es) = sb # attempts es"
| "attempts (e # es) = attempts es"

lemma quiet_simps [simp]:
  "quiet []" "quiet (es @ fs) = (quiet es \<and> quiet fs)" "quiet (e # es) = (\<not> is_attempt e \<and> quiet es)"
  by (auto simp: quiet_def)

lemma consent_simps [simp]:
  "\<not> consent []" "consent (es @ fs) = (consent es \<or> consent fs)" "consent (e # es) = (approves e \<or> consent es)"
  by (auto simp: consent_def)

lemma attempts_append [simp]: "attempts (es @ fs) = attempts es @ attempts fs"
  by (induction es rule: attempts.induct) auto

lemma attempts_question [simp]: "\<not> is_attempt e \<Longrightarrow> attempts (e # es) = attempts es"
  by (cases e) auto

lemma spec_run_questions:
  assumes "spec_run strict requirement policy initial es (Before a)" and "quiet fs"
  shows "spec_run strict requirement policy initial (es @ fs) (Before (a \<or> consent fs))"
  using assms(2)
proof (induction fs rule: rev_induct)
  case Nil
  then show ?case using assms(1) by simp
next
  case (snoc e fs)
  then have "spec_run strict requirement policy initial (es @ fs) (Before (a \<or> consent fs))" by simp
  from spec_run.further [OF this question, of e] snoc.prems show ?case by (simp add: disj_assoc)
qed

lemma spec_run_retry_questions:
  assumes "spec_run strict requirement policy initial es (After a f)" and "quiet fs"
  shows "spec_run strict requirement policy initial (es @ fs) (After (a \<or> consent fs) (f \<or> consent fs))"
  using assms(2)
proof (induction fs rule: rev_induct)
  case Nil
  then show ?case using assms(1) by simp
next
  case (snoc e fs)
  then have "spec_run strict requirement policy initial (es @ fs) (After (a \<or> consent fs) (f \<or> consent fs))" by simp
  from spec_run.further [OF this retry_question, of e] snoc.prems show ?case by (simp add: disj_assoc)
qed

text \<open>What every run of the machine keeps.\<close>

lemma spec_run_shape:
  assumes "spec_run strict requirement policy initial es ph"
  shows "case ph of
           Before a \<Rightarrow> quiet es \<and> a = consent es
         | After a f \<Rightarrow> attempts es = [initial] \<and> a = consent es \<and> (f \<longrightarrow> a)
         | Finished \<Rightarrow> attempts es = [initial, NoSandbox] \<and> policy \<noteq> Never \<and> consent es"
  using assms
proof (induction rule: spec_run.induct)
  case (further es ph e ph')
  have q: "quiet es \<Longrightarrow> attempts es = []" for es by (induction es rule: attempts.induct) auto
  from further.hyps(2) further.IH show ?case
    by (cases rule: spec_step.cases) (auto simp: q split: if_splits)
qed simp

lemma spec_run_split:
  assumes "spec_run strict requirement policy initial (pre @ EvAttempt sb # post) ph"
  shows "\<exists>a. spec_run strict requirement policy initial pre (Before a) \<and> a = consent pre
               \<and> sb = initial \<and> authorised strict requirement a
          \<or> (\<exists>f. spec_run strict requirement policy initial pre (After a f) \<and> a = consent pre
               \<and> sb = NoSandbox \<and> policy \<noteq> Never \<and> a)"
  using assms
proof (induction post arbitrary: ph rule: rev_induct)
  case Nil
  then obtain ph0 where r: "spec_run strict requirement policy initial pre ph0"
      and s: "spec_step strict requirement policy initial ph0 (EvAttempt sb) ph"
    by (auto elim: spec_run.cases)
  from s spec_run_shape [OF r] r show ?case
    by (cases rule: spec_step.cases) (auto split: if_splits)
next
  case (snoc e post)
  from snoc.prems have "\<exists>ph0. spec_run strict requirement policy initial (pre @ EvAttempt sb # post) ph0"
  proof (cases rule: spec_run.cases)
    case (further es ph0 e')
    then have "es = pre @ EvAttempt sb # post" by (metis append_Cons append_assoc butlast_snoc)
    with further show ?thesis by blast
  qed simp
  then show ?case using snoc.IH by blast
qed

section \<open>The orchestrator keeps to it\<close>

lemma trace_ask [simp]: "ask f st = (a, st') \<Longrightarrow> os_trace st' = os_trace st"
  by (auto simp: ask_def split: prod.splits)

lemma trace_log [simp]: "os_trace (log_event e st) = os_trace st @ [e]"
  by (simp add: log_event_def)

lemma trace_fresh: "fresh_review_id env b st = (i, st') \<Longrightarrow> os_trace st' = os_trace st"
  by (auto simp: fresh_review_id_def split: if_splits prod.splits)

lemma trace_begin_network: "begin_network_approval env spec st = (a, st') \<Longrightarrow> os_trace st' = os_trace st"
  by (auto simp: begin_network_approval_def split: option.splits if_splits prod.splits)

lemma trace_finish_immediate:
  "finish_immediate_network_approval env active st = (r, st') \<Longrightarrow> os_trace st' = os_trace st"
  by (auto simp: finish_immediate_network_approval_def split: option.splits prod.splits)

lemma trace_finish_deferred: "os_trace (finish_deferred_network_approval env d st) = os_trace st"
  by (auto simp: finish_deferred_network_approval_def split: option.splits)

lemma trace_run_attempt:
  assumes "run_attempt env tool sb st = (r, st')"
  shows "os_trace st' = os_trace st @ [EvAttempt sb]"
proof -
  obtain na st1 where b: "begin_network_approval env (rt_network_approval_spec tool) st = (na, st1)" by fastforce
  obtain res st2 where k: "ask (rt_run tool sb) (log_event (EvAttempt sb) st1) = (res, st2)" by fastforce
  have t: "os_trace st2 = os_trace st @ [EvAttempt sb]" using trace_ask [OF k] trace_begin_network [OF b] by simp
  show ?thesis using assms t
    by (auto simp: run_attempt_def b k Let_def trace_finish_deferred
        split: option.splits NetworkApprovalMode.splits prod.splits sum.splits if_splits
        dest: trace_finish_immediate)
qed

lemma trace_reject:
  assumes "reject_if_not_approved env i d st = (r, st')"
  shows "os_trace st' = os_trace st" and "is_ok r \<Longrightarrow> approves (EvApproval ctx d)"
  using assms
  by (auto simp: reject_if_not_approved_def Let_def
      split: ReviewDecision.splits option.splits prod.splits NetworkPolicyRuleAction.splits)

lemma trace_request:
  assumes "request_approval env tool rid ctx hooks st = (r, st')"
  shows "\<exists>es. os_trace st' = os_trace st @ es \<and> quiet es
           \<and> (\<forall>d. r = Inr d \<longrightarrow> consent es \<or> EvApproval ctx d \<in> set es)"
  using assms
  by (auto simp: request_approval_def Let_def
      split: prod.splits option.splits bool.splits PermissionRequestDecision.splits)

lemma trace_obtain:
  assumes "obtain_approval env tool rid ctx hooks st = (r, st')"
  shows "\<exists>es. os_trace st' = os_trace st @ es \<and> quiet es \<and> (is_ok r \<longrightarrow> consent es)"
proof -
  obtain q st1 where q: "request_approval env tool rid ctx hooks st = (q, st1)" by fastforce
  obtain es where es: "os_trace st1 = os_trace st @ es" "quiet es"
      "\<forall>d. q = Inr d \<longrightarrow> consent es \<or> EvApproval ctx d \<in> set es"
    using trace_request [OF q] by blast
  show ?thesis
  proof (cases q)
    case (Inl e)
    then show ?thesis using assms q es by (auto simp: obtain_approval_def)
  next
    case (Inr d)
    then have j: "reject_if_not_approved env (guardian_review_id ctx) d st1 = (r, st')"
      using assms q by (simp add: obtain_approval_def)
    have "consent es" if "is_ok r"
      using trace_reject(2) [OF j that, of ctx] es(3) Inr unfolding consent_def list_ex_iff by blast
    then show ?thesis using trace_reject(1) [OF j] es by auto
  qed
qed

definition requirement_of :: "'w turn_env \<Rightarrow> ('w, 'o, 'out) runtime \<Rightarrow> AskForApproval \<Rightarrow> ExecApprovalRequirement" where
  "requirement_of env tool policy =
     (case rt_exec_approval_requirement tool of
        Some r \<Rightarrow> r
      | None \<Rightarrow> default_exec_approval_requirement policy (te_file_system_sandbox_policy env))"

lemma trace_approval_step:
  assumes "approval_step env tool policy st = (r, st')"
  shows "\<exists>es. os_trace st' = os_trace st @ es \<and> quiet es
           \<and> (\<forall>already. r = Inr already \<longrightarrow>
                (already \<longrightarrow> consent es)
                \<and> authorised (te_strict_auto_review env) (requirement_of env tool policy) (consent es))"
proof (cases "requirement_of env tool policy")
  case (ReqForbidden reason)
  then show ?thesis using assms by (auto simp: approval_step_def requirement_of_def [symmetric])
next
  case (ReqSkip b am)
  then show ?thesis using assms
    by (fastforce simp: approval_step_def requirement_of_def [symmetric] Let_def
        split: if_splits prod.splits sum.splits dest: trace_fresh trace_obtain)
next
  case (ReqNeedsApproval reason am)
  then show ?thesis using assms
    by (fastforce simp: approval_step_def requirement_of_def [symmetric] Let_def
        split: if_splits prod.splits sum.splits dest: trace_fresh trace_obtain)
qed

text \<open>A retry stops where it is, is refused, or ends with the attempt outside the sandbox.\<close>

lemma retry_step_cases:
  assumes "retry_step env tool policy already out npd st = (r, st')"
  shows "st' = st
     \<or> (rt_wants_no_sandbox_approval tool policy \<or> policy = OnRequest)
       \<and> (\<exists>es st1. os_trace st1 = os_trace st @ es \<and> quiet es
            \<and> (st' = st1
               \<or> (consent es \<or> \<not> te_strict_auto_review env \<and> rt_should_bypass_approval tool policy already)
                 \<and> (\<exists>res. run_attempt env tool NoSandbox st1 = (res, st'))))"
proof -
  define nc where "nc = (if te_network_active env then Option.bind npd network_approval_context_from_payload else None)"
  define stop where "stop \<longleftrightarrow> npd \<noteq> None \<and> nc = None \<or> \<not> rt_escalate_on_failure tool
    \<or> \<not> rt_wants_no_sandbox_approval tool policy \<and> \<not> allow_on_request_network_prompt env policy nc"
  define bypass where "bypass \<longleftrightarrow> \<not> te_strict_auto_review env \<and> rt_should_bypass_approval tool policy already \<and> nc = None"
  define reason where "reason = (case nc of
      Some c \<Rightarrow> ''Network access to '' @ quoted (nac_host c) @ '' is blocked by policy.''
    | None \<Rightarrow> build_denial_reason_from_output out)"
  define asked where "asked = (if bypass then (Ok (), st)
      else let (i, st1) = fresh_review_id env (use_guardian env) st
           in obtain_approval env tool (te_call_id env @ '':retry'')
                \<lparr>guardian_review_id = i, retry_reason = Some reason, network_approval_context = nc\<rparr>
                (\<not> te_strict_auto_review env) st1)"
  note unfold = retry_step_def Let_def nc_def [symmetric] bypass_def [symmetric] reason_def [symmetric]
    asked_def [unfolded Let_def, symmetric]
  show ?thesis
  proof (cases stop)
    case True
    then have "st' = st" using assms unfolding unfold stop_def by (auto split: if_splits)
    then show ?thesis by blast
  next
    case False
    obtain c st1 where a: "asked = (c, st1)" by fastforce
    have step: "st' = st1 \<and> \<not> is_ok c \<or> is_ok c \<and> (\<exists>res. run_attempt env tool NoSandbox st1 = (res, st'))"
      using assms False a unfolding unfold stop_def by (auto split: prod.splits sum.splits)
    have asked_es: "\<exists>es. os_trace st1 = os_trace st @ es \<and> quiet es \<and> (is_ok c \<longrightarrow> consent es \<or> bypass)"
      using a trace_obtain trace_fresh by (fastforce simp: asked_def split: prod.splits if_splits)
    have "rt_wants_no_sandbox_approval tool policy \<or> policy = OnRequest"
      using False by (auto simp: stop_def allow_on_request_network_prompt_def)
    then show ?thesis using step asked_es bypass_def by blast
  qed
qed

lemma spec_run_retry:
  assumes "spec_run (te_strict_auto_review env) req policy init es (After a False)"
    and "retry_step env tool policy already out npd st = (r, st')"
    and "\<not> rt_wants_no_sandbox_approval tool Never"
    and "rt_should_bypass_approval tool policy already \<Longrightarrow> policy \<noteq> Never \<Longrightarrow> a"
  shows "\<exists>fs ph. os_trace st' = os_trace st @ fs \<and> spec_run (te_strict_auto_review env) req policy init (es @ fs) ph"
  using retry_step_cases [OF assms(2)]
proof
  assume "st' = st"
  then show ?thesis using assms(1) by (intro exI [of _ "[]"]) auto
next
  assume "(rt_wants_no_sandbox_approval tool policy \<or> policy = OnRequest)
       \<and> (\<exists>es st1. os_trace st1 = os_trace st @ es \<and> quiet es
            \<and> (st' = st1
               \<or> (consent es \<or> \<not> te_strict_auto_review env \<and> rt_should_bypass_approval tool policy already)
                 \<and> (\<exists>res. run_attempt env tool NoSandbox st1 = (res, st'))))"
  then obtain fs st1 where w: "rt_wants_no_sandbox_approval tool policy \<or> policy = OnRequest"
    and t: "os_trace st1 = os_trace st @ fs" and q: "quiet fs"
    and d: "st' = st1 \<or> (consent fs \<or> \<not> te_strict_auto_review env \<and> rt_should_bypass_approval tool policy already)
                 \<and> (\<exists>res. run_attempt env tool NoSandbox st1 = (res, st'))"
    by blast
  have n: "policy \<noteq> Never" using w assms(3) by auto
  note asked = spec_run_retry_questions [OF assms(1) q]
  from d show ?thesis
  proof
    assume "st' = st1"
    then show ?thesis using t asked by blast
  next
    assume "(consent fs \<or> \<not> te_strict_auto_review env \<and> rt_should_bypass_approval tool policy already)
                 \<and> (\<exists>res. run_attempt env tool NoSandbox st1 = (res, st'))"
    then obtain res
      where c: "consent fs \<or> \<not> te_strict_auto_review env \<and> rt_should_bypass_approval tool policy already"
        and k: "run_attempt env tool NoSandbox st1 = (res, st')" by blast
    have "if te_strict_auto_review env then False \<or> consent fs else a \<or> consent fs" using c n assms(4) by auto
    from spec_run.further [OF asked retry [OF n this]] trace_run_attempt [OF k] t show ?thesis
      by (intro exI [of _ "fs @ [EvAttempt NoSandbox]"]) auto
  qed
qed

text \<open>
  What the orchestrator needs of a runtime: it does not want to leave the sandbox under a policy
  that never asks, and it asks again on a retry unless it has been approved or must not ask.
\<close>

locale tool_contract =
  fixes tool :: "('w, 'o, 'out) runtime"
  assumes never_leaves: "\<not> rt_wants_no_sandbox_approval tool Never"
    and asks_again: "rt_should_bypass_approval tool policy already \<Longrightarrow> already \<or> policy = Never"
begin

lemma run_refines_spec:
  assumes "orchestrator_run env tool policy st = (r, st')"
  shows "\<exists>es ph. os_trace st' = os_trace st @ es
           \<and> spec_run (te_strict_auto_review env) (requirement_of env tool policy) policy (initial_sandbox env tool) es ph"
proof -
  let ?run = "spec_run (te_strict_auto_review env) (requirement_of env tool policy) policy (initial_sandbox env tool)"
  obtain q st1 where q: "approval_step env tool policy st = (q, st1)" by fastforce
  obtain es where es: "os_trace st1 = os_trace st @ es" "quiet es"
      "\<forall>already. q = Inr already \<longrightarrow> (already \<longrightarrow> consent es)
         \<and> authorised (te_strict_auto_review env) (requirement_of env tool policy) (consent es)"
    using trace_approval_step [OF q] by blast
  have before: "?run es (Before (consent es))"
    using spec_run_questions [OF spec_run.start es(2)] by simp
  show ?thesis
  proof (cases q)
    case (Inl e)
    then show ?thesis using assms q es(1) before by (auto simp: orchestrator_run_def)
  next
    case (Inr already)
    obtain res st2 where k: "run_attempt env tool (initial_sandbox env tool) st1 = (res, st2)" by fastforce
    let ?es1 = "es @ [EvAttempt (initial_sandbox env tool)]"
    have t2: "os_trace st2 = os_trace st @ ?es1" using trace_run_attempt [OF k] es(1) by simp
    have first: "?run ?es1 (After (consent es) False)"
      using spec_run.further [OF before first_attempt] es(3) Inr by blast
    have cases: "st' = st2 \<or> (\<exists>out npd. retry_step env tool policy already out npd st2 = (r, st'))"
      using assms by (auto simp: orchestrator_run_def q Inr k split: prod.splits sum.splits ToolError.splits)
    then show ?thesis
    proof (elim disjE exE)
      assume "st' = st2"
      then show ?thesis using t2 first by blast
    next
      fix out npd
      assume rt: "retry_step env tool policy already out npd st2 = (r, st')"
      have "consent es" if "rt_should_bypass_approval tool policy already" "policy \<noteq> Never"
        using asks_again [OF that(1)] that(2) es(3) Inr by blast
      from spec_run_retry [OF first rt never_leaves this] t2 show ?thesis by fastforce
    qed
  qed
qed

end

interpretation shell_tool: tool_contract "shell_runtime parse av exec req"
  by unfold_locales (auto simp: shell_runtime_def default_wants_no_sandbox_approval_def
      default_should_bypass_approval_def split: if_splits)

interpretation patch_tool: tool_contract "patch_runtime pv exec req"
  by unfold_locales (auto simp: patch_runtime_def patch_wants_no_sandbox_approval_def
      default_should_bypass_approval_def split: if_splits)

section \<open>Properties\<close>

text \<open>
  C4. The orchestrator keeps to the contract of a run with both of its runtimes. Whatever the user,
  the guardian, the hooks and the processes answer, the events of a run are a run of the machine:
  no attempt without the approval the requirement asks for, at most one further attempt, outside
  the sandbox, never under a policy that does not ask, and under the strict review only with an
  approval of its own.
\<close>

theorem tool_run_refines_contract:
  "(\<exists>es ph. os_trace (snd (orchestrator_run env (shell_runtime parse av exec req) policy st)) = os_trace st @ es
      \<and> spec_run (te_strict_auto_review env) (sr_exec_approval_requirement req) policy
          (initial_sandbox env (shell_runtime parse av exec req)) es ph)
   \<and> (\<exists>es ph. os_trace (snd (orchestrator_run env' (patch_runtime pv exec' req') policy' st')) = os_trace st' @ es
      \<and> spec_run (te_strict_auto_review env') (ar_exec_approval_requirement req') policy'
          (initial_sandbox env' (patch_runtime pv exec' req')) es ph)"
  using shell_tool.run_refines_spec [OF prod.collapse [symmetric], of env parse av exec req policy st]
    patch_tool.run_refines_spec [OF prod.collapse [symmetric], of env' pv exec' req' policy' st']
  by (simp add: requirement_of_def shell_runtime_def patch_runtime_def)

text \<open>A script that skips the question although it asks to leave the sandbox.\<close>

lemma escalated_skip:
  assumes "create_exec_approval_requirement_for_command env p req = Some (ReqSkip b am)"
    and "req_approval_policy req = OnRequest" and "fs_kind (req_file_system_sandbox_policy req) = Restricted"
    and "req_sandbox_permissions req = RequireEscalated"
  shows "list_all (\<lambda>c. segment_allowed_by_rule (ap_exec env) p c \<or> is_known_safe_command (ap_safety env) c)
           (fst (commands_for_exec_policy (env_bash (ap_safety env)) (req_command req)))"
proof -
  obtain cs complex where cc: "commands_for_exec_policy (env_bash (ap_safety env)) (req_command req) = (cs, complex)"
    by (cases "commands_for_exec_policy (env_bash (ap_safety env)) (req_command req)")
  let ?f = "unmatched_fallback env req complex"
  have D: "(\<Union>c \<in> set cs. segment_decisions (ap_exec env) p ?f c) = {Allow}"
    using requirement_cases [OF cc, where p = p] assms(1) by auto
  have "segment_allowed_by_rule (ap_exec env) p c \<or> is_known_safe_command (ap_safety env) c" if "c \<in> set cs" for c
  proof (cases "rule_matches_of (ap_exec env) p c = []")
    case True
    then have "?f c = Allow" using D that by (auto simp: segment_decisions_def)
    then show ?thesis using assms(2-4)
      by (auto simp: unmatched_fallback_def render_decision_for_unmatched_command_def requests_sandbox_override_def
          Let_def split: if_splits)
  next
    case False
    then have "match_decision ` set (rule_matches_of (ap_exec env) p c) \<subseteq> {Allow}"
      using D that by (fastforce simp: segment_decisions_def split: if_splits)
    then show ?thesis using False by (cases "rule_matches_of (ap_exec env) p c") (auto simp: allowed_by_rule_iff)
  qed
  then show ?thesis by (simp add: cc list_all_iff)
qed

lemma bypassing_skip:
  assumes "create_exec_approval_requirement_for_command env p req = Some (ReqSkip True am)"
  shows "list_all (segment_allowed_by_rule (ap_exec env) p)
           (fst (commands_for_exec_policy (env_bash (ap_safety env)) (req_command req)))"
proof -
  obtain cs complex where cc: "commands_for_exec_policy (env_bash (ap_safety env)) (req_command req) = (cs, complex)"
    by (cases "commands_for_exec_policy (env_bash (ap_safety env)) (req_command req)")
  show ?thesis using requirement_cases [OF cc, where p = p] assms by (auto simp: cc)
qed

definition platform_sandboxed :: "'w turn_env \<Rightarrow> bool" where
  "platform_sandboxed env =
     (get_platform_sandbox (te_os env) (te_windows_sandbox_enabled env) \<noteq> None
      \<and> fs_kind (te_file_system_sandbox_policy env) = Restricted
      \<and> should_require_platform_sandbox (te_file_system_sandbox_policy env) (te_network_sandbox_policy env) (te_network_active env))"

lemma get_platform_sandbox_real: "get_platform_sandbox os b = Some t \<Longrightarrow> t \<noteq> NoSandbox"
  by (auto simp: get_platform_sandbox_def split: target_os.splits if_splits)

lemma initial_sandbox_bypass:
  assumes "platform_sandboxed env" and "initial_sandbox env (shell_runtime parse av exec req) = NoSandbox"
  shows "sr_sandbox_permissions req = RequireEscalated
       \<or> (\<exists>am. sr_exec_approval_requirement req = ReqSkip True am)"
  using assms get_platform_sandbox_real
  by (auto simp: platform_sandboxed_def initial_sandbox_def shell_runtime_def select_initial_def Let_def
      sandbox_override_for_first_attempt_def requires_escalated_permissions_def
      split: if_splits option.splits ExecApprovalRequirement.splits)

lemma run_exec_like_runs:
  assumes "run_exec_like aenv p env av exec call st = Some (r, st')" and "\<not> escalation_rejected env call"
  shows "\<exists>req. create_exec_approval_requirement_for_command aenv p (shell_approval_request env call) = Some req
     \<and> st' = snd (orchestrator_run env (shell_runtime (env_bash (ap_safety aenv)) av exec (shell_request call req))
                   (te_approval_policy env) st)"
  using assms by (auto simp: run_exec_like_def case_prod_beta Let_def)

lemma granted_escalation:
  assumes "eff = apply_granted_turn_permissions fenv gs gt cwd perms additional"
    and "eff_sandbox_permissions eff = RequireEscalated"
  shows "\<not> eff_permissions_preapproved eff"
  using assms by (auto simp: apply_granted_turn_permissions_def Let_def split: if_splits)

lemma unsandboxed_attempt:
  assumes "platform_sandboxed env"
    and "sc_effective call = apply_granted_turn_permissions fenv gs gt cwd perms additional"
    and "run_exec_like aenv p env av exec call st = Some (r, st')"
    and "os_trace st' = os_trace st @ pre @ EvAttempt NoSandbox # post"
  shows "list_ex approves pre
       \<or> list_all (\<lambda>c. segment_allowed_by_rule (ap_exec aenv) p c
             \<or> eff_sandbox_permissions (sc_effective call) = RequireEscalated \<and> is_known_safe_command (ap_safety aenv) c)
           (fst (commands_for_exec_policy (env_bash (ap_safety aenv)) (sc_command call)))"
proof -
  let ?parse = "env_bash (ap_safety aenv)" and ?areq = "shell_approval_request env call"
  have "\<not> escalation_rejected env call" using assms(3,4) by (auto simp: run_exec_like_def Let_def)
  with run_exec_like_runs [OF assms(3)] obtain req
    where req: "create_exec_approval_requirement_for_command aenv p ?areq = Some req"
      and run: "st' = snd (orchestrator_run env (shell_runtime ?parse av exec (shell_request call req))
                        (te_approval_policy env) st)"
      and ne: "\<not> escalation_rejected env call"
    by blast
  let ?tool = "shell_runtime ?parse av exec (shell_request call req)"
  have rq: "requirement_of env ?tool (te_approval_policy env) = req"
    by (simp add: requirement_of_def shell_runtime_def shell_request_def)
  obtain es ph where es: "os_trace st' = os_trace st @ es"
      and sr: "spec_run (te_strict_auto_review env) req (te_approval_policy env) (initial_sandbox env ?tool) es ph"
    using shell_tool.run_refines_spec
      [OF prod.collapse [symmetric], of env ?parse av exec "shell_request call req" "te_approval_policy env" st]
    unfolding rq run by blast
  have "es = pre @ EvAttempt NoSandbox # post" using es assms(4) by simp
  note split = spec_run_split [OF sr [unfolded this]]
  from split have c: "consent pre \<or> initial_sandbox env ?tool = NoSandbox \<and> authorised (te_strict_auto_review env) req False"
    by (cases "consent pre") auto
  show ?thesis
  proof (cases "consent pre")
    case True
    then show ?thesis by (simp add: consent_def)
  next
    case False
    with c obtain b am where skip: "req = ReqSkip b am" and i: "initial_sandbox env ?tool = NoSandbox"
      by (cases req) auto
    note cmd = shell_approval_request_def
    from initial_sandbox_bypass [OF assms(1) i] consider "eff_sandbox_permissions (sc_effective call) = RequireEscalated"
      | "b" by (auto simp: shell_request_def skip)
    then show ?thesis
    proof cases
      case 1
      with ne granted_escalation [OF assms(2)] have "te_approval_policy env = OnRequest" "req_sandbox_permissions ?areq = RequireEscalated"
        by (auto simp: escalation_rejected_def requests_sandbox_override_def cmd)
      with escalated_skip [OF req [unfolded skip]] 1 assms(1) show ?thesis
        by (simp add: cmd platform_sandboxed_def)
    next
      case 2
      with req skip have "create_exec_approval_requirement_for_command aenv p ?areq = Some (ReqSkip True am)" by simp
      from bypassing_skip [OF this] show ?thesis
        by (auto simp: cmd list_all_iff)
    qed
  qed
qed

text \<open>
  A command leaves the sandbox only with consent. Where the operating system has a sandbox and
  the policy needs one, an attempt of the shell tool without it comes after an approval, by a
  hook, the guardian or the user, or else every command of the script is allowed by a rule of
  the policy or, when the call itself asks for escalated permissions, known to be safe.
\<close>

theorem unsandboxed_only_with_consent:
  assumes "platform_sandboxed env"
    and "sc_effective call = apply_granted_turn_permissions fenv gs gt cwd perms additional"
    and "run_exec_like aenv p env av exec call st = Some (r, st')"
    and "os_trace st' = os_trace st @ pre @ EvAttempt NoSandbox # post"
  shows "list_ex approves pre
       \<or> list_all (\<lambda>c. segment_allowed_by_rule (ap_exec aenv) p c
             \<or> eff_sandbox_permissions (sc_effective call) = RequireEscalated \<and> is_known_safe_command (ap_safety aenv) c)
           (fst (commands_for_exec_policy (env_bash (ap_safety aenv)) (sc_command call)))"
  by (rule unsandboxed_attempt [OF assms])

text \<open>A turn under \<open>UnlessTrusted\<close> whose user approves and whose sandbox denies.\<close>

definition demo_turn :: "unit session turn_env" where
  "demo_turn = \<lparr>te_os = Linux, te_windows_sandbox_enabled = False, te_strict_auto_review = False,
     te_auto_review = False, te_approval_policy = UnlessTrusted,
     te_file_system_sandbox_policy = profile_file_system_sandbox_policy profile_workspace_write,
     te_network_sandbox_policy = profile_network_sandbox_policy profile_workspace_write,
     te_network_active = False, te_call_id = ''c1'', te_hooks = \<lambda>_ _ w. (None, w),
     te_new_review_id = \<lambda>w. (''r'', w), te_rejection_message = \<lambda>_ w. (''no'', w), te_timeout_message = ''late'',
     te_register_call = \<lambda>w. (''n'', w), te_take_call_outcome = \<lambda>_ w. (None, w), te_unregister_call = \<lambda>_ w. w\<rparr>"

definition demo_approvers :: "unit approvers" where
  "demo_approvers = \<lparr>av_review = \<lambda>_ _ se. (Denied, se), av_request = \<lambda>_ _ se. (Approved, se), av_serialize = \<lambda>_. None\<rparr>"

definition demo_exec :: "SandboxType \<Rightarrow> unit session \<Rightarrow> (string ToolError + string) \<times> unit session" where
  "demo_exec sb se = ((if sb = NoSandbox then Ok ''built'' else Err (SandboxDenied ''denied'' None)), se)"

definition demo_call :: "shell_call" where
  "demo_call = \<lparr>sc_command = [''make''], sc_hook_command = ''make'', sc_cwd = components ''/w'', sc_has_network = False,
     sc_justification = None, sc_prefix_rule = None, sc_permission_profile = profile_workspace_write,
     sc_turn_cwd = ''/w'',
     sc_effective = apply_granted_turn_permissions demo_fs None None (components ''/w'') UseDefault None,
     sc_normalized = None\<rparr>"

definition demo_start :: "unit session orch_state" where
  "demo_start = \<lparr>os_world = \<lparr>se_tool_approvals = Map.empty, se_world = ()\<rparr>, os_trace = []\<rparr>"

definition demo_events :: "event list" where
  "demo_events =
     [EvHook ''c1'' None,
      EvApproval \<lparr>guardian_review_id = None, retry_reason = None, network_approval_context = None\<rparr> Approved,
      EvAttempt LinuxSeccomp]"

theorem unsandboxed_only_with_consent_witness:
  "\<exists>st'. run_exec_like demo_approval Policy_empty demo_turn demo_approvers demo_exec demo_call demo_start
            = Some (Ok (Ok (''built'', None)), st')
     \<and> os_trace st' = demo_events @ [EvAttempt NoSandbox] \<and> list_ex approves demo_events"
proof -
  have "Option.bind (run_exec_like demo_approval Policy_empty demo_turn demo_approvers demo_exec demo_call demo_start)
      (\<lambda>(r, st). Some (r, os_trace st)) =
      Some (Ok (Ok (''built'', None)), demo_events @ [EvAttempt NoSandbox])" by code_simp
  then obtain st' where r: "run_exec_like demo_approval Policy_empty demo_turn demo_approvers demo_exec demo_call demo_start
      = Some (Ok (Ok (''built'', None)), st')" and t: "os_trace st' = demo_events @ [EvAttempt NoSandbox]"
    by (auto split: bind_splits)
  have ps: "platform_sandboxed demo_turn" by code_simp
  have e: "sc_effective demo_call = apply_granted_turn_permissions demo_fs None None (components ''/w'') UseDefault None"
    by (simp add: demo_call_def)
  have n: "\<not> list_all (\<lambda>c. segment_allowed_by_rule (ap_exec demo_approval) Policy_empty c
             \<or> eff_sandbox_permissions (sc_effective demo_call) = RequireEscalated \<and> is_known_safe_command (ap_safety demo_approval) c)
           (fst (commands_for_exec_policy (env_bash (ap_safety demo_approval)) (sc_command demo_call)))" by code_simp
  have "os_trace demo_start = []" by (simp add: demo_start_def)
  then have t': "os_trace st' = os_trace demo_start @ demo_events @ EvAttempt NoSandbox # []" using t by simp
  from unsandboxed_only_with_consent [OF ps e r t'] n r t show ?thesis by blast
qed

end
