(* ===== verification/Patch_Safety.thy ===== *)
theory Patch_Safety
  imports Tool_Orchestrator Strict_Delegation
begin

text \<open>
  The \<open>apply_patch\<close> tool as a whole: the assessment of a patch (\<open>core/src/safety.rs\<close>,
  \<open>core/src/apply_patch.rs\<close>), its runtime (\<open>core/src/tools/runtimes/apply_patch.rs\<close>, with
  \<open>is_likely_sandbox_denied\<close> of \<open>core/src/exec.rs\<close>) and its handler
  (\<open>core/src/tools/handlers/apply_patch.rs\<close>), which puts the gate of strict delegation, the
  verification, the grants of the session, the assessment and the orchestrator together.

  The changes of an action are a \<open>HashMap\<close>; \<open>order\<close> is the order it iterates in, and
  \<open>iterates\<close> what is known about it. The file system of the environment takes the sandbox and
  the directory relative paths start from; its state is the world of the session. The texts that
  the tool's events and its answer to the model are formatted into are left out.
\<close>

section \<open>Changes\<close>

type_synonym hm_order = "(path \<rightharpoonup> ApplyPatchFileChange) \<Rightarrow> path list"

definition iterates :: "hm_order \<Rightarrow> ApplyPatchAction \<Rightarrow> bool" where
  "iterates order action \<longleftrightarrow>
     set (order (act_changes action)) = dom (act_changes action) \<and> distinct (order (act_changes action))"

definition action_items :: "hm_order \<Rightarrow> ApplyPatchAction \<Rightarrow> (path \<times> ApplyPatchFileChange) list" where
  "action_items order action =
     List.map_filter (\<lambda>p. map_option (Pair p) (act_changes action p)) (order (act_changes action))"

fun change_targets :: "path \<times> ApplyPatchFileChange \<Rightarrow> path list" where
  "change_targets (p, ChangeUpdate _ (Some dest) _) = [p, dest]"
| "change_targets (p, _) = [p]"

section \<open>safety.rs\<close>

datatype SafetyCheck =
    SafetyAutoApprove SandboxType bool
  | SafetyAskUser
  | SafetyReject string

definition PATCH_REJECTED_OUTSIDE_PROJECT_REASON :: string where
  "PATCH_REJECTED_OUTSIDE_PROJECT_REASON =
     ''writing outside of the project; rejected by user approval settings''"

definition PATCH_REJECTED_READ_ONLY_REASON :: string where
  "PATCH_REJECTED_READ_ONLY_REASON =
     ''writing is blocked by read-only sandbox; rejected by user approval settings''"

definition patch_rejection_reason :: "fs_env \<Rightarrow> PermissionProfile \<Rightarrow> FileSystemSandboxPolicy \<Rightarrow> path \<Rightarrow> string" where
  "patch_rejection_reason env profile pol cwd =
     (case profile of
        Managed _ _ \<Rightarrow>
          if \<not> fs_has_full_disk_write_access pol \<and> get_writable_roots_with_cwd env pol (path_str cwd) = []
          then PATCH_REJECTED_READ_ONLY_REASON else PATCH_REJECTED_OUTSIDE_PROJECT_REASON
      | _ \<Rightarrow> PATCH_REJECTED_OUTSIDE_PROJECT_REASON)"

text \<open>\<open>resolve_path\<close> of \<open>util.rs\<close> and the local \<open>normalize\<close>.\<close>

definition util_resolve_path :: "string \<Rightarrow> string \<Rightarrow> string" where
  "util_resolve_path base p = (if is_absolute p then p else path_join base p)"

definition safety_normalize :: "string \<Rightarrow> path" where
  "safety_normalize p = foldl normalize_step [] (components p)"

definition is_patch_path_writable :: "fs_env \<Rightarrow> FileSystemSandboxPolicy \<Rightarrow> path \<Rightarrow> path \<Rightarrow> bool" where
  "is_patch_path_writable env pol cwd p =
     can_write_path_with_cwd env pol (path_str (safety_normalize (util_resolve_path (path_str cwd) (path_str p)))) (path_str cwd)"

definition is_write_patch_constrained_to_writable_paths ::
    "hm_order \<Rightarrow> fs_env \<Rightarrow> ApplyPatchAction \<Rightarrow> FileSystemSandboxPolicy \<Rightarrow> path \<Rightarrow> bool" where
  "is_write_patch_constrained_to_writable_paths order env action pol cwd =
     list_all (\<lambda>(p, change).
        case change of
          ChangeAdd _ \<Rightarrow> is_patch_path_writable env pol cwd p
        | ChangeDelete _ \<Rightarrow> is_patch_path_writable env pol cwd p
        | ChangeUpdate _ move_path _ \<Rightarrow>
            is_patch_path_writable env pol cwd p
            \<and> (case move_path of Some dest \<Rightarrow> is_patch_path_writable env pol cwd dest | None \<Rightarrow> True))
       (action_items order action)"

definition assess_patch_safety ::
    "hm_order \<Rightarrow> fs_env \<Rightarrow> target_os \<Rightarrow> ApplyPatchAction \<Rightarrow> AskForApproval \<Rightarrow> PermissionProfile
       \<Rightarrow> FileSystemSandboxPolicy \<Rightarrow> path \<Rightarrow> bool \<Rightarrow> SafetyCheck" where
  "assess_patch_safety order env os action policy profile pol cwd windows_sandbox_enabled =
     (if action_items order action = [] then SafetyReject ''empty patch''
      else if policy = UnlessTrusted then SafetyAskUser
      else
        let rejects_sandbox_approval =
              (case policy of Never \<Rightarrow> True | Granular cfg \<Rightarrow> \<not> sandbox_approval cfg | _ \<Rightarrow> False);
            refused =
              (if rejects_sandbox_approval then SafetyReject (patch_rejection_reason env profile pol cwd)
               else SafetyAskUser)
        in if is_write_patch_constrained_to_writable_paths order env action pol cwd \<or> policy = OnFailure then
             (case profile of
                Managed _ _ \<Rightarrow>
                  (case get_platform_sandbox os windows_sandbox_enabled of
                     Some sandbox_type \<Rightarrow> SafetyAutoApprove sandbox_type False
                   | None \<Rightarrow> refused)
              | _ \<Rightarrow> SafetyAutoApprove NoSandbox False)
           else refused)"

section \<open>apply\_patch.rs\<close>

record ApplyPatchRuntimeInvocation =
  ai_action :: ApplyPatchAction
  ai_auto_approved :: bool
  ai_exec_approval_requirement :: ExecApprovalRequirement

datatype InternalApplyPatchInvocation =
    PatchOutput "string + string"
  | DelegateToRuntime ApplyPatchRuntimeInvocation

text \<open>What the functions take from the turn beside what the orchestrator takes.\<close>

record patch_turn =
  pt_permission_profile :: PermissionProfile
  pt_cwd :: path
  pt_developer_instructions :: "string option"
  pt_strict :: "StrictDelegationState option"
  pt_granted_session :: "AdditionalPermissionProfile option"
  pt_granted_turn :: "AdditionalPermissionProfile option"
  pt_remote :: "bool option"

definition core_apply_patch ::
    "hm_order \<Rightarrow> (string \<Rightarrow> string) \<Rightarrow> fs_env \<Rightarrow> 'w turn_env \<Rightarrow> patch_turn \<Rightarrow> FileSystemSandboxPolicy \<Rightarrow> ApplyPatchAction
       \<Rightarrow> InternalApplyPatchInvocation" where
  "core_apply_patch order lower fenv env turn pol action =
     (case first_sensitive_path lower (map path_str (concat (map change_targets (action_items order action)))) of
        Some p \<Rightarrow> PatchOutput (Err (sensitive_patch_block_message p))
      | None \<Rightarrow>
          (case assess_patch_safety order fenv (te_os env) action (te_approval_policy env)
                  (pt_permission_profile turn) pol (pt_cwd turn) (te_windows_sandbox_enabled env) of
             SafetyAutoApprove _ user_explicitly_approved \<Rightarrow>
               DelegateToRuntime \<lparr>ai_action = action, ai_auto_approved = \<not> user_explicitly_approved,
                 ai_exec_approval_requirement = ReqSkip False None\<rparr>
           | SafetyAskUser \<Rightarrow>
               DelegateToRuntime \<lparr>ai_action = action, ai_auto_approved = False,
                 ai_exec_approval_requirement = ReqNeedsApproval None None\<rparr>
           | SafetyReject reason \<Rightarrow> PatchOutput (Err (''patch rejected: '' @ reason))))"

datatype FileChange =
    FcAdd string
  | FcDelete string
  | FcUpdate string "string option"

fun protocol_change :: "ApplyPatchFileChange \<Rightarrow> FileChange" where
  "protocol_change (ChangeAdd content) = FcAdd content"
| "protocol_change (ChangeDelete content) = FcDelete content"
| "protocol_change (ChangeUpdate diff move_path _) = FcUpdate diff (map_option path_str move_path)"

definition convert_apply_patch_to_protocol :: "ApplyPatchAction \<Rightarrow> (path \<rightharpoonup> FileChange)" where
  "convert_apply_patch_to_protocol action = (\<lambda>p. map_option protocol_change (act_changes action p))"

section \<open>The runtime\<close>

definition SANDBOX_DENIED_KEYWORDS :: "string list" where
  "SANDBOX_DENIED_KEYWORDS =
     [''operation not permitted'', ''permission denied'', ''read-only file system'', ''seccomp'', ''sandbox'',
      ''landlock'', ''failed to write file'']"

definition QUICK_REJECT_EXIT_CODES :: "int list" where
  "QUICK_REJECT_EXIT_CODES = [2, 126, 127]"

definition EXIT_CODE_SIGNAL_BASE :: int where "EXIT_CODE_SIGNAL_BASE = 128"

text \<open>\<open>sigsys\<close> is \<open>libc::SIGSYS\<close>.\<close>

definition is_likely_sandbox_denied ::
    "(string \<Rightarrow> string) \<Rightarrow> int \<Rightarrow> SandboxType \<Rightarrow> ExecToolCallOutput \<Rightarrow> bool" where
  "is_likely_sandbox_denied lower sigsys sandbox out =
     (if sandbox = NoSandbox \<or> exec_exit_code out = 0 then False
      else if list_ex (\<lambda>s. list_ex (\<lambda>needle. str_contains (lower s) needle) SANDBOX_DENIED_KEYWORDS)
                [out_text (exec_stderr out), out_text (exec_stdout out), out_text (aggregated_output out)] then True
      else if exec_exit_code out \<in> set QUICK_REJECT_EXIT_CODES then False
      else sandbox = LinuxSeccomp \<and> exec_exit_code out = EXIT_CODE_SIGNAL_BASE + sigsys)"

record FileSystemSandboxContext =
  fc_permissions :: PermissionProfile
  fc_cwd :: path

text \<open>What the tool takes from outside.\<close>

record 'f patch_host =
  ph_order :: hm_order
  ph_lower :: "string \<Rightarrow> string"
  ph_sigsys :: int
  ph_elapsed :: nat
  ph_fs_env :: fs_env
  ph_inv :: inv_env
  ph_file_system :: "FileSystemSandboxContext option \<Rightarrow> path \<Rightarrow> 'f patch_fs"
  ph_parse_arguments :: "string \<Rightarrow> string + string"

text \<open>The \<open>unreachable!\<close> of \<open>effective_permission_profile\<close> is never reached.\<close>

definition file_system_sandbox_context_for_attempt ::
    "patch_turn \<Rightarrow> AdditionalPermissionProfile option \<Rightarrow> SandboxType \<Rightarrow> FileSystemSandboxContext option" where
  "file_system_sandbox_context_for_attempt turn additional sandbox =
     (if sandbox = NoSandbox then None
      else Some \<lparr>fc_permissions = the (effective_permission_profile (pt_permission_profile turn) additional),
                 fc_cwd = pt_cwd turn\<rparr>)"

definition new_stream :: "string \<Rightarrow> StreamOutput" where
  "new_stream text = \<lparr>out_text = text, truncated_after_lines = None\<rparr>"

text \<open>\<open>ApplyPatchRuntime::run\<close>. The patch is applied; an application always returns.\<close>

definition patch_run ::
    "'f patch_host \<Rightarrow> patch_turn \<Rightarrow> ApplyPatchAction \<Rightarrow> AdditionalPermissionProfile option \<Rightarrow> SandboxType \<Rightarrow> 'f session
       \<Rightarrow> (ExecToolCallOutput ToolError + ExecToolCallOutput) \<times> 'f session" where
  "patch_run h turn action additional sandbox se =
     (let fs = ph_file_system h (file_system_sandbox_context_for_attempt turn additional sandbox) (act_cwd action);
          (result, streams, f1) = the (apply_patch fs (act_patch action) \<lparr>stdout = [], stderr = []\<rparr> (se_world se));
          output = \<lparr>exec_exit_code = (if is_ok result then 0 else 1), exec_stdout = new_stream (stdout streams),
                    exec_stderr = new_stream (stderr streams),
                    aggregated_output = new_stream (stdout streams @ stderr streams),
                    exec_duration = ph_elapsed h, timed_out = False\<rparr>;
          se1 = se\<lparr>se_world := f1\<rparr>
      in if \<not> is_ok result \<and> is_likely_sandbox_denied (ph_lower h) (ph_sigsys h) sandbox output
         then (Err (SandboxDenied output None), se1)
         else (Ok output, se1))"

section \<open>The handler\<close>

definition to_abs_path :: "fs_env \<Rightarrow> path \<Rightarrow> path \<Rightarrow> path option" where
  "to_abs_path env cwd p = Some (resolve_path_against_base (fe_home env) (path_str p) (path_str cwd))"

definition file_paths_for_action :: "hm_order \<Rightarrow> fs_env \<Rightarrow> ApplyPatchAction \<Rightarrow> path list" where
  "file_paths_for_action order env action =
     List.map_filter (to_abs_path env (act_cwd action)) (concat (map change_targets (action_items order action)))"

text \<open>A \<open>BTreeSet\<close> of paths is read in order.\<close>

definition write_permissions_for_paths ::
    "fs_env \<Rightarrow> path list \<Rightarrow> FileSystemSandboxPolicy \<Rightarrow> path \<Rightarrow> AdditionalPermissionProfile option" where
  "write_permissions_for_paths env file_paths pol cwd =
     (let parents = map (\<lambda>p. case abs_parent p of Some d \<Rightarrow> d | None \<Rightarrow> p) file_paths;
          refused = filter (\<lambda>p. \<not> can_write_path_with_cwd env pol (path_str p) (path_str cwd)) parents
      in Option.bind (those (map (\<lambda>p. absolute_ok env (path_str p)) (sort (remdups refused))))
           (\<lambda>write_paths.
              if write_paths = [] then None
              else case normalize_additional_permissions env
                          \<lparr>app_network = None, app_file_system = Some (from_read_write_roots (Some []) (Some write_paths))\<rparr> of
                     Inr perms \<Rightarrow> Some perms
                   | Inl _ \<Rightarrow> None))"

definition effective_patch_permissions ::
    "'f patch_host \<Rightarrow> 'w turn_env \<Rightarrow> patch_turn \<Rightarrow> ApplyPatchAction
       \<Rightarrow> path list \<times> EffectiveAdditionalPermissions \<times> FileSystemSandboxPolicy" where
  "effective_patch_permissions h env turn action =
     (let fenv = ph_fs_env h;
          file_paths = file_paths_for_action (ph_order h) fenv action;
          granted = merge_permission_profiles (pt_granted_session turn) (pt_granted_turn turn);
          pol = effective_file_system_sandbox_policy (te_file_system_sandbox_policy env) granted
      in (file_paths,
          apply_granted_turn_permissions fenv (pt_granted_session turn) (pt_granted_turn turn) (pt_cwd turn) UseDefault
            (write_permissions_for_paths fenv file_paths pol (pt_cwd turn)),
          pol))"

text \<open>The answer: a text, or what the orchestrator returned for the emitter to format.\<close>

datatype patch_tool_answer =
    AnswerText string
  | AnswerRun "ExecToolCallOutput ToolError + ExecToolCallOutput"

text \<open>What follows the verification, in the handler and in \<open>intercept_apply_patch\<close> alike.\<close>

definition run_verified_patch ::
    "'f patch_host \<Rightarrow> 'f session turn_env \<Rightarrow> patch_turn \<Rightarrow> 'f patch_approvers \<Rightarrow> ApplyPatchAction \<Rightarrow> 'f session orch_state
       \<Rightarrow> (string + patch_tool_answer) \<times> 'f session orch_state" where
  "run_verified_patch h env turn pv action st =
     (let (file_paths, effective, pol) = effective_patch_permissions h env turn action in
      case core_apply_patch (ph_order h) (ph_lower h) (ph_fs_env h) env turn pol action of
        PatchOutput (Inl m) \<Rightarrow> (Err m, st)
      | PatchOutput (Inr content) \<Rightarrow> (Ok (AnswerText content), st)
      | DelegateToRuntime apply \<Rightarrow>
          let req = \<lparr>ar_file_paths = file_paths, ar_patch = act_patch (ai_action apply),
                     ar_exec_approval_requirement = ai_exec_approval_requirement apply,
                     ar_permissions_preapproved = eff_permissions_preapproved effective\<rparr>;
              (r, st1) = orchestrator_run env
                (patch_runtime pv (patch_run h turn (ai_action apply) (eff_additional_permissions effective)) req)
                (te_approval_policy env) st
          in (Ok (AnswerRun (rbind r (\<lambda>(out, _). Ok out))), st1))"

datatype ToolPayload =
    PayFunction string
  | PayToolSearch json
  | PayCustom string
  | PayLocalShell json
  | PayMcp string string string

definition patch_input_of :: "'f patch_host \<Rightarrow> ToolPayload \<Rightarrow> string + string" where
  "patch_input_of h payload =
     (case payload of
        PayFunction arguments \<Rightarrow> ph_parse_arguments h arguments
      | PayCustom input \<Rightarrow> Ok input
      | _ \<Rightarrow> Err ''apply_patch handler received unsupported payload'')"

text \<open>The verification reads under the sandbox of the turn when the environment is remote.\<close>

definition verify_context :: "patch_turn \<Rightarrow> bool \<Rightarrow> FileSystemSandboxContext option" where
  "verify_context turn is_remote =
     (if is_remote
      then Some \<lparr>fc_permissions = the (effective_permission_profile (pt_permission_profile turn) None), fc_cwd = pt_cwd turn\<rparr>
      else None)"

text \<open>
  \<open>ApplyPatchHandler::handle\<close>: the answer, the traces of strict delegation it records, the state.
\<close>

definition apply_patch_handler ::
    "'f patch_host \<Rightarrow> 'f session turn_env \<Rightarrow> patch_turn \<Rightarrow> 'f patch_approvers \<Rightarrow> ToolPayload \<Rightarrow> 'f session orch_state
       \<Rightarrow> (string + patch_tool_answer) \<times> StrictDelegationTrace list \<times> 'f session orch_state" where
  "apply_patch_handler h env turn pv payload st =
     (case patch_input_of h payload of
        Inl m \<Rightarrow> (Err m, [], st)
      | Inr patch_input \<Rightarrow>
          (case enforce_strict_delegation_patch (pt_developer_instructions turn) (pt_strict turn) patch_input of
             (Inl m, traces) \<Rightarrow> (Err m, traces, st)
           | (Inr _, traces) \<Rightarrow>
               (case pt_remote turn of
                  None \<Rightarrow> (Err ''apply_patch is unavailable in this session'', traces, st)
                | Some is_remote \<Rightarrow>
                    let fs = ph_file_system h (verify_context turn is_remote) (pt_cwd turn);
                        (verified, f1) = the (maybe_parse_apply_patch_verified (ph_inv h) fs [''apply_patch'', patch_input]
                                            (pt_cwd turn) (se_world (os_world st)));
                        st1 = st\<lparr>os_world := (os_world st)\<lparr>se_world := f1\<rparr>\<rparr>
                    in case handler_verdict verified of
                         Inl m \<Rightarrow> (Err m, traces, st1)
                       | Inr action \<Rightarrow>
                           let (r, st2) = run_verified_patch h env turn pv action st1 in (r, traces, st2))))"

section \<open>Lemmas\<close>

lemma effective_profile_total: "\<exists>p. effective_permission_profile profile additional = Some p"
  by (auto simp: effective_permission_profile_def from_runtime_permissions_with_enforcement_def
      managed_from_sandbox_policy_def split: FileSystemSandboxKind.splits)

text \<open>The files an action is about.\<close>

definition action_targets :: "ApplyPatchAction \<Rightarrow> path set" where
  "action_targets action = {t. \<exists>p c. act_changes action p = Some c \<and> t \<in> set (change_targets (p, c))}"

lemma own_target: "p \<in> set (change_targets (p, c))"
  by (cases "(p, c)" rule: change_targets.cases) auto

lemma action_items_iff: "iterates order action \<Longrightarrow> (p, c) \<in> set (action_items order action) \<longleftrightarrow> act_changes action p = Some c"
  by (auto simp: iterates_def action_items_def set_map_filter)

lemma targets_of_items:
  assumes "iterates order action"
  shows "set (concat (map change_targets (action_items order action))) = action_targets action"
  using action_items_iff [OF assms] by (auto simp: action_targets_def)

lemma writable_change:
  "(case change of
      ChangeAdd _ \<Rightarrow> P p | ChangeDelete _ \<Rightarrow> P p
    | ChangeUpdate _ m _ \<Rightarrow> P p \<and> (case m of Some dest \<Rightarrow> P dest | None \<Rightarrow> True))
   \<longleftrightarrow> list_all P (change_targets (p, change))"
  by (cases change) (auto split: option.splits)

lemma constrained_iff:
  assumes "iterates order action"
  shows "is_write_patch_constrained_to_writable_paths order env action pol cwd \<longleftrightarrow>
    (\<forall>t \<in> action_targets action. is_patch_path_writable env pol cwd t)"
  unfolding targets_of_items [OF assms, symmetric] is_write_patch_constrained_to_writable_paths_def writable_change
  by (auto simp: list_all_iff)

lemma writable_target:
  assumes "abs_wf t"
  shows "is_patch_path_writable env pol cwd t = can_write_path_with_cwd env pol (path_str t) (path_str cwd)"
proof -
  have "normalize_path (path_str t) = t" and a: "is_absolute (path_str t)"
    using absolute_ok_str [OF assms] absolute_ok_absolute components_path_str [OF assms] by auto
  then have "safety_normalize (path_str t) = t"
    using assms by (auto simp: normalize_path_def safety_normalize_def Let_def abs_wf_def split: if_splits)
  then show ?thesis using a by (simp add: is_patch_path_writable_def util_resolve_path_def)
qed

text \<open>A patch that reaches the runtime.\<close>

lemma delegated_patch:
  assumes "core_apply_patch order lower fenv env turn pol action = DelegateToRuntime ai" and "iterates order action"
  shows "ai_action ai = action" and "\<forall>t \<in> action_targets action. \<not> is_sensitive_path lower (path_str t)"
    and "ai_exec_approval_requirement ai = ReqNeedsApproval None None
      \<or> ai_exec_approval_requirement ai = ReqSkip False None \<and> te_approval_policy env \<noteq> UnlessTrusted
        \<and> (te_approval_policy env = OnFailure \<or> (\<forall>t \<in> action_targets action. is_patch_path_writable fenv pol (pt_cwd turn) t))"
proof -
  have n: "first_sensitive_path lower (map path_str (concat (map change_targets (action_items order action)))) = None"
    using assms(1) by (auto simp: core_apply_patch_def split: option.splits)
  then show "\<forall>t \<in> action_targets action. \<not> is_sensitive_path lower (path_str t)"
    unfolding first_sensitive_path_None targets_of_items [OF assms(2), symmetric] by auto
  show "ai_action ai = action"
    using assms(1) n by (auto simp: core_apply_patch_def split: SafetyCheck.splits)
  show "ai_exec_approval_requirement ai = ReqNeedsApproval None None
      \<or> ai_exec_approval_requirement ai = ReqSkip False None \<and> te_approval_policy env \<noteq> UnlessTrusted
        \<and> (te_approval_policy env = OnFailure \<or> (\<forall>t \<in> action_targets action. is_patch_path_writable fenv pol (pt_cwd turn) t))"
    using assms(1) n
    by (auto simp: core_apply_patch_def assess_patch_safety_def constrained_iff [OF assms(2)] Let_def
        split: SafetyCheck.splits if_splits PermissionProfile.splits option.splits)
qed

text \<open>The changes of a verified patch, one by one.\<close>

lemma verify_update:
  "verify_hunk ienv fs cwd (UpdateFile p m chunks) f = Some (Ok change, f1) \<Longrightarrow>
   \<exists>d c. change = ChangeUpdate d (map_option (abs_join (iv_home_dir ienv) cwd) m) c"
  by (auto simp: verify_hunk_def Let_def rbind_Inr_iff)

lemma verify_hunk_target:
  assumes "abs_wf cwd" and "verify_hunk ienv fs cwd hunk f = Some (Ok change, f1)"
    and "t \<in> set (change_targets (hunk_resolve_path ienv cwd hunk, change))"
  shows "abs_wf t"
proof (cases hunk)
  case (UpdateFile p m chunks)
  then obtain d c where "change = ChangeUpdate d (map_option (abs_join (iv_home_dir ienv) cwd) m) c"
    using verify_update [of ienv fs cwd p m chunks f change f1] assms(2) by auto
  with assms(3) show ?thesis
    by (cases m) (auto simp: abs_join_wf [OF assms(1)] hunk_resolve_path_wf [OF assms(1)])
next
  case (AddFile p c)
  with assms show ?thesis by (auto simp: verify_hunk_def Let_def hunk_resolve_path_wf)
next
  case (DeleteFile p)
  with assms show ?thesis by (auto simp: verify_hunk_def Let_def hunk_resolve_path_wf split: prod.splits sum.splits)
qed

lemma verify_hunks_from:
  assumes "verify_hunks ienv fs cwd hunks changes f = Some (Ok changes', f')" and "changes' p = Some change"
  shows "changes p = Some change
    \<or> (\<exists>hunk \<in> set hunks. p = hunk_resolve_path ienv cwd hunk \<and> (\<exists>g g'. verify_hunk ienv fs cwd hunk g = Some (Ok change, g')))"
  using assms
proof (induction hunks arbitrary: changes f)
  case (Cons hunk hunks)
  obtain r f1 where v: "verify_hunk ienv fs cwd hunk f = Some (r, f1)"
    using verify_hunk_total [of ienv fs cwd hunk f] by auto
  show ?case
  proof (cases r)
    case (Inr c)
    with v Cons.prems(1)
    have "verify_hunks ienv fs cwd hunks (changes(hunk_resolve_path ienv cwd hunk \<mapsto> c)) f1 = Some (Ok changes', f')" by simp
    from Cons.IH [OF this Cons.prems(2)] show ?thesis using v Inr by (auto split: if_splits)
  qed (use v Cons.prems in simp)
qed simp

lemma verified_targets_wf:
  assumes "maybe_parse_apply_patch_verified ienv fs argv cwd f = Some (VBody action, f')" and "abs_wf cwd"
    and "t \<in> action_targets action"
  shows "abs_wf t"
proof -
  obtain args where args: "maybe_parse_apply_patch (iv_query ienv) argv = Body args"
    using assms(1) by (auto simp: maybe_parse_apply_patch_verified_def split: if_splits MaybeApplyPatch.splits)
  define c where "c = (case ap_workdir args of Some dir \<Rightarrow> abs_join (iv_home_dir ienv) cwd dir | None \<Rightarrow> cwd)"
  have w: "abs_wf c" using assms(2) by (auto simp: c_def intro: abs_join_wf split: option.splits)
  obtain x g where x: "verify_hunks ienv fs c (ap_hunks args) Map.empty f = Some (x, g)"
    using verify_hunks_total [of ienv fs c "ap_hunks args" Map.empty f] by auto
  have v: "\<exists>g. verify_hunks ienv fs c (ap_hunks args) Map.empty f = Some (Ok (act_changes action), g)"
    using assms(1) args x
    by (cases x) (auto simp: maybe_parse_apply_patch_verified_def c_def [symmetric] Let_def split: if_splits)
  obtain p ch where "act_changes action p = Some ch" "t \<in> set (change_targets (p, ch))"
    using assms(3) by (auto simp: action_targets_def)
  with v show ?thesis using verify_hunks_from [of ienv fs c _ Map.empty] verify_hunk_target [OF w] by fastforce
qed

lemma patch_initial_sandbox:
  "platform_sandboxed env \<Longrightarrow> initial_sandbox env (patch_runtime pv exec req) \<noteq> NoSandbox"
  using get_platform_sandbox_real
  by (auto simp: platform_sandboxed_def initial_sandbox_def patch_runtime_def select_initial_def Let_def
      split: option.splits)

text \<open>An attempt at an action.\<close>

lemma verified_attempt:
  assumes "run_verified_patch h env turn pv action st = (r, st')" and "iterates (ph_order h) action"
    and "os_trace st' = os_trace st @ pre @ EvAttempt sandbox # post"
  shows "\<forall>t \<in> action_targets action. \<not> is_sensitive_path (ph_lower h) (path_str t)"
    and "consent pre \<or> te_approval_policy env = OnFailure
      \<or> (\<forall>t \<in> action_targets action. is_patch_path_writable (ph_fs_env h)
            (snd (snd (effective_patch_permissions h env turn action))) (pt_cwd turn) t)"
    and "platform_sandboxed env \<and> sandbox = NoSandbox \<longrightarrow> consent pre"
proof -
  obtain file_paths effective pol where e: "effective_patch_permissions h env turn action = (file_paths, effective, pol)"
    by (cases "effective_patch_permissions h env turn action") auto
  have "\<exists>ai. core_apply_patch (ph_order h) (ph_lower h) (ph_fs_env h) env turn pol action = DelegateToRuntime ai"
    using assms(1,3) by (auto simp: run_verified_patch_def e split: InternalApplyPatchInvocation.splits sum.splits)
  then obtain ai where ai: "core_apply_patch (ph_order h) (ph_lower h) (ph_fs_env h) env turn pol action = DelegateToRuntime ai"
    by blast
  note d = delegated_patch [OF ai assms(2)]
  show "\<forall>t \<in> action_targets action. \<not> is_sensitive_path (ph_lower h) (path_str t)" by (rule d(2))
  define req where "req = \<lparr>ar_file_paths = file_paths, ar_patch = act_patch (ai_action ai),
    ar_exec_approval_requirement = ai_exec_approval_requirement ai,
    ar_permissions_preapproved = eff_permissions_preapproved effective\<rparr>"
  define exec where "exec = patch_run h turn (ai_action ai) (eff_additional_permissions effective)"
  let ?tool = "patch_runtime pv exec req"
  have st': "st' = snd (orchestrator_run env ?tool (te_approval_policy env) st)"
    using assms(1) by (auto simp: run_verified_patch_def e ai req_def exec_def Let_def split: prod.splits)
  have rq: "requirement_of env ?tool (te_approval_policy env) = ai_exec_approval_requirement ai"
    by (simp add: requirement_of_def patch_runtime_def req_def)
  obtain es ph where es: "os_trace st' = os_trace st @ es"
      and sr: "spec_run (te_strict_auto_review env) (ai_exec_approval_requirement ai) (te_approval_policy env) (initial_sandbox env ?tool) es ph"
    using patch_tool.run_refines_spec [OF prod.collapse [symmetric], of env pv exec req "te_approval_policy env" st]
    unfolding rq st' by blast
  have "es = pre @ EvAttempt sandbox # post" using es assms(3) by simp
  note split = spec_run_split [OF sr [unfolded this]]
  show "platform_sandboxed env \<and> sandbox = NoSandbox \<longrightarrow> consent pre"
    using split patch_initial_sandbox by metis
  show "consent pre \<or> te_approval_policy env = OnFailure
      \<or> (\<forall>t \<in> action_targets action. is_patch_path_writable (ph_fs_env h)
            (snd (snd (effective_patch_permissions h env turn action))) (pt_cwd turn) t)"
    using split d(3) by (cases "consent pre") (auto simp: e)
qed

text \<open>The run of the handler once it has a patch to apply.\<close>

lemma handler_runs:
  assumes "patch_input_of h payload = Ok patch" and "pt_remote turn = Some is_remote"
    and "maybe_parse_apply_patch_verified (ph_inv h) (ph_file_system h (verify_context turn is_remote) (pt_cwd turn))
           [''apply_patch'', patch] (pt_cwd turn) (se_world (os_world st)) = Some (VBody action, f1)"
    and "apply_patch_handler h env turn pv payload st = (r, traces, st')" and "os_trace st' \<noteq> os_trace st"
  shows "strict_delegation_violation_for_patch (pt_developer_instructions turn) (pt_strict turn) patch = None"
    and "\<exists>r. run_verified_patch h env turn pv action (st\<lparr>os_world := (os_world st)\<lparr>se_world := f1\<rparr>\<rparr>) = (r, st')"
  using assms
  by (auto simp: apply_patch_handler_def enforce_strict_delegation_patch_def Let_def split: option.splits prod.splits)

section \<open>What an application touches\<close>

text \<open>
  \<open>look\<close> reads a file of a state; the operations on one file leave the others alone.
\<close>

definition framed_fs :: "'f patch_fs \<Rightarrow> ('f \<Rightarrow> string \<Rightarrow> 'c) \<Rightarrow> bool" where
  "framed_fs fs look \<longleftrightarrow>
     (\<forall>p f. look (snd (pf_read fs p f)) = look f) \<and> (\<forall>p f. look (snd (pf_metadata fs p f)) = look f)
     \<and> (\<forall>p f. look (snd (pf_create_dir fs p f)) = look f)
     \<and> (\<forall>p c f q. q \<noteq> p \<longrightarrow> look (snd (pf_write fs p c f)) q = look f q)
     \<and> (\<forall>p f q. q \<noteq> p \<longrightarrow> look (snd (pf_remove fs p f)) q = look f q)"

definition hunk_targets :: "'f patch_fs \<Rightarrow> Hunk \<Rightarrow> string set" where
  "hunk_targets fs hunk = insert (pf_resolve fs (hunk_path hunk))
     (case hunk of UpdateFile _ (Some dest) _ \<Rightarrow> {pf_resolve fs dest} | _ \<Rightarrow> {})"

lemma framed_fsD:
  assumes "framed_fs fs look"
  shows "look (snd (pf_read fs p f)) = look f" and "look (snd (pf_metadata fs p f)) = look f"
    and "look (snd (pf_create_dir fs p f)) = look f"
    and "q \<noteq> p \<Longrightarrow> look (snd (pf_write fs p c f)) q = look f q"
    and "q \<noteq> p \<Longrightarrow> look (snd (pf_remove fs p f)) q = look f q"
  using assms by (simp_all add: framed_fs_def)

lemma snd_with_ctx [simp]: "snd (with_ctx m p) = snd p"
  by (cases p) (auto simp: with_ctx_def split: sum.split)

lemma frame_fbind:
  assumes "look (snd p) q = look f q" and "\<And>x g. look (snd (k x g)) q = look g q"
  shows "look (snd (fbind p k)) q = look f q"
  using assms by (cases p) (auto simp: fbind_def split: sum.split)

lemma frame_write:
  assumes "framed_fs fs look" and "q \<noteq> p"
  shows "look (snd (write_file_with_missing_parent_retry fs p c f)) q = look f q"
proof -
  obtain r g where w: "pf_write fs p c f = (r, g)" by fastforce
  then have g: "look g q = look f q" using framed_fsD(4) [OF assms, of c f] by simp
  have "look (snd (fbind (case pf_parent fs p of
                     Some parent \<Rightarrow> with_ctx m (pf_create_dir fs parent g)
                   | None \<Rightarrow> (Ok (), g))
              (\<lambda>_ f2. with_ctx m' (pf_write fs p c f2)))) q = look g q" for m m'
    by (rule frame_fbind)
      (auto simp: framed_fsD(3) [OF assms(1)] framed_fsD(4) [OF assms] split: option.split)
  with w g show ?thesis by (auto simp: write_file_with_missing_parent_retry_def split: sum.split)
qed

lemma frame_remove:
  assumes "framed_fs fs look" and "q \<noteq> p"
  shows "look (snd (remove_file fs p f)) q = look f q"
  unfolding remove_file_def
  by (rule frame_fbind) (auto simp: framed_fsD(2) [OF assms(1)] framed_fsD(5) [OF assms])

lemma frame_hunk:
  assumes "framed_fs fs look" and "apply_hunk fs hunk paths f = Some (r, f')" and "q \<notin> hunk_targets fs hunk"
  shows "look f' q = look f q"
proof (cases hunk)
  case (AddFile p c)
  then have q: "q \<noteq> pf_resolve fs p" using assms(3) by (simp add: hunk_targets_def)
  let ?done = "\<lambda>_ f. (Ok (paths\<lparr>added := added paths @ [p]\<rparr>), f)"
  have "look (snd (fbind (write_file_with_missing_parent_retry fs (pf_resolve fs p) c f) ?done)) q = look f q"
    by (rule frame_fbind) (simp_all add: frame_write [OF assms(1) q])
  with assms(2) AddFile show ?thesis by (simp add: apply_hunk_def Let_def)
next
  case (DeleteFile p)
  then have q: "q \<noteq> pf_resolve fs p" using assms(3) by (simp add: hunk_targets_def)
  let ?done = "\<lambda>_ f. (Ok (paths\<lparr>deleted := deleted paths @ [p]\<rparr>), f)"
  have "look (snd (fbind (with_ctx m (remove_file fs (pf_resolve fs p) f)) ?done)) q = look f q" for m
    by (rule frame_fbind) (simp_all add: frame_remove [OF assms(1) q])
  from this [of "''Failed to delete file '' @ pf_resolve fs p"] assms(2) DeleteFile show ?thesis
    by (simp add: apply_hunk_def Let_def)
next
  case (UpdateFile p m chunks)
  then have q: "q \<noteq> pf_resolve fs p" "\<And>d. m = Some d \<Longrightarrow> q \<noteq> pf_resolve fs d"
    using assms(3) by (auto simp: hunk_targets_def)
  obtain x g where x: "derive_new_contents_from_chunks fs (pf_resolve fs p) chunks f = Some (x, g)"
    using assms(2) UpdateFile by (auto simp: apply_hunk_def Let_def)
  have g: "look g = look f"
    using x framed_fsD(1) [OF assms(1), of "pf_resolve fs p" f]
    by (auto simp: derive_new_contents_from_chunks_def split: prod.splits sum.splits)
  show ?thesis
  proof (cases x)
    case (Inl e)
    with assms(2) UpdateFile x g show ?thesis by (auto simp: apply_hunk_def Let_def)
  next
    case (Inr oc)
    obtain orig c where oc: "oc = (orig, c)" by fastforce
    let ?done = "\<lambda>_ f. (Ok (paths\<lparr>modified := modified paths @ [affected_path hunk]\<rparr>), f)"
    show ?thesis
    proof (cases m)
      case None
      have "look (snd (fbind (with_ctx msg (pf_write fs (pf_resolve fs p) c g)) ?done)) q = look g q" for msg
        by (rule frame_fbind) (simp_all add: framed_fsD(4) [OF assms(1) q(1)])
      from this [of "''Failed to write file '' @ pf_resolve fs p"] assms(2) UpdateFile x g Inr oc None show ?thesis
        by (simp add: apply_hunk_def Let_def)
    next
      case (Some d)
      have r: "look (snd (fbind (with_ctx msg (remove_file fs (pf_resolve fs p) g2)) ?done)) q = look g2 q" for msg g2
        by (rule frame_fbind) (simp_all add: frame_remove [OF assms(1) q(1)])
      have "look (snd (fbind (write_file_with_missing_parent_retry fs (pf_resolve fs d) c g)
          (\<lambda>_ f2. fbind (with_ctx msg (remove_file fs (pf_resolve fs p) f2)) ?done))) q = look g q" for msg
        by (rule frame_fbind) (simp_all only: frame_write [OF assms(1) q(2) [OF Some]] r)
      from this [of "''Failed to remove original '' @ pf_resolve fs p"] assms(2) UpdateFile x g Inr oc Some show ?thesis
        by (simp add: apply_hunk_def Let_def)
    qed
  qed
qed

lemma frame_hunks:
  assumes "framed_fs fs look" and "hunk_loop fs hunks paths f = Some (r, f')" and "q \<notin> (\<Union>hunk \<in> set hunks. hunk_targets fs hunk)"
  shows "look f' q = look f q"
  using assms(2,3)
proof (induction hunks arbitrary: paths f)
  case (Cons hunk hunks)
  from Cons.prems(1) obtain x g where x: "apply_hunk fs hunk paths f = Some (x, g)"
    by (auto simp: bind_eq_Some_conv)
  have "look g q = look f q" using frame_hunk [OF assms(1) x] Cons.prems(2) by simp
  moreover have "look f' q = look g q"
  proof (cases x)
    case (Inr paths1)
    then show ?thesis using Cons.prems x Cons.IH [of paths1 g] by simp
  qed (use Cons.prems x in simp)
  ultimately show ?case by simp
qed simp

lemma frame_apply_patch:
  assumes "framed_fs fs look" and "apply_patch fs patch out f = Some (r, out', f')" and "look f' q \<noteq> look f q"
  shows "\<exists>args. parse_patch patch = Ok args \<and> (\<exists>hunk \<in> set (ap_hunks args). q \<in> hunk_targets fs hunk)"
proof (cases "parse_patch patch")
  case (Inl e)
  with assms(2,3) show ?thesis by (auto simp: apply_patch_def Let_def)
next
  case (Inr args)
  obtain x g where g: "apply_hunks_to_files fs (ap_hunks args) f = Some (x, g)"
    using assms(2) Inr by (auto simp: apply_patch_def apply_hunks_def)
  then have x: "apply_hunks_to_files fs (ap_hunks args) f = Some (x, f')"
    using assms(2) Inr
    by (cases x) (auto simp: apply_patch_def apply_hunks_def Let_def split: anyhow.splits)
  then have "\<exists>p. hunk_loop fs (ap_hunks args) p f = Some (x, f')"
    using assms(3) by (auto simp: apply_hunks_to_files_def split: if_splits)
  with frame_hunks [OF assms(1)] assms(3) Inr show ?thesis by fastforce
qed

lemma application_total: "\<exists>r. apply_patch fs patch out f = Some r"
proof (cases "parse_patch patch")
  case (Inr source)
  have "\<exists>y. apply_hunks_to_files fs (ap_hunks source) f = Some y"
    using hunk_loop_total [of fs "ap_hunks source" no_paths f] by (simp add: apply_hunks_to_files_def)
  with Inr show ?thesis by (auto simp: apply_patch_def apply_hunks_def simp del: split_paired_Ex)
qed (simp add: apply_patch_def Let_def)

text \<open>With one hunk for each file the changes that are shown have all the targets.\<close>

lemma verify_hunks_keeps:
  assumes "verify_hunks ienv fs cwd hunks changes f = Some (Ok changes', f')"
    and "p \<notin> hunk_resolve_path ienv cwd ` set hunks"
  shows "changes' p = changes p"
  using assms
proof (induction hunks arbitrary: changes f)
  case (Cons hunk hunks)
  obtain r f1 where v: "verify_hunk ienv fs cwd hunk f = Some (r, f1)"
    using verify_hunk_total [of ienv fs cwd hunk f] by auto
  with Cons show ?case by (cases r) auto
qed simp

lemma verify_hunks_all:
  assumes "verify_hunks ienv fs cwd hunks changes f = Some (Ok changes', f')"
    and "distinct (map (hunk_resolve_path ienv cwd) hunks)" and "hunk \<in> set hunks"
  shows "\<exists>change g g'. changes' (hunk_resolve_path ienv cwd hunk) = Some change
    \<and> verify_hunk ienv fs cwd hunk g = Some (Ok change, g')"
  using assms
proof (induction hunks arbitrary: changes f)
  case (Cons h hunks)
  obtain r f1 where v: "verify_hunk ienv fs cwd h f = Some (r, f1)"
    using verify_hunk_total [of ienv fs cwd h f] by auto
  show ?case
  proof (cases r)
    case (Inr c)
    then have w: "verify_hunks ienv fs cwd hunks (changes(hunk_resolve_path ienv cwd h \<mapsto> c)) f1 = Some (Ok changes', f')"
      using v Cons.prems(1) by simp
    show ?thesis
    proof (cases "hunk = h")
      case True
      with verify_hunks_keeps [OF w, of "hunk_resolve_path ienv cwd h"] Cons.prems(2) v Inr show ?thesis by auto
    next
      case False
      with Cons.IH [OF w] Cons.prems show ?thesis by auto
    qed
  qed (use v Cons.prems in simp)
qed simp

section \<open>A run without questions\<close>

definition patch_output :: "'f patch_host \<Rightarrow> bool \<Rightarrow> streams \<Rightarrow> ExecToolCallOutput" where
  "patch_output h ok out = \<lparr>exec_exit_code = (if ok then 0 else 1), exec_stdout = new_stream (stdout out),
     exec_stderr = new_stream (stderr out), aggregated_output = new_stream (stdout out @ stderr out),
     exec_duration = ph_elapsed h, timed_out = False\<rparr>"

lemma skipped_run:
  assumes "rt_exec_approval_requirement tool = Some (ReqSkip b am)" and "\<not> te_strict_auto_review env"
    and "rt_network_approval_spec tool = None" and "rt_run tool (initial_sandbox env tool) (os_world st) = (Ok out, w)"
  shows "orchestrator_run env tool policy st =
    (Ok (out, None), st\<lparr>os_world := w, os_trace := os_trace st @ [EvAttempt (initial_sandbox env tool)]\<rparr>)"
  using assms
  by (simp add: orchestrator_run_def approval_step_def run_attempt_def begin_network_approval_def ask_def log_event_def)

lemma auto_approved_run:
  assumes "\<not> te_strict_auto_review env" and "effective_patch_permissions h env turn action = (fp, eff, pol)"
    and "first_sensitive_path (ph_lower h) (map path_str (concat (map change_targets (action_items (ph_order h) action)))) = None"
    and "assess_patch_safety (ph_order h) (ph_fs_env h) (te_os env) action (te_approval_policy env)
           (pt_permission_profile turn) pol (pt_cwd turn) (te_windows_sandbox_enabled env) = SafetyAutoApprove sb False"
    and "sandbox = select_initial (te_os env) (te_file_system_sandbox_policy env) (te_network_sandbox_policy env) PrefAuto
           (te_windows_sandbox_enabled env) (te_network_active env)"
    and "apply_patch (ph_file_system h (file_system_sandbox_context_for_attempt turn (eff_additional_permissions eff) sandbox)
             (act_cwd action)) (act_patch action) \<lparr>stdout = [], stderr = []\<rparr> (se_world (os_world st)) = Some (Ok (), out, f')"
  shows "run_verified_patch h env turn pv action st =
    (Ok (AnswerRun (Ok (patch_output h True out))),
     st\<lparr>os_world := (os_world st)\<lparr>se_world := f'\<rparr>, os_trace := os_trace st @ [EvAttempt sandbox]\<rparr>)"
proof -
  define req where "req = \<lparr>ar_file_paths = fp, ar_patch = act_patch action, ar_exec_approval_requirement = ReqSkip False None,
    ar_permissions_preapproved = eff_permissions_preapproved eff\<rparr>"
  let ?tool = "patch_runtime pv (patch_run h turn action (eff_additional_permissions eff)) req"
  have i: "initial_sandbox env ?tool = sandbox" by (simp add: initial_sandbox_def patch_runtime_def assms(5))
  have "rt_run ?tool (initial_sandbox env ?tool) (os_world st) = (Ok (patch_output h True out), (os_world st)\<lparr>se_world := f'\<rparr>)"
    using assms(6) unfolding i by (simp add: patch_runtime_def patch_run_def patch_output_def)
  from skipped_run [OF _ assms(1) _ this, of False None "te_approval_policy env"]
  have "orchestrator_run env ?tool (te_approval_policy env) st = (Ok (patch_output h True out, None),
      st\<lparr>os_world := (os_world st)\<lparr>se_world := f'\<rparr>, os_trace := os_trace st @ [EvAttempt sandbox]\<rparr>)"
    unfolding i by (simp add: patch_runtime_def req_def)
  then show ?thesis using assms(2-4) by (simp add: run_verified_patch_def core_apply_patch_def req_def)
qed

section \<open>Properties\<close>



section \<open>Concrete runs\<close>

definition demo_files :: "FileSystemSandboxContext option \<Rightarrow> path \<Rightarrow> (string \<times> string) list patch_fs" where
  "demo_files ctx cwd = mem_fs\<lparr>pf_resolve := (\<lambda>p. path_str (resolve_path_against_base None p (path_str cwd)))\<rparr>"

definition demo_h :: "path list \<Rightarrow> (string \<times> string) list patch_host" where
  "demo_h ps = \<lparr>ph_order = (\<lambda>_. ps), ph_lower = id, ph_sigsys = 31, ph_elapsed = 0, ph_fs_env = demo_fs,
     ph_inv = plain_inv, ph_file_system = demo_files, ph_parse_arguments = (\<lambda>_. Err ''bad'')\<rparr>"

definition demo_patch_turn :: patch_turn where
  "demo_patch_turn = \<lparr>pt_permission_profile = profile_workspace_write, pt_cwd = work_dir, pt_developer_instructions = None,
     pt_strict = None, pt_granted_session = None, pt_granted_turn = None, pt_remote = Some False\<rparr>"

definition demo_policy :: "(string \<times> string) list session turn_env" where
  "demo_policy = \<lparr>te_os = Linux, te_windows_sandbox_enabled = False, te_strict_auto_review = False,
     te_auto_review = False, te_approval_policy = OnRequest,
     te_file_system_sandbox_policy = profile_file_system_sandbox_policy profile_workspace_write,
     te_network_sandbox_policy = profile_network_sandbox_policy profile_workspace_write,
     te_network_active = False, te_call_id = ''c1'', te_hooks = \<lambda>_ _ w. (None, w),
     te_new_review_id = \<lambda>w. (''r'', w), te_rejection_message = \<lambda>_ w. (''no'', w), te_timeout_message = ''late'',
     te_register_call = \<lambda>w. (''n'', w), te_take_call_outcome = \<lambda>_ w. (None, w), te_unregister_call = \<lambda>_ w. w\<rparr>"

definition demo_patch_approvers :: "(string \<times> string) list patch_approvers" where
  "demo_patch_approvers = \<lparr>pv_review = \<lambda>_ _ se. (ReviewDecision.Denied, se), pv_request = \<lambda>_ se. (ReviewDecision.Denied, se), pv_serialize = \<lambda>_. None\<rparr>"

definition files_state :: "(string \<times> string) list \<Rightarrow> (string \<times> string) list session orch_state" where
  "files_state fs = \<lparr>os_world = \<lparr>se_tool_approvals = Map.empty, se_world = fs\<rparr>, os_trace = []\<rparr>"

definition a_path :: path where "a_path = work_dir @ [Normal ''a'']"

lemma demo_order: "iterates (ph_order (demo_h [a_path])) \<lparr>act_changes = [a_path \<mapsto> c], act_patch = p, act_cwd = d\<rparr>"
  by (simp add: iterates_def demo_h_def)

lemma add_verified:
  "maybe_parse_apply_patch_verified plain_inv (demo_files ctx work_dir) [''apply_patch'', add_patch] work_dir [] =
     Some (VBody \<lparr>act_changes = [a_path \<mapsto> ChangeAdd (''x'' @ nl)], act_patch = add_patch, act_cwd = work_dir\<rparr>, [])"
proof -
  have p: "parse_patch add_patch = Ok \<lparr>ap_patch = add_patch, ap_hunks = [AddFile ''a'' (''x'' @ nl)], ap_workdir = None\<rparr>"
    by code_simp
  have r: "hunk_resolve_path plain_inv work_dir (AddFile ''a'' (''x'' @ nl)) = a_path" by code_simp
  show ?thesis
    using p r by (simp add: maybe_parse_apply_patch_verified_def maybe_parse_apply_patch_def parse_shell_script_def
        APPLY_PATCH_COMMANDS_def verify_hunk_def Let_def)
qed

definition demo_action :: ApplyPatchAction where
  "demo_action = \<lparr>act_changes = [a_path \<mapsto> ChangeAdd (''x'' @ nl)], act_patch = add_patch, act_cwd = work_dir\<rparr>"

lemma demo_auto_approved:
  assumes "act_changes action = [a_path \<mapsto> ChangeAdd c]" and "act_cwd action = work_dir"
    and "apply_patch (demo_files None work_dir) (act_patch action) \<lparr>stdout = [], stderr = []\<rparr> fs = Some (Ok (), out, f')"
  shows "run_verified_patch (demo_h [a_path]) demo_policy demo_patch_turn pv action (files_state fs) =
    (Ok (AnswerRun (Ok (patch_output (demo_h [a_path]) True out))),
     \<lparr>os_world = \<lparr>se_tool_approvals = Map.empty, se_world = f'\<rparr>, os_trace = [EvAttempt LinuxSeccomp]\<rparr>)"
proof -
  let ?h = "demo_h [a_path]" and ?pol = "te_file_system_sandbox_policy demo_policy"
  have it: "action_items (ph_order ?h) action = [(a_path, ChangeAdd c)]"
    using assms(1) by (simp add: action_items_def demo_h_def map_filter_simps)
  have m: "merge_permission_profiles (pt_granted_session demo_patch_turn) (pt_granted_turn demo_patch_turn) = None" by code_simp
  obtain fp eff where e: "effective_patch_permissions ?h demo_policy demo_patch_turn action = (fp, eff, ?pol)"
    by (simp add: effective_patch_permissions_def m effective_file_system_sandbox_policy_def Let_def)
  have wr: "is_patch_path_writable demo_fs ?pol work_dir a_path" by code_simp
  have s: "first_sensitive_path (ph_lower ?h) (map path_str (concat (map change_targets (action_items (ph_order ?h) action)))) = None"
  proof -
    have "first_sensitive_path id [path_str a_path] = None" by code_simp
    then show ?thesis unfolding it by (simp add: demo_h_def)
  qed
  have a: "assess_patch_safety (ph_order ?h) (ph_fs_env ?h) (te_os demo_policy) action (te_approval_policy demo_policy)
      (pt_permission_profile demo_patch_turn) ?pol (pt_cwd demo_patch_turn) (te_windows_sandbox_enabled demo_policy) =
      SafetyAutoApprove LinuxSeccomp False"
    using wr unfolding assess_patch_safety_def is_write_patch_constrained_to_writable_paths_def it
    by (simp add: demo_h_def demo_patch_turn_def profile_workspace_write_def get_platform_sandbox_def) (simp add: demo_policy_def)
  have sb: "LinuxSeccomp = select_initial (te_os demo_policy) ?pol (te_network_sandbox_policy demo_policy) PrefAuto
      (te_windows_sandbox_enabled demo_policy) (te_network_active demo_policy)" by code_simp
  have ap: "apply_patch (ph_file_system ?h (file_system_sandbox_context_for_attempt demo_patch_turn (eff_additional_permissions eff) LinuxSeccomp)
      (act_cwd action)) (act_patch action) \<lparr>stdout = [], stderr = []\<rparr> (se_world (os_world (files_state fs))) = Some (Ok (), out, f')"
    using assms(2,3) by (simp add: demo_h_def demo_files_def files_state_def)
  have "\<not> te_strict_auto_review demo_policy" by (simp add: demo_policy_def)
  from auto_approved_run [OF this e s a sb ap] show ?thesis by (simp add: files_state_def)
qed

lemma demo_handler:
  assumes "maybe_parse_apply_patch_verified plain_inv (demo_files None work_dir) [''apply_patch'', patch] work_dir fs = Some (VBody action, fs)"
  shows "apply_patch_handler (demo_h [a_path]) demo_policy demo_patch_turn pv (PayCustom patch) (files_state fs) =
    (let (r, st) = run_verified_patch (demo_h [a_path]) demo_policy demo_patch_turn pv action (files_state fs) in (r, [], st))"
proof -
  have "enforce_strict_delegation_patch (pt_developer_instructions demo_patch_turn) (pt_strict demo_patch_turn) patch = (Ok (), [])"
    by (simp add: enforce_strict_delegation_patch_def strict_delegation_violation_for_patch_def demo_patch_turn_def
        strict_delegation_enabled_def)
  with assms show ?thesis
    by (simp add: apply_patch_handler_def patch_input_of_def demo_patch_turn_def demo_h_def verify_context_def files_state_def)
qed

lemma demo_resolves:
  "path_str (resolve_path_against_base None ''a'' (path_str work_dir)) = ''/w/a''"
  "path_str (resolve_path_against_base None ''.env'' (path_str work_dir)) = ''/w/.env''"
  by code_simp+

lemmas demo_application = apply_patch_def apply_hunks_def apply_hunks_to_files_def apply_hunk_def
  write_file_with_missing_parent_retry_def remove_file_def derive_new_contents_from_chunks_def
  demo_files_def mem_fs_def fbind_def with_ctx_def no_paths_def demo_resolves

lemma add_parsed: "parse_patch add_patch = Ok \<lparr>ap_patch = add_patch, ap_hunks = [AddFile ''a'' (''x'' @ nl)], ap_workdir = None\<rparr>"
  by code_simp

lemma add_applied:
  "apply_patch (demo_files None work_dir) add_patch \<lparr>stdout = [], stderr = []\<rparr> [] =
     Some (Ok (), \<lparr>stdout = print_summary (no_paths\<lparr>added := [''a'']\<rparr>), stderr = []\<rparr>, [(''/w/a'', ''x'' @ nl)])"
  by (simp add: add_parsed demo_application)


lemma mem_framed: "framed_fs (demo_files ctx cwd) map_of"
  by (auto simp: framed_fs_def demo_files_def mem_fs_def map_of_delete update_conv' split: option.split)


definition hidden_move :: string where
  "hidden_move = ''*** Begin Patch'' @ nl @ ''*** Update File: a'' @ nl @ ''*** Move to: .env'' @ nl @ ''@@'' @ nl
     @ ''-x'' @ nl @ ''+y'' @ nl @ ''*** Add File: a'' @ nl @ ''+z'' @ nl @ ''*** End Patch''"

definition before_move :: "(string \<times> string) list" where
  "before_move = [(''/w/a'', ''x'' @ nl)]"


lemma hidden_parsed:
  "parse_patch hidden_move = Ok \<lparr>ap_patch = hidden_move,
     ap_hunks = [UpdateFile ''a'' (Some ''.env'') [line_change ''x'' ''y''], AddFile ''a'' (''z'' @ nl)], ap_workdir = None\<rparr>"
  by code_simp

lemma hidden_verified:
  "maybe_parse_apply_patch_verified plain_inv (demo_files ctx work_dir) [''apply_patch'', hidden_move] work_dir before_move =
     Some (VBody \<lparr>act_changes = [a_path \<mapsto> ChangeAdd (''z'' @ nl)], act_patch = hidden_move, act_cwd = work_dir\<rparr>, before_move)"
proof -
  let ?u = "UpdateFile ''a'' (Some ''.env'') [line_change ''x'' ''y'']"
  have r: "hunk_resolve_path plain_inv work_dir ?u = a_path" "hunk_resolve_path plain_inv work_dir (AddFile ''a'' (''z'' @ nl)) = a_path"
    by code_simp+
  have v: "\<exists>c. verify_hunk plain_inv (demo_files ctx work_dir) work_dir ?u before_move = Some (Ok c, before_move)"
  proof -
    have "map_option (\<lambda>(r, f). (is_ok r, f)) (verify_hunk plain_inv mem_fs work_dir ?u before_move) = Some (True, before_move)"
      by code_simp
    moreover have "verify_hunk plain_inv (demo_files ctx work_dir) work_dir ?u before_move =
        verify_hunk plain_inv mem_fs work_dir ?u before_move"
      by (simp add: verify_hunk_def unified_diff_from_chunks_def derive_new_contents_from_chunks_def demo_files_def)
    moreover obtain r f where "verify_hunk plain_inv mem_fs work_dir ?u before_move = Some (r, f)"
      using verify_hunk_total [of plain_inv mem_fs work_dir ?u before_move] by auto
    ultimately show ?thesis by (cases r) auto
  qed
  then obtain c where "verify_hunk plain_inv (demo_files ctx work_dir) work_dir ?u before_move = Some (Ok c, before_move)" by blast
  moreover have "verify_hunk plain_inv (demo_files ctx work_dir) work_dir (AddFile ''a'' (''z'' @ nl)) before_move =
      Some (Ok (ChangeAdd (''z'' @ nl)), before_move)" by (simp add: verify_hunk_def Let_def)
  ultimately show ?thesis
    using hidden_parsed r by (simp add: maybe_parse_apply_patch_verified_def maybe_parse_apply_patch_def parse_shell_script_def
        APPLY_PATCH_COMMANDS_def Let_def)
qed

lemma hidden_applied:
  "apply_patch (demo_files None work_dir) hidden_move \<lparr>stdout = [], stderr = []\<rparr> before_move =
     Some (Ok (), \<lparr>stdout = print_summary (no_paths\<lparr>added := [''a''], modified := [''.env'']\<rparr>), stderr = []\<rparr>,
       [(''/w/.env'', ''y'' @ nl), (''/w/a'', ''z'' @ nl)])"
proof -
  have "new_contents (''x'' @ nl) ''/w/a'' [line_change ''x'' ''y''] = Some (Ok (''y'' @ nl))" by code_simp
  then show ?thesis by (simp add: hidden_parsed demo_application before_move_def Let_def)
qed

text \<open>
  C35. The guard for sensitive files can be passed. A patch that moves a file to \<open>.env\<close> in one hunk and
  adds it again in a later one verifies with one change, for the file itself, so that the assessment
  sees no sensitive path; it is applied at once, without a question, and \<open>.env\<close> is written.
\<close>

theorem later_hunk_hides_move:
  "\<exists>action out st'.
     maybe_parse_apply_patch_verified plain_inv (demo_files None work_dir) [''apply_patch'', hidden_move] work_dir before_move
       = Some (VBody action, before_move)
     \<and> iterates (ph_order (demo_h [a_path])) action
     \<and> apply_patch_handler (demo_h [a_path]) demo_policy demo_patch_turn demo_patch_approvers (PayCustom hidden_move)
         (files_state before_move) = (Ok (AnswerRun (Ok out)), [], st')
     \<and> os_trace st' = [EvAttempt LinuxSeccomp]
     \<and> map_of (se_world (os_world st')) ''/w/.env'' = Some (''y'' @ nl) \<and> is_sensitive_path id ''/w/.env''"
proof -
  let ?a = "\<lparr>act_changes = [a_path \<mapsto> ChangeAdd (''z'' @ nl)], act_patch = hidden_move, act_cwd = work_dir\<rparr>"
  have "is_sensitive_path id ''/w/.env''" by code_simp
  moreover have "\<exists>out st'. apply_patch_handler (demo_h [a_path]) demo_policy demo_patch_turn demo_patch_approvers (PayCustom hidden_move)
         (files_state before_move) = (Ok (AnswerRun (Ok out)), [], st')
     \<and> os_trace st' = [EvAttempt LinuxSeccomp] \<and> map_of (se_world (os_world st')) ''/w/.env'' = Some (''y'' @ nl)"
    using demo_handler [OF hidden_verified] demo_auto_approved [of ?a] hidden_applied by simp
  ultimately show ?thesis using hidden_verified [of None] demo_order by blast
qed

section \<open>Approved patches are applied\<close>

text \<open>Whoever is asked agrees.\<close>

definition all_agree :: "'f session turn_env \<Rightarrow> 'f patch_approvers \<Rightarrow> bool" where
  "all_agree env pv \<longleftrightarrow>
     (\<forall>i payload w m. fst (te_hooks env i payload w) \<noteq> Some (HookDeny m))
     \<and> (\<forall>i reason w. fst (pv_review pv i reason w) = Approved) \<and> (\<forall>reason w. fst (pv_request pv reason w) = Approved)"

lemma agreed_answer:
  assumes "all_agree env pv"
  shows "fst (rt_start_approval_async (patch_runtime pv exec req) ctx w) \<in> {Approved, ApprovedForSession}"
  using assms
  by (auto simp: patch_runtime_def patch_start_approval_async_def with_cached_approval_def all_agree_def Let_def
      case_prod_beta split: option.splits)

lemma agreed_obtain:
  assumes "all_agree env pv"
  shows "\<exists>st1. obtain_approval env (patch_runtime pv exec req) run_id ctx hooks st = (Ok (), st1)"
proof -
  let ?t = "patch_runtime pv exec req"
  have "\<exists>dec st1. request_approval env ?t run_id ctx hooks st = (Ok dec, st1) \<and> dec \<in> {Approved, ApprovedForSession}"
  proof -
    define hk where "hk = (case (hooks, rt_permission_request_payload ?t) of
               (True, Some payload) \<Rightarrow>
                 let (d, st1) = ask (te_hooks env run_id payload) st
                 in (d, log_event (EvHook run_id d) st1)
             | _ \<Rightarrow> (None, st))"
    have "fst hk \<noteq> Some (HookDeny m)" for m
      using assms by (auto simp: hk_def ask_def all_agree_def Let_def case_prod_beta split: bool.splits option.splits)
    then show ?thesis
      using agreed_answer [OF assms, of exec req ctx "os_world (snd hk)"]
      unfolding request_approval_def hk_def [symmetric]
      by (cases "fst hk") (auto simp: ask_def Let_def case_prod_beta split: PermissionRequestDecision.splits)
  qed
  then show ?thesis by (auto simp: obtain_approval_def reject_if_not_approved_def)
qed

lemma agreed_step:
  assumes "all_agree env pv" and "\<And>reason. ar_exec_approval_requirement req \<noteq> ReqForbidden reason"
  shows "\<exists>already. fst (approval_step env (patch_runtime pv exec req) policy st) = Ok already"
proof -
  let ?t = "patch_runtime pv exec req"
  have "fst (obtain_approval env ?t i ctx b s) = Ok ()" for i ctx b s
    using agreed_obtain [OF assms(1)] by (metis fst_conv)
  moreover have "rt_exec_approval_requirement ?t = Some (ar_exec_approval_requirement req)" by (simp add: patch_runtime_def)
  ultimately show ?thesis
    using assms(2) [of "case ar_exec_approval_requirement req of ReqForbidden x \<Rightarrow> x | _ \<Rightarrow> []"]
    by (cases "ar_exec_approval_requirement req") (auto simp: approval_step_def Let_def case_prod_beta)
qed

lemma retry_extends:
  assumes "retry_step env tool policy already out npd st = (r, st')"
  shows "\<exists>es. os_trace st' = os_trace st @ es"
  using retry_step_cases [OF assms] trace_run_attempt by (metis append_assoc append_Nil2)

lemma approved_run_attempts:
  assumes "approval_step env tool policy st = (Ok already, st1)"
  shows "\<exists>es. os_trace (snd (orchestrator_run env tool policy st)) = os_trace st1 @ EvAttempt (initial_sandbox env tool) # es"
proof -
  obtain res d st2 where k: "run_attempt env tool (initial_sandbox env tool) st1 = ((res, d), st2)" by (metis prod.collapse)
  then have t: "os_trace st2 = os_trace st1 @ [EvAttempt (initial_sandbox env tool)]" using trace_run_attempt by blast
  have "\<exists>es. os_trace (snd (orchestrator_run env tool policy st)) = os_trace st2 @ es"
  proof (cases res)
    case (Inl e)
    show ?thesis
    proof (cases e)
      case (SandboxDenied out npd)
      then show ?thesis
        using retry_extends [of env tool policy already out npd st2] assms k Inl
        by (cases "retry_step env tool policy already out npd st2") (auto simp: orchestrator_run_def)
    qed (use assms k Inl in \<open>simp_all add: orchestrator_run_def\<close>)
  qed (use assms k in \<open>simp add: orchestrator_run_def\<close>)
  with t show ?thesis by auto
qed

text \<open>
  C14. A patch that is let through gets applied. When the assessment hands a patch to the runtime and
  nobody who is asked refuses, hooks, guardian or user, the run comes to its attempt, in the
  sandbox chosen for it, whatever the policy and the review settings are.
\<close>

theorem agreed_patch_is_attempted:
  assumes "all_agree env pv"
    and "core_apply_patch (ph_order h) (ph_lower h) (ph_fs_env h) env turn
           (effective_file_system_sandbox_policy (te_file_system_sandbox_policy env)
              (merge_permission_profiles (pt_granted_session turn) (pt_granted_turn turn))) action = DelegateToRuntime ai"
  shows "\<exists>pre post sandbox. os_trace (snd (run_verified_patch h env turn pv action st)) = os_trace st @ pre @ EvAttempt sandbox # post"
proof -
  obtain fp eff pol where e: "effective_patch_permissions h env turn action = (fp, eff, pol)"
    and pol: "pol = effective_file_system_sandbox_policy (te_file_system_sandbox_policy env)
              (merge_permission_profiles (pt_granted_session turn) (pt_granted_turn turn))"
    by (simp add: effective_patch_permissions_def Let_def)
  define req where "req = \<lparr>ar_file_paths = fp, ar_patch = act_patch (ai_action ai),
    ar_exec_approval_requirement = ai_exec_approval_requirement ai,
    ar_permissions_preapproved = eff_permissions_preapproved eff\<rparr>"
  let ?tool = "patch_runtime pv (patch_run h turn (ai_action ai) (eff_additional_permissions eff)) req"
  have "ar_exec_approval_requirement req \<noteq> ReqForbidden reason" for reason
    using assms(2) by (auto simp: req_def core_apply_patch_def split: option.splits SafetyCheck.splits)
  from agreed_step [OF assms(1) this] obtain already st1
    where s: "approval_step env ?tool (te_approval_policy env) st = (Ok already, st1)" by (metis prod.collapse)
  have "snd (run_verified_patch h env turn pv action st) = snd (orchestrator_run env ?tool (te_approval_policy env) st)"
    using assms(2) by (simp add: run_verified_patch_def e pol req_def Let_def case_prod_beta)
  moreover obtain es where "os_trace st1 = os_trace st @ es" using trace_approval_step [OF s] by blast
  ultimately show ?thesis using approved_run_attempts [OF s] by auto
qed

definition demo_agreeing :: "(string \<times> string) list patch_approvers" where
  "demo_agreeing = \<lparr>pv_review = \<lambda>_ _ se. (Approved, se), pv_request = \<lambda>_ se. (Approved, se), pv_serialize = \<lambda>_. None\<rparr>"

theorem agreed_patch_is_attempted_witness:
  "\<exists>pre post sandbox. os_trace (snd (run_verified_patch (demo_h [a_path]) (demo_policy\<lparr>te_approval_policy := UnlessTrusted\<rparr>)
      demo_patch_turn demo_agreeing demo_action (files_state []))) = pre @ EvAttempt sandbox # post"
proof -
  let ?env = "demo_policy\<lparr>te_approval_policy := UnlessTrusted\<rparr>"
  have a: "all_agree ?env demo_agreeing" by (simp add: all_agree_def demo_agreeing_def demo_policy_def)
  have "case core_apply_patch (ph_order (demo_h [a_path])) (ph_lower (demo_h [a_path])) (ph_fs_env (demo_h [a_path])) ?env demo_patch_turn
      (effective_file_system_sandbox_policy (te_file_system_sandbox_policy ?env)
        (merge_permission_profiles (pt_granted_session demo_patch_turn) (pt_granted_turn demo_patch_turn))) demo_action of
      DelegateToRuntime _ \<Rightarrow> True | _ \<Rightarrow> False" by code_simp
  then obtain ai where "core_apply_patch (ph_order (demo_h [a_path])) (ph_lower (demo_h [a_path])) (ph_fs_env (demo_h [a_path])) ?env demo_patch_turn
      (effective_file_system_sandbox_policy (te_file_system_sandbox_policy ?env)
        (merge_permission_profiles (pt_granted_session demo_patch_turn) (pt_granted_turn demo_patch_turn))) demo_action = DelegateToRuntime ai"
    by (auto split: InternalApplyPatchInvocation.splits)
  from agreed_patch_is_attempted [OF a this, of "files_state []"] show ?thesis by (simp add: files_state_def)
qed

end
