(* ===== verification/Tool_Handlers.thy ===== *)
theory Tool_Handlers
  imports Patch_Safety
begin

text \<open>
  The shell tool as a whole: \<open>run_exec_like\<close> of \<open>core/src/tools/handlers/shell.rs\<close> with
  \<open>intercept_apply_patch\<close> of \<open>core/src/tools/handlers/apply_patch.rs\<close>. A call passes the gate of
  strict delegation, takes the permissions granted to the session, is refused when it asks to leave the
  sandbox under a policy that does not allow the question, is applied as a patch when it is one, is
  blocked when it would print a sensitive file, and else goes to the orchestrator.

  The environment variables of the process and the texts of the events are left out.
\<close>

section \<open>The handler\<close>

record 'f shell_host =
  sh_strict :: strict_env
  sh_scrub :: scrub_env
  sh_approval :: approval_env
  sh_exec_policy :: Policy
  sh_patch :: "'f patch_host"
  sh_exec_permission_approvals :: bool
  sh_request_permissions_tool :: bool

record RunExecLikeArgs =
  el_tool_name :: string
  el_command :: "string list"
  el_hook_command :: string
  el_cwd :: path
  el_has_network :: bool
  el_sandbox_permissions :: SandboxPermissions
  el_additional_permissions :: "AdditionalPermissionProfile option"
  el_justification :: "string option"
  el_prefix_rule :: "string list option"

datatype 'out shell_answer =
    ShellPatch patch_tool_answer
  | ShellRun "ExecToolCallOutput ToolError + ('out \<times> string option)"

definition model_warning :: "string \<Rightarrow> string" where
  "model_warning name =
     ''apply_patch was requested via '' @ name @ ''. Use the apply_patch tool instead of exec_command.''"

definition effective_permissions :: "'f shell_host \<Rightarrow> patch_turn \<Rightarrow> RunExecLikeArgs \<Rightarrow> EffectiveAdditionalPermissions" where
  "effective_permissions sh turn args =
     apply_granted_turn_permissions (ph_fs_env (sh_patch sh)) (pt_granted_session turn) (pt_granted_turn turn)
       (pt_cwd turn) (el_sandbox_permissions args) (el_additional_permissions args)"

definition normalized_permissions ::
    "'f shell_host \<Rightarrow> 'w turn_env \<Rightarrow> RunExecLikeArgs \<Rightarrow> EffectiveAdditionalPermissions
       \<Rightarrow> string + AdditionalPermissionProfile option" where
  "normalized_permissions sh env args effective =
     (let allowed = (sh_exec_permission_approvals sh
            \<or> sh_request_permissions_tool sh \<and> eff_permissions_preapproved effective)
      in case implicit_granted_permissions (el_sandbox_permissions args) (el_additional_permissions args) effective of
           Some permissions \<Rightarrow> Ok (Some permissions)
         | None \<Rightarrow>
             normalize_and_validate_additional_permissions (ph_fs_env (sh_patch sh)) allowed (te_approval_policy env)
               (eff_sandbox_permissions effective) (eff_additional_permissions effective)
               (eff_permissions_preapproved effective))"

definition call_of ::
    "patch_turn \<Rightarrow> RunExecLikeArgs \<Rightarrow> EffectiveAdditionalPermissions \<Rightarrow> AdditionalPermissionProfile option \<Rightarrow> shell_call" where
  "call_of turn args effective normalized =
     \<lparr>sc_command = el_command args, sc_hook_command = el_hook_command args, sc_cwd = el_cwd args,
      sc_has_network = el_has_network args, sc_justification = el_justification args,
      sc_prefix_rule = el_prefix_rule args, sc_permission_profile = pt_permission_profile turn,
      sc_turn_cwd = path_str (pt_cwd turn), sc_effective = effective, sc_normalized = normalized\<rparr>"

text \<open>The verdict of \<open>intercept_apply_patch\<close> on the command.\<close>

definition intercepted ::
    "'f shell_host \<Rightarrow> patch_turn \<Rightarrow> bool \<Rightarrow> RunExecLikeArgs \<Rightarrow> 'f
       \<Rightarrow> ((string + ApplyPatchAction option) \<times> StrictDelegationTrace list \<times> 'f) option" where
  "intercepted sh turn is_remote args f =
     (let h = sh_patch sh in
      intercept_apply_patch (ph_inv h) (ph_file_system h (verify_context turn is_remote) (el_cwd args))
        (pt_developer_instructions turn) (pt_strict turn) (el_command args) (el_cwd args) f)"

text \<open>
  The answer, the traces of strict delegation, the warnings for the model and the state; \<open>None\<close> is a
  panic.
\<close>

definition shell_run_exec_like ::
    "'f shell_host \<Rightarrow> 'f session turn_env \<Rightarrow> patch_turn \<Rightarrow> 'f approvers \<Rightarrow> 'f patch_approvers
       \<Rightarrow> (SandboxType \<Rightarrow> 'f session \<Rightarrow> (ExecToolCallOutput ToolError + 'out) \<times> 'f session) \<Rightarrow> RunExecLikeArgs
       \<Rightarrow> 'f session orch_state
       \<Rightarrow> ((string + 'out shell_answer) \<times> StrictDelegationTrace list \<times> string list \<times> 'f session orch_state) option" where
  "shell_run_exec_like sh env turn av pv exec args st =
     (case pt_remote turn of
        None \<Rightarrow> Some (Err ''shell is unavailable in this session'', [], [], st)
      | Some is_remote \<Rightarrow>
          (case shell_command_gate (sh_strict sh) (pt_developer_instructions turn) (pt_strict turn) (el_command args) of
             (Inl reason, traces) \<Rightarrow> Some (Err reason, traces, [], st)
           | (Inr _, traces) \<Rightarrow>
               let effective = effective_permissions sh turn args in
               case normalized_permissions sh env args effective of
                 Inl m \<Rightarrow> Some (Err m, traces, [], st)
               | Inr normalized \<Rightarrow>
                   let call = call_of turn args effective normalized;
                       run_command = (\<lambda>traces st.
                         map_option (\<lambda>(r, st1). (rbind r (\<lambda>x. Ok (ShellRun x)), traces, [], st1))
                           (run_exec_like (sh_approval sh) (sh_exec_policy sh) env av exec call st))
                   in if escalation_rejected env call then run_command traces st
                      else Option.bind (intercepted sh turn is_remote args (se_world (os_world st)))
                        (\<lambda>(verdict, traces1, f1).
                           let st1 = st\<lparr>os_world := (os_world st)\<lparr>se_world := f1\<rparr>\<rparr> in
                           case verdict of
                             Inl m \<Rightarrow> Some (Err m, traces @ traces1, [], st1)
                           | Inr (Some action) \<Rightarrow>
                               let (r, st2) = run_verified_patch (sh_patch sh) env turn pv action st1
                               in Some (rbind r (\<lambda>x. Ok (ShellPatch x)), traces @ traces1,
                                        [model_warning (el_tool_name args)], st2)
                           | Inr None \<Rightarrow>
                               (case sensitive_command_block (sh_scrub sh) (el_command args) of
                                  Some blocked \<Rightarrow> Some (Err (block_message blocked), traces @ traces1, [], st1)
                                | None \<Rightarrow> run_command (traces @ traces1) st1))))"

section \<open>Lemmas\<close>

text \<open>The ways a call can come to an attempt.\<close>

lemma shell_attempt_cases:
  assumes "shell_run_exec_like sh env turn av pv exec args st = Some (r, traces, warnings, st')"
    and "os_trace st' \<noteq> os_trace st"
  obtains is_remote normalized verdict traces1 f1 where
    "pt_remote turn = Some is_remote"
    "fst (shell_command_gate (sh_strict sh) (pt_developer_instructions turn) (pt_strict turn) (el_command args)) = Ok ()"
    "intercepted sh turn is_remote args (se_world (os_world st)) = Some (Ok verdict, traces1, f1)"
    "\<not> escalation_rejected env (call_of turn args (effective_permissions sh turn args) normalized)"
    "(case verdict of
        Some action \<Rightarrow> \<exists>r2. run_verified_patch (sh_patch sh) env turn pv action (st\<lparr>os_world := (os_world st)\<lparr>se_world := f1\<rparr>\<rparr>) = (r2, st')
      | None \<Rightarrow> sensitive_command_block (sh_scrub sh) (el_command args) = None
          \<and> (\<exists>r2. run_exec_like (sh_approval sh) (sh_exec_policy sh) env av exec
                (call_of turn args (effective_permissions sh turn args) normalized)
                (st\<lparr>os_world := (os_world st)\<lparr>se_world := f1\<rparr>\<rparr>) = Some (r2, st')))"
proof -
  obtain is_remote where rem: "pt_remote turn = Some is_remote"
    using assms by (auto simp: shell_run_exec_like_def split: option.splits)
  obtain g tr where g: "shell_command_gate (sh_strict sh) (pt_developer_instructions turn) (pt_strict turn) (el_command args) = (g, tr)"
    by fastforce
  have ok: "g = Ok ()" using assms rem g by (cases g) (auto simp: shell_run_exec_like_def)
  let ?eff = "effective_permissions sh turn args"
  obtain nm where nm: "normalized_permissions sh env args ?eff = Inr nm"
    using assms rem g ok by (cases "normalized_permissions sh env args ?eff") (auto simp: shell_run_exec_like_def)
  let ?call = "call_of turn args ?eff nm"
  have ne: "\<not> escalation_rejected env ?call"
    using assms rem g ok nm by (auto simp: shell_run_exec_like_def run_exec_like_def Let_def)
  obtain v tr1 f1 where i: "intercepted sh turn is_remote args (se_world (os_world st)) = Some (v, tr1, f1)"
    using assms(1) rem g ok nm ne by (auto simp: shell_run_exec_like_def Let_def bind_eq_Some_conv)
  let ?st1 = "st\<lparr>os_world := (os_world st)\<lparr>se_world := f1\<rparr>\<rparr>"
  note d = shell_run_exec_like_def rem g ok nm ne i
  obtain verdict where v: "v = Inr verdict" using assms by (cases v) (auto simp: d)
  have "case verdict of
        Some action \<Rightarrow> \<exists>r2. run_verified_patch (sh_patch sh) env turn pv action ?st1 = (r2, st')
      | None \<Rightarrow> sensitive_command_block (sh_scrub sh) (el_command args) = None
          \<and> (\<exists>r2. run_exec_like (sh_approval sh) (sh_exec_policy sh) env av exec ?call ?st1 = Some (r2, st'))"
    using assms by (cases verdict) (auto simp: d v Let_def split: option.splits prod.splits)
  with that [of is_remote verdict tr1 f1 nm] rem g ok ne i v show thesis by simp
qed

lemma intercepted_wf:
  assumes "intercepted sh turn is_remote args f = Some (Ok (Some action), traces, f1)" and "abs_wf (el_cwd args)"
    and "t \<in> action_targets action"
  shows "abs_wf t"
proof -
  have "\<exists>g. maybe_parse_apply_patch_verified (ph_inv (sh_patch sh))
      (ph_file_system (sh_patch sh) (verify_context turn is_remote) (el_cwd args)) (el_command args) (el_cwd args) f = Some (VBody action, g)"
    using assms(1) unfolding intercepted_def intercept_apply_patch_def Let_def
    by (auto split: prod.splits sum.splits list.splits if_splits elim!: intercept_verdict.elims)
  then obtain g where "maybe_parse_apply_patch_verified (ph_inv (sh_patch sh))
      (ph_file_system (sh_patch sh) (verify_context turn is_remote) (el_cwd args)) (el_command args) (el_cwd args) f = Some (VBody action, g)" ..
  from verified_targets_wf [OF this assms(2,3)] show ?thesis .
qed

text \<open>What an attempt at a call that is a patch says, and one at any other command.\<close>

lemma patch_call_attempt:
  assumes "intercepted sh turn is_remote args f = Some (Ok (Some action), tr, f1)" and "abs_wf (el_cwd args)"
    and "run_verified_patch (sh_patch sh) env turn pv action st = (r, st')" and "iterates (ph_order (sh_patch sh)) action"
    and "os_trace st' = os_trace st @ pre @ EvAttempt sandbox # post"
  shows "list_ex approves pre \<or> te_approval_policy env = OnFailure
      \<or> (\<forall>t \<in> action_targets action. can_write_path_with_cwd (ph_fs_env (sh_patch sh))
            (effective_file_system_sandbox_policy (te_file_system_sandbox_policy env)
               (merge_permission_profiles (pt_granted_session turn) (pt_granted_turn turn)))
            (path_str t) (path_str (pt_cwd turn)))"
proof -
  have "is_patch_path_writable (ph_fs_env (sh_patch sh)) pol (pt_cwd turn) x =
      can_write_path_with_cwd (ph_fs_env (sh_patch sh)) pol (path_str x) (path_str (pt_cwd turn))"
    if "x \<in> action_targets action" for x pol
    by (rule writable_target [OF intercepted_wf [OF assms(1,2) that]])
  with verified_attempt(2) [OF assms(3-5)] show ?thesis
    by (simp add: effective_patch_permissions_def consent_def Let_def)
qed

lemma command_call_attempt:
  assumes "platform_sandboxed env"
    and "run_exec_like (sh_approval sh) (sh_exec_policy sh) env av exec
           (call_of turn args (effective_permissions sh turn args) nm) st = Some (r, st')"
    and "os_trace st' = os_trace st @ pre @ EvAttempt NoSandbox # post"
  shows "list_ex approves pre
      \<or> list_all (\<lambda>c. segment_allowed_by_rule (ap_exec (sh_approval sh)) (sh_exec_policy sh) c
            \<or> eff_sandbox_permissions (effective_permissions sh turn args) = RequireEscalated
              \<and> is_known_safe_command (ap_safety (sh_approval sh)) c)
          (fst (commands_for_exec_policy (env_bash (ap_safety (sh_approval sh))) (el_command args)))"
proof -
  let ?call = "call_of turn args (effective_permissions sh turn args) nm"
  have "sc_effective ?call = effective_permissions sh turn args" by (simp add: call_of_def)
  from unsandboxed_attempt [OF assms(1) this [unfolded effective_permissions_def] assms(2) [unfolded effective_permissions_def] assms(3)]
  show ?thesis by (simp add: call_of_def effective_permissions_def)
qed

section \<open>Properties\<close>


section \<open>A concrete run\<close>

definition demo_shell :: "(string \<times> string) list shell_host" where
  "demo_shell = \<lparr>sh_strict = still_env (\<lambda>_. None), sh_scrub = \<lparr>sc_to_lowercase = id, sc_replace_all = (\<lambda>_ _ s. s),
       sc_shlex_split = (\<lambda>_. None), sc_from_utf8_lossy = id, sc_bash = (\<lambda>_. None)\<rparr>, sh_approval = demo_approval, sh_exec_policy = Policy_empty,
     sh_patch = demo_h [a_path], sh_exec_permission_approvals = False, sh_request_permissions_tool = False\<rparr>"

definition demo_args :: RunExecLikeArgs where
  "demo_args = \<lparr>el_tool_name = ''shell'', el_command = [''apply_patch'', add_patch], el_hook_command = ''apply_patch'',
     el_cwd = work_dir, el_has_network = False, el_sandbox_permissions = UseDefault, el_additional_permissions = None,
     el_justification = None, el_prefix_rule = None\<rparr>"

definition asked_approvers :: "(string \<times> string) list approvers" where
  "asked_approvers = \<lparr>av_review = \<lambda>_ _ se. (ReviewDecision.Denied, se), av_request = \<lambda>_ _ se. (ReviewDecision.Denied, se), av_serialize = \<lambda>_. None\<rparr>"

definition no_exec :: "SandboxType \<Rightarrow> (string \<times> string) list session \<Rightarrow> (ExecToolCallOutput ToolError + unit) \<times> (string \<times> string) list session" where
  "no_exec sb se = (Err (Rejected ''no''), se)"

lemma demo_intercepted:
  "intercepted demo_shell demo_patch_turn False demo_args [] = Some (Ok (Some demo_action), [], [])"
proof -
  have "enforce_strict_delegation_patch (pt_developer_instructions demo_patch_turn) (pt_strict demo_patch_turn) add_patch = (Ok (), [])"
    by (simp add: enforce_strict_delegation_patch_def strict_delegation_violation_for_patch_def demo_patch_turn_def
        strict_delegation_enabled_def)
  then show ?thesis
    using add_verified [of None]
    by (simp add: intercepted_def intercept_apply_patch_def demo_shell_def demo_args_def demo_h_def verify_context_def demo_action_def Let_def)
qed

lemma demo_shell_run:
  "\<exists>r warnings. shell_run_exec_like demo_shell demo_policy demo_patch_turn asked_approvers demo_patch_approvers no_exec demo_args
      (files_state []) = Some (r, [], warnings, \<lparr>os_world = \<lparr>se_tool_approvals = Map.empty, se_world = [(''/w/a'', ''x'' @ nl)]\<rparr>,
        os_trace = [EvAttempt LinuxSeccomp]\<rparr>)"
proof -
  have g: "shell_command_gate (sh_strict demo_shell) (pt_developer_instructions demo_patch_turn) (pt_strict demo_patch_turn)
      (el_command demo_args) = (Ok (), [])"
    by (simp add: shell_command_gate_def demo_patch_turn_def strict_delegation_enabled_def)
  have e: "effective_permissions demo_shell demo_patch_turn demo_args =
      \<lparr>eff_sandbox_permissions = UseDefault, eff_additional_permissions = None, eff_permissions_preapproved = False\<rparr>"
    by (simp add: effective_permissions_def demo_patch_turn_def demo_args_def apply_granted_turn_permissions_def
        merge_permission_profiles_def Let_def)
  have n: "normalized_permissions demo_shell demo_policy demo_args (effective_permissions demo_shell demo_patch_turn demo_args) = Ok None"
    unfolding e by (simp add: normalized_permissions_def implicit_granted_permissions_def demo_args_def uses_additional_permissions_def
        normalize_and_validate_additional_permissions_def Let_def)
  have ne: "\<not> escalation_rejected demo_policy (call_of demo_patch_turn demo_args (effective_permissions demo_shell demo_patch_turn demo_args) None)"
    by (simp add: e escalation_rejected_def call_of_def requests_sandbox_override_def)
  have "act_changes demo_action = [a_path \<mapsto> ChangeAdd (''x'' @ nl)]" "act_cwd demo_action = work_dir" "act_patch demo_action = add_patch"
    by (simp_all add: demo_action_def)
  from demo_auto_approved [OF this(1,2), unfolded this(3), OF add_applied] obtain r where
    run: "run_verified_patch (sh_patch demo_shell) demo_policy demo_patch_turn demo_patch_approvers demo_action (files_state []) =
      (Ok r, \<lparr>os_world = \<lparr>se_tool_approvals = Map.empty, se_world = [(''/w/a'', ''x'' @ nl)]\<rparr>, os_trace = [EvAttempt LinuxSeccomp]\<rparr>)"
    by (auto simp: demo_shell_def)
  have "pt_remote demo_patch_turn = Some False" by (simp add: demo_patch_turn_def)
  moreover have s: "se_world (os_world (files_state [])) = []" "files_state []\<lparr>os_world := os_world (files_state [])\<lparr>se_world := []\<rparr>\<rparr> = files_state []"
    by (simp_all add: files_state_def)
  ultimately show ?thesis
    using g n ne demo_intercepted run by (simp add: shell_run_exec_like_def Let_def s)
qed


end
