(* ===== verification/Patch_Progress.thy ===== *)
theory Patch_Progress
  imports Patch_Safety
begin

text \<open>
  The progress a client sees while the model still writes a patch: \<open>ApplyPatchArgumentDiffConsumer\<close>
  of \<open>core/src/tools/handlers/apply_patch.rs\<close> with the conversions it uses, and the patch as the
  hooks see it. The text so far is parsed in the streaming mode of \<open>Patch_Parser\<close>; an event goes out
  at most every half second, what comes in between waits and is sent at the end. Times are
  milliseconds of the clock.
\<close>

section \<open>Conversions\<close>

definition hunk_source_path :: "Hunk \<Rightarrow> string" where
  "hunk_source_path hunk =
     (case hunk of AddFile p _ \<Rightarrow> p | DeleteFile p \<Rightarrow> p | UpdateFile p _ _ \<Rightarrow> p)"

definition hunks_include_sensitive_path :: "(string \<Rightarrow> string) \<Rightarrow> Hunk list \<Rightarrow> bool" where
  "hunks_include_sensitive_path lower hunks =
     list_ex (\<lambda>hunk. case hunk of
         AddFile p _ \<Rightarrow> is_sensitive_path lower p
       | DeleteFile p \<Rightarrow> is_sensitive_path lower p
       | UpdateFile p move_path _ \<Rightarrow>
           is_sensitive_path lower p
           \<or> (case move_path of Some m \<Rightarrow> is_sensitive_path lower m | None \<Rightarrow> False)) hunks"

definition format_chunk_for_progress :: "UpdateFileChunk \<Rightarrow> string" where
  "format_chunk_for_progress chunk =
     (case change_context chunk of Some context \<Rightarrow> ''@@ '' @ context @ nl | None \<Rightarrow> ''@@'' @ nl)
     @ concat (map (\<lambda>line. ''-'' @ line @ nl) (old_lines chunk))
     @ concat (map (\<lambda>line. ''+'' @ line @ nl) (new_lines chunk))
     @ (if is_end_of_file chunk then ''*** End of File'' @ nl else [])"

definition format_update_chunks_for_progress :: "UpdateFileChunk list \<Rightarrow> string" where
  "format_update_chunks_for_progress chunks = concat (map format_chunk_for_progress chunks)"

definition hunk_change :: "Hunk \<Rightarrow> FileChange" where
  "hunk_change hunk =
     (case hunk of
        AddFile _ contents \<Rightarrow> FcAdd contents
      | DeleteFile _ \<Rightarrow> FcDelete []
      | UpdateFile _ move_path chunks \<Rightarrow> FcUpdate (format_update_chunks_for_progress chunks) move_path)"

text \<open>The pairs are collected into a map: a later hunk for the same path replaces an earlier one.\<close>

definition convert_apply_patch_hunks_to_protocol :: "Hunk list \<Rightarrow> (string \<rightharpoonup> FileChange)" where
  "convert_apply_patch_hunks_to_protocol hunks =
     map_of (rev (map (\<lambda>hunk. (hunk_source_path hunk, hunk_change hunk)) hunks))"

section \<open>The consumer\<close>

record PatchApplyUpdatedEvent =
  pe_call_id :: string
  pe_changes :: "string \<rightharpoonup> FileChange"

record ApplyPatchArgumentDiffConsumer =
  dc_input :: string
  dc_last_progress :: "Hunk list option"
  dc_last_sent_at :: "nat option"
  dc_pending :: "PatchApplyUpdatedEvent option"

definition consumer_default :: ApplyPatchArgumentDiffConsumer where
  "consumer_default = \<lparr>dc_input = [], dc_last_progress = None, dc_last_sent_at = None, dc_pending = None\<rparr>"

definition APPLY_PATCH_ARGUMENT_DIFF_BUFFER_INTERVAL :: nat where
  "APPLY_PATCH_ARGUMENT_DIFF_BUFFER_INTERVAL = 500"

definition push_delta ::
    "(string \<Rightarrow> string) \<Rightarrow> nat \<Rightarrow> string \<Rightarrow> string \<Rightarrow> ApplyPatchArgumentDiffConsumer
       \<Rightarrow> PatchApplyUpdatedEvent option \<times> ApplyPatchArgumentDiffConsumer" where
  "push_delta lower now call_id delta self =
     (let self1 = self\<lparr>dc_input := dc_input self @ delta\<rparr> in
      case parse_patch_streaming (dc_input self1) of
        Inl _ \<Rightarrow> (None, self1)
      | Inr args \<Rightarrow>
          let hunks = ap_hunks args in
          if hunks = [] then (None, self1)
          else if dc_last_progress self1 = Some hunks then (None, self1)
          else if hunks_include_sensitive_path lower hunks then (None, self1\<lparr>dc_last_progress := Some hunks\<rparr>)
          else
            let self2 = self1\<lparr>dc_last_progress := Some hunks\<rparr>;
                event = \<lparr>pe_call_id = call_id, pe_changes = convert_apply_patch_hunks_to_protocol hunks\<rparr>;
                send = (Some event, self2\<lparr>dc_pending := None, dc_last_sent_at := Some now\<rparr>)
            in case dc_last_sent_at self2 of
                 Some last_sent_at \<Rightarrow>
                   if now - last_sent_at < APPLY_PATCH_ARGUMENT_DIFF_BUFFER_INTERVAL
                   then (None, self2\<lparr>dc_pending := Some event\<rparr>) else send
               | None \<Rightarrow> send)"

definition flush_update_on_complete ::
    "nat \<Rightarrow> ApplyPatchArgumentDiffConsumer \<Rightarrow> PatchApplyUpdatedEvent option \<times> ApplyPatchArgumentDiffConsumer" where
  "flush_update_on_complete now self =
     (let event = dc_pending self; self1 = self\<lparr>dc_pending := None\<rparr>
      in (event, if event \<noteq> None then self1\<lparr>dc_last_sent_at := Some now\<rparr> else self1))"

definition consume_diff ::
    "bool \<Rightarrow> (string \<Rightarrow> string) \<Rightarrow> nat \<Rightarrow> string \<Rightarrow> string \<Rightarrow> ApplyPatchArgumentDiffConsumer
       \<Rightarrow> PatchApplyUpdatedEvent option \<times> ApplyPatchArgumentDiffConsumer" where
  "consume_diff streaming_events lower now call_id diff self =
     (if \<not> streaming_events then (None, self) else push_delta lower now call_id diff self)"

section \<open>The patch for the hooks\<close>

definition sanitize_patch_hook_command :: "(string \<Rightarrow> string) \<Rightarrow> string \<Rightarrow> string" where
  "sanitize_patch_hook_command lower cmd =
     (case parse_patch_streaming cmd of
        Inl _ \<Rightarrow> cmd
      | Inr args \<Rightarrow> if hunks_include_sensitive_path lower (ap_hunks args) then ''[REDACTED_SENSITIVE_PATCH]'' else cmd)"

definition apply_patch_payload_command :: "'f patch_host \<Rightarrow> ToolPayload \<Rightarrow> string option" where
  "apply_patch_payload_command h payload =
     (case payload of
        PayFunction arguments \<Rightarrow>
          (case ph_parse_arguments h arguments of
             Inr input \<Rightarrow> Some (sanitize_patch_hook_command (ph_lower h) input) | Inl _ \<Rightarrow> None)
      | PayCustom input \<Rightarrow> Some (sanitize_patch_hook_command (ph_lower h) input)
      | _ \<Rightarrow> None)"

section \<open>A stream of deltas\<close>

datatype consumer_op = Delta nat string string | Complete nat

text \<open>The events that were sent, each with its time and whether a delta caused it.\<close>

type_synonym sent_events = "(nat \<times> bool \<times> PatchApplyUpdatedEvent) list"

definition sent :: "nat \<Rightarrow> bool \<Rightarrow> PatchApplyUpdatedEvent option \<Rightarrow> sent_events" where
  "sent now by_delta event = (case event of Some e \<Rightarrow> [(now, by_delta, e)] | None \<Rightarrow> [])"

fun consumer_run ::
    "(string \<Rightarrow> string) \<Rightarrow> consumer_op list \<Rightarrow> sent_events \<times> ApplyPatchArgumentDiffConsumer
       \<Rightarrow> sent_events \<times> ApplyPatchArgumentDiffConsumer" where
  "consumer_run lower [] s = s"
| "consumer_run lower (Delta now call_id diff # ops) (evs, c) =
     (let (e, c1) = consume_diff True lower now call_id diff c in consumer_run lower ops (evs @ sent now True e, c1))"
| "consumer_run lower (Complete now # ops) (evs, c) =
     (let (e, c1) = flush_update_on_complete now c in consumer_run lower ops (evs @ sent now False e, c1))"

definition clean_event :: "(string \<Rightarrow> string) \<Rightarrow> PatchApplyUpdatedEvent \<Rightarrow> bool" where
  "clean_event lower e \<longleftrightarrow>
     (\<forall>p c. pe_changes e p = Some c \<longrightarrow> \<not> is_sensitive_path lower p
        \<and> (\<forall>d m. c = FcUpdate d (Some m) \<longrightarrow> \<not> is_sensitive_path lower m))"

text \<open>An event that a delta causes comes half a second after the one before it.\<close>

fun spaced :: "sent_events \<Rightarrow> bool" where
  "spaced ((t1, b1, e1) # (t2, b2, e2) # evs) =
     ((b2 \<longrightarrow> t1 + APPLY_PATCH_ARGUMENT_DIFF_BUFFER_INTERVAL \<le> t2) \<and> spaced ((t2, b2, e2) # evs))"
| "spaced _ = True"

lemma spaced_append:
  "spaced (evs @ [(t, b, e)]) \<longleftrightarrow> spaced evs
     \<and> (evs \<noteq> [] \<longrightarrow> b \<longrightarrow> fst (last evs) + APPLY_PATCH_ARGUMENT_DIFF_BUFFER_INTERVAL \<le> t)"
  by (induction evs rule: spaced.induct) auto

definition displays :: "PatchApplyUpdatedEvent \<Rightarrow> Hunk list \<Rightarrow> bool" where
  "displays e hunks = (pe_changes e = convert_apply_patch_hunks_to_protocol hunks)"

definition consumer_inv :: "(string \<Rightarrow> string) \<Rightarrow> sent_events \<times> ApplyPatchArgumentDiffConsumer \<Rightarrow> bool" where
  "consumer_inv lower s \<longleftrightarrow> (case s of (evs, c) \<Rightarrow>
     (\<forall>(t, b, e) \<in> set evs. clean_event lower e) \<and> (\<forall>e. dc_pending c = Some e \<longrightarrow> clean_event lower e)
     \<and> spaced evs \<and> dc_last_sent_at c = (if evs = [] then None else Some (fst (last evs)))
     \<and> (\<forall>hs. dc_last_progress c = Some hs \<longrightarrow> \<not> hunks_include_sensitive_path lower hs \<longrightarrow>
          (case dc_pending c of Some e \<Rightarrow> displays e hs | None \<Rightarrow> evs \<noteq> [] \<and> displays (snd (snd (last evs))) hs)))"

lemma convert_clean:
  assumes "\<not> hunks_include_sensitive_path lower hs"
  shows "clean_event lower \<lparr>pe_call_id = i, pe_changes = convert_apply_patch_hunks_to_protocol hs\<rparr>"
proof -
  have "\<not> is_sensitive_path lower p \<and> (\<forall>d m. c = FcUpdate d (Some m) \<longrightarrow> \<not> is_sensitive_path lower m)"
    if "convert_apply_patch_hunks_to_protocol hs p = Some c" for p c
  proof -
    from map_of_SomeD [OF that [unfolded convert_apply_patch_hunks_to_protocol_def]] obtain h
      where h: "h \<in> set hs" "p = hunk_source_path h" "c = hunk_change h" by auto
    with assms show ?thesis
      by (cases h) (auto simp: hunks_include_sensitive_path_def list_ex_iff hunk_source_path_def hunk_change_def)
  qed
  then show ?thesis by (simp add: clean_event_def)
qed

lemma delta_inv:
  assumes "consumer_inv lower (evs, c)" and "push_delta lower now i d c = (e, c')"
  shows "consumer_inv lower (evs @ sent now True e, c')"
proof (cases "parse_patch_streaming (dc_input c @ d)")
  case (Inl x)
  with assms show ?thesis by (auto simp: push_delta_def sent_def consumer_inv_def)
next
  case (Inr args)
  let ?hs = "ap_hunks args"
  define ev where "ev = \<lparr>pe_call_id = i, pe_changes = convert_apply_patch_hunks_to_protocol ?hs\<rparr>"
  have sh: "displays ev ?hs" by (simp add: displays_def ev_def)
  consider (same) "e = None" "c' = c\<lparr>dc_input := dc_input c @ d\<rparr>"
    | (hidden) "hunks_include_sensitive_path lower ?hs" "e = None" "c' = c\<lparr>dc_input := dc_input c @ d, dc_last_progress := Some ?hs\<rparr>"
    | (waits) t where "\<not> hunks_include_sensitive_path lower ?hs" "dc_last_sent_at c = Some t" "e = None"
        "c' = c\<lparr>dc_input := dc_input c @ d, dc_last_progress := Some ?hs, dc_pending := Some ev\<rparr>"
    | (sends) "\<not> hunks_include_sensitive_path lower ?hs" "e = Some ev"
        "c' = c\<lparr>dc_input := dc_input c @ d, dc_last_progress := Some ?hs, dc_pending := None, dc_last_sent_at := Some now\<rparr>"
        "\<And>t. dc_last_sent_at c = Some t \<Longrightarrow> t + APPLY_PATCH_ARGUMENT_DIFF_BUFFER_INTERVAL \<le> now"
    using assms(2) Inr
    by (auto simp: push_delta_def ev_def [symmetric] Let_def APPLY_PATCH_ARGUMENT_DIFF_BUFFER_INTERVAL_def
        split: if_splits option.splits)
  then show ?thesis
  proof cases
    case same
    then show ?thesis using assms(1) by (simp add: sent_def consumer_inv_def)
  next
    case hidden
    then show ?thesis using assms(1) by (auto simp: sent_def consumer_inv_def)
  next
    case waits
    then show ?thesis using assms(1) convert_clean [of lower ?hs i] sh by (auto simp: sent_def consumer_inv_def ev_def)
  next
    case sends
    then show ?thesis using assms(1) convert_clean [of lower ?hs i] sh
      by (auto simp: sent_def consumer_inv_def spaced_append ev_def)
  qed
qed

lemma flush_inv:
  assumes "consumer_inv lower (evs, c)" and "flush_update_on_complete now c = (e, c')"
  shows "consumer_inv lower (evs @ sent now False e, c')"
  using assms
  by (auto simp: flush_update_on_complete_def sent_def consumer_inv_def spaced_append Let_def split: option.splits if_splits)

lemma run_inv: "consumer_inv lower s \<Longrightarrow> consumer_inv lower (consumer_run lower ops s)"
proof (induction ops arbitrary: s)
  case (Cons op ops)
  obtain evs c where s: "s = (evs, c)" by fastforce
  show ?case
  proof (cases op)
    case (Delta now i d)
    obtain e c' where p: "push_delta lower now i d c = (e, c')" by fastforce
    from Cons.IH [OF delta_inv [OF Cons.prems [unfolded s] p]] show ?thesis by (simp add: s Delta consume_diff_def p)
  next
    case (Complete now)
    obtain e c' where p: "flush_update_on_complete now c = (e, c')" by fastforce
    from Cons.IH [OF flush_inv [OF Cons.prems [unfolded s] p]] show ?thesis by (simp add: s Complete p)
  qed
qed simp

lemma run_append: "consumer_run lower (xs @ ys) s = consumer_run lower ys (consumer_run lower xs s)"
  by (induction lower xs s rule: consumer_run.induct) (auto split: prod.splits)

lemma flushed: "dc_pending (snd (consumer_run lower (ops @ [Complete now]) s)) = None"
  by (cases "consumer_run lower ops s") (auto simp: run_append flush_update_on_complete_def Let_def)

section \<open>Properties\<close>


end
